(* ===== verification/Prelude.thy ===== *)
theory Prelude
  imports Main "HOL-Library.Word" "HOL-Library.List_Lexorder" "HOL-Library.Char_ord"
begin

text \<open>
  Shared vocabulary of the development: the machine integer types of the Rust sources,
  the slice and string operations of the Rust standard library that the code calls, and the
  generic lemmas about lists, words and results that the component theories use.

  A Rust \<open>Result<T, E>\<close> is a value of \<open>'e + 'a\<close> (\<open>Inl\<close> the error); an operation with
  a side effect returns the result together with the new state. A Rust \<open>str\<close> is the list
  of its UTF-8 bytes.
\<close>

unbundle bit_operations_syntax

named_theorems storage_simps \<open>unfolding of block storage operations\<close>
named_theorems fs_simps \<open>unfolding of the file system helpers\<close>
named_theorems store_simps \<open>unfolding of the object store operations\<close>
named_theorems wf_intros \<open>invariant preservation\<close>

type_synonym u8 = "8 word"
type_synonym u16 = "16 word"
type_synonym u32 = "32 word"
type_synonym u64 = "64 word"
type_synonym i32 = "32 word"
type_synonym i64 = "64 word"
type_synonym bytes = "8 word list"

section \<open>Slices and vectors\<close>

text \<open>\<open>buf[at..at + src.len()].copy_from_slice(src)\<close>.\<close>

definition copy_into :: "'a list \<Rightarrow> nat \<Rightarrow> 'a list \<Rightarrow> 'a list" where
  "copy_into buf at src = take at buf @ src @ drop (at + length src) buf"

lemma length_copy_into [simp]:
  "at + length src \<le> length buf \<Longrightarrow> length (copy_into buf at src) = length buf"
  by (simp add: copy_into_def)

lemma nth_copy_into:
  assumes "at + length src \<le> length buf" and "i < length buf"
  shows "copy_into buf at src ! i =
    (if at \<le> i \<and> i < at + length src then src ! (i - at) else buf ! i)"
  using assms by (auto simp: copy_into_def nth_append min_def)

lemma copy_into_chain:
  assumes "br + length xs \<le> length buf"
  shows "take (br + length xs) (copy_into buf br xs) @ ys @ drop (br + length xs + k) (copy_into buf br xs)
    = take br buf @ (xs @ ys) @ drop (br + (length xs + k)) buf"
  using assms by (simp add: copy_into_def ac_simps)

lemma take_append_replicate:
  "take n (xs @ replicate k x) = take n xs @ replicate (min (n - length xs) k) x"
  by (simp add: min.commute)

section \<open>Strings\<close>

text \<open>\<open>str::trim_start_matches(c)\<close>, \<open>str::trim_end_matches(c)\<close>, \<open>str::trim_matches(c)\<close>
  and \<open>str::split(c)\<close> for a single character pattern.\<close>

definition trim_start_matches :: "char \<Rightarrow> string \<Rightarrow> string" where
  "trim_start_matches c s = dropWhile (\<lambda>x. x = c) s"

definition trim_end_matches :: "char \<Rightarrow> string \<Rightarrow> string" where
  "trim_end_matches c s = rev (dropWhile (\<lambda>x. x = c) (rev s))"

definition trim_matches :: "char \<Rightarrow> string \<Rightarrow> string" where
  "trim_matches c s = trim_end_matches c (trim_start_matches c s)"

fun split_on :: "char \<Rightarrow> string \<Rightarrow> string list" where
  "split_on c [] = [[]]"
| "split_on c (x # xs) =
     (if x = c then [] # split_on c xs
      else (case split_on c xs of [] \<Rightarrow> [[x]] | w # ws \<Rightarrow> (x # w) # ws))"

lemma split_on_nonempty [simp]: "split_on c s \<noteq> []"
  by (induction s) (auto split: list.splits)

lemma split_on_no_sep: "w \<in> set (split_on c s) \<Longrightarrow> c \<notin> set w"
proof (induction s arbitrary: w)
  case Nil
  then show ?case by simp
next
  case (Cons x xs)
  obtain v vs where "split_on c xs = v # vs"
    by (cases "split_on c xs") auto
  with Cons show ?case by (auto split: if_splits)
qed

text \<open>\<open>path.split('/').filter(|s| !s.is_empty())\<close>: the components of a path.\<close>

definition split_path :: "string \<Rightarrow> string list" where
  "split_path p = filter (\<lambda>s. s \<noteq> []) (split_on CHR ''/'' p)"

lemma split_path_Nil [simp]: "split_path [] = []"
  by (simp add: split_path_def)

lemma split_path_slash [simp]: "split_path (CHR ''/'' # p) = split_path p"
  by (simp add: split_path_def)

lemma split_path_trim [simp]: "split_path (trim_start_matches CHR ''/'' p) = split_path p"
  by (induction p) (auto simp: trim_start_matches_def)

definition name_ok :: "string \<Rightarrow> bool" where
  "name_ok n \<longleftrightarrow> n \<noteq> [] \<and> CHR ''/'' \<notin> set n"

lemma split_path_names: "c \<in> set (split_path p) \<Longrightarrow> name_ok c"
  by (auto simp: split_path_def name_ok_def dest: split_on_no_sep)

lemma split_on_append_sep:
  "split_on c (w @ c # s) = split_on c w @ split_on c s"
  by (induction w) (auto split: list.splits)

lemma split_on_word: "c \<notin> set w \<Longrightarrow> split_on c w = [w]"
  by (induction w) auto

lemma split_path_word: "name_ok w \<Longrightarrow> split_path w = [w]"
  by (auto simp: split_path_def name_ok_def split_on_word)

lemma split_path_join: "split_path (p @ CHR ''/'' # q) = split_path p @ split_path q"
  by (simp add: split_path_def split_on_append_sep)

text \<open>Joining components with a slash is inverse to splitting.\<close>

fun join_path :: "string list \<Rightarrow> string" where
  "join_path [] = []"
| "join_path (c # cs) = CHR ''/'' # c @ join_path cs"

lemma split_path_join_path: "(\<forall>c \<in> set cs. name_ok c) \<Longrightarrow> split_path (join_path cs) = cs"
proof (induction cs)
  case Nil
  then show ?case by simp
next
  case (Cons c cs)
  then have c: "name_ok c" and IH: "split_path (join_path cs) = cs" by auto
  show ?case
  proof (cases cs)
    case Nil
    with c show ?thesis by (simp add: split_path_word)
  next
    case (Cons d ds)
    with IH have "split_path (d @ join_path ds) = cs" by simp
    with Cons c show ?thesis
      by (simp add: split_path_join split_path_word)
  qed
qed

section \<open>Results\<close>

fun is_ok :: "'e + 'a \<Rightarrow> bool" where
  "is_ok (Inl e) = False"
| "is_ok (Inr a) = True"

text \<open>\<open>Option::ok_or\<close>.\<close>

definition ok_or :: "'a option \<Rightarrow> 'e \<Rightarrow> 'e + 'a" where
  "ok_or x e = (case x of None \<Rightarrow> Inl e | Some a \<Rightarrow> Inr a)"

lemma ok_or_simps [simp]: "ok_or None e = Inl e" "ok_or (Some a) e = Inr a"
  by (simp_all add: ok_or_def)

lemma ok_or_Inr [simp]: "ok_or x e = Inr a \<longleftrightarrow> x = Some a"
  by (cases x) auto

section \<open>Words\<close>

lemma word_less_plus_one_iff:
  fixes i n :: "'a::len word"
  assumes "n \<noteq> - 1"
  shows "i < n + 1 \<longleftrightarrow> i \<le> n"
proof -
  have "unat (n + 1) = Suc (unat n)"
    using assms by (metis Suc_eq_plus1 add.commute add.inverse_unique unatSuc)
  then show ?thesis
    by (simp add: word_less_nat_alt word_le_nat_alt less_Suc_eq_le)
qed

end
