(* ===== verification/Storage.thy ===== *)
theory Storage
  imports Prelude
begin

text \<open>
  \<open>crates/core/fs-core/src/storage.rs\<close>: a file's bytes as a vector of optional 4096-byte
  blocks and a size. Offsets and sizes are \<open>usize\<close> values; they are natural numbers here (an
  offset whose blocks cannot be allocated aborts the program before it can wrap around).
\<close>

section \<open>Model\<close>

definition BLOCK_SIZE :: nat where
  "BLOCK_SIZE = 4096"

record block_storage =
  blocks :: "bytes option list"
  bsize :: nat

definition bs_new :: block_storage where
  "bs_new = \<lparr>blocks = [], bsize = 0\<rparr>"

lemma BLOCK_SIZE_pos [simp]: "0 < BLOCK_SIZE"
  by (simp add: BLOCK_SIZE_def)

lemma mod_BLOCK_SIZE_less [simp]: "n mod BLOCK_SIZE < BLOCK_SIZE"
  by simp

text \<open>The loop of \<open>BlockStorage::read\<close>; \<open>br\<close> is \<open>bytes_read\<close>, \<open>off\<close> is \<open>current_offset\<close>.\<close>

function read_loop :: "block_storage \<Rightarrow> nat \<Rightarrow> nat \<Rightarrow> bytes \<Rightarrow> nat \<times> bytes" where
  "read_loop s br off buf =
     (if br < length buf \<and> off < bsize s then
        let block_index = off div BLOCK_SIZE; block_offset = off mod BLOCK_SIZE in
        if length (blocks s) \<le> block_index then (br, buf)
        else
          let bytes_in_block = BLOCK_SIZE - block_offset;
              n = min bytes_in_block (min (length buf - br) (bsize s - off)) in
          case blocks s ! block_index of
            Some block \<Rightarrow>
              read_loop s (br + n) (off + n) (copy_into buf br (take n (drop block_offset block)))
          | None \<Rightarrow> read_loop s (br + n) (off + n) (copy_into buf br (replicate n 0))
      else (br, buf))"
  by pat_completeness auto
termination
  by (relation "measure (\<lambda>(s, br, off, buf). bsize s - off)")
     (auto simp: Let_def intro!: diff_less_mono2)

declare read_loop.simps [simp del]

definition bs_read :: "block_storage \<Rightarrow> nat \<Rightarrow> bytes \<Rightarrow> nat \<times> bytes" where
  "bs_read s offset buf = (if bsize s \<le> offset then (0, buf) else read_loop s 0 offset buf)"

text \<open>\<open>while block_index >= self.blocks.len() { self.blocks.push(None) }\<close>.\<close>

function grow_blocks :: "nat \<Rightarrow> bytes option list \<Rightarrow> bytes option list" where
  "grow_blocks bi bs = (if length bs \<le> bi then grow_blocks bi (bs @ [None]) else bs)"
  by pat_completeness auto
termination
  by (relation "measure (\<lambda>(bi, bs). Suc bi - length bs)") auto

declare grow_blocks.simps [simp del]

text \<open>Allocating the block at an index in range if it is still sparse.\<close>

definition alloc_block :: "nat \<Rightarrow> bytes option list \<Rightarrow> bytes option list" where
  "alloc_block bi bs =
     (if bs ! bi = None then bs[bi := Some (replicate BLOCK_SIZE 0)] else bs)"

text \<open>The loop of \<open>BlockStorage::write\<close>; \<open>bw\<close> is \<open>bytes_written\<close>.\<close>

function write_loop :: "bytes option list \<Rightarrow> bytes \<Rightarrow> nat \<Rightarrow> nat \<Rightarrow> bytes option list \<times> nat \<times> nat" where
  "write_loop bs data bw off =
     (if bw < length data then
        let block_index = off div BLOCK_SIZE; block_offset = off mod BLOCK_SIZE;
            bs = alloc_block block_index (grow_blocks block_index bs) in
        case bs ! block_index of
          Some block \<Rightarrow>
            let bytes_in_block = BLOCK_SIZE - block_offset;
                n = min bytes_in_block (length data - bw);
                block = copy_into block block_offset (take n (drop bw data)) in
            write_loop (bs[block_index := Some block]) data (bw + n) (off + n)
        | None \<Rightarrow> (bs, bw, off)
      else (bs, bw, off))"
  by pat_completeness auto
termination
  by (relation "measure (\<lambda>(bs, data, bw, off). length data - bw)")
     (auto simp: Let_def intro!: diff_less_mono2)

declare write_loop.simps [simp del]

definition bs_write :: "block_storage \<Rightarrow> nat \<Rightarrow> bytes \<Rightarrow> nat \<times> block_storage" where
  "bs_write s offset data =
     (if data = [] then (0, s)
      else case write_loop (blocks s) data 0 offset of
        (bs, bytes_written, current_offset) \<Rightarrow>
          (bytes_written,
           s\<lparr>blocks := bs,
             bsize := (if bsize s < current_offset then current_offset else bsize s)\<rparr>))"

definition div_ceil :: "nat \<Rightarrow> nat \<Rightarrow> nat" where
  "div_ceil a b = (if a mod b = 0 then a div b else a div b + 1)"

text \<open>Clearing the tail of the last block; a missing or sparse block is left alone.\<close>

definition clear_tail :: "nat \<Rightarrow> nat \<Rightarrow> bytes option list \<Rightarrow> bytes option list" where
  "clear_tail li off bs =
     (if li < length bs then
        (case bs ! li of
           Some block \<Rightarrow> bs[li := Some (take off block @ replicate (length block - off) 0)]
         | None \<Rightarrow> bs)
      else bs)"

definition bs_truncate :: "block_storage \<Rightarrow> nat \<Rightarrow> block_storage" where
  "bs_truncate s new_size =
     (if new_size < bsize s then
        let new_block_count = div_ceil new_size BLOCK_SIZE;
            bs = take new_block_count (blocks s);
            offset_in_last_block = new_size mod BLOCK_SIZE;
            bs = (if 0 < new_size \<and> 0 < new_block_count \<and> 0 < offset_in_last_block
                  then clear_tail (new_block_count - 1) offset_in_last_block bs else bs) in
        s\<lparr>blocks := bs, bsize := new_size\<rparr>
      else if bsize s < new_size then s\<lparr>bsize := new_size\<rparr>
      else s)"

section \<open>Contents and invariant\<close>

text \<open>The byte at an offset, zero where no block is allocated.\<close>

definition byte_at :: "bytes option list \<Rightarrow> nat \<Rightarrow> u8" where
  "byte_at bs i =
     (if i div BLOCK_SIZE < length bs then
        (case bs ! (i div BLOCK_SIZE) of Some b \<Rightarrow> b ! (i mod BLOCK_SIZE) | None \<Rightarrow> 0)
      else 0)"

definition contents :: "block_storage \<Rightarrow> bytes" where
  "contents s = map (byte_at (blocks s)) [0..<bsize s]"

text \<open>How far \<open>read\<close> can reach: it stops at the end of the block vector.\<close>

definition readable :: "block_storage \<Rightarrow> nat" where
  "readable s = min (bsize s) (length (blocks s) * BLOCK_SIZE)"

definition blocks_ok :: "bytes option list \<Rightarrow> bool" where
  "blocks_ok bs \<longleftrightarrow> (\<forall>b. Some b \<in> set bs \<longrightarrow> length b = BLOCK_SIZE)"

text \<open>
  Every allocated block has 4096 bytes, no byte past the end of the file is set (so a later
  extension exposes zeros only), and no block lies wholly past the end of the file.
\<close>

definition bs_inv :: "block_storage \<Rightarrow> bool" where
  "bs_inv s \<longleftrightarrow> blocks_ok (blocks s)
     \<and> (\<forall>i \<ge> bsize s. byte_at (blocks s) i = 0)
     \<and> length (blocks s) \<le> div_ceil (bsize s) BLOCK_SIZE"

lemma length_contents [simp]: "length (contents s) = bsize s"
  by (simp add: contents_def)

lemma nth_contents: "i < bsize s \<Longrightarrow> contents s ! i = byte_at (blocks s) i"
  by (simp add: contents_def)

section \<open>Reading\<close>

lemma div_mod_within_block:
  assumes "j < BLOCK_SIZE - off mod BLOCK_SIZE"
  shows "(off + j) div BLOCK_SIZE = off div BLOCK_SIZE"
    and "(off + j) mod BLOCK_SIZE = off mod BLOCK_SIZE + j"
proof -
  have lt: "off mod BLOCK_SIZE + j < BLOCK_SIZE"
    using assms by simp
  then show m: "(off + j) mod BLOCK_SIZE = off mod BLOCK_SIZE + j"
    by (metis mod_add_left_eq mod_less)
  have "(off + j) div BLOCK_SIZE * BLOCK_SIZE + (off mod BLOCK_SIZE + j)
      = off div BLOCK_SIZE * BLOCK_SIZE + (off mod BLOCK_SIZE + j)"
    using div_mult_mod_eq [of "off + j" BLOCK_SIZE] div_mult_mod_eq [of off BLOCK_SIZE]
    unfolding m by linarith
  then show "(off + j) div BLOCK_SIZE = off div BLOCK_SIZE"
    unfolding add_right_cancel mult_cancel2 by (simp add: BLOCK_SIZE_def)
qed

text \<open>A run of bytes that stays inside one block is a slice of that block.\<close>

lemma byte_run_in_block:
  assumes ok: "blocks_ok bs" and bi: "off div BLOCK_SIZE < length bs"
    and n: "n \<le> BLOCK_SIZE - off mod BLOCK_SIZE"
  shows "map (byte_at bs) [off..<off + n] =
    (case bs ! (off div BLOCK_SIZE) of
       Some b \<Rightarrow> take n (drop (off mod BLOCK_SIZE) b) | None \<Rightarrow> replicate n 0)"
proof (cases "bs ! (off div BLOCK_SIZE)")
  case None
  have "byte_at bs (off + j) = 0" if "j < n" for j
    using that n bi None by (simp add: byte_at_def div_mod_within_block)
  then show ?thesis
    using None by (intro nth_equalityI) simp_all
next
  case (Some b)
  then have len: "length b = BLOCK_SIZE"
    using ok bi by (metis blocks_ok_def nth_mem)
  have "byte_at bs (off + j) = b ! (off mod BLOCK_SIZE + j)" if "j < n" for j
    using that n bi Some by (simp add: byte_at_def div_mod_within_block)
  then show ?thesis
    using Some len n by (intro nth_equalityI) simp_all
qed

lemma block_end:
  assumes "off div BLOCK_SIZE < k"
  shows "off + (BLOCK_SIZE - off mod BLOCK_SIZE) \<le> k * BLOCK_SIZE"
proof -
  have "(off div BLOCK_SIZE + 1) * BLOCK_SIZE \<le> k * BLOCK_SIZE"
    using assms by (intro mult_le_mono1) simp
  moreover have "off + (BLOCK_SIZE - off mod BLOCK_SIZE) = (off div BLOCK_SIZE + 1) * BLOCK_SIZE"
    using div_mult_mod_eq [of off BLOCK_SIZE] mod_BLOCK_SIZE_less [of off]
    unfolding distrib_right by linarith
  ultimately show ?thesis by simp
qed

lemma read_loop_spec:
  assumes "blocks_ok (blocks s)" and "br \<le> length buf"
  shows "read_loop s br off buf =
    (let m = min (length buf - br) (readable s - off) in
     (br + m, take br buf @ map (byte_at (blocks s)) [off..<off + m] @ drop (br + m) buf))"
  using assms(2)
proof (induction "bsize s - off" arbitrary: br off buf rule: less_induct)
  case less
  let ?bi = "off div BLOCK_SIZE" and ?bo = "off mod BLOCK_SIZE"
  show ?case
  proof (cases "br < length buf \<and> off < bsize s \<and> ?bi < length (blocks s)")
    case False
    then have "readable s - off = 0 \<or> length buf - br = 0"
      by (auto simp: readable_def not_less less_eq_div_iff_mult_less_eq)
    moreover have "read_loop s br off buf = (br, buf)"
      using False by (subst read_loop.simps) (auto simp: Let_def)
    ultimately show ?thesis by auto
  next
    case True
    define n where "n = min (BLOCK_SIZE - ?bo) (min (length buf - br) (bsize s - off))"
    define run where "run = map (byte_at (blocks s)) [off..<off + n]"
    have run: "run = (case blocks s ! ?bi of
        Some b \<Rightarrow> take n (drop ?bo b) | None \<Rightarrow> replicate n 0)"
      unfolding run_def using assms(1) True by (intro byte_run_in_block) (auto simp: n_def)
    have len: "length run = n" by (simp add: run_def)
    have n: "0 < n" "br + n \<le> length buf" "off + n \<le> readable s"
      using True block_end [of off "length (blocks s)"] mod_BLOCK_SIZE_less [of off]
      unfolding readable_def n_def by linarith+
    have step: "read_loop s br off buf = read_loop s (br + n) (off + n) (copy_into buf br run)"
      using True run by (subst read_loop.simps) (auto simp: Let_def n_def split: option.splits)
    define m where "m = min (length buf - (br + n)) (readable s - (off + n))"
    have IH: "read_loop s (br + n) (off + n) (copy_into buf br run) =
        (br + n + m, take (br + n) (copy_into buf br run)
           @ map (byte_at (blocks s)) [off + n..<off + n + m]
           @ drop (br + n + m) (copy_into buf br run))"
      using less(1) [of "off + n" "br + n" "copy_into buf br run"] True n len
      by (simp add: m_def Let_def diff_less_mono2)
    have m: "min (length buf - br) (readable s - off) = n + m"
      using n unfolding m_def by linarith
    have "run @ map (byte_at (blocks s)) [off + n..<off + n + m]
        = map (byte_at (blocks s)) [off..<off + (n + m)]"
      using upt_add_eq_append [of off "off + n" m] by (simp add: run_def add.assoc)
    then show ?thesis
      unfolding step IH m Let_def
      using copy_into_chain [of br run buf "map (byte_at (blocks s)) [off + n..<off + n + m]" m]
        n len by (simp add: add.assoc)
  qed
qed

lemma bs_read_eq:
  assumes "blocks_ok (blocks s)"
  shows "bs_read s off buf =
    (let m = min (length buf) (readable s - off) in
     (m, take m (drop off (contents s)) @ drop m buf))"
proof -
  define m where "m = min (length buf) (readable s - off)"
  have "map (byte_at (blocks s)) [off..<off + m] = take m (drop off (contents s))"
  proof (cases "off \<le> readable s")
    case True
    then have "off + m \<le> bsize s" by (auto simp: m_def readable_def)
    then show ?thesis by (simp add: contents_def drop_map take_map take_upt)
  next
    case False
    then show ?thesis by (simp add: m_def)
  qed
  moreover have "bs_read s off buf = read_loop s 0 off buf"
    by (simp add: bs_read_def) (simp add: read_loop.simps)
  ultimately show ?thesis
    using read_loop_spec [OF assms, of 0 buf off] by (simp add: m_def Let_def)
qed

section \<open>Writing\<close>

lemma grow_blocks_eq: "grow_blocks bi bs = bs @ replicate (Suc bi - length bs) None"
proof (induction bi bs rule: grow_blocks.induct)
  case (1 bi bs)
  show ?case
  proof (cases "length bs \<le> bi")
    case True
    then have "Suc bi - length bs = Suc (bi - length bs)" by simp
    then show ?thesis using 1 [OF True] True by (subst grow_blocks.simps) simp
  next
    case False
    then show ?thesis by (subst grow_blocks.simps) simp
  qed
qed

lemma byte_at_append_None [simp]: "byte_at (bs @ replicate k None) i = byte_at bs i"
  by (simp add: byte_at_def nth_append)

lemma byte_at_alloc_block:
  "bi < length bs \<Longrightarrow> byte_at (alloc_block bi bs) i = byte_at bs i"
  by (auto simp: byte_at_def alloc_block_def nth_list_update split: option.splits)

lemma length_alloc_block [simp]: "length (alloc_block bi bs) = length bs"
  by (simp add: alloc_block_def)

lemma alloc_block_Some: "bi < length bs \<Longrightarrow> \<exists>b. alloc_block bi bs ! bi = Some b"
  by (auto simp: alloc_block_def)

lemma blocks_ok_alloc: "blocks_ok bs \<Longrightarrow> blocks_ok (alloc_block bi bs)"
  by (auto simp: blocks_ok_def alloc_block_def dest!: set_update_subset_insert [THEN subsetD])

lemma blocks_ok_append_None: "blocks_ok (bs @ replicate k None) \<longleftrightarrow> blocks_ok bs"
  by (auto simp: blocks_ok_def)

lemma blocks_ok_nth: "blocks_ok bs \<Longrightarrow> bi < length bs \<Longrightarrow> bs ! bi = Some b \<Longrightarrow> length b = BLOCK_SIZE"
  by (metis blocks_ok_def nth_mem)

lemma blocks_ok_update: "blocks_ok bs \<Longrightarrow> length b = BLOCK_SIZE \<Longrightarrow> blocks_ok (bs[bi := Some b])"
  by (auto simp: blocks_ok_def dest!: set_update_subset_insert [THEN subsetD])

lemma same_block_offset:
  assumes "i div BLOCK_SIZE = off div BLOCK_SIZE"
  shows "off mod BLOCK_SIZE \<le> i mod BLOCK_SIZE \<longleftrightarrow> off \<le> i"
    and "i mod BLOCK_SIZE < off mod BLOCK_SIZE + n \<longleftrightarrow> i < off + n"
    and "i mod BLOCK_SIZE - off mod BLOCK_SIZE = i - off"
proof -
  have "i = off div BLOCK_SIZE * BLOCK_SIZE + i mod BLOCK_SIZE"
    using assms by (metis div_mult_mod_eq)
  moreover have "off = off div BLOCK_SIZE * BLOCK_SIZE + off mod BLOCK_SIZE"
    by simp
  ultimately show "off mod BLOCK_SIZE \<le> i mod BLOCK_SIZE \<longleftrightarrow> off \<le> i"
    and "i mod BLOCK_SIZE < off mod BLOCK_SIZE + n \<longleftrightarrow> i < off + n"
    and "i mod BLOCK_SIZE - off mod BLOCK_SIZE = i - off"
    by linarith+
qed

text \<open>Overwriting a slice of one block changes exactly the bytes of that slice.\<close>

lemma byte_at_block_update:
  assumes bi: "off div BLOCK_SIZE < length bs" and b: "bs ! (off div BLOCK_SIZE) = Some b"
    and len: "length b = BLOCK_SIZE" and fits: "off mod BLOCK_SIZE + length src \<le> BLOCK_SIZE"
  shows "byte_at (bs[off div BLOCK_SIZE := Some (copy_into b (off mod BLOCK_SIZE) src)]) i =
    (if off \<le> i \<and> i < off + length src then src ! (i - off) else byte_at bs i)"
proof (cases "i div BLOCK_SIZE = off div BLOCK_SIZE")
  case True
  then show ?thesis
    using bi b len fits by (simp add: byte_at_def nth_copy_into same_block_offset)
next
  case False
  have "\<not> (off \<le> i \<and> i < off + length src)"
  proof
    assume "off \<le> i \<and> i < off + length src"
    then have "i - off < BLOCK_SIZE - off mod BLOCK_SIZE" and "i = off + (i - off)"
      using fits by auto
    with False show False using div_mod_within_block(1) [of "i - off" off] by simp
  qed
  with False bi show ?thesis by (auto simp: byte_at_def)
qed

text \<open>What the write loop has to deliver from loop counters \<open>bw\<close> and \<open>off\<close> on.\<close>

definition write_loop_post ::
  "bytes option list \<Rightarrow> bytes \<Rightarrow> nat \<Rightarrow> nat \<Rightarrow> bytes option list \<times> nat \<times> nat \<Rightarrow> bool" where
  "write_loop_post bs data bw off r = (case r of (bs', bw', off') \<Rightarrow>
     bw' = length data \<and> off' = off + (length data - bw) \<and> blocks_ok bs'
     \<and> (\<forall>i. byte_at bs' i =
          (if off \<le> i \<and> i < off + (length data - bw) then data ! (bw + (i - off)) else byte_at bs i))
     \<and> length bs' = (if bw < length data
          then max (length bs) (Suc ((off + (length data - bw) - 1) div BLOCK_SIZE))
          else length bs))"

lemma write_loop_spec:
  assumes "blocks_ok bs" and "bw \<le> length data"
  shows "write_loop_post bs data bw off (write_loop bs data bw off)"
  using assms
proof (induction "length data - bw" arbitrary: bs bw off rule: less_induct)
  case less
  show ?case
  proof (cases "bw < length data")
    case False
    then show ?thesis
      using less.prems by (subst write_loop.simps) (auto simp: write_loop_post_def)
  next
    case True
    let ?bi = "off div BLOCK_SIZE" and ?bo = "off mod BLOCK_SIZE"
    define bs1 where "bs1 = alloc_block ?bi (grow_blocks ?bi bs)"
    have len1: "length bs1 = max (length bs) (Suc ?bi)"
      by (simp add: bs1_def grow_blocks_eq)
    have ok1: "blocks_ok bs1"
      using less.prems by (simp add: bs1_def grow_blocks_eq blocks_ok_alloc blocks_ok_append_None)
    have at1: "byte_at bs1 i = byte_at bs i" for i
      by (simp add: bs1_def grow_blocks_eq byte_at_alloc_block)
    obtain b where b: "bs1 ! ?bi = Some b"
      using alloc_block_Some [of ?bi "grow_blocks ?bi bs"] by (force simp: bs1_def grow_blocks_eq)
    have lenb: "length b = BLOCK_SIZE"
      using blocks_ok_nth [OF ok1 _ b] len1 by simp
    define n where "n = min (BLOCK_SIZE - ?bo) (length data - bw)"
    define src where "src = take n (drop bw data)"
    define bs2 where "bs2 = bs1[?bi := Some (copy_into b ?bo src)]"
    have n: "0 < n" "bw + n \<le> length data" "?bo + n \<le> BLOCK_SIZE" and src: "length src = n"
      using True mod_BLOCK_SIZE_less [of off] unfolding n_def src_def by (simp, linarith+, simp)
    have step: "write_loop bs data bw off = write_loop bs2 data (bw + n) (off + n)"
      using True b by (subst write_loop.simps) (simp add: Let_def bs1_def n_def src_def bs2_def)
    have ok2: "blocks_ok bs2"
      using ok1 lenb n src by (simp add: bs2_def blocks_ok_update)
    have at2: "byte_at bs2 i =
        (if off \<le> i \<and> i < off + n then data ! (bw + (i - off)) else byte_at bs i)" for i
      using byte_at_block_update [of off bs1 b src i] b lenb n src len1
      by (simp add: bs2_def at1) (auto simp: src_def)
    have "write_loop_post bs2 data (bw + n) (off + n) (write_loop bs2 data (bw + n) (off + n))"
      using less(1) [of "bw + n" bs2 "off + n"] True n ok2 by (simp add: diff_less_mono2)
    then obtain bs' where bs': "write_loop bs2 data (bw + n) (off + n) =
          (bs', length data, off + (length data - bw))" and ok': "blocks_ok bs'"
      and at': "\<And>i. byte_at bs' i = (if off + n \<le> i \<and> i < off + (length data - bw)
          then data ! (bw + n + (i - (off + n))) else byte_at bs2 i)"
      and len': "length bs' = (if bw + n < length data
          then max (length bs2) (Suc ((off + (length data - bw) - 1) div BLOCK_SIZE))
          else length bs2)"
      using n by (auto simp: write_loop_post_def split: prod.splits)
    have "byte_at bs' i = (if off \<le> i \<and> i < off + (length data - bw)
        then data ! (bw + (i - off)) else byte_at bs i)" for i
      using n unfolding at' at2 by (auto simp: not_le intro!: arg_cong [where f = "nth data"])
    moreover have "length bs' = max (length bs) (Suc ((off + (length data - bw) - 1) div BLOCK_SIZE))"
    proof (cases "bw + n < length data")
      case False
      with n have "off + (length data - bw) - 1 = off + (n - 1)" and "n - 1 < BLOCK_SIZE - ?bo"
        by linarith+
      with False len' len1 show ?thesis
        by (simp add: bs2_def div_mod_within_block)
    next
      case more: True
      have "?bi \<le> (off + (length data - bw) - 1) div BLOCK_SIZE"
        using True by (intro div_le_mono) linarith
      with more len' len1 show ?thesis by (simp add: bs2_def max_def)
    qed
    ultimately show ?thesis
      using True ok' unfolding step bs' by (simp add: write_loop_post_def)
  qed
qed

section \<open>The storage as a byte sequence\<close>

text \<open>What the operations promise, over plain byte lists.\<close>

definition write_spec :: "bytes \<Rightarrow> nat \<Rightarrow> bytes \<Rightarrow> bytes" where
  "write_spec c off data =
     (if data = [] then c
      else take off (c @ replicate (off - length c) 0) @ data @ drop (off + length data) c)"

definition resize_spec :: "bytes \<Rightarrow> nat \<Rightarrow> bytes" where
  "resize_spec c n = take n c @ replicate (n - length c) 0"

lemma length_write_spec:
  "length (write_spec c off data) = (if data = [] then length c else max (length c) (off + length data))"
  by (auto simp: write_spec_def)

lemma nth_write_spec:
  assumes "i < length (write_spec c off data)"
  shows "write_spec c off data ! i =
    (if off \<le> i \<and> i < off + length data then data ! (i - off)
     else if i < length c then c ! i else 0)"
  using assms by (auto simp: write_spec_def nth_append min_def)

lemma length_resize_spec [simp]: "length (resize_spec c n) = n"
  by (simp add: resize_spec_def)

lemma nth_resize_spec: "i < n \<Longrightarrow> resize_spec c n ! i = (if i < length c then c ! i else 0)"
  by (simp add: resize_spec_def nth_append)

lemma div_ceil_le_iff: "div_ceil a BLOCK_SIZE \<le> k \<longleftrightarrow> a \<le> k * BLOCK_SIZE"
proof (cases "a mod BLOCK_SIZE = 0")
  case True
  then have "a = a div BLOCK_SIZE * BLOCK_SIZE"
    using div_mult_mod_eq [of a BLOCK_SIZE] by simp
  then have "a \<le> k * BLOCK_SIZE \<longleftrightarrow> a div BLOCK_SIZE \<le> k"
    by (metis BLOCK_SIZE_pos mult_le_cancel2)
  with True show ?thesis by (simp add: div_ceil_def)
next
  case False
  then have "a \<noteq> k * BLOCK_SIZE" by auto
  then have "a \<le> k * BLOCK_SIZE \<longleftrightarrow> a div BLOCK_SIZE < k"
    by (simp add: div_less_iff_less_mult le_less)
  with False show ?thesis by (auto simp: div_ceil_def)
qed

lemma le_div_ceil: "a \<le> div_ceil a BLOCK_SIZE * BLOCK_SIZE"
  using div_ceil_le_iff by blast

lemma div_ceil_le: "a \<le> b \<Longrightarrow> div_ceil a BLOCK_SIZE \<le> div_ceil b BLOCK_SIZE"
  using div_ceil_le_iff le_div_ceil le_trans by blast

lemma Suc_div_le_div_ceil: "0 < a \<Longrightarrow> Suc ((a - 1) div BLOCK_SIZE) \<le> div_ceil a BLOCK_SIZE"
proof -
  assume "0 < a"
  then have "a - 1 < div_ceil a BLOCK_SIZE * BLOCK_SIZE"
    using le_div_ceil [of a] by linarith
  then show ?thesis
    by (simp add: Suc_leI less_mult_imp_div_less)
qed

lemma bs_inv_new: "bs_inv bs_new"
  by (simp add: bs_inv_def bs_new_def blocks_ok_def byte_at_def)

lemma contents_new [simp]: "contents bs_new = []"
  by (simp add: contents_def bs_new_def)

lemma bs_write_Nil [simp]: "bs_write s off [] = (0, s)"
  by (simp add: bs_write_def)

lemma bs_write_post:
  assumes "blocks_ok (blocks s)" and "data \<noteq> []" and "bs_write s off data = (n, s')"
  shows "n = length data"
    and "bsize s' = max (bsize s) (off + length data)"
    and "blocks_ok (blocks s')"
    and "byte_at (blocks s') i =
      (if off \<le> i \<and> i < off + length data then data ! (i - off) else byte_at (blocks s) i)"
    and "length (blocks s') = max (length (blocks s)) (Suc ((off + length data - 1) div BLOCK_SIZE))"
  using write_loop_spec [OF assms(1), of 0 data off] assms(2,3)
  by (auto simp: write_loop_post_def bs_write_def max_def split: prod.splits)

lemma bs_inv_write:
  assumes "bs_inv s" shows "bs_inv (snd (bs_write s off data))"
proof (cases "data = []")
  case True
  with assms show ?thesis by simp
next
  case False
  obtain n s' where w: "bs_write s off data = (n, s')" by fastforce
  note post = bs_write_post [OF _ False w]
  have "length (blocks s') \<le> div_ceil (bsize s') BLOCK_SIZE"
    using assms post(2,5) False Suc_div_le_div_ceil [of "off + length data"]
      div_ceil_le [of "bsize s" "bsize s'"] div_ceil_le [of "off + length data" "bsize s'"]
    by (simp add: bs_inv_def)
  with assms post show ?thesis
    unfolding w by (simp add: bs_inv_def)
qed

lemma contents_write:
  assumes "bs_inv s"
  shows "contents (snd (bs_write s off data)) = write_spec (contents s) off data"
proof (cases "data = []")
  case True
  then show ?thesis by (simp add: write_spec_def)
next
  case False
  obtain n s' where w: "bs_write s off data = (n, s')" by fastforce
  have inv: "blocks_ok (blocks s)" "\<And>i. bsize s \<le> i \<Longrightarrow> byte_at (blocks s) i = 0"
    using assms by (auto simp: bs_inv_def)
  note post = bs_write_post [OF inv(1) False w]
  show ?thesis
    unfolding w snd_conv
  proof (rule nth_equalityI)
    show "length (contents s') = length (write_spec (contents s) off data)"
      using False post(2) by (simp add: length_write_spec)
  next
    fix i assume i: "i < length (contents s')"
    then have "i < length (write_spec (contents s) off data)"
      using False post(2) by (simp add: length_write_spec)
    then show "contents s' ! i = write_spec (contents s) off data ! i"
      using i inv(2) [of i] by (simp add: nth_write_spec nth_contents post(4))
  qed
qed

lemma fst_bs_write: "bs_inv s \<Longrightarrow> fst (bs_write s off data) = length data"
  by (metis bs_inv_def bs_write_Nil bs_write_post(1) fst_conv length_0_conv prod.collapse)

section \<open>Truncating and extending\<close>

lemma byte_at_take: "byte_at (take k bs) i = (if i div BLOCK_SIZE < k then byte_at bs i else 0)"
  by (simp add: byte_at_def)

lemma byte_at_clear_tail:
  assumes "blocks_ok bs" and "off < BLOCK_SIZE"
  shows "byte_at (clear_tail li off bs) i =
    (if i div BLOCK_SIZE = li \<and> off \<le> i mod BLOCK_SIZE then 0 else byte_at bs i)"
proof (cases "li < length bs")
  case False
  then show ?thesis by (auto simp: clear_tail_def byte_at_def)
next
  case True
  then show ?thesis
    using assms blocks_ok_nth [OF assms(1) True]
    by (cases "bs ! li")
       (auto simp: clear_tail_def byte_at_def nth_append nth_list_update diff_less_mono)
qed

lemma blocks_ok_clear_tail: "blocks_ok bs \<Longrightarrow> off < BLOCK_SIZE \<Longrightarrow> blocks_ok (clear_tail li off bs)"
  by (auto simp: clear_tail_def intro!: blocks_ok_update dest: blocks_ok_nth split: option.splits)

lemma blocks_ok_take: "blocks_ok bs \<Longrightarrow> blocks_ok (take k bs)"
  by (auto simp: blocks_ok_def dest: in_set_takeD)

lemma length_clear_tail [simp]: "length (clear_tail li off bs) = length bs"
  by (simp add: clear_tail_def split: option.splits)

text \<open>The block vector after shrinking to \<open>n\<close> bytes.\<close>

definition shrunk :: "nat \<Rightarrow> bytes option list \<Rightarrow> bytes option list" where
  "shrunk n bs = (let k = div_ceil n BLOCK_SIZE; bs' = take k bs in
     if 0 < n \<and> 0 < k \<and> 0 < n mod BLOCK_SIZE then clear_tail (k - 1) (n mod BLOCK_SIZE) bs' else bs')"

lemma bs_truncate_alt:
  "bs_truncate s n =
     (if n < bsize s then s\<lparr>blocks := shrunk n (blocks s), bsize := n\<rparr> else s\<lparr>bsize := n\<rparr>)"
  by (simp add: bs_truncate_def shrunk_def Let_def)

lemma byte_at_shrunk:
  assumes "blocks_ok bs"
  shows "byte_at (shrunk n bs) i = (if i < n then byte_at bs i else 0)"
proof (cases "n mod BLOCK_SIZE = 0")
  case True
  then have "i div BLOCK_SIZE < n div BLOCK_SIZE \<longleftrightarrow> i < n"
    by (metis BLOCK_SIZE_pos div_less_iff_less_mult div_mult_mod_eq add_0_right)
  with True show ?thesis by (simp add: shrunk_def Let_def div_ceil_def byte_at_take)
next
  case False
  then have k: "div_ceil n BLOCK_SIZE = Suc (n div BLOCK_SIZE)" and "0 < n"
    by (auto simp: div_ceil_def intro: gr0I)
  with False have "byte_at (shrunk n bs) i =
      (if i div BLOCK_SIZE = n div BLOCK_SIZE \<and> n mod BLOCK_SIZE \<le> i mod BLOCK_SIZE then 0
       else if i div BLOCK_SIZE < Suc (n div BLOCK_SIZE) then byte_at bs i else 0)"
    using assms by (simp add: shrunk_def Let_def byte_at_clear_tail blocks_ok_take byte_at_take)
  moreover have "i < n \<longleftrightarrow> i div BLOCK_SIZE < n div BLOCK_SIZE" if "i div BLOCK_SIZE \<noteq> n div BLOCK_SIZE"
    using that by (metis div_le_mono le_antisym linorder_le_cases not_le order_le_imp_less_or_eq)
  ultimately show ?thesis
    using same_block_offset(1) [of i n] by (cases "i div BLOCK_SIZE = n div BLOCK_SIZE") auto
qed

lemma blocks_ok_shrunk: "blocks_ok bs \<Longrightarrow> blocks_ok (shrunk n bs)"
  by (simp add: shrunk_def Let_def blocks_ok_take blocks_ok_clear_tail)

lemma length_shrunk: "length (shrunk n bs) \<le> div_ceil n BLOCK_SIZE"
  by (simp add: shrunk_def Let_def)

lemma bsize_truncate [simp]: "bsize (bs_truncate s n) = n"
  by (simp add: bs_truncate_alt)

lemma bs_inv_truncate: "bs_inv s \<Longrightarrow> bs_inv (bs_truncate s n)"
  using div_ceil_le [of "bsize s" n]
  by (auto simp: bs_inv_def bs_truncate_alt byte_at_shrunk blocks_ok_shrunk length_shrunk)

lemma contents_truncate:
  assumes "bs_inv s"
  shows "contents (bs_truncate s n) = resize_spec (contents s) n"
proof (rule nth_equalityI)
  fix i assume "i < length (contents (bs_truncate s n))"
  then have "i < n" by simp
  then show "contents (bs_truncate s n) ! i = resize_spec (contents s) n ! i"
    using assms
    by (auto simp: nth_contents nth_resize_spec bs_truncate_alt bs_inv_def byte_at_shrunk)
qed simp

section \<open>The interface of a file's storage\<close>

text \<open>
  What the file system relies on: a read delivers the stored bytes up to the readable extent,
  a write and a truncation act on the byte sequence as \<open>write_spec\<close> and \<open>resize_spec\<close> say,
  and whatever was written is within the readable extent.
\<close>

locale byte_file =
  fixes inv :: "'s \<Rightarrow> bool"
    and cont :: "'s \<Rightarrow> bytes"
    and extent :: "'s \<Rightarrow> nat"
    and rd :: "'s \<Rightarrow> nat \<Rightarrow> bytes \<Rightarrow> nat \<times> bytes"
    and wr :: "'s \<Rightarrow> nat \<Rightarrow> bytes \<Rightarrow> nat \<times> 's"
    and trunc :: "'s \<Rightarrow> nat \<Rightarrow> 's"
  assumes rd: "inv s \<Longrightarrow> rd s off buf =
      (let m = min (length buf) (extent s - off) in (m, take m (drop off (cont s)) @ drop m buf))"
    and wr_count: "inv s \<Longrightarrow> fst (wr s off data) = length data"
    and wr_cont: "inv s \<Longrightarrow> cont (snd (wr s off data)) = write_spec (cont s) off data"
    and wr_inv: "inv s \<Longrightarrow> inv (snd (wr s off data))"
    and wr_extent: "inv s \<Longrightarrow> data \<noteq> [] \<Longrightarrow> off + length data \<le> extent (snd (wr s off data))"
    and wr_extent_mono: "inv s \<Longrightarrow> extent s \<le> extent (snd (wr s off data))"
    and trunc_cont: "inv s \<Longrightarrow> cont (trunc s n) = resize_spec (cont s) n"
    and trunc_inv: "inv s \<Longrightarrow> inv (trunc s n)"
begin

text \<open>Reading back what was just written.\<close>

lemma rd_after_wr:
  assumes "inv s" and "data \<noteq> []" and "length buf = length data"
  shows "rd (snd (wr s off data)) off buf = (length data, data)"
proof -
  let ?s = "snd (wr s off data)"
  have "off + length data \<le> extent ?s"
    using assms wr_extent by blast
  moreover have "take (length data) (drop off (cont ?s)) = data"
    using assms by (simp add: wr_cont write_spec_def)
  ultimately show ?thesis
    using assms rd [OF wr_inv] by (simp add: min_absorb1 Let_def)
qed

text \<open>A write leaves the bytes outside its range alone.\<close>

lemma wr_frame:
  assumes "inv s" and "i < length (cont s)" and "i < off \<or> off + length data \<le> i"
  shows "cont (snd (wr s off data)) ! i = cont s ! i"
  using assms nth_write_spec [of i "cont s" off data]
  by (cases "data = []") (auto simp: wr_cont length_write_spec write_spec_def)

text \<open>Writing at the end appends.\<close>

lemma wr_append: "inv s \<Longrightarrow> cont (snd (wr s (length (cont s)) data)) = cont s @ data"
  by (simp add: wr_cont write_spec_def)

text \<open>Extending after a truncation exposes zeros, never the bytes cut off.\<close>

lemma trunc_extend:
  "inv s \<Longrightarrow> n \<le> m \<Longrightarrow> n \<le> length (cont s) \<Longrightarrow>
    cont (trunc (trunc s n) m) = take n (cont s) @ replicate (m - n) 0"
  by (simp add: trunc_cont trunc_inv resize_spec_def)

end

lemma bs_write_extent:
  assumes "bs_inv s" and "data \<noteq> []"
  shows "off + length data \<le> readable (snd (bs_write s off data))"
proof -
  obtain n s' where w: "bs_write s off data = (n, s')" by fastforce
  note post = bs_write_post [OF _ assms(2) w]
  have "(off + length data - 1) div BLOCK_SIZE < length (blocks s')"
    using post(5) assms by (simp add: bs_inv_def)
  then have "off + length data - 1 < length (blocks s') * BLOCK_SIZE"
    by (simp add: div_less_iff_less_mult)
  with post(2) assms show ?thesis
    unfolding w by (auto simp: bs_inv_def readable_def)
qed

lemma bs_write_extent_mono:
  assumes "bs_inv s"
  shows "readable s \<le> readable (snd (bs_write s off data))"
proof (cases "data = []")
  case False
  obtain n s' where w: "bs_write s off data = (n, s')" by fastforce
  note post = bs_write_post [OF _ False w]
  have "length (blocks s) \<le> length (blocks s')" and "bsize s \<le> bsize s'"
    using assms post(2,5) by (simp_all add: bs_inv_def)
  then show ?thesis
    unfolding w readable_def snd_conv by (intro min.mono mult_le_mono1)
qed simp

interpretation bs: byte_file bs_inv contents readable bs_read bs_write bs_truncate
  by unfold_locales
     (simp_all add: bs_read_eq bs_inv_def [THEN iffD1] contents_write fst_bs_write bs_inv_write
       bs_write_extent bs_write_extent_mono contents_truncate bs_inv_truncate)

text \<open>Reading a whole file into a zeroed buffer yields its content, holes past the last block included.\<close>

lemma readable_le: "readable st \<le> bsize st"
  by (simp add: readable_def)

lemma contents_zero_tail:
  "take (readable st) (contents st) @ drop (readable st) (replicate (bsize st) 0) = contents st"
proof -
  have "contents st ! i = 0" if "readable st \<le> i" "i < bsize st" for i
  proof -
    have "\<not> i div BLOCK_SIZE < length (blocks st)"
      using that by (auto simp: readable_def min_def div_less_iff_less_mult BLOCK_SIZE_def split: if_splits)
    then show ?thesis using that by (simp add: nth_contents byte_at_def)
  qed
  then show ?thesis
    using readable_le [of st] by (intro nth_equalityI) (auto simp: nth_append min_absorb2)
qed

end
