(* ===== verification/Storage_Props.thy ===== *)
theory Storage_Props
  imports Storage
begin

text \<open>
  The properties of the block storage against its abstract view, a byte string: what a write,
  a read and a truncation do to \<open>contents\<close>, and where \<open>read\<close> falls short of it.
\<close>

definition demo_storage :: block_storage where
  "demo_storage = snd (bs_write bs_new 1 [5, 6])"

lemma demo_storage_inv: "bs_inv demo_storage"
  unfolding demo_storage_def by (rule bs_inv_write [OF bs_inv_new])

lemma demo_storage_contents: "contents demo_storage = [0, 5, 6]"
  unfolding demo_storage_def by (simp add: contents_write [OF bs_inv_new] write_spec_def)

text \<open>
  \<open>BlockStorage::write\<close> returns the number of bytes given, keeps the invariant and acts on the
  content as overwriting a byte string at the offset, with a gap filled by zeros.
\<close>

theorem storage_write_refines:
  assumes "bs_inv s"
  shows "\<exists>s'. bs_write s off data = (length data, s') \<and> bs_inv s' \<and>
    contents s' = write_spec (contents s) off data \<and> bsize s' = length (write_spec (contents s) off data)"
proof (intro exI conjI)
  show "bs_write s off data = (length data, snd (bs_write s off data))"
    using fst_bs_write [OF assms, of off data] by (simp add: prod_eq_iff)
  show "bs_inv (snd (bs_write s off data))" by (rule bs_inv_write [OF assms])
  show "contents (snd (bs_write s off data)) = write_spec (contents s) off data"
    by (rule contents_write [OF assms])
  then show "bsize (snd (bs_write s off data)) = length (write_spec (contents s) off data)"
    by (metis length_contents)
qed

theorem storage_write_refines_witness:
  "\<exists>s'. bs_write demo_storage 5 [9] = (1, s') \<and> contents s' = write_spec [0, 5, 6] 5 [9]"
  using storage_write_refines [OF demo_storage_inv, of 5 "[9]"] by (auto simp: demo_storage_contents)

text \<open>
  After a write, a read anywhere inside the written range fills its whole buffer with the
  written bytes of that range, across block boundaries.
\<close>

theorem storage_read_after_write:
  assumes "bs_inv s" and "off \<le> p" and "p + length buf \<le> off + length data" and "data \<noteq> []"
  shows "bs_read (snd (bs_write s off data)) p buf = (length buf, take (length buf) (drop (p - off) data))"
proof -
  let ?s = "snd (bs_write s off data)"
  have r: "off + length data \<le> readable ?s" by (rule bs_write_extent [OF assms(1,4)])
  then have "min (length buf) (readable ?s - p) = length buf" using assms(3) by simp
  moreover have "take (length buf) (drop p (contents ?s)) = take (length buf) (drop (p - off) data)"
  proof (rule nth_equalityI)
    have len: "length (contents ?s) = max (bsize s) (off + length data)"
      using contents_write [OF assms(1), of off data] assms(4) by (simp add: length_write_spec)
    then show "length (take (length buf) (drop p (contents ?s))) = length (take (length buf) (drop (p - off) data))"
      using assms(2,3) by simp
    fix i assume "i < length (take (length buf) (drop p (contents ?s)))"
    then show "take (length buf) (drop p (contents ?s)) ! i = take (length buf) (drop (p - off) data) ! i"
      using assms(2,3) len nth_write_spec [of "p + i" "contents s" off data] contents_write [OF assms(1), of off data]
      by (auto simp add: length_write_spec)
  qed
  ultimately show ?thesis using bs.rd [OF bs_inv_write [OF assms(1)], of off data p buf] by (simp add: Let_def)
qed

theorem storage_read_after_write_witness:
  "bs_read (snd (bs_write demo_storage 5 [7, 8, 9])) 6 [0, 0] = (2, [8, 9])"
  using storage_read_after_write [OF demo_storage_inv, of 5 6 "[0, 0]" "[7, 8, 9]"] by simp

text \<open>
  \<open>truncate\<close> cuts the content or pads it with zeros; bytes cut off never come back when the
  file is extended again.
\<close>

theorem truncate_never_leaks:
  assumes "bs_inv s"
  shows "contents (bs_truncate s n) = resize_spec (contents s) n \<and> bs_inv (bs_truncate s n)
    \<and> (n \<le> bsize s \<longrightarrow> n \<le> m \<longrightarrow>
        contents (bs_truncate (bs_truncate s n) m) = take n (contents s) @ replicate (m - n) 0)"
  using contents_truncate [OF assms, of n] bs_inv_truncate [OF assms, of n] bs.trunc_extend [OF assms, of n m]
  by simp

theorem truncate_never_leaks_witness:
  "contents (bs_truncate (bs_truncate demo_storage 2) 4) = [0, 5] @ replicate 2 0"
  using truncate_never_leaks [OF demo_storage_inv, of 2 4]
  by (simp add: demo_storage_contents flip: length_contents)

text \<open>
  After extending a file by \<open>truncate\<close>, a read at an offset past the last allocated block
  returns no bytes, although the offset lies inside the file and the content there is zero: the
  loop stops at the end of the block vector.
\<close>

theorem extended_tail_unreadable:
  assumes "bs_inv s" and "bsize s \<le> n" and "length (blocks s) * BLOCK_SIZE \<le> off" and "off < n"
  shows "bs_read (bs_truncate s n) off buf = (0, buf) \<and> contents (bs_truncate s n) ! off = 0"
proof -
  have b: "blocks (bs_truncate s n) = blocks s" using assms(2) by (simp add: bs_truncate_alt)
  have "readable (bs_truncate s n) - off = 0" using assms(3) b by (simp add: readable_def)
  then have "bs_read (bs_truncate s n) off buf = (0, buf)"
    using bs.rd [OF bs_inv_truncate [OF assms(1)], of n off buf] by (simp add: Let_def)
  moreover have "\<not> off div BLOCK_SIZE < length (blocks s)"
    using assms(3) by (simp add: div_less_iff_less_mult BLOCK_SIZE_def)
  then have "contents (bs_truncate s n) ! off = 0"
    using assms(4) b by (simp add: nth_contents byte_at_def)
  ultimately show ?thesis ..
qed

theorem extended_tail_unreadable_witness:
  "bs_read (bs_truncate bs_new 10) 0 [1] = (0, [1]) \<and> contents (bs_truncate bs_new 10) ! 0 = 0"
  by (rule extended_tail_unreadable [OF bs_inv_new]) (simp_all add: bs_new_def)

end
