(* ===== verification/BTree_Map.thy ===== *)
theory BTree_Map
  imports Prelude
begin

text \<open>
  The standard library's \<open>BTreeMap\<close>, which holds directory entries, as a list of key/value
  pairs in strictly ascending key order. The locale \<open>ordered_map\<close> is the interface the
  directory code relies on (lookup after insert and remove, iteration in key order); it is
  interpreted on the list operations, and the file system proofs use its facts.
\<close>

type_synonym ('k, 'v) btree = "('k \<times> 'v) list"

abbreviation bt_get :: "('k, 'v) btree \<Rightarrow> 'k \<rightharpoonup> 'v" where
  "bt_get \<equiv> map_of"

fun bt_insert :: "'k::linorder \<Rightarrow> 'v \<Rightarrow> ('k, 'v) btree \<Rightarrow> ('k, 'v) btree" where
  "bt_insert k v [] = [(k, v)]"
| "bt_insert k v ((k', v') # xs) =
     (if k < k' then (k, v) # (k', v') # xs
      else if k = k' then (k, v) # xs
      else (k', v') # bt_insert k v xs)"

definition bt_remove :: "'k \<Rightarrow> ('k, 'v) btree \<Rightarrow> ('k, 'v) btree" where
  "bt_remove k xs = filter (\<lambda>e. fst e \<noteq> k) xs"

definition bt_keys :: "('k, 'v) btree \<Rightarrow> 'k list" where
  "bt_keys xs = map fst xs"

definition bt_inv :: "('k::linorder, 'v) btree \<Rightarrow> bool" where
  "bt_inv xs \<longleftrightarrow> sorted_wrt (<) (bt_keys xs)"

locale ordered_map =
  fixes empty :: "'m"
    and get :: "'m \<Rightarrow> 'k::linorder \<Rightarrow> 'v option"
    and ins :: "'k \<Rightarrow> 'v \<Rightarrow> 'm \<Rightarrow> 'm"
    and rem :: "'k \<Rightarrow> 'm \<Rightarrow> 'm"
    and keys :: "'m \<Rightarrow> 'k list"
    and invar :: "'m \<Rightarrow> bool"
  assumes get_empty: "get empty k = None"
    and get_ins: "get (ins k v m) k' = (if k' = k then Some v else get m k')"
    and get_rem: "get (rem k m) k' = (if k' = k then None else get m k')"
    and keys_get: "k \<in> set (keys m) \<longleftrightarrow> get m k \<noteq> None"
    and keys_sorted: "invar m \<Longrightarrow> sorted_wrt (<) (keys m)"
    and invar_empty: "invar empty"
    and invar_ins: "invar m \<Longrightarrow> invar (ins k v m)"
    and invar_rem: "invar m \<Longrightarrow> invar (rem k m)"
begin

lemma keys_distinct: "invar m \<Longrightarrow> distinct (keys m)"
  using keys_sorted strict_sorted_iff by blast

lemma keys_ascending: "invar m \<Longrightarrow> sorted (keys m)"
  using keys_sorted strict_sorted_iff by blast

lemma keys_ins: "set (keys (ins k v m)) = insert k (set (keys m))"
  by (auto simp: keys_get get_ins split: if_splits)

lemma keys_rem: "set (keys (rem k m)) = set (keys m) - {k}"
  by (auto simp: keys_get get_rem split: if_splits)

text \<open>The iteration order is determined by the key set alone.\<close>

lemma keys_unique: "invar m \<Longrightarrow> invar m' \<Longrightarrow> set (keys m) = set (keys m') \<Longrightarrow> keys m = keys m'"
  by (simp add: keys_sorted strict_sorted_equal)

text \<open>Moving a binding, as a rename inside one directory does.\<close>

lemma get_move:
  "get m k = Some v \<Longrightarrow> k \<noteq> k' \<Longrightarrow>
    get (ins k' v (rem k m)) j = (if j = k' then Some v else if j = k then None else get m j)"
  by (simp add: get_ins get_rem)

end

lemma map_of_bt_insert: "map_of (bt_insert k v xs) = (map_of xs)(k \<mapsto> v)"
  by (induction k v xs rule: bt_insert.induct) (auto simp: fun_eq_iff)

lemma map_of_bt_remove: "map_of (bt_remove k xs) = (map_of xs)(k := None)"
  by (induction xs) (auto simp: bt_remove_def fun_eq_iff)

lemma set_bt_insert: "set (bt_keys (bt_insert k v xs)) = insert k (set (bt_keys xs))"
  by (induction k v xs rule: bt_insert.induct) (auto simp: bt_keys_def)

lemma bt_inv_insert: "bt_inv xs \<Longrightarrow> bt_inv (bt_insert k v xs)"
proof (induction k v xs rule: bt_insert.induct)
  case (2 k v k' v' xs)
  have "set (map fst (bt_insert k v xs)) = insert k (fst ` set xs)"
    using set_bt_insert [of k v xs] by (simp add: bt_keys_def)
  with 2 show ?case
    by (auto simp: bt_inv_def bt_keys_def)
qed (simp add: bt_inv_def bt_keys_def)

lemma bt_inv_remove: "bt_inv xs \<Longrightarrow> bt_inv (bt_remove k xs)"
  by (induction xs) (auto simp: bt_inv_def bt_keys_def bt_remove_def)

interpretation bt: ordered_map "[]" bt_get bt_insert bt_remove bt_keys bt_inv
proof unfold_locales
  show "bt_inv xs \<Longrightarrow> bt_inv (bt_insert k v xs)" for k v and xs :: "('a::linorder, 'b) btree"
    by (rule bt_inv_insert)
  show "bt_inv xs \<Longrightarrow> bt_inv (bt_remove k xs)" for k and xs :: "('a::linorder, 'b) btree"
    by (rule bt_inv_remove)
  show "(k \<in> set (bt_keys m)) = (bt_get m k \<noteq> None)" for k and m :: "('a::linorder, 'b) btree"
    by (simp add: bt_keys_def map_of_eq_None_iff)
qed (simp_all add: map_of_bt_insert map_of_bt_remove bt_inv_def bt_keys_def)

lemma bt_empty_iff: "xs = [] \<longleftrightarrow> map_of xs = Map.empty"
  by (cases xs) (auto simp: fun_eq_iff)

lemma bt_set_iff: "bt_inv xs \<Longrightarrow> (k, v) \<in> set xs \<longleftrightarrow> map_of xs k = Some v"
  using bt.keys_distinct [of xs]
  by (auto simp: bt_keys_def)

lemma bt_remove_subset: "set (bt_remove k xs) \<subseteq> set xs"
  by (auto simp: bt_remove_def)

end
