(* ===== verification/Inode.thy ===== *)
theory Inode
  imports BTree_Map Storage
begin

text \<open>
  The data types of \<open>fs-core\<close>: open flags (\<open>types.rs\<close>), errors (\<open>error.rs\<close>), metadata,
  file contents and inodes (\<open>inode.rs\<close>), open file handles (\<open>handle.rs\<close>) and the monotonic
  time provider (\<open>time.rs\<close>).
\<close>

type_synonym fd = u32
type_synonym inode_id = u64

section \<open>Open flags\<close>

definition O_RDONLY :: u32 where "O_RDONLY = 0"
definition O_WRONLY :: u32 where "O_WRONLY = 1"
definition O_RDWR :: u32 where "O_RDWR = 2"
definition O_CREAT :: u32 where "O_CREAT = 0x40"
definition O_EXCL :: u32 where "O_EXCL = 0x80"
definition O_TRUNC :: u32 where "O_TRUNC = 0x200"
definition O_APPEND :: u32 where "O_APPEND = 0x400"

lemmas flag_defs = O_RDONLY_def O_WRONLY_def O_RDWR_def O_CREAT_def O_EXCL_def O_TRUNC_def O_APPEND_def

text \<open>\<open>flags & 0x3\<close> and the tests \<open>flags & bit != 0\<close>.\<close>

definition access_mode :: "u32 \<Rightarrow> u32" where
  "access_mode fl = fl AND 3"

definition has_flag :: "u32 \<Rightarrow> u32 \<Rightarrow> bool" where
  "has_flag fl b \<longleftrightarrow> fl AND b \<noteq> 0"

section \<open>Errors\<close>

datatype fs_error =
    NotFound
  | NotADirectory
  | IsADirectory
  | InvalidArgument
  | BadFileDescriptor
  | PermissionDenied
  | AlreadyExists
  | NotEmpty

fun to_errno :: "fs_error \<Rightarrow> int" where
  "to_errno NotFound = -2"
| "to_errno NotADirectory = -20"
| "to_errno IsADirectory = -21"
| "to_errno InvalidArgument = -22"
| "to_errno BadFileDescriptor = -9"
| "to_errno PermissionDenied = -13"
| "to_errno AlreadyExists = -17"
| "to_errno NotEmpty = -39"

fun to_wasi_error_code :: "fs_error \<Rightarrow> u8" where
  "to_wasi_error_code NotFound = 44"
| "to_wasi_error_code NotADirectory = 54"
| "to_wasi_error_code IsADirectory = 31"
| "to_wasi_error_code InvalidArgument = 28"
| "to_wasi_error_code BadFileDescriptor = 8"
| "to_wasi_error_code PermissionDenied = 2"
| "to_wasi_error_code AlreadyExists = 20"
| "to_wasi_error_code NotEmpty = 55"

section \<open>Inodes\<close>

record metadata =
  md_size :: u64
  created :: u64
  modified :: u64
  permissions :: u16
  is_dir :: bool

datatype file_content = File block_storage | Dir "(string, inode_id) btree"

record inode =
  ino_id :: inode_id
  meta :: metadata
  content :: file_content

definition new_file :: "inode_id \<Rightarrow> inode" where
  "new_file i =
     \<lparr>ino_id = i,
      meta = \<lparr>md_size = 0, created = 0, modified = 0, permissions = 420, is_dir = False\<rparr>,
      content = File bs_new\<rparr>"

definition new_dir :: "inode_id \<Rightarrow> inode" where
  "new_dir i =
     \<lparr>ino_id = i,
      meta = \<lparr>md_size = 0, created = 0, modified = 0, permissions = 493, is_dir = True\<rparr>,
      content = Dir []\<rparr>"

definition is_file_inode :: "inode \<Rightarrow> bool" where
  "is_file_inode ino = (case content ino of File _ \<Rightarrow> True | Dir _ \<Rightarrow> False)"

lemma is_file_inode_simps [simp]:
  "content ino = File s \<Longrightarrow> is_file_inode ino"
  "content ino = Dir es \<Longrightarrow> \<not> is_file_inode ino"
  by (simp_all add: is_file_inode_def)

lemma is_file_inodeE:
  assumes "is_file_inode ino" obtains s where "content ino = File s"
  using assms by (auto simp: is_file_inode_def split: file_content.splits)

lemma not_is_file_inodeE:
  assumes "\<not> is_file_inode ino" obtains es where "content ino = Dir es"
  using assms by (auto simp: is_file_inode_def split: file_content.splits)

section \<open>Handles\<close>

record file_handle =
  h_inode :: inode_id
  position :: u64
  h_flags :: u32

definition new_handle :: "inode_id \<Rightarrow> u64 \<Rightarrow> u32 \<Rightarrow> file_handle" where
  "new_handle i pos fl = \<lparr>h_inode = i, position = pos, h_flags = fl\<rparr>"

section \<open>Time\<close>

text \<open>\<open>MonotonicCounter::now\<close>: the counter before the increment, and the counter after it.\<close>

definition counter_new :: u64 where
  "counter_new = 0"

definition counter_now :: "u64 \<Rightarrow> u64 \<times> u64" where
  "counter_now c = (c, c + 1)"

end
