(* ===== verification/Fs.thy ===== *)
theory Fs
  imports Inode
begin

text \<open>
  \<open>crates/core/fs-core/src/fs.rs\<close>: the state of a file system and every public operation, in
  the order of the source. The model is the default build of the crate (one thread, \<open>Cell\<close>
  counters, the \<open>MonotonicCounter\<close> time provider, 64-bit \<open>usize\<close>); counters wrap as in a
  release build. An \<open>InodeRef\<close> is the identifier under which the inode table holds the inode:
  the table never drops or replaces an entry, so following the reference and looking the
  identifier up are the same.
\<close>

section \<open>State\<close>

record fs =
  next_inode :: u64
  next_fd :: u32
  fd_table :: "fd \<rightharpoonup> file_handle"
  inode_table :: "inode_id \<rightharpoonup> inode"
  root_inode :: inode_id
  clock :: u64

definition time_now :: "fs \<Rightarrow> u64 \<times> fs" where
  "time_now fs = (case counter_now (clock fs) of (t, c) \<Rightarrow> (t, fs\<lparr>clock := c\<rparr>))"

definition empty_with :: "u64 \<Rightarrow> inode_id \<Rightarrow> inode_id \<Rightarrow> fs" where
  "empty_with c root seed =
     \<lparr>next_inode = seed, next_fd = 3, fd_table = Map.empty, inode_table = Map.empty,
      root_inode = root, clock = c\<rparr>"

definition inode_insert :: "fs \<Rightarrow> inode_id \<Rightarrow> inode \<Rightarrow> fs" where
  "inode_insert fs i ino = fs\<lparr>inode_table := (inode_table fs)(i \<mapsto> ino)\<rparr>"

definition with_time_provider :: "u64 \<Rightarrow> fs" where
  "with_time_provider c =
     (case counter_now c of (ts, c') \<Rightarrow>
        let root = new_dir 0;
            root = root\<lparr>meta := (meta root)\<lparr>created := ts, modified := ts\<rparr>\<rparr> in
        inode_insert (empty_with c' 0 1) 0 root)"

definition fs_new :: fs where
  "fs_new = with_time_provider counter_new"

definition allocate_inode :: "fs \<Rightarrow> inode_id \<times> fs" where
  "allocate_inode fs = (next_inode fs, fs\<lparr>next_inode := next_inode fs + 1\<rparr>)"

definition allocate_fd :: "fs \<Rightarrow> fd \<times> fs" where
  "allocate_fd fs = (next_fd fs, fs\<lparr>next_fd := next_fd fs + 1\<rparr>)"

definition fd_insert :: "fs \<Rightarrow> fd \<Rightarrow> file_handle \<Rightarrow> fs" where
  "fd_insert fs d h = fs\<lparr>fd_table := (fd_table fs)(d \<mapsto> h)\<rparr>"

definition fd_remove :: "fs \<Rightarrow> fd \<Rightarrow> file_handle option \<times> fs" where
  "fd_remove fs d = (fd_table fs d, fs\<lparr>fd_table := (fd_table fs)(d := None)\<rparr>)"

text \<open>\<open>fd_try_with(fd, |h| h.set_position(pos))\<close>.\<close>

definition set_position :: "fs \<Rightarrow> fd \<Rightarrow> u64 \<Rightarrow> fs" where
  "set_position fs d pos =
     (case fd_table fs d of
        None \<Rightarrow> fs
      | Some h \<Rightarrow> fs\<lparr>fd_table := (fd_table fs)(d \<mapsto> h\<lparr>position := pos\<rparr>)\<rparr>)"

definition inode_get :: "fs \<Rightarrow> inode_id \<Rightarrow> inode_id option" where
  "inode_get fs i = (case inode_table fs i of None \<Rightarrow> None | Some _ \<Rightarrow> Some i)"

text \<open>
  Following a reference. References come from \<open>inode_get\<close>, \<open>find_inode\<close> and
  \<open>create_inode\<close>, which return identifiers present in the table only, so the default is never
  read.
\<close>

definition inode_of :: "fs \<Rightarrow> inode_id \<Rightarrow> inode" where
  "inode_of fs i = (case inode_table fs i of None \<Rightarrow> new_dir i | Some ino \<Rightarrow> ino)"

section \<open>Path and inode helpers\<close>

definition find_inode :: "fs \<Rightarrow> inode_id \<Rightarrow> string \<Rightarrow> fs_error + inode_id" where
  "find_inode fs parent name =
     (case content (inode_of fs parent) of
        Dir entries \<Rightarrow>
          (case bt_get entries name of
             Some i \<Rightarrow> ok_or (inode_get fs i) NotFound
           | None \<Rightarrow> Inl NotFound)
      | File _ \<Rightarrow> Inl NotADirectory)"

definition create_inode :: "fs \<Rightarrow> inode_id \<Rightarrow> string \<Rightarrow> bool \<Rightarrow> (fs_error + inode_id) \<times> fs" where
  "create_inode fs parent name dir =
     (case content (inode_of fs parent) of
        Dir entries \<Rightarrow>
          if bt_get entries name \<noteq> None then (Inl AlreadyExists, fs)
          else
            (case allocate_inode fs of (i, fs) \<Rightarrow>
             case time_now fs of (ts, fs) \<Rightarrow>
               let ino = (if dir then new_dir i else new_file i);
                   ino = ino\<lparr>meta := (meta ino)\<lparr>created := ts, modified := ts\<rparr>\<rparr>;
                   p = inode_of fs parent;
                   fs = inode_insert fs parent (p\<lparr>content := Dir (bt_insert name i entries)\<rparr>);
                   fs = inode_insert fs i ino;
                   p = inode_of fs parent;
                   fs = inode_insert fs parent (p\<lparr>meta := (meta p)\<lparr>modified := ts\<rparr>\<rparr>)
               in (Inr i, fs))
      | File _ \<Rightarrow> (Inl NotADirectory, fs))"

text \<open>\<open>path.trim_start_matches('/').split('/').filter(|s| !s.is_empty()).collect()\<close>.\<close>

definition path_comps :: "string \<Rightarrow> string list" where
  "path_comps path = split_path (trim_start_matches CHR ''/'' path)"

text \<open>The loop that descends through directories, failing on a file.\<close>

fun walk_dirs :: "fs \<Rightarrow> inode_id \<Rightarrow> string list \<Rightarrow> fs_error + inode_id" where
  "walk_dirs fs cur [] = Inr cur"
| "walk_dirs fs cur (c # cs) =
     (case find_inode fs cur c of
        Inl e \<Rightarrow> Inl e
      | Inr i \<Rightarrow> if is_file_inode (inode_of fs i) then Inl NotADirectory else walk_dirs fs i cs)"

text \<open>The loop of \<open>stat\<close> and \<open>readdir\<close>, which checks nothing but \<open>find_inode\<close>.\<close>

fun walk :: "fs \<Rightarrow> inode_id \<Rightarrow> string list \<Rightarrow> fs_error + inode_id" where
  "walk fs cur [] = Inr cur"
| "walk fs cur (c # cs) =
     (case find_inode fs cur c of Inl e \<Rightarrow> Inl e | Inr i \<Rightarrow> walk fs i cs)"

text \<open>From the root to the parent of the last component.\<close>

definition walk_parent :: "fs \<Rightarrow> string list \<Rightarrow> fs_error + inode_id" where
  "walk_parent fs comps =
     (case inode_get fs (root_inode fs) of
        None \<Rightarrow> Inl NotFound
      | Some r \<Rightarrow> walk_dirs fs r (butlast comps))"

section \<open>Opening and closing\<close>

definition open_lookup :: "fs \<Rightarrow> inode_id \<Rightarrow> string \<Rightarrow> u32 \<Rightarrow> (fs_error + inode_id) \<times> fs" where
  "open_lookup fs cur filename fl =
     (case find_inode fs cur filename of
        Inr i \<Rightarrow> (Inr i, fs)
      | Inl e \<Rightarrow>
          if e = NotFound \<and> has_flag fl O_CREAT then
            (case create_inode fs cur filename False of
               (Inr i, fs) \<Rightarrow> (Inr i, fs)
             | (Inl e, fs) \<Rightarrow>
                 if e = AlreadyExists \<and> \<not> has_flag fl O_EXCL
                 then (find_inode fs cur filename, fs) else (Inl e, fs))
          else (Inl e, fs))"

definition install_handle :: "fs \<Rightarrow> inode_id \<Rightarrow> u32 \<Rightarrow> (fs_error + fd) \<times> fs" where
  "install_handle fs i fl =
     (case allocate_fd fs of (d, fs) \<Rightarrow> (Inr d, fd_insert fs d (new_handle i 0 fl)))"

text \<open>The \<open>O_TRUNC\<close> effect on a regular file.\<close>

definition truncate_inode :: "fs \<Rightarrow> inode_id \<Rightarrow> fs" where
  "truncate_inode fs i =
     (let ino = inode_of fs i in
      case content ino of
        File st \<Rightarrow>
          (case time_now fs of (ts, fs) \<Rightarrow>
             inode_insert fs i
               (ino\<lparr>content := File (bs_truncate st 0),
                    meta := (meta ino)\<lparr>md_size := 0, modified := ts\<rparr>\<rparr>))
      | Dir _ \<Rightarrow> fs)"

definition open_inode :: "fs \<Rightarrow> inode_id \<Rightarrow> u32 \<Rightarrow> (fs_error + fd) \<times> fs" where
  "open_inode fs i fl =
     (if \<not> is_file_inode (inode_of fs i)
         \<and> (access_mode fl = O_WRONLY \<or> access_mode fl = O_RDWR \<or> has_flag fl O_TRUNC)
      then (Inl IsADirectory, fs)
      else if has_flag fl O_TRUNC \<and> access_mode fl = O_RDONLY then (Inl InvalidArgument, fs)
      else
        let fs = (if has_flag fl O_TRUNC then truncate_inode fs i else fs) in
        install_handle fs (ino_id (inode_of fs i)) fl)"

definition open_at :: "fs \<Rightarrow> fd \<Rightarrow> string \<Rightarrow> u32 \<Rightarrow> (fs_error + fd) \<times> fs" where
  "open_at fs dir_fd path fl =
     (if path \<noteq> [] \<and> hd path = CHR ''/'' then (Inl InvalidArgument, fs)
      else case fd_table fs dir_fd of
        None \<Rightarrow> (Inl BadFileDescriptor, fs)
      | Some h \<Rightarrow>
          (case inode_get fs (h_inode h) of
             None \<Rightarrow> (Inl NotFound, fs)
           | Some dir \<Rightarrow>
               if is_file_inode (inode_of fs dir) then (Inl NotADirectory, fs)
               else if path = [] then (Inl InvalidArgument, fs)
               else
                 let comps = split_path path in
                 if comps = [] then (Inl InvalidArgument, fs)
                 else
                   (case walk_dirs fs dir (butlast comps) of
                      Inl e \<Rightarrow> (Inl e, fs)
                    | Inr cur \<Rightarrow>
                        (case open_lookup fs cur (last comps) fl of
                           (Inl e, fs) \<Rightarrow> (Inl e, fs)
                         | (Inr i, fs) \<Rightarrow> open_inode fs i fl))))"

definition open_path_with_flags :: "fs \<Rightarrow> string \<Rightarrow> u32 \<Rightarrow> (fs_error + fd) \<times> fs" where
  "open_path_with_flags fs path fl =
     (if path = [] then (Inl InvalidArgument, fs)
      else
        let comps = path_comps path in
        if comps = [] then install_handle fs (root_inode fs) fl
        else
          (case walk_parent fs comps of
             Inl e \<Rightarrow> (Inl e, fs)
           | Inr cur \<Rightarrow>
               (case open_lookup fs cur (last comps) fl of
                  (Inl e, fs) \<Rightarrow> (Inl e, fs)
                | (Inr i, fs) \<Rightarrow> open_inode fs i fl)))"

definition open_path :: "fs \<Rightarrow> string \<Rightarrow> (fs_error + fd) \<times> fs" where
  "open_path fs path = open_path_with_flags fs path (O_RDWR OR O_CREAT)"

definition fs_close :: "fs \<Rightarrow> fd \<Rightarrow> (fs_error + unit) \<times> fs" where
  "fs_close fs d =
     (case fd_remove fs d of
        (None, fs) \<Rightarrow> (Inl BadFileDescriptor, fs)
      | (Some _, fs) \<Rightarrow> (Inr (), fs))"

section \<open>Reading and writing\<close>

text \<open>The common tail of the three write operations: store, metadata, then the position.\<close>

definition write_through ::
  "fs \<Rightarrow> fd \<Rightarrow> inode_id \<Rightarrow> inode \<Rightarrow> block_storage \<Rightarrow> nat \<Rightarrow> bytes \<Rightarrow> (fs_error + nat) \<times> fs" where
  "write_through fs d i ino st pos buf =
     (case bs_write st pos buf of (n, st') \<Rightarrow>
      case time_now fs of (ts, fs) \<Rightarrow>
        let fs = inode_insert fs i
              (ino\<lparr>content := File st',
                   meta := (meta ino)\<lparr>md_size := of_nat (bsize st'), modified := ts\<rparr>\<rparr>)
        in (Inr n, set_position fs d (of_nat (pos + n))))"

text \<open>The common head: handle, access mode, inode and content kind. \<open>posf\<close> gives the offset.\<close>

definition write_with ::
  "(file_handle \<Rightarrow> block_storage \<Rightarrow> nat) \<Rightarrow> fs \<Rightarrow> fd \<Rightarrow> bytes \<Rightarrow> (fs_error + nat) \<times> fs" where
  "write_with posf fs d buf =
     (case fd_table fs d of
        None \<Rightarrow> (Inl BadFileDescriptor, fs)
      | Some h \<Rightarrow>
          if access_mode (h_flags h) = O_RDONLY then (Inl PermissionDenied, fs)
          else
            (case inode_table fs (h_inode h) of
               None \<Rightarrow> (Inl NotFound, fs)
             | Some ino \<Rightarrow>
                 (case content ino of
                    File st \<Rightarrow> write_through fs d (h_inode h) ino st (posf h st) buf
                  | Dir _ \<Rightarrow> (Inl BadFileDescriptor, fs))))"

definition fs_write :: "fs \<Rightarrow> fd \<Rightarrow> bytes \<Rightarrow> (fs_error + nat) \<times> fs" where
  "fs_write = write_with
     (\<lambda>h st. if has_flag (h_flags h) O_APPEND then bsize st else unat (position h))"

definition write_at :: "fs \<Rightarrow> fd \<Rightarrow> u64 \<Rightarrow> bytes \<Rightarrow> (fs_error + nat) \<times> fs" where
  "write_at fs d offset buf = write_with (\<lambda>h st. unat offset) fs d buf"

definition append_write :: "fs \<Rightarrow> fd \<Rightarrow> bytes \<Rightarrow> (fs_error + nat) \<times> fs" where
  "append_write = write_with (\<lambda>h st. bsize st)"

text \<open>\<open>read\<close> and \<open>read_at\<close>: the result carries the count and the filled buffer.\<close>

definition read_with :: "(file_handle \<Rightarrow> u64) \<Rightarrow> fs \<Rightarrow> fd \<Rightarrow> bytes \<Rightarrow> (fs_error + nat \<times> bytes) \<times> fs" where
  "read_with posf fs d out =
     (case fd_table fs d of
        None \<Rightarrow> (Inl BadFileDescriptor, fs)
      | Some h \<Rightarrow>
          if access_mode (h_flags h) = O_WRONLY then (Inl PermissionDenied, fs)
          else
            (case inode_table fs (h_inode h) of
               None \<Rightarrow> (Inl NotFound, fs)
             | Some ino \<Rightarrow>
                 (case content ino of
                    File st \<Rightarrow>
                      (case bs_read st (unat (posf h)) out of (n, out') \<Rightarrow>
                         (Inr (n, out'), set_position fs d (posf h + of_nat n)))
                  | Dir _ \<Rightarrow> (Inl BadFileDescriptor, fs))))"

definition fs_read :: "fs \<Rightarrow> fd \<Rightarrow> bytes \<Rightarrow> (fs_error + nat \<times> bytes) \<times> fs" where
  "fs_read = read_with position"

definition read_at :: "fs \<Rightarrow> fd \<Rightarrow> u64 \<Rightarrow> bytes \<Rightarrow> (fs_error + nat \<times> bytes) \<times> fs" where
  "read_at fs d offset out = read_with (\<lambda>_. offset) fs d out"

definition ftruncate :: "fs \<Rightarrow> fd \<Rightarrow> u64 \<Rightarrow> (fs_error + unit) \<times> fs" where
  "ftruncate fs d new_size =
     (case fd_table fs d of
        None \<Rightarrow> (Inl BadFileDescriptor, fs)
      | Some h \<Rightarrow>
          if access_mode (h_flags h) = O_RDONLY then (Inl PermissionDenied, fs)
          else
            (case inode_table fs (h_inode h) of
               None \<Rightarrow> (Inl NotFound, fs)
             | Some ino \<Rightarrow>
                 (case content ino of
                    File st \<Rightarrow>
                      (case time_now fs of (ts, fs) \<Rightarrow>
                         (Inr (), inode_insert fs (h_inode h)
                            (ino\<lparr>content := File (bs_truncate st (unat new_size)),
                                 meta := (meta ino)\<lparr>md_size := new_size, modified := ts\<rparr>\<rparr>)))
                  | Dir _ \<Rightarrow> (Inl BadFileDescriptor, fs))))"

definition seek :: "fs \<Rightarrow> fd \<Rightarrow> i64 \<Rightarrow> i32 \<Rightarrow> (fs_error + u64) \<times> fs" where
  "seek fs d offset whence =
     (case fd_table fs d of
        None \<Rightarrow> (Inl BadFileDescriptor, fs)
      | Some h \<Rightarrow>
          (case inode_table fs (h_inode h) of
             None \<Rightarrow> (Inl NotFound, fs)
           | Some ino \<Rightarrow>
               (case content ino of
                  File st \<Rightarrow>
                    let new_pos =
                      (if whence = 0 then (if sint offset < 0 then None else Some offset)
                       else if whence = 1 then
                         (let new = position h + offset in if sint new < 0 then None else Some new)
                       else if whence = 2 then
                         (let new = of_nat (bsize st) + offset in if sint new < 0 then None else Some new)
                       else None) in
                    (case new_pos of
                       None \<Rightarrow> (Inl InvalidArgument, fs)
                     | Some p \<Rightarrow> (Inr p, set_position fs d p))
                | Dir _ \<Rightarrow> (Inl BadFileDescriptor, fs))))"

section \<open>Metadata and directories\<close>

definition stat :: "fs \<Rightarrow> string \<Rightarrow> fs_error + metadata" where
  "stat fs path =
     (if path = [] then Inl InvalidArgument
      else case inode_get fs (root_inode fs) of
        None \<Rightarrow> Inl NotFound
      | Some r \<Rightarrow>
          (case walk fs r (path_comps path) of
             Inl e \<Rightarrow> Inl e
           | Inr i \<Rightarrow> Inr (meta (inode_of fs i))))"

definition fstat :: "fs \<Rightarrow> fd \<Rightarrow> fs_error + metadata" where
  "fstat fs d =
     (case fd_table fs d of
        None \<Rightarrow> Inl BadFileDescriptor
      | Some h \<Rightarrow>
          (case inode_get fs (h_inode h) of
             None \<Rightarrow> Inl NotFound
           | Some i \<Rightarrow> Inr (meta (inode_of fs i))))"

definition mkdir :: "fs \<Rightarrow> string \<Rightarrow> (fs_error + unit) \<times> fs" where
  "mkdir fs path =
     (if path = [] then (Inl InvalidArgument, fs)
      else
        let comps = path_comps path in
        if comps = [] then (Inl InvalidArgument, fs)
        else
          (case walk_parent fs comps of
             Inl e \<Rightarrow> (Inl e, fs)
           | Inr cur \<Rightarrow>
               (case create_inode fs cur (last comps) True of
                  (Inl e, fs) \<Rightarrow> (Inl e, fs)
                | (Inr _, fs) \<Rightarrow> (Inr (), fs))))"

fun mkdir_p_loop :: "fs \<Rightarrow> inode_id \<Rightarrow> string list \<Rightarrow> (fs_error + unit) \<times> fs" where
  "mkdir_p_loop fs cur [] = (Inr (), fs)"
| "mkdir_p_loop fs cur (c # cs) =
     (case find_inode fs cur c of
        Inr i \<Rightarrow>
          if is_file_inode (inode_of fs i) then (Inl NotADirectory, fs) else mkdir_p_loop fs i cs
      | Inl e \<Rightarrow>
          if e = NotFound then
            (case create_inode fs cur c True of
               (Inr i, fs') \<Rightarrow> mkdir_p_loop fs' i cs
             | (Inl e', fs') \<Rightarrow>
                 if e' = AlreadyExists then
                   (case find_inode fs' cur c of
                      Inl e'' \<Rightarrow> (Inl e'', fs')
                    | Inr i \<Rightarrow> mkdir_p_loop fs' i cs)
                 else (Inl e', fs'))
          else (Inl e, fs))"

definition mkdir_p :: "fs \<Rightarrow> string \<Rightarrow> (fs_error + unit) \<times> fs" where
  "mkdir_p fs path =
     (if path = [] then (Inl InvalidArgument, fs)
      else
        let comps = path_comps path in
        if comps = [] then (Inr (), fs)
        else case inode_get fs (root_inode fs) of
          None \<Rightarrow> (Inl NotFound, fs)
        | Some r \<Rightarrow> mkdir_p_loop fs r comps)"

text \<open>Removing an entry from a directory and stamping it, as \<open>unlink\<close> and \<open>rmdir\<close> end.\<close>

definition remove_entry :: "fs \<Rightarrow> inode_id \<Rightarrow> string \<Rightarrow> (fs_error + unit) \<times> fs" where
  "remove_entry fs cur name =
     (let p = inode_of fs cur in
      case content p of
        Dir entries \<Rightarrow>
          (case time_now fs of (ts, fs) \<Rightarrow>
             (Inr (), inode_insert fs cur
                (p\<lparr>content := Dir (bt_remove name entries),
                   meta := (meta p)\<lparr>modified := ts\<rparr>\<rparr>)))
      | File _ \<Rightarrow> (Inl NotADirectory, fs))"

definition unlink :: "fs \<Rightarrow> string \<Rightarrow> (fs_error + unit) \<times> fs" where
  "unlink fs path =
     (if path = [] then (Inl InvalidArgument, fs)
      else
        let comps = path_comps path in
        if comps = [] then (Inl InvalidArgument, fs)
        else
          (case walk_parent fs comps of
             Inl e \<Rightarrow> (Inl e, fs)
           | Inr cur \<Rightarrow>
               (case find_inode fs cur (last comps) of
                  Inl e \<Rightarrow> (Inl e, fs)
                | Inr i \<Rightarrow>
                    if \<not> is_file_inode (inode_of fs i) then (Inl IsADirectory, fs)
                    else remove_entry fs cur (last comps))))"

definition readdir :: "fs \<Rightarrow> string \<Rightarrow> fs_error + string list" where
  "readdir fs path =
     (if path = [] then Inl InvalidArgument
      else case inode_get fs (root_inode fs) of
        None \<Rightarrow> Inl NotFound
      | Some r \<Rightarrow>
          (case walk fs r (path_comps path) of
             Inl e \<Rightarrow> Inl e
           | Inr i \<Rightarrow>
               (case content (inode_of fs i) of
                  Dir entries \<Rightarrow> Inr (bt_keys entries)
                | File _ \<Rightarrow> Inl NotADirectory)))"

definition readdir_fd :: "fs \<Rightarrow> fd \<Rightarrow> fs_error + (string \<times> bool) list" where
  "readdir_fd fs d =
     (case fd_table fs d of
        None \<Rightarrow> Inl BadFileDescriptor
      | Some h \<Rightarrow>
          (case inode_get fs (h_inode h) of
             None \<Rightarrow> Inl NotFound
           | Some i \<Rightarrow>
               (case content (inode_of fs i) of
                  Dir entries \<Rightarrow>
                    Inr (List.map_filter
                      (\<lambda>(name, child). map_option (\<lambda>c. (name, is_dir (meta (inode_of fs c)))) (inode_get fs child))
                      entries)
                | File _ \<Rightarrow> Inl NotADirectory)))"

definition rmdir :: "fs \<Rightarrow> string \<Rightarrow> (fs_error + unit) \<times> fs" where
  "rmdir fs path =
     (if path = [] then (Inl InvalidArgument, fs)
      else
        let comps = path_comps path in
        if comps = [] then (Inl InvalidArgument, fs)
        else
          (case walk_parent fs comps of
             Inl e \<Rightarrow> (Inl e, fs)
           | Inr cur \<Rightarrow>
               (case find_inode fs cur (last comps) of
                  Inl e \<Rightarrow> (Inl e, fs)
                | Inr i \<Rightarrow>
                    (case content (inode_of fs i) of
                       File _ \<Rightarrow> (Inl NotADirectory, fs)
                     | Dir entries \<Rightarrow>
                         if entries \<noteq> [] then (Inl NotEmpty, fs)
                         else remove_entry fs cur (last comps)))))"

section \<open>Renaming\<close>

text \<open>The type checks against an existing destination; \<open>None\<close> when there is no objection.\<close>

definition rename_check :: "fs \<Rightarrow> inode_id \<Rightarrow> inode_id \<Rightarrow> string \<Rightarrow> fs_error option" where
  "rename_check fs src new_parent new_name =
     (let source_is_dir = is_dir (meta (inode_of fs src)) in
      case find_inode fs new_parent new_name of
        Inl _ \<Rightarrow> None
      | Inr i \<Rightarrow>
          let dest = inode_of fs i; dest_is_dir = is_dir (meta dest) in
          if source_is_dir \<and> \<not> dest_is_dir then Some NotADirectory
          else if \<not> source_is_dir \<and> dest_is_dir then Some IsADirectory
          else if dest_is_dir \<and> (case content dest of Dir es \<Rightarrow> es \<noteq> [] | File _ \<Rightarrow> False)
          then Some NotEmpty else None)"

text \<open>
  Moving the entry. The source's two cross-directory branches differ in the order in which the
  two locks are taken only, and have one translation.
\<close>

definition rename_move ::
  "fs \<Rightarrow> inode_id \<Rightarrow> string \<Rightarrow> inode_id \<Rightarrow> string \<Rightarrow> u64 \<Rightarrow> (fs_error + unit) \<times> fs" where
  "rename_move fs old_parent old_name new_parent new_name ts =
     (if ino_id (inode_of fs old_parent) = ino_id (inode_of fs new_parent) then
        let p = inode_of fs old_parent in
        (case content p of
           Dir entries \<Rightarrow>
             (case bt_get entries old_name of
                Some i \<Rightarrow>
                  (Inr (), inode_insert fs old_parent
                     (p\<lparr>content := Dir (bt_insert new_name i (bt_remove old_name entries)),
                        meta := (meta p)\<lparr>modified := ts\<rparr>\<rparr>))
              | None \<Rightarrow> (Inl NotFound, fs))
         | File _ \<Rightarrow> (Inl NotADirectory, fs))
      else
        let old_p = inode_of fs old_parent in
        (case content old_p of
           File _ \<Rightarrow> (Inl NotADirectory, fs)
         | Dir old_entries \<Rightarrow>
             (case bt_get old_entries old_name of
                None \<Rightarrow> (Inl NotFound, fs)
              | Some i \<Rightarrow>
                  let fs = inode_insert fs old_parent
                        (old_p\<lparr>content := Dir (bt_remove old_name old_entries),
                               meta := (meta old_p)\<lparr>modified := ts\<rparr>\<rparr>);
                      new_p = inode_of fs new_parent in
                  (case content new_p of
                     File _ \<Rightarrow> (Inl NotADirectory, fs)
                   | Dir new_entries \<Rightarrow>
                       (Inr (), inode_insert fs new_parent
                          (new_p\<lparr>content := Dir (bt_insert new_name i new_entries),
                                 meta := (meta new_p)\<lparr>modified := ts\<rparr>\<rparr>))))))"

definition rename :: "fs \<Rightarrow> string \<Rightarrow> string \<Rightarrow> (fs_error + unit) \<times> fs" where
  "rename fs old_path new_path =
     (if old_path = [] \<or> new_path = [] then (Inl InvalidArgument, fs)
      else
        let old_comps = path_comps old_path; new_comps = path_comps new_path in
        if old_comps = [] \<or> new_comps = [] then (Inl InvalidArgument, fs)
        else if old_comps = new_comps then (Inr (), fs)
        else
          (case walk_parent fs old_comps of
             Inl e \<Rightarrow> (Inl e, fs)
           | Inr old_parent \<Rightarrow>
               (case find_inode fs old_parent (last old_comps) of
                  Inl e \<Rightarrow> (Inl e, fs)
                | Inr src \<Rightarrow>
                    (case walk_parent fs new_comps of
                       Inl e \<Rightarrow> (Inl e, fs)
                     | Inr new_parent \<Rightarrow>
                         (case rename_check fs src new_parent (last new_comps) of
                            Some e \<Rightarrow> (Inl e, fs)
                          | None \<Rightarrow>
                              (case time_now fs of (ts, fs) \<Rightarrow>
                                 rename_move fs old_parent (last old_comps)
                                   new_parent (last new_comps) ts))))))"

end
