(* ===== verification/Fs_Inv.thy ===== *)
theory Fs_Inv
  imports Fs
begin

text \<open>
  The well-formedness invariant of a file system and its preservation by every operation, and
  the file system as a state machine: \<open>fs_exec\<close> runs one call, \<open>fs_reachable\<close> holds for the
  states that sequences of calls lead to from a fresh file system, as long as the identifier
  counters do not wrap around.
\<close>

section \<open>The invariant\<close>

text \<open>\<open>D\<close> is the set of identifiers in the inode table.\<close>

definition entries_ok :: "inode_id set \<Rightarrow> (string, inode_id) btree \<Rightarrow> bool" where
  "entries_ok D es \<longleftrightarrow> bt_inv es \<and> (\<forall>n c. map_of es n = Some c \<longrightarrow> name_ok n \<and> c \<in> D)"

definition inode_wf :: "inode_id set \<Rightarrow> inode_id \<Rightarrow> inode \<Rightarrow> bool" where
  "inode_wf D i ino \<longleftrightarrow> ino_id ino = i \<and>
     (case content ino of
        File st \<Rightarrow> \<not> is_dir (meta ino) \<and> bs_inv st \<and> md_size (meta ino) = of_nat (bsize st)
      | Dir es \<Rightarrow> is_dir (meta ino) \<and> entries_ok D es)"

text \<open>
  The root is a directory; every inode is stored under its own identifier, below the counter,
  with metadata that agrees with its content; directory entries are sorted, carry proper names
  and never dangle; open descriptors refer to existing inodes and lie between the reserved
  descriptors and the counter.
\<close>

definition fs_wf :: "fs \<Rightarrow> bool" where
  "fs_wf fs \<longleftrightarrow>
     (\<exists>ino. inode_table fs (root_inode fs) = Some ino \<and> \<not> is_file_inode ino) \<and>
     (\<forall>i ino. inode_table fs i = Some ino \<longrightarrow> inode_wf (dom (inode_table fs)) i ino \<and> i < next_inode fs) \<and>
     (\<forall>d h. fd_table fs d = Some h \<longrightarrow>
        h_inode h \<in> dom (inode_table fs) \<and> 3 \<le> d \<and> d < next_fd fs) \<and>
     3 \<le> next_fd fs"

lemma entries_ok_mono: "entries_ok D es \<Longrightarrow> D \<subseteq> E \<Longrightarrow> entries_ok E es"
  by (auto simp: entries_ok_def)

lemma inode_wf_mono: "inode_wf D i ino \<Longrightarrow> D \<subseteq> E \<Longrightarrow> inode_wf E i ino"
  by (auto simp: inode_wf_def entries_ok_mono split: file_content.splits)

lemma entries_ok_empty [simp]: "entries_ok D []"
  by (simp add: entries_ok_def bt.invar_empty)

lemma entries_ok_insert:
  "entries_ok D es \<Longrightarrow> name_ok n \<Longrightarrow> c \<in> D \<Longrightarrow> entries_ok D (bt_insert n c es)"
  by (auto simp: entries_ok_def bt.invar_ins map_of_bt_insert)

lemma entries_ok_remove: "entries_ok D es \<Longrightarrow> entries_ok D (bt_remove n es)"
  by (auto simp: entries_ok_def bt.invar_rem map_of_bt_remove)

lemma inode_wf_Dir: "inode_wf D i ino \<Longrightarrow> content ino = Dir es \<Longrightarrow> entries_ok D es"
  by (simp add: inode_wf_def)

lemma inode_wf_File: "inode_wf D i ino \<Longrightarrow> content ino = File st \<Longrightarrow>
    bs_inv st \<and> md_size (meta ino) = of_nat (bsize st)"
  by (simp add: inode_wf_def)

lemma inode_wf_is_dir: "inode_wf D i ino \<Longrightarrow> is_dir (meta ino) \<longleftrightarrow> \<not> is_file_inode ino"
  by (auto simp: inode_wf_def is_file_inode_def split: file_content.splits)

text \<open>Replacing a directory's entries, or a file's storage, keeps the inode well formed.\<close>

lemma inode_wf_set_dir:
  "inode_wf D i ino \<Longrightarrow> content ino = Dir es \<Longrightarrow> entries_ok D es' \<Longrightarrow>
    inode_wf D i (ino\<lparr>content := Dir es', meta := (meta ino)\<lparr>modified := t\<rparr>\<rparr>)"
  by (simp add: inode_wf_def)

lemma inode_wf_set_file:
  "inode_wf D i ino \<Longrightarrow> content ino = File st \<Longrightarrow> bs_inv st' \<Longrightarrow> s = of_nat (bsize st') \<Longrightarrow>
    inode_wf D i (ino\<lparr>content := File st', meta := (meta ino)\<lparr>md_size := s, modified := t\<rparr>\<rparr>)"
  by (simp add: inode_wf_def)

section \<open>Consequences\<close>

lemma inode_get_dom [simp]: "inode_get fs i = Some j \<longleftrightarrow> j = i \<and> i \<in> dom (inode_table fs)"
  by (auto simp: inode_get_def split: option.splits)

lemma inode_get_None [simp]: "inode_get fs i = None \<longleftrightarrow> i \<notin> dom (inode_table fs)"
  by (auto simp: inode_get_def split: option.splits)

lemma inode_of_eq [simp]: "inode_table fs i = Some ino \<Longrightarrow> inode_of fs i = ino"
  by (simp add: inode_of_def)

lemma fs_wf_root: "fs_wf fs \<Longrightarrow> root_inode fs \<in> dom (inode_table fs)"
  by (auto simp: fs_wf_def)

lemma fs_wf_root_dir: "fs_wf fs \<Longrightarrow> \<not> is_file_inode (inode_of fs (root_inode fs))"
  by (auto simp: fs_wf_def)

lemma fs_wf_inode:
  "fs_wf fs \<Longrightarrow> i \<in> dom (inode_table fs) \<Longrightarrow> inode_wf (dom (inode_table fs)) i (inode_of fs i)"
  by (auto simp: fs_wf_def)

lemma fs_wf_inode_less: "fs_wf fs \<Longrightarrow> i \<in> dom (inode_table fs) \<Longrightarrow> i < next_inode fs"
  by (auto simp: fs_wf_def)

lemma fs_wf_fd: "fs_wf fs \<Longrightarrow> fd_table fs d = Some h \<Longrightarrow>
    h_inode h \<in> dom (inode_table fs) \<and> 3 \<le> d \<and> d < next_fd fs"
  by (auto simp: fs_wf_def)

lemma ino_id_inode_of: "fs_wf fs \<Longrightarrow> i \<in> dom (inode_table fs) \<Longrightarrow> ino_id (inode_of fs i) = i"
  using fs_wf_inode by (auto simp: inode_wf_def)

lemma find_inode_dom: "find_inode fs p n = Inr i \<Longrightarrow> i \<in> dom (inode_table fs)"
  by (auto simp: find_inode_def split: file_content.splits option.splits)

text \<open>In a well formed file system a lookup is exactly the directory's map.\<close>

lemma find_inode_wf:
  assumes "fs_wf fs" and "p \<in> dom (inode_table fs)" and "content (inode_of fs p) = Dir es"
  shows "find_inode fs p n = (case map_of es n of None \<Rightarrow> Inl NotFound | Some i \<Rightarrow> Inr i)"
  using inode_wf_Dir [OF fs_wf_inode [OF assms(1,2)] assms(3)] assms(3)
  by (fastforce simp: find_inode_def entries_ok_def ok_or_def inode_get_def split: option.splits)

lemma walk_dirs_ok:
  assumes "walk_dirs fs cur cs = Inr i" and "cur \<in> dom (inode_table fs)"
    and "\<not> is_file_inode (inode_of fs cur)"
  shows "i \<in> dom (inode_table fs) \<and> \<not> is_file_inode (inode_of fs i)"
  using assms
  by (induction fs cur cs rule: walk_dirs.induct)
     (auto dest: find_inode_dom split: sum.splits if_splits)

lemma walk_parent_ok:
  assumes "fs_wf fs" and "walk_parent fs cs = Inr i"
  shows "i \<in> dom (inode_table fs) \<and> \<not> is_file_inode (inode_of fs i)"
  using assms fs_wf_root [OF assms(1)] fs_wf_root_dir [OF assms(1)]
  by (auto simp: walk_parent_def dest: walk_dirs_ok split: option.splits)

lemma walk_dom: "walk fs cur cs = Inr i \<Longrightarrow> cur \<in> dom (inode_table fs) \<Longrightarrow> i \<in> dom (inode_table fs)"
  by (induction fs cur cs rule: walk.induct) (auto dest: find_inode_dom split: sum.splits)

lemma path_comps_names: "c \<in> set (path_comps p) \<Longrightarrow> name_ok c"
  by (simp add: path_comps_def split_path_names)

lemma last_path_comps: "path_comps p \<noteq> [] \<Longrightarrow> name_ok (last (path_comps p))"
  by (rule path_comps_names [of _ p]) simp

section \<open>Preservation by the primitives\<close>

lemma time_now_eq: "time_now fs = (clock fs, fs\<lparr>clock := clock fs + 1\<rparr>)"
  by (simp add: time_now_def counter_now_def)

lemma fs_wf_clock [simp]: "fs_wf (fs\<lparr>clock := c\<rparr>) = fs_wf fs"
  by (simp add: fs_wf_def)

lemma inode_of_clock [simp]: "inode_of (fs\<lparr>clock := c\<rparr>) = inode_of fs"
  by (simp add: inode_of_def fun_eq_iff)

lemma inode_get_clock [simp]: "inode_get (fs\<lparr>clock := c\<rparr>) = inode_get fs"
  by (simp add: inode_get_def fun_eq_iff)

lemma find_inode_clock [simp]: "find_inode (fs\<lparr>clock := c\<rparr>) = find_inode fs"
  by (simp add: find_inode_def fun_eq_iff split: option.splits file_content.splits)

lemma inode_of_insert: "inode_of (inode_insert fs i ino) j = (if j = i then ino else inode_of fs j)"
  by (simp add: inode_of_def inode_insert_def)

lemma inode_insert_sel [simp]:
  "next_inode (inode_insert fs i ino) = next_inode fs"
  "next_fd (inode_insert fs i ino) = next_fd fs"
  "fd_table (inode_insert fs i ino) = fd_table fs"
  "root_inode (inode_insert fs i ino) = root_inode fs"
  "clock (inode_insert fs i ino) = clock fs"
  "inode_table (inode_insert fs i ino) = (inode_table fs)(i \<mapsto> ino)"
  by (simp_all add: inode_insert_def)

lemma fs_wf_update [wf_intros]:
  assumes "fs_wf fs" and i: "i \<in> dom (inode_table fs)"
    and ino: "inode_wf (dom (inode_table fs)) i ino"
    and kind: "is_file_inode ino = is_file_inode (inode_of fs i)"
  shows "fs_wf (inode_insert fs i ino)"
proof -
  have "insert i (dom (inode_table fs)) = dom (inode_table fs)" using i by auto
  with assms show ?thesis by (auto simp: fs_wf_def)
qed

lemma set_position_sel [simp]:
  "next_inode (set_position fs d p) = next_inode fs"
  "next_fd (set_position fs d p) = next_fd fs"
  "root_inode (set_position fs d p) = root_inode fs"
  "inode_table (set_position fs d p) = inode_table fs"
  "clock (set_position fs d p) = clock fs"
  by (simp_all add: set_position_def split: option.splits)

lemma fd_table_set_position:
  "fd_table (set_position fs d p) =
    (case fd_table fs d of None \<Rightarrow> fd_table fs | Some h \<Rightarrow> (fd_table fs)(d \<mapsto> h\<lparr>position := p\<rparr>))"
  by (simp add: set_position_def split: option.splits)

lemma fs_wf_set_position [wf_intros]: "fs_wf fs \<Longrightarrow> fs_wf (set_position fs d p)"
  by (auto simp: fs_wf_def fd_table_set_position split: option.splits)

lemma fs_wf_install_handle [wf_intros]:
  assumes "fs_wf fs" and "i \<in> dom (inode_table fs)" and "next_fd fs \<noteq> - 1"
  shows "fs_wf (snd (install_handle fs i fl))"
proof -
  have "d < next_fd fs + 1 \<longleftrightarrow> d \<le> next_fd fs" for d
    using assms(3) by (rule word_less_plus_one_iff)
  moreover have "next_fd fs \<le> next_fd fs + 1"
    using calculation [of "next_fd fs"] by simp
  ultimately show ?thesis
    using assms by (auto simp: install_handle_def allocate_fd_def fd_insert_def new_handle_def fs_wf_def
        less_imp_le)
qed

text \<open>The state after a successful \<open>create_inode\<close>.\<close>

definition new_inode :: "bool \<Rightarrow> inode_id \<Rightarrow> u64 \<Rightarrow> inode" where
  "new_inode dir i ts =
     (let ino = (if dir then new_dir i else new_file i)
      in ino\<lparr>meta := (meta ino)\<lparr>created := ts, modified := ts\<rparr>\<rparr>)"

lemma create_inode_cases:
  assumes "fs_wf fs" and "p \<in> dom (inode_table fs)" and "content (inode_of fs p) = Dir es"
  shows "create_inode fs p n dir =
    (if map_of es n \<noteq> None then (Inl AlreadyExists, fs)
     else (Inr (next_inode fs),
       fs\<lparr>next_inode := next_inode fs + 1, clock := clock fs + 1,
          inode_table := (inode_table fs)
            (next_inode fs \<mapsto> new_inode dir (next_inode fs) (clock fs),
             p \<mapsto> (inode_of fs p)\<lparr>content := Dir (bt_insert n (next_inode fs) es),
                   meta := (meta (inode_of fs p))\<lparr>modified := clock fs\<rparr>\<rparr>)\<rparr>))"
proof -
  have "p \<noteq> next_inode fs"
    using fs_wf_inode_less [OF assms(1,2)] by auto
  then show ?thesis
    using assms(3)
    by (auto simp: create_inode_def allocate_inode_def time_now_eq new_inode_def Let_def
        inode_insert_def inode_of_def fun_eq_iff)
qed

lemma create_inode_file:
  "content (inode_of fs p) = File st \<Longrightarrow> create_inode fs p n dir = (Inl NotADirectory, fs)"
  by (simp add: create_inode_def)

lemma new_inode_wf: "inode_wf D i (new_inode dir i ts)"
  by (simp add: new_inode_def inode_wf_def new_dir_def new_file_def bs_inv_new bs_new_def [symmetric])
     (simp add: bs_new_def)

lemma is_file_new_inode [simp]: "is_file_inode (new_inode dir i ts) = (\<not> dir)"
  by (simp add: new_inode_def is_file_inode_def new_dir_def new_file_def)

lemma fs_wf_create_inode [wf_intros]:
  assumes wf: "fs_wf fs" and p: "p \<in> dom (inode_table fs)" and n: "name_ok n"
    and room: "next_inode fs \<noteq> - 1"
  shows "fs_wf (snd (create_inode fs p n dir))"
proof (cases "content (inode_of fs p)")
  case (File st)
  with wf show ?thesis by (simp add: create_inode_file)
next
  case (Dir es)
  let ?k = "next_inode fs" and ?D = "insert (next_inode fs) (dom (inode_table fs))"
  have less: "i < ?k + 1 \<longleftrightarrow> i \<le> ?k" for i
    using room by (rule word_less_plus_one_iff)
  have fresh: "?k \<notin> dom (inode_table fs)"
    using fs_wf_inode_less [OF wf] by blast
  have "entries_ok ?D (bt_insert n ?k es)"
    using inode_wf_Dir [OF fs_wf_inode [OF wf p] Dir] n
    by (auto intro: entries_ok_insert entries_ok_mono)
  then have pw: "inode_wf ?D p ((inode_of fs p)\<lparr>content := Dir (bt_insert n ?k es),
      meta := (meta (inode_of fs p))\<lparr>modified := clock fs\<rparr>\<rparr>)"
    using inode_wf_set_dir inode_wf_mono [OF fs_wf_inode [OF wf p], of ?D] Dir by blast
  have old: "inode_wf ?D i ino \<and> i \<le> ?k" if "inode_table fs i = Some ino" for i ino
    using that wf inode_wf_mono [of "dom (inode_table fs)" i ino ?D]
    by (auto simp: fs_wf_def le_less)
  have dom: "insert p ?D = ?D" using p by auto
  show ?thesis
    unfolding create_inode_cases [OF wf p Dir]
    using wf fresh p Dir pw old dom fs_wf_inode_less [OF wf p]
    by (auto simp: fs_wf_def less new_inode_wf is_file_inode_def)
qed

section \<open>Preservation by the operations\<close>

text \<open>
  Enough identifiers are left for one call: one descriptor, and one inode for each path
  component that \<open>mkdir_p\<close> may have to create.
\<close>

definition has_room :: "nat \<Rightarrow> fs \<Rightarrow> bool" where
  "has_room k fs \<longleftrightarrow> unat (next_inode fs) + k < 2 ^ 64 \<and> unat (next_fd fs) + 1 < 2 ^ 32"

lemma unat_minus_one: "unat (- 1 :: 'a::len word) = 2 ^ LENGTH('a) - 1"
  by (simp add: unsigned_minus_1_eq_mask mask_eq_exp_minus_1)

lemma has_room_fd: "has_room k fs \<Longrightarrow> next_fd fs \<noteq> - 1"
  by (auto simp: has_room_def unat_minus_one)

lemma has_room_inode: "has_room k fs \<Longrightarrow> 0 < k \<Longrightarrow> next_inode fs \<noteq> - 1"
  by (auto simp: has_room_def unat_minus_one)

lemma has_room_create:
  assumes "has_room (Suc k) fs"
  shows "has_room k (snd (create_inode fs p n dir))"
proof -
  have "unat (next_inode fs + 1) = Suc (unat (next_inode fs))"
    using has_room_inode [OF assms] by (metis Suc_eq_plus1 add.commute add.inverse_unique unatSuc zero_less_Suc)
  with assms show ?thesis
    by (auto simp: create_inode_def has_room_def allocate_inode_def time_now_eq Let_def split: file_content.splits)
qed

lemma create_inode_dom:
  "create_inode fs p n dir = (Inr i, fs') \<Longrightarrow> i \<in> dom (inode_table fs')"
  by (auto simp: create_inode_def allocate_inode_def time_now_eq Let_def split: file_content.splits if_splits)

lemma create_inode_dir:
  assumes "fs_wf fs" and "p \<in> dom (inode_table fs)" and "create_inode fs p n dir = (Inr i, fs')"
  shows "is_file_inode (inode_of fs' i) = (\<not> dir)" and "p \<in> dom (inode_table fs')"
proof -
  obtain es where es: "content (inode_of fs p) = Dir es"
    using assms(3) by (cases "content (inode_of fs p)") (auto simp: create_inode_file)
  have "p \<noteq> next_inode fs"
    using fs_wf_inode_less [OF assms(1,2)] by auto
  then show "is_file_inode (inode_of fs' i) = (\<not> dir)" and "p \<in> dom (inode_table fs')"
    using assms(3) unfolding create_inode_cases [OF assms(1,2) es]
    by (auto simp: inode_of_def split: if_splits)
qed

lemma fs_wf_open_lookup [wf_intros]:
  assumes "fs_wf fs" and "p \<in> dom (inode_table fs)" and "name_ok n" and "has_room 1 fs"
  shows "fs_wf (snd (open_lookup fs p n fl))"
  using fs_wf_create_inode [of fs p n False] has_room_inode [of 1 fs] assms
  by (auto simp: open_lookup_def split: sum.splits prod.splits)

lemma create_inode_next_fd: "next_fd (snd (create_inode fs p n dir)) = next_fd fs"
  by (simp add: create_inode_def allocate_inode_def time_now_eq Let_def split: file_content.splits)

lemma open_lookup_next_fd: "next_fd (snd (open_lookup fs p n fl)) = next_fd fs"
  using create_inode_next_fd [of fs p n False]
  by (auto simp: open_lookup_def split: sum.splits prod.splits)

lemma open_lookup_dom:
  "open_lookup fs p n fl = (Inr i, fs') \<Longrightarrow> i \<in> dom (inode_table fs')"
  by (auto simp: open_lookup_def dest: find_inode_dom create_inode_dom
      split: sum.splits prod.splits if_splits)

lemma truncate_inode_sel [simp]:
  "next_fd (truncate_inode fs i) = next_fd fs"
  "next_inode (truncate_inode fs i) = next_inode fs"
  "root_inode (truncate_inode fs i) = root_inode fs"
  "fd_table (truncate_inode fs i) = fd_table fs"
  by (simp_all add: truncate_inode_def Let_def time_now_eq split: file_content.splits)

lemma dom_truncate_inode:
  "i \<in> dom (inode_table fs) \<Longrightarrow> dom (inode_table (truncate_inode fs i)) = dom (inode_table fs)"
  by (auto simp: truncate_inode_def Let_def time_now_eq split: file_content.splits)

lemma fs_wf_truncate_inode [wf_intros]:
  assumes "fs_wf fs" and "i \<in> dom (inode_table fs)"
  shows "fs_wf (truncate_inode fs i)"
proof (cases "content (inode_of fs i)")
  case (File st)
  have "inode_wf (dom (inode_table fs)) i ((inode_of fs i)\<lparr>content := File (bs_truncate st 0),
      meta := (meta (inode_of fs i))\<lparr>md_size := 0, modified := clock fs\<rparr>\<rparr>)"
    using inode_wf_File [OF fs_wf_inode [OF assms] File]
    by (intro inode_wf_set_file [OF fs_wf_inode [OF assms] File]) (simp_all add: bs_inv_truncate)
  then show ?thesis
    using File assms fs_wf_update [of "fs\<lparr>clock := clock fs + 1\<rparr>" i]
    by (simp add: truncate_inode_def Let_def time_now_eq is_file_inode_def)
next
  case (Dir es)
  with assms show ?thesis by (simp add: truncate_inode_def Let_def)
qed

lemma fs_wf_open_inode [wf_intros]:
  assumes "fs_wf fs" and "i \<in> dom (inode_table fs)" and "next_fd fs \<noteq> - 1"
  shows "fs_wf (snd (open_inode fs i fl))"
proof -
  define gs where "gs = (if has_flag fl O_TRUNC then truncate_inode fs i else fs)"
  have gs: "fs_wf gs" "i \<in> dom (inode_table gs)" "next_fd gs \<noteq> - 1"
    using assms dom_truncate_inode [OF assms(2)] by (auto simp: gs_def fs_wf_truncate_inode)
  have "fs_wf (snd (install_handle gs (ino_id (inode_of gs i)) fl))"
    using gs by (simp add: ino_id_inode_of fs_wf_install_handle)
  with assms show ?thesis by (auto simp: open_inode_def gs_def Let_def split: if_splits)
qed

text \<open>Both opens end alike.\<close>

lemma fs_wf_open_tail:
  assumes "fs_wf fs" and "cur \<in> dom (inode_table fs)" and "name_ok n" and "has_room 1 fs"
  shows "fs_wf (snd (case open_lookup fs cur n fl of
      (Inl e, fs) \<Rightarrow> (Inl e, fs) | (Inr i, fs) \<Rightarrow> open_inode fs i fl))"
  using fs_wf_open_lookup [OF assms, of fl] open_lookup_next_fd [of fs cur n fl]
    open_lookup_dom [of fs cur n fl] has_room_fd [OF assms(4)]
  by (auto intro: fs_wf_open_inode split: sum.splits prod.splits)

lemma fs_wf_open_path_with_flags [wf_intros]:
  assumes "fs_wf fs" and "has_room 1 fs"
  shows "fs_wf (snd (open_path_with_flags fs path fl))"
proof (cases "walk_parent fs (path_comps path)")
  case (Inl e)
  with assms show ?thesis
    by (simp add: open_path_with_flags_def Let_def fs_wf_install_handle fs_wf_root has_room_fd)
next
  case (Inr cur)
  note tail = fs_wf_open_tail [OF assms(1) _ _ assms(2), of cur "last (path_comps path)" fl]
  show ?thesis
  proof (cases "path = [] \<or> path_comps path = []")
    case True
    with assms show ?thesis
      by (auto simp: open_path_with_flags_def Let_def fs_wf_install_handle fs_wf_root has_room_fd)
  next
    case False
    then show ?thesis
      using tail walk_parent_ok [OF assms(1) Inr] last_path_comps [of path] Inr
      by (simp add: open_path_with_flags_def Let_def)
  qed
qed

lemma fs_wf_open_at [wf_intros]:
  assumes "fs_wf fs" and "has_room 1 fs"
  shows "fs_wf (snd (open_at fs d path fl))"
proof -
  have tail: "fs_wf (snd (case open_lookup fs cur (last (split_path path)) fl of
      (Inl e, fs) \<Rightarrow> (Inl e, fs) | (Inr i, fs) \<Rightarrow> open_inode fs i fl))"
    if "walk_dirs fs dir (butlast (split_path path)) = Inr cur" and "dir \<in> dom (inode_table fs)"
      and "\<not> is_file_inode (inode_of fs dir)" and "split_path path \<noteq> []" for dir cur
    using that assms walk_dirs_ok [OF that(1-3)] split_path_names [of "last (split_path path)" path]
    by (intro fs_wf_open_tail) auto
  show ?thesis
    using assms(1) by (auto simp: open_at_def Let_def intro!: tail split: option.splits sum.splits)
qed

lemma fs_wf_write_with [wf_intros]:
  assumes "fs_wf fs" shows "fs_wf (snd (write_with posf fs d buf))"
proof -
  have "fs_wf (snd (write_through fs d i ino st pos buf))"
    if "inode_table fs i = Some ino" and "content ino = File st" for i ino st pos
  proof -
    have i: "i \<in> dom (inode_table fs)" using that by auto
    have "bs_inv (snd (bs_write st pos buf))"
      using fs_wf_inode [OF assms i] that by (auto intro: bs_inv_write dest: inode_wf_File)
    then show ?thesis
      using that assms i fs_wf_inode [OF assms i]
      by (auto simp: write_through_def time_now_eq Let_def split: prod.splits
          intro!: fs_wf_set_position fs_wf_update inode_wf_set_file)
  qed
  with assms show ?thesis
    by (simp add: write_with_def split: option.splits file_content.splits)
qed

lemma fs_wf_read_with [wf_intros]: "fs_wf fs \<Longrightarrow> fs_wf (snd (read_with posf fs d out))"
  by (auto simp: read_with_def intro: fs_wf_set_position
      split: option.splits file_content.splits prod.splits)

lemma fs_wf_ftruncate [wf_intros]:
  assumes "fs_wf fs" shows "fs_wf (snd (ftruncate fs d n))"
proof -
  have "fs_wf (inode_insert (fs\<lparr>clock := c\<rparr>) i (ino\<lparr>content := File (bs_truncate st (unat n)),
      meta := (meta ino)\<lparr>md_size := n, modified := t\<rparr>\<rparr>))"
    if "inode_table fs i = Some ino" and "content ino = File st" for i ino st c t
  proof -
    have i: "i \<in> dom (inode_table fs)" and ino: "inode_wf (dom (inode_table fs)) i ino"
      using that fs_wf_inode [OF assms, of i] by auto
    then show ?thesis
      using that assms inode_wf_File [OF ino that(2)]
      by (auto intro!: fs_wf_update inode_wf_set_file [OF ino] bs_inv_truncate)
  qed
  with assms show ?thesis
    by (auto simp: ftruncate_def time_now_eq split: option.splits file_content.splits)
qed

lemma fs_wf_seek [wf_intros]: "fs_wf fs \<Longrightarrow> fs_wf (snd (seek fs d off wh))"
  by (auto simp: seek_def Let_def intro: fs_wf_set_position
      split: option.splits file_content.splits)

lemma fs_wf_close [wf_intros]: "fs_wf fs \<Longrightarrow> fs_wf (snd (fs_close fs d))"
  by (auto simp: fs_close_def fd_remove_def fs_wf_def split: option.splits)

lemma fs_wf_mkdir [wf_intros]:
  assumes "fs_wf fs" and "has_room 1 fs"
  shows "fs_wf (snd (mkdir fs path))"
proof -
  have "fs_wf (snd (create_inode fs cur (last (path_comps path)) True))"
    if "walk_parent fs (path_comps path) = Inr cur" and "path_comps path \<noteq> []" for cur
    using that assms walk_parent_ok [OF assms(1) that(1)] last_path_comps has_room_inode
    by (intro fs_wf_create_inode) auto
  with assms(1) show ?thesis
    by (auto simp: mkdir_def Let_def split: sum.splits prod.splits)
qed

lemma fs_wf_mkdir_p_loop:
  assumes "fs_wf fs" and "cur \<in> dom (inode_table fs)" and "has_room (length cs) fs"
    and "\<forall>c \<in> set cs. name_ok c"
  shows "fs_wf (snd (mkdir_p_loop fs cur cs))"
  using assms
proof (induction cs arbitrary: fs cur)
  case Nil
  then show ?case by simp
next
  case (Cons c cs)
  have room: "has_room (length cs) fs" "next_inode fs \<noteq> - 1"
    using Cons.prems(3) has_room_inode [of "Suc (length cs)" fs] by (auto simp: has_room_def)
  obtain r fs' where cr: "create_inode fs cur c True = (r, fs')" by fastforce
  have fs': "fs_wf fs'" "has_room (length cs) fs'"
    using Cons.prems room has_room_create [of "length cs" fs cur c True]
      fs_wf_create_inode [of fs cur c True] by (auto simp: cr)
  have found: "fs_wf (snd (mkdir_p_loop fs i cs))" if "find_inode fs cur c = Inr i" for i
    using Cons.IH [of fs i] Cons.prems room find_inode_dom [OF that] by auto
  have made: "fs_wf (snd (mkdir_p_loop fs' i cs))" if "i \<in> dom (inode_table fs')" for i
    using Cons.IH [of fs' i] Cons.prems fs' that by auto
  show ?case
    using Cons.prems(1) fs' found made create_inode_dom [of fs cur c True] find_inode_dom [of fs' cur c]
    by (auto simp: cr split: sum.splits)
qed

lemma fs_wf_mkdir_p [wf_intros]:
  assumes "fs_wf fs" and "has_room (length (path_comps path)) fs"
  shows "fs_wf (snd (mkdir_p fs path))"
  using assms fs_wf_root [OF assms(1)] path_comps_names
  by (auto simp: mkdir_p_def Let_def intro!: fs_wf_mkdir_p_loop split: option.splits)

lemma fs_wf_remove_entry [wf_intros]:
  assumes "fs_wf fs" and "cur \<in> dom (inode_table fs)"
  shows "fs_wf (snd (remove_entry fs cur n))"
proof (cases "content (inode_of fs cur)")
  case (File st)
  with assms show ?thesis by (simp add: remove_entry_def Let_def)
next
  case (Dir es)
  then show ?thesis
    using assms fs_wf_inode [OF assms] inode_wf_Dir [OF fs_wf_inode [OF assms] Dir]
    by (auto simp: remove_entry_def Let_def time_now_eq is_file_inode_def
        intro!: fs_wf_update inode_wf_set_dir entries_ok_remove)
qed

lemma fs_wf_unlink [wf_intros]: "fs_wf fs \<Longrightarrow> fs_wf (snd (unlink fs path))"
  using fs_wf_remove_entry walk_parent_ok
  by (auto simp: unlink_def Let_def split: sum.splits)

lemma fs_wf_rmdir [wf_intros]: "fs_wf fs \<Longrightarrow> fs_wf (snd (rmdir fs path))"
  using fs_wf_remove_entry walk_parent_ok
  by (auto simp: rmdir_def Let_def split: sum.splits file_content.splits)

lemma fs_wf_rename_move [wf_intros]:
  assumes wf: "fs_wf fs" and op: "op \<in> dom (inode_table fs)" and np: "np \<in> dom (inode_table fs)"
    and nn: "name_ok nn"
  shows "fs_wf (snd (rename_move fs op on np nn ts))"
proof -
  let ?D = "dom (inode_table fs)"
  have dir: "fs_wf (inode_insert gs p ((inode_of gs p)\<lparr>content := Dir es',
        meta := (meta (inode_of gs p))\<lparr>modified := ts\<rparr>\<rparr>))"
    if "fs_wf gs" "p \<in> dom (inode_table gs)" "content (inode_of gs p) = Dir es"
      "entries_ok (dom (inode_table gs)) es'" for gs p es es'
    using that fs_wf_inode [OF that(1,2)]
    by (auto simp: is_file_inode_def intro!: fs_wf_update inode_wf_set_dir)
  have old: "entries_ok ?D es \<and> (\<forall>i. map_of es on = Some i \<longrightarrow> i \<in> ?D)"
    if "content (inode_of fs op) = Dir es" for es
    using inode_wf_Dir [OF fs_wf_inode [OF wf op] that] by (auto simp: entries_ok_def)
  have moved: "fs_wf (inode_insert fs op ((inode_of fs op)\<lparr>content := Dir (bt_remove on es),
      meta := (meta (inode_of fs op))\<lparr>modified := ts\<rparr>\<rparr>))"
    if "content (inode_of fs op) = Dir es" for es
    using dir [OF wf op that] old [OF that] by (simp add: entries_ok_remove)
  have dom: "insert op ?D = ?D" using op by auto
  show ?thesis
  proof (cases "content (inode_of fs op)")
    case (File st)
    with wf show ?thesis by (simp add: rename_move_def Let_def)
  next
    case (Dir es)
    let ?gs = "inode_insert fs op ((inode_of fs op)\<lparr>content := Dir (bt_remove on es),
      meta := (meta (inode_of fs op))\<lparr>modified := ts\<rparr>\<rparr>)"
    have "np \<in> dom (inode_table ?gs)" using np by auto
    then have "fs_wf (inode_insert ?gs np ((inode_of ?gs np)\<lparr>content := Dir (bt_insert nn i es'),
        meta := (meta (inode_of ?gs np))\<lparr>modified := ts\<rparr>\<rparr>))"
      if "content (inode_of ?gs np) = Dir es'" and "map_of es on = Some i" for es' i
      using dir [OF moved [OF Dir] _ that(1)] nn old [OF Dir] that
        inode_wf_Dir [OF fs_wf_inode [OF moved [OF Dir]] that(1)] dom
      by (simp add: entries_ok_insert)
    then show ?thesis
      using Dir wf moved [OF Dir] dir [OF wf op Dir] old [OF Dir] nn
      by (auto simp: rename_move_def Let_def entries_ok_insert entries_ok_remove
          split: option.splits file_content.splits)
  qed
qed

lemma fs_wf_rename [wf_intros]:
  assumes "fs_wf fs" shows "fs_wf (snd (rename fs old new))"
proof -
  have "fs_wf (snd (rename_move (fs\<lparr>clock := c\<rparr>) op on np (last (path_comps new)) ts))"
    if "walk_parent fs (path_comps old) = Inr op" "walk_parent fs (path_comps new) = Inr np"
      "path_comps new \<noteq> []" for op np on c ts
    using that assms walk_parent_ok [OF assms] last_path_comps
    by (intro fs_wf_rename_move) auto
  with assms show ?thesis
    by (auto simp: rename_def Let_def time_now_eq split: sum.splits option.splits)
qed

section \<open>The file system as a state machine\<close>

datatype fs_call =
    COpenPath string u32
  | COpenAt fd string u32
  | CWrite fd bytes
  | CWriteAt fd u64 bytes
  | CAppendWrite fd bytes
  | CRead fd bytes
  | CReadAt fd u64 bytes
  | CFtruncate fd u64
  | CClose fd
  | CSeek fd i64 i32
  | CMkdir string
  | CMkdirP string
  | CUnlink string
  | CRmdir string
  | CRename string string

fun fs_exec :: "fs_call \<Rightarrow> fs \<Rightarrow> fs" where
  "fs_exec (COpenPath p fl) fs = snd (open_path_with_flags fs p fl)"
| "fs_exec (COpenAt d p fl) fs = snd (open_at fs d p fl)"
| "fs_exec (CWrite d b) fs = snd (fs_write fs d b)"
| "fs_exec (CWriteAt d off b) fs = snd (write_at fs d off b)"
| "fs_exec (CAppendWrite d b) fs = snd (append_write fs d b)"
| "fs_exec (CRead d b) fs = snd (fs_read fs d b)"
| "fs_exec (CReadAt d off b) fs = snd (read_at fs d off b)"
| "fs_exec (CFtruncate d n) fs = snd (ftruncate fs d n)"
| "fs_exec (CClose d) fs = snd (fs_close fs d)"
| "fs_exec (CSeek d off wh) fs = snd (seek fs d off wh)"
| "fs_exec (CMkdir p) fs = snd (mkdir fs p)"
| "fs_exec (CMkdirP p) fs = snd (mkdir_p fs p)"
| "fs_exec (CUnlink p) fs = snd (unlink fs p)"
| "fs_exec (CRmdir p) fs = snd (rmdir fs p)"
| "fs_exec (CRename p q) fs = snd (rename fs p q)"

fun call_need :: "fs_call \<Rightarrow> nat" where
  "call_need (CMkdirP p) = length (path_comps p)"
| "call_need c = 1"

inductive fs_reachable :: "fs \<Rightarrow> bool" where
  fs_init: "fs_reachable fs_new"
| fs_call: "fs_reachable fs \<Longrightarrow> has_room (call_need c) fs \<Longrightarrow> fs_reachable (fs_exec c fs)"

lemma fs_wf_new: "fs_wf fs_new"
  by (simp add: fs_new_def with_time_provider_def counter_new_def counter_now_def empty_with_def
      Let_def fs_wf_def inode_wf_def new_dir_def is_file_inode_def)

lemma fs_wf_exec: "fs_wf fs \<Longrightarrow> has_room (call_need c) fs \<Longrightarrow> fs_wf (fs_exec c fs)"
  by (cases c) (simp_all add: fs_write_def write_at_def append_write_def fs_read_def read_at_def wf_intros)

lemma fs_reachable_wf: "fs_reachable fs \<Longrightarrow> fs_wf fs"
  by (induction rule: fs_reachable.induct) (auto intro: fs_wf_new fs_wf_exec)

end
