(* ===== verification/Fs_Tree.thy ===== *)
theory Fs_Tree
  imports Fs_Inv "HOL-Library.Sublist"
begin

text \<open>
  The directory graph of a file system. \<open>child\<close> is the edge function, \<open>descend\<close> follows a
  list of names. The locale \<open>dir_tree\<close> states what makes path names unambiguous (an inode has
  at most one entry, the root has none) and derives how paths react to one changed entry; it is
  interpreted on the model, and every operation keeps the property.
\<close>

section \<open>Edges and paths\<close>

definition child :: "fs \<Rightarrow> inode_id \<Rightarrow> string \<Rightarrow> inode_id option" where
  "child fs p n =
     (case inode_table fs p of
        None \<Rightarrow> None
      | Some ino \<Rightarrow> (case content ino of Dir es \<Rightarrow> map_of es n | File _ \<Rightarrow> None))"

fun descend :: "('i \<Rightarrow> 'n \<Rightarrow> 'i option) \<Rightarrow> 'i \<Rightarrow> 'n list \<Rightarrow> 'i option" where
  "descend ch cur [] = Some cur"
| "descend ch cur (c # cs) = Option.bind (ch cur c) (\<lambda>i. descend ch i cs)"

lemma descend_append: "descend ch r (cs @ ds) = Option.bind (descend ch r cs) (\<lambda>q. descend ch q ds)"
  by (induction cs arbitrary: r) (auto split: Option.bind_splits)

text \<open>Setting the edge \<open>n\<close> of \<open>p\<close>.\<close>

definition set_edge :: "('i \<Rightarrow> 'n \<Rightarrow> 'i option) \<Rightarrow> 'i \<Rightarrow> 'n \<Rightarrow> 'i option \<Rightarrow> ('i \<Rightarrow> 'n \<Rightarrow> 'i option)" where
  "set_edge ch p n v = ch(p := (ch p)(n := v))"

lemma set_edge_apply: "set_edge ch p n v q m = (if q = p \<and> m = n then v else ch q m)"
  by (simp add: set_edge_def)

definition tree :: "('i \<Rightarrow> 'n \<Rightarrow> 'i option) \<Rightarrow> 'i \<Rightarrow> bool" where
  "tree ch r \<longleftrightarrow>
     (\<forall>p n p' n' i. ch p n = Some i \<longrightarrow> ch p' n' = Some i \<longrightarrow> p = p' \<and> n = n') \<and>
     (\<forall>p n. ch p n \<noteq> Some r)"

lemma tree_parent: "tree ch r \<Longrightarrow> ch p n = Some i \<Longrightarrow> ch p' n' = Some i \<Longrightarrow> p = p' \<and> n = n'"
  unfolding tree_def by blast

lemma tree_root: "tree ch r \<Longrightarrow> ch p n \<noteq> Some r"
  unfolding tree_def by blast

lemma tree_remove: "tree ch r \<Longrightarrow> tree (set_edge ch p n None) r"
  unfolding tree_def set_edge_apply by (meson option.distinct(1))

lemma tree_insert:
  "tree ch r \<Longrightarrow> (\<And>q m. ch q m \<noteq> Some i) \<Longrightarrow> i \<noteq> r \<Longrightarrow> tree (set_edge ch p n (Some i)) r"
  unfolding tree_def set_edge_apply by (metis option.inject)

lemma tree_no_edge_after_remove:
  "tree ch r \<Longrightarrow> ch p n = Some i \<Longrightarrow> set_edge ch p n None q m \<noteq> Some i"
  unfolding tree_def set_edge_apply by (metis option.distinct(1))

text \<open>
  An edge that no path from \<open>a\<close> can use does not matter below \<open>a\<close>.
\<close>

lemma descend_set_edge_unused:
  "(\<And>ds. descend ch a ds \<noteq> Some p) \<Longrightarrow> descend (set_edge ch p n v) a cs = descend ch a cs"
proof (induction cs arbitrary: a)
  case Nil
  then show ?case by simp
next
  case (Cons c cs)
  from Cons.prems [of "[]"] have "a \<noteq> p" by simp
  then have e: "set_edge ch p n v a c = ch a c" by (simp add: set_edge_apply)
  show ?case
  proof (cases "ch a c")
    case None
    with e show ?thesis by simp
  next
    case (Some b)
    have "descend ch b ds \<noteq> Some p" for ds
      using Cons.prems [of "c # ds"] Some by simp
    with Cons.IH Some e show ?thesis by simp
  qed
qed

text \<open>No aliasing: different name lists never reach the same node.\<close>

lemma descend_inj:
  assumes t: "tree ch r" and "descend ch r cs = Some i" and "descend ch r ds = Some i"
  shows "cs = ds"
  using assms(2,3)
proof (induction cs arbitrary: ds i rule: rev_induct)
  case Nil
  then show ?case
    using tree_root [OF t]
    by (cases ds rule: rev_cases) (auto simp: descend_append split: Option.bind_splits)
next
  case (snoc c cs)
  from snoc.prems(1) obtain p where p: "descend ch r cs = Some p" "ch p c = Some i"
    by (auto simp: descend_append split: Option.bind_splits)
  with snoc.prems(2) tree_root [OF t] obtain ds' d where ds: "ds = ds' @ [d]"
    by (cases ds rule: rev_cases) auto
  with snoc.prems(2) obtain q where q: "descend ch r ds' = Some q" "ch q d = Some i"
    by (auto simp: descend_append split: Option.bind_splits)
  with p have "p = q" "c = d" using tree_parent [OF t] by blast+
  with snoc.IH p(1) q(1) ds show ?case by blast
qed

text \<open>Changing the entry \<open>n\<close> of the node at path \<open>pcs\<close> leaves every path alone that does
  not go through \<open>pcs @ [n]\<close>.\<close>

lemma descend_set_edge_other:
  assumes t: "tree ch r" and p: "descend ch r pcs = Some p" and "\<not> prefix (pcs @ [n]) cs"
  shows "descend (set_edge ch p n v) r cs = descend ch r cs"
  using assms(3)
proof (induction cs rule: rev_induct)
  case Nil
  then show ?case by simp
next
  case (snoc c cs)
  from snoc.prems have no: "\<not> prefix (pcs @ [n]) cs" "pcs @ [n] \<noteq> cs @ [c]"
    by (auto simp: prefix_snoc)
  have "set_edge ch p n v q c = ch q c" if "descend ch r cs = Some q" for q
    using no(2) descend_inj [OF t that, of pcs] p by (auto simp: set_edge_apply)
  with snoc.IH [OF no(1)] show ?case
    by (auto simp: descend_append split: Option.bind_splits)
qed

lemma descend_set_edge_through:
  assumes "tree ch r" and "descend ch r pcs = Some p"
  shows "descend (set_edge ch p n v) r (pcs @ n # ds) =
    Option.bind v (\<lambda>i. descend (set_edge ch p n v) i ds)"
  using descend_set_edge_other [OF assms, of n pcs v] assms(2)
  by (simp add: descend_append set_edge_apply)

lemma descend_remove:
  assumes "tree ch r" and "descend ch r pcs = Some p"
  shows "descend (set_edge ch p n None) r cs =
    (if prefix (pcs @ [n]) cs then None else descend ch r cs)"
  using descend_set_edge_other [OF assms] descend_set_edge_through [OF assms]
  by (auto elim!: prefixE)

text \<open>A new leaf: a node without children appears under a new name.\<close>

lemma descend_new_leaf:
  assumes "tree ch r" and "descend ch r pcs = Some p"
    and leaf: "\<And>m. ch i m = None" and "i \<noteq> p" and new: "ch p n = None"
  shows "descend (set_edge ch p n (Some i)) r cs =
    (if cs = pcs @ [n] then Some i else descend ch r cs)"
proof (cases "prefix (pcs @ [n]) cs")
  case False
  then show ?thesis using descend_set_edge_other [OF assms(1,2)] by auto
next
  case True
  then obtain ds where cs: "cs = pcs @ n # ds" by (auto elim: prefixE)
  have "descend ch r cs = None"
    using assms(2) new by (simp add: cs descend_append)
  moreover have "descend (set_edge ch p n (Some i)) i ds = (if ds = [] then Some i else None)"
    using leaf assms(4) by (cases ds) (auto simp: set_edge_apply)
  ultimately show ?thesis
    unfolding cs using descend_set_edge_through [OF assms(1,2), of n "Some i" ds] by simp
qed

text \<open>The parent of an entry is not below the entry.\<close>

lemma parent_not_below:
  assumes "tree ch r" and "descend ch r pcs = Some p" and "ch p n = Some i"
  shows "descend ch i ds \<noteq> Some p"
proof
  assume "descend ch i ds = Some p"
  with assms have "descend ch r (pcs @ n # ds) = Some p" by (simp add: descend_append)
  with descend_inj [OF assms(1,2), of "pcs @ n # ds"] show False by simp
qed

text \<open>Moving the subtree at \<open>ocs @ [on]\<close> to \<open>ncs @ [nn]\<close>, outside of itself.\<close>

lemma descend_move:
  assumes t: "tree ch r" and op: "descend ch r ocs = Some op" and on: "ch op on = Some i"
    and np: "descend ch r ncs = Some np" and out: "\<not> prefix (ocs @ [on]) ncs"
  shows "descend (set_edge (set_edge ch op on None) np nn (Some i)) r cs =
    (if prefix (ncs @ [nn]) cs then descend ch r (ocs @ on # drop (Suc (length ncs)) cs)
     else if prefix (ocs @ [on]) cs then None else descend ch r cs)"
proof -
  let ?c1 = "set_edge ch op on None"
  have t1: "tree ?c1 r" using t by (rule tree_remove)
  have np1: "descend ?c1 r ncs = Some np"
    using descend_remove [OF t op, of on ncs] out np by simp
  have below: "descend ch i ds \<noteq> Some np" for ds
  proof
    assume "descend ch i ds = Some np"
    with op on have "descend ch r (ocs @ on # ds) = Some np" by (simp add: descend_append)
    with descend_inj [OF t np, of "ocs @ on # ds"] have "ncs = ocs @ on # ds" by simp
    with out show False by simp
  qed
  have c1: "descend ?c1 i ds = descend ch i ds" for ds
    using parent_not_below [OF t op on] by (rule descend_set_edge_unused)
  have sub: "descend (set_edge ?c1 np nn (Some i)) i ds = descend ch i ds" for ds
    using below by (subst descend_set_edge_unused) (simp_all add: c1)
  show ?thesis
  proof (cases "prefix (ncs @ [nn]) cs")
    case True
    then obtain ds where cs: "cs = ncs @ nn # ds" by (auto elim: prefixE)
    then show ?thesis
      using descend_set_edge_through [OF t1 np1, of nn "Some i" ds] op on
      by (simp add: sub descend_append)
  next
    case False
    then show ?thesis
      using descend_set_edge_other [OF t1 np1, of nn cs "Some i"] descend_remove [OF t op, of on cs]
      by simp
  qed
qed

text \<open>Moving a subtree below itself detaches it from the root.\<close>

lemma descend_move_inside:
  assumes t: "tree ch r" and op: "descend ch r ocs = Some op" and on: "ch op on = Some i"
    and np: "descend ch r (ocs @ on # ds) = Some np"
  shows "descend (set_edge (set_edge ch op on None) np nn (Some i)) r cs =
    (if prefix (ocs @ [on]) cs then None else descend ch r cs)"
proof -
  let ?c1 = "set_edge ch op on None"
  have "descend ?c1 r es \<noteq> Some np" for es
  proof
    assume "descend ?c1 r es = Some np"
    then have "\<not> prefix (ocs @ [on]) es" and "descend ch r es = Some np"
      using descend_remove [OF t op, of on es] by (auto split: if_splits)
    with descend_inj [OF t np, of es] show False by auto
  qed
  then show ?thesis
    by (simp add: descend_set_edge_unused descend_remove [OF t op])
qed

section \<open>The file system's directory tree\<close>

text \<open>The interface the path-level properties rely on.\<close>

locale dir_tree =
  fixes inv :: "'s \<Rightarrow> bool"
    and ch :: "'s \<Rightarrow> 'i \<Rightarrow> 'n \<Rightarrow> 'i option"
    and root :: "'s \<Rightarrow> 'i"
  assumes is_tree: "inv s \<Longrightarrow> tree (ch s) (root s)"
begin

lemma no_alias:
  "inv s \<Longrightarrow> descend (ch s) (root s) cs = Some i \<Longrightarrow> descend (ch s) (root s) ds = Some i \<Longrightarrow> cs = ds"
  using is_tree descend_inj by metis

lemma remove_path:
  "inv s \<Longrightarrow> descend (ch s) (root s) pcs = Some p \<Longrightarrow>
    descend (set_edge (ch s) p n None) (root s) cs =
      (if prefix (pcs @ [n]) cs then None else descend (ch s) (root s) cs)"
  using is_tree descend_remove by metis

lemma other_path:
  "inv s \<Longrightarrow> descend (ch s) (root s) pcs = Some p \<Longrightarrow> \<not> prefix (pcs @ [n]) cs \<Longrightarrow>
    descend (set_edge (ch s) p n v) (root s) cs = descend (ch s) (root s) cs"
  using is_tree descend_set_edge_other by metis

lemma new_leaf_path:
  "inv s \<Longrightarrow> descend (ch s) (root s) pcs = Some p \<Longrightarrow> (\<And>m. ch s i m = None) \<Longrightarrow> i \<noteq> p \<Longrightarrow>
    ch s p n = None \<Longrightarrow>
    descend (set_edge (ch s) p n (Some i)) (root s) cs =
      (if cs = pcs @ [n] then Some i else descend (ch s) (root s) cs)"
  using is_tree descend_new_leaf by metis

lemma move_path:
  "inv s \<Longrightarrow> descend (ch s) (root s) ocs = Some op \<Longrightarrow> ch s op on = Some i \<Longrightarrow>
    descend (ch s) (root s) ncs = Some np \<Longrightarrow> \<not> prefix (ocs @ [on]) ncs \<Longrightarrow>
    descend (set_edge (set_edge (ch s) op on None) np nn (Some i)) (root s) cs =
      (if prefix (ncs @ [nn]) cs then descend (ch s) (root s) (ocs @ on # drop (Suc (length ncs)) cs)
       else if prefix (ocs @ [on]) cs then None else descend (ch s) (root s) cs)"
  using is_tree descend_move by metis

lemma move_inside_path:
  "inv s \<Longrightarrow> descend (ch s) (root s) ocs = Some op \<Longrightarrow> ch s op on = Some i \<Longrightarrow>
    descend (ch s) (root s) (ocs @ on # ds) = Some np \<Longrightarrow>
    descend (set_edge (set_edge (ch s) op on None) np nn (Some i)) (root s) cs =
      (if prefix (ocs @ [on]) cs then None else descend (ch s) (root s) cs)"
  using is_tree descend_move_inside by metis

end

text \<open>Well formed, and every inode has at most one name and the root none.\<close>

definition fs_inv :: "fs \<Rightarrow> bool" where
  "fs_inv fs \<longleftrightarrow> fs_wf fs \<and> tree (child fs) (root_inode fs)"

interpretation ft: dir_tree fs_inv child root_inode
  by unfold_locales (simp add: fs_inv_def)

end
