(* ===== verification/Fs_Spec.thy ===== *)
theory Fs_Spec
  imports Fs_Tree
begin

text \<open>
  The abstract file system: a map from normalised paths (lists of names) to files with their
  bytes and directories. The \<open>spec_\<close> functions say what each call promises on it, errors
  included; the lemmas show that the inode-based implementation refines them, and that the
  directory tree stays a tree.
\<close>

section \<open>Abstraction\<close>

datatype node = FileN bytes | DirN

type_synonym afs = "string list \<rightharpoonup> node"

definition node_of :: "fs \<Rightarrow> inode_id \<Rightarrow> node" where
  "node_of fs i =
     (case content (inode_of fs i) of File st \<Rightarrow> FileN (contents st) | Dir _ \<Rightarrow> DirN)"

definition abs_fs :: "fs \<Rightarrow> afs" where
  "abs_fs fs cs = map_option (node_of fs) (descend (child fs) (root_inode fs) cs)"

text \<open>The first component that is missing or a file decides the error.\<close>

fun resolve_from :: "afs \<Rightarrow> string list \<Rightarrow> string list \<Rightarrow> fs_error + unit" where
  "resolve_from A pre [] = Inr ()"
| "resolve_from A pre (c # cs) =
     (case A (pre @ [c]) of
        None \<Rightarrow> Inl NotFound
      | Some (FileN _) \<Rightarrow> Inl NotADirectory
      | Some DirN \<Rightarrow> resolve_from A (pre @ [c]) cs)"

definition spec_mkdir :: "afs \<Rightarrow> string \<Rightarrow> (fs_error + unit) \<times> afs" where
  "spec_mkdir A path =
     (let cs = path_comps path in
      if cs = [] then (Inl InvalidArgument, A)
      else case resolve_from A [] (butlast cs) of
        Inl e \<Rightarrow> (Inl e, A)
      | Inr _ \<Rightarrow> if A cs \<noteq> None then (Inl AlreadyExists, A) else (Inr (), A(cs \<mapsto> DirN)))"

definition spec_unlink :: "afs \<Rightarrow> string \<Rightarrow> (fs_error + unit) \<times> afs" where
  "spec_unlink A path =
     (let cs = path_comps path in
      if cs = [] then (Inl InvalidArgument, A)
      else case resolve_from A [] (butlast cs) of
        Inl e \<Rightarrow> (Inl e, A)
      | Inr _ \<Rightarrow>
          (case A cs of
             None \<Rightarrow> (Inl NotFound, A)
           | Some DirN \<Rightarrow> (Inl IsADirectory, A)
           | Some (FileN _) \<Rightarrow> (Inr (), A(cs := None))))"

definition spec_rmdir :: "afs \<Rightarrow> string \<Rightarrow> (fs_error + unit) \<times> afs" where
  "spec_rmdir A path =
     (let cs = path_comps path in
      if cs = [] then (Inl InvalidArgument, A)
      else case resolve_from A [] (butlast cs) of
        Inl e \<Rightarrow> (Inl e, A)
      | Inr _ \<Rightarrow>
          (case A cs of
             None \<Rightarrow> (Inl NotFound, A)
           | Some (FileN _) \<Rightarrow> (Inl NotADirectory, A)
           | Some DirN \<Rightarrow>
               if \<exists>n. A (cs @ [n]) \<noteq> None then (Inl NotEmpty, A) else (Inr (), A(cs := None))))"

section \<open>Lookups in terms of the tree\<close>

lemma child_dom: "fs_wf fs \<Longrightarrow> child fs p n = Some i \<Longrightarrow> i \<in> dom (inode_table fs)"
  unfolding child_def
  by (auto simp: fs_wf_def inode_wf_def entries_ok_def split: option.splits file_content.splits)

lemma child_src: "child fs p n = Some i \<Longrightarrow> p \<in> dom (inode_table fs) \<and> \<not> is_file_inode (inode_of fs p)"
  by (auto simp: child_def split: option.splits file_content.splits)

lemma child_cong: "inode_table fs = inode_table gs \<Longrightarrow> child fs = child gs"
  by (simp add: child_def fun_eq_iff)

lemma child_eq:
  "p \<in> dom (inode_table fs) \<Longrightarrow> content (inode_of fs p) = Dir es \<Longrightarrow> child fs p n = map_of es n"
  by (auto simp: child_def)

lemma child_file: "is_file_inode (inode_of fs p) \<Longrightarrow> child fs p n = None"
  by (auto simp: child_def is_file_inode_def split: option.splits file_content.splits)

lemma find_inode_child:
  assumes "fs_wf fs" and "p \<in> dom (inode_table fs)" and "\<not> is_file_inode (inode_of fs p)"
  shows "find_inode fs p n = ok_or (child fs p n) NotFound"
proof -
  obtain es where es: "content (inode_of fs p) = Dir es"
    using assms(3) by (rule not_is_file_inodeE)
  show ?thesis
    using find_inode_wf [OF assms(1,2) es] child_eq [OF assms(2) es] by (simp add: ok_or_def)
qed

lemma find_inode_file: "is_file_inode (inode_of fs p) \<Longrightarrow> find_inode fs p n = Inl NotADirectory"
  by (auto simp: find_inode_def is_file_inode_def split: file_content.splits)

lemma find_inode_Inr:
  assumes "fs_wf fs" and "p \<in> dom (inode_table fs)"
  shows "find_inode fs p n = Inr i \<longleftrightarrow> child fs p n = Some i"
  using find_inode_child [OF assms] find_inode_file [of fs p n] child_file [of fs p n]
  by (cases "is_file_inode (inode_of fs p)") auto

lemma walk_descend:
  assumes "fs_wf fs" and "cur \<in> dom (inode_table fs)"
  shows "walk fs cur cs = Inr i \<longleftrightarrow> descend (child fs) cur cs = Some i"
  using assms(2)
proof (induction cs arbitrary: cur)
  case Nil
  then show ?case by auto
next
  case (Cons c cs)
  show ?case
  proof (cases "find_inode fs cur c")
    case (Inl e)
    with find_inode_Inr [OF assms(1) Cons.prems, of c] show ?thesis
      by (cases "child fs cur c") auto
  next
    case (Inr j)
    then show ?thesis
      using find_inode_Inr [OF assms(1) Cons.prems, of c j] Cons.IH [OF find_inode_dom [OF Inr]] by simp
  qed
qed

lemma descend_dom:
  "fs_wf fs \<Longrightarrow> descend (child fs) cur cs = Some i \<Longrightarrow> cur \<in> dom (inode_table fs) \<Longrightarrow>
    i \<in> dom (inode_table fs)"
  by (induction cs arbitrary: cur) (auto simp: child_dom split: Option.bind_splits)

lemma descend_root_dom:
  "fs_wf fs \<Longrightarrow> descend (child fs) (root_inode fs) cs = Some i \<Longrightarrow> i \<in> dom (inode_table fs)"
  using descend_dom fs_wf_root by blast

lemma node_of_file: "is_file_inode (inode_of fs i) \<longleftrightarrow> (\<exists>b. node_of fs i = FileN b)"
  by (auto simp: node_of_def is_file_inode_def split: file_content.splits)

lemma node_of_dir: "\<not> is_file_inode (inode_of fs i) \<longleftrightarrow> node_of fs i = DirN"
  by (auto simp: node_of_def is_file_inode_def split: file_content.splits)

text \<open>Descending through directories, seen on the abstract map.\<close>

lemma walk_dirs_resolve:
  assumes "fs_wf fs" and "descend (child fs) (root_inode fs) pre = Some cur"
    and "\<not> is_file_inode (inode_of fs cur)"
  shows "case walk_dirs fs cur cs of
      Inl e \<Rightarrow> resolve_from (abs_fs fs) pre cs = Inl e
    | Inr i \<Rightarrow> resolve_from (abs_fs fs) pre cs = Inr ()
        \<and> descend (child fs) (root_inode fs) (pre @ cs) = Some i \<and> \<not> is_file_inode (inode_of fs i)"
  using assms(2,3)
proof (induction cs arbitrary: pre cur)
  case Nil
  then show ?case by simp
next
  case (Cons c cs)
  have find: "find_inode fs cur c = ok_or (child fs cur c) NotFound"
    using assms(1) descend_root_dom [OF assms(1) Cons.prems(1)] Cons.prems(2) by (rule find_inode_child)
  have ap: "descend (child fs) (root_inode fs) (pre @ [c]) = child fs cur c"
    using Cons.prems(1) by (simp add: descend_append)
  show ?case
  proof (cases "child fs cur c")
    case None
    then show ?thesis using find ap by (simp add: abs_fs_def)
  next
    case (Some j)
    then have A: "abs_fs fs (pre @ [c]) = Some (node_of fs j)"
      using ap by (simp add: abs_fs_def)
    show ?thesis
    proof (cases "is_file_inode (inode_of fs j)")
      case True
      then obtain b where "node_of fs j = FileN b" by (auto simp: node_of_file)
      with True Some find A show ?thesis by simp
    next
      case False
      then have "node_of fs j = DirN" by (simp add: node_of_dir)
      with False Some find A ap Cons.IH [of "pre @ [c]" j] show ?thesis
        by (simp split: sum.splits)
    qed
  qed
qed

lemma walk_parent_resolve:
  assumes "fs_wf fs"
  shows "case walk_parent fs cs of
      Inl e \<Rightarrow> resolve_from (abs_fs fs) [] (butlast cs) = Inl e
    | Inr p \<Rightarrow> resolve_from (abs_fs fs) [] (butlast cs) = Inr ()
        \<and> descend (child fs) (root_inode fs) (butlast cs) = Some p"
  using walk_dirs_resolve [OF assms, of "[]" "root_inode fs" "butlast cs"]
    fs_wf_root [OF assms] fs_wf_root_dir [OF assms]
  by (auto simp: walk_parent_def split: option.splits sum.splits)

lemma abs_fs_last:
  assumes "descend (child fs) (root_inode fs) (butlast cs) = Some p" and "cs \<noteq> []"
  shows "abs_fs fs cs = map_option (node_of fs) (child fs p (last cs))"
proof -
  have "descend (child fs) (root_inode fs) (butlast cs @ [last cs]) = child fs p (last cs)"
    using assms(1) by (simp add: descend_append)
  with assms(2) show ?thesis by (simp add: abs_fs_def)
qed

section \<open>Effects on the tree\<close>

lemma child_create_inode:
  assumes wf: "fs_wf fs" and p: "p \<in> dom (inode_table fs)"
    and cr: "create_inode fs p n dir = (Inr i, fs')"
  shows "child fs' = set_edge (child fs) p n (Some i)" and "child fs p n = None"
    and "\<And>m. child fs i m = None" and "i \<notin> dom (inode_table fs)"
    and "node_of fs' i = (if dir then DirN else FileN [])"
    and "\<And>j. j \<in> dom (inode_table fs) \<Longrightarrow> node_of fs' j = node_of fs j"
    and "root_inode fs' = root_inode fs" and "fd_table fs' = fd_table fs"
proof -
  obtain es where es: "content (inode_of fs p) = Dir es"
    using cr by (cases "content (inode_of fs p)") (auto simp: create_inode_file)
  have i: "i = next_inode fs" and new: "map_of es n = None"
    and fs': "fs' = fs\<lparr>next_inode := next_inode fs + 1, clock := clock fs + 1,
          inode_table := (inode_table fs)
            (next_inode fs \<mapsto> new_inode dir (next_inode fs) (clock fs),
             p \<mapsto> (inode_of fs p)\<lparr>content := Dir (bt_insert n (next_inode fs) es),
                   meta := (meta (inode_of fs p))\<lparr>modified := clock fs\<rparr>\<rparr>)\<rparr>"
    using cr unfolding create_inode_cases [OF wf p es] by (auto split: if_splits)
  show fresh: "i \<notin> dom (inode_table fs)"
    using fs_wf_inode_less [OF wf] i by blast
  with p have ne: "i \<noteq> p" by auto
  show "child fs p n = None"
    using child_eq [OF p es] new by simp
  show leaf: "child fs i m = None" for m
    using fresh by (auto simp: child_def domIff)
  have cn: "content (new_inode dir j t) = (if dir then Dir [] else File bs_new)" for j t
    by (simp add: new_inode_def new_dir_def new_file_def)
  have "child fs' q m = set_edge (child fs) p n (Some i) q m" for q m
  proof (cases "q = p")
    case True
    then show ?thesis
      using child_eq [OF p es] ne by (simp add: fs' i child_def map_of_bt_insert set_edge_apply)
  next
    case False
    then show ?thesis
      using leaf [of m] cn by (auto simp: fs' i child_def set_edge_apply split: option.splits)
  qed
  then show "child fs' = set_edge (child fs) p n (Some i)"
    by (simp add: fun_eq_iff)
  show "node_of fs' i = (if dir then DirN else FileN [])"
    using ne cn by (simp add: fs' i node_of_def inode_of_def)
  show "node_of fs' j = node_of fs j" if "j \<in> dom (inode_table fs)" for j
    using that fresh i es by (auto simp: fs' node_of_def inode_of_def split: option.splits)
  show "root_inode fs' = root_inode fs" and "fd_table fs' = fd_table fs"
    by (simp_all add: fs')
qed

lemma create_inode_result:
  assumes "fs_wf fs" and "p \<in> dom (inode_table fs)" and "\<not> is_file_inode (inode_of fs p)"
  shows "create_inode fs p n dir =
    (if child fs p n = None then (Inr (next_inode fs), snd (create_inode fs p n dir))
     else (Inl AlreadyExists, fs))"
proof -
  obtain es where es: "content (inode_of fs p) = Dir es"
    using assms(3) by (rule not_is_file_inodeE)
  show ?thesis
    using create_inode_cases [OF assms(1,2) es, of n dir] child_eq [OF assms(2) es, of n] by simp
qed

lemma child_remove_entry:
  assumes p: "p \<in> dom (inode_table fs)" and d: "\<not> is_file_inode (inode_of fs p)"
  shows "fst (remove_entry fs p n) = Inr ()"
    and "child (snd (remove_entry fs p n)) = set_edge (child fs) p n None"
    and "node_of (snd (remove_entry fs p n)) = node_of fs"
    and "root_inode (snd (remove_entry fs p n)) = root_inode fs"
    and "fd_table (snd (remove_entry fs p n)) = fd_table fs"
proof -
  obtain es where es: "content (inode_of fs p) = Dir es"
    using d by (rule not_is_file_inodeE)
  have "child (snd (remove_entry fs p n)) q m = set_edge (child fs) p n None q m" for q m
    using es child_eq [OF p es]
    by (auto simp: remove_entry_def Let_def time_now_eq child_def set_edge_apply map_of_bt_remove)
  then show "child (snd (remove_entry fs p n)) = set_edge (child fs) p n None"
    by (simp add: fun_eq_iff)
  show "node_of (snd (remove_entry fs p n)) = node_of fs"
    using es by (auto simp: remove_entry_def Let_def time_now_eq node_of_def inode_of_insert fun_eq_iff)
  show "fst (remove_entry fs p n) = Inr ()"
    and "root_inode (snd (remove_entry fs p n)) = root_inode fs"
    and "fd_table (snd (remove_entry fs p n)) = fd_table fs"
    using es by (simp_all add: remove_entry_def Let_def time_now_eq)
qed

section \<open>Effects on the abstract map\<close>

lemma fs_invD: "fs_inv fs \<Longrightarrow> fs_wf fs" "fs_inv fs \<Longrightarrow> tree (child fs) (root_inode fs)"
  by (simp_all add: fs_inv_def)

lemma abs_create_inode:
  assumes inv: "fs_inv fs" and p: "descend (child fs) (root_inode fs) pcs = Some p"
    and cr: "create_inode fs p n dir = (Inr i, fs')"
  shows "abs_fs fs' = (abs_fs fs)(pcs @ [n] \<mapsto> (if dir then DirN else FileN []))"
proof
  fix cs
  note wf = fs_invD(1) [OF inv]
  note pd = descend_root_dom [OF wf p]
  note c = child_create_inode [OF wf pd cr]
  have "descend (child fs') (root_inode fs') cs =
      (if cs = pcs @ [n] then Some i else descend (child fs) (root_inode fs) cs)"
    unfolding c(1,7) using inv p c pd by (intro ft.new_leaf_path) auto
  then show "abs_fs fs' cs = ((abs_fs fs)(pcs @ [n] \<mapsto> (if dir then DirN else FileN []))) cs"
    using c(5,6) descend_root_dom [OF wf, of cs] by (auto simp: abs_fs_def option.map_comp intro!: option.map_cong0)
qed

lemma abs_remove_entry:
  assumes inv: "fs_inv fs" and p: "descend (child fs) (root_inode fs) pcs = Some p"
    and "\<not> is_file_inode (inode_of fs p)"
  shows "abs_fs (snd (remove_entry fs p n)) cs =
    (if prefix (pcs @ [n]) cs then None else abs_fs fs cs)"
proof -
  note c = child_remove_entry [OF descend_root_dom [OF fs_invD(1) [OF inv] p] assms(3), of n]
  show ?thesis
    unfolding abs_fs_def c(2-4) by (simp add: ft.remove_path [OF inv p])
qed

text \<open>Nothing lies below a file, and nothing below a directory without entries.\<close>

lemma abs_below:
  assumes "fs_wf fs" and "abs_fs fs cs = Some nd" and "nd = DirN \<longrightarrow> (\<forall>n. abs_fs fs (cs @ [n]) = None)"
  shows "prefix cs ds \<Longrightarrow> ds \<noteq> cs \<Longrightarrow> abs_fs fs ds = None"
proof -
  assume "prefix cs ds" and "ds \<noteq> cs"
  then obtain d es where ds: "ds = cs @ d # es"
    by (metis append_Nil2 list.exhaust prefixE)
  obtain i where i: "descend (child fs) (root_inode fs) cs = Some i" and nd: "nd = node_of fs i"
    using assms(2) by (auto simp: abs_fs_def)
  have "child fs i d = None"
  proof (cases "is_file_inode (inode_of fs i)")
    case True
    then show ?thesis by (rule child_file)
  next
    case False
    with nd assms(3) have "abs_fs fs (cs @ [d]) = None" by (simp add: node_of_dir)
    with i show ?thesis by (simp add: abs_fs_def descend_append)
  qed
  with i ds show ?thesis by (simp add: abs_fs_def descend_append)
qed

lemma abs_remove_leaf:
  assumes "fs_inv fs" and "descend (child fs) (root_inode fs) (butlast cs) = Some p" and "cs \<noteq> []"
    and "\<not> is_file_inode (inode_of fs p)" and "abs_fs fs cs = Some nd"
    and "nd = DirN \<longrightarrow> (\<forall>n. abs_fs fs (cs @ [n]) = None)"
  shows "abs_fs (snd (remove_entry fs p (last cs))) = (abs_fs fs)(cs := None)"
  using abs_remove_entry [OF assms(1,2,4), of "last cs"] assms(3)
    abs_below [OF fs_invD(1) [OF assms(1)] assms(5,6)]
  by (auto simp: fun_eq_iff)

lemma walk_parent_dir:
  "fs_wf fs \<Longrightarrow> walk_parent fs cs = Inr p \<Longrightarrow> \<not> is_file_inode (inode_of fs p)"
  using walk_parent_ok by blast

section \<open>Refinement of the directory operations\<close>

text \<open>What a successful walk to the parent means, in one fact.\<close>

lemma walk_parentE:
  assumes "fs_wf fs" and "walk_parent fs cs = Inr p"
  shows "resolve_from (abs_fs fs) [] (butlast cs) = Inr ()"
    and "descend (child fs) (root_inode fs) (butlast cs) = Some p"
    and "p \<in> dom (inode_table fs)" and "\<not> is_file_inode (inode_of fs p)"
    and "find_inode fs p n = ok_or (child fs p n) NotFound"
    and "cs \<noteq> [] \<Longrightarrow> abs_fs fs cs = map_option (node_of fs) (child fs p (last cs))"
  using walk_parent_resolve [OF assms(1), of cs] walk_parent_ok [OF assms] assms
  by (auto simp: find_inode_child abs_fs_last)

lemma walk_parent_Inl:
  "fs_wf fs \<Longrightarrow> walk_parent fs cs = Inl e \<Longrightarrow> resolve_from (abs_fs fs) [] (butlast cs) = Inl e"
  using walk_parent_resolve [of fs cs] by simp

lemma path_comps_Nil [simp]: "path_comps [] = []"
  by (simp add: path_comps_def trim_start_matches_def)

lemma mkdir_spec:
  assumes inv: "fs_inv fs"
  shows "(fst (mkdir fs path), abs_fs (snd (mkdir fs path))) = spec_mkdir (abs_fs fs) path"
proof (cases "path_comps path = []")
  case True
  then show ?thesis by (simp add: mkdir_def spec_mkdir_def Let_def)
next
  case False
  define cs where "cs = path_comps path"
  have cs: "cs \<noteq> []" "path \<noteq> []" using False by (auto simp: cs_def)
  note wf = fs_invD(1) [OF inv]
  show ?thesis
  proof (cases "walk_parent fs cs")
    case (Inl e)
    then show ?thesis
      using walk_parent_Inl [OF wf Inl] cs by (simp add: mkdir_def spec_mkdir_def Let_def cs_def)
  next
    case (Inr p)
    note w = walk_parentE [OF wf Inr]
    obtain r fs' where cr: "create_inode fs p (last cs) True = (r, fs')" by fastforce
    show ?thesis
    proof (cases "child fs p (last cs)")
      case None
      then have "r = Inr (next_inode fs)"
        using create_inode_result [OF wf w(3,4), of "last cs" True] cr by simp
      with cr have "abs_fs fs' = (abs_fs fs)(cs \<mapsto> DirN)"
        using abs_create_inode [OF inv w(2), of "last cs" True] cs by simp
      with None Inr cr \<open>r = _\<close> show ?thesis
        using cs w(1) w(6) [OF cs(1)] by (simp add: mkdir_def spec_mkdir_def Let_def cs_def)
    next
      case (Some i)
      then have "r = Inl AlreadyExists" "fs' = fs"
        using create_inode_result [OF wf w(3,4), of "last cs" True] cr by simp_all
      with Some Inr cr show ?thesis
        using cs w(1) w(6) [OF cs(1)] by (simp add: mkdir_def spec_mkdir_def Let_def cs_def)
    qed
  qed
qed

lemma unlink_spec:
  assumes inv: "fs_inv fs"
  shows "(fst (unlink fs path), abs_fs (snd (unlink fs path))) = spec_unlink (abs_fs fs) path"
proof (cases "path_comps path = []")
  case True
  then show ?thesis by (simp add: unlink_def spec_unlink_def Let_def)
next
  case False
  define cs where "cs = path_comps path"
  have cs: "cs \<noteq> []" "path \<noteq> []" using False by (auto simp: cs_def)
  note wf = fs_invD(1) [OF inv]
  note unf = unlink_def spec_unlink_def Let_def cs_def [symmetric]
  show ?thesis
  proof (cases "walk_parent fs cs")
    case (Inl e)
    then show ?thesis using walk_parent_Inl [OF wf Inl] cs by (simp add: unf)
  next
    case (Inr p)
    note w = walk_parentE [OF wf Inr]
    show ?thesis
    proof (cases "abs_fs fs cs")
      case None
      then have "child fs p (last cs) = None" using w(6) [OF cs(1)] by simp
      then show ?thesis using None Inr w(1,5) cs by (simp add: unf)
    next
      case (Some nd)
      then obtain i where i: "child fs p (last cs) = Some i" "nd = node_of fs i"
        using w(6) [OF cs(1)] by auto
      show ?thesis
      proof (cases "is_file_inode (inode_of fs i)")
        case False
        then show ?thesis using Some Inr w(1,5) cs i by (simp add: unf node_of_dir)
      next
        case True
        then obtain b where "node_of fs i = FileN b" by (auto simp: node_of_file)
        then show ?thesis
          using True Some Inr w(1,5) cs i abs_remove_leaf [OF inv w(2) cs(1) w(4) Some]
            child_remove_entry(1) [OF w(3,4)] by (simp add: unf)
      qed
    qed
  qed
qed

lemma no_entries_iff:
  assumes "fs_wf fs" and "abs_fs fs cs = Some DirN" and "descend (child fs) (root_inode fs) cs = Some i"
    and "content (inode_of fs i) = Dir es"
  shows "es = [] \<longleftrightarrow> (\<forall>n. abs_fs fs (cs @ [n]) = None)"
proof -
  have "abs_fs fs (cs @ [n]) = map_option (node_of fs) (map_of es n)" for n
    using assms(3) child_eq [OF descend_root_dom [OF assms(1,3)] assms(4)]
    by (simp add: abs_fs_def descend_append)
  then show ?thesis by (simp add: bt_empty_iff fun_eq_iff)
qed

lemma rmdir_spec:
  assumes inv: "fs_inv fs"
  shows "(fst (rmdir fs path), abs_fs (snd (rmdir fs path))) = spec_rmdir (abs_fs fs) path"
proof (cases "path_comps path = []")
  case True
  then show ?thesis by (simp add: rmdir_def spec_rmdir_def Let_def)
next
  case False
  define cs where "cs = path_comps path"
  have cs: "cs \<noteq> []" "path \<noteq> []" using False by (auto simp: cs_def)
  note wf = fs_invD(1) [OF inv]
  note unf = rmdir_def spec_rmdir_def Let_def cs_def [symmetric]
  show ?thesis
  proof (cases "walk_parent fs cs")
    case (Inl e)
    then show ?thesis using walk_parent_Inl [OF wf Inl] cs by (simp add: unf)
  next
    case (Inr p)
    note w = walk_parentE [OF wf Inr]
    show ?thesis
    proof (cases "abs_fs fs cs")
      case None
      then have "child fs p (last cs) = None" using w(6) [OF cs(1)] by simp
      then show ?thesis using None Inr w(1,5) cs by (simp add: unf)
    next
      case (Some nd)
      then obtain i where i: "child fs p (last cs) = Some i" "nd = node_of fs i"
        using w(6) [OF cs(1)] by auto
      show ?thesis
      proof (cases "content (inode_of fs i)")
        case (File st)
        then show ?thesis using Some Inr w(1,5) cs i by (simp add: unf node_of_def)
      next
        case (Dir es)
        have "descend (child fs) (root_inode fs) (butlast cs @ [last cs]) = Some i"
          using w(2) i by (simp add: descend_append)
        then have di: "descend (child fs) (root_inode fs) cs = Some i" using cs by simp
        have nd: "nd = DirN" using i Dir by (simp add: node_of_def)
        note e = no_entries_iff [OF wf _ di Dir]
        show ?thesis
          using Some Inr w(1,5) cs i nd Dir e abs_remove_leaf [OF inv w(2) cs(1) w(4) Some]
            child_remove_entry(1) [OF w(3,4)] by (auto simp: unf)
      qed
    qed
  qed
qed

end
