(* ===== verification/Fs_Rename.thy ===== *)
theory Fs_Rename
  imports Fs_Spec
begin

text \<open>
  \<open>rename\<close> on the abstract file system, including what the code does when a directory is moved
  below itself: the call succeeds and the whole subtree disappears.
\<close>

definition spec_rename_check :: "afs \<Rightarrow> node \<Rightarrow> string list \<Rightarrow> fs_error option" where
  "spec_rename_check A src nc =
     (case A nc of
        None \<Rightarrow> None
      | Some (FileN _) \<Rightarrow> if src = DirN then Some NotADirectory else None
      | Some DirN \<Rightarrow>
          if src \<noteq> DirN then Some IsADirectory
          else if \<exists>n. A (nc @ [n]) \<noteq> None then Some NotEmpty else None)"

definition spec_move :: "afs \<Rightarrow> string list \<Rightarrow> string list \<Rightarrow> afs" where
  "spec_move A oc nc =
     (\<lambda>cs. if \<not> prefix oc nc \<and> prefix nc cs then A (oc @ drop (length nc) cs)
           else if prefix oc cs then None else A cs)"

definition spec_rename :: "afs \<Rightarrow> string \<Rightarrow> string \<Rightarrow> (fs_error + unit) \<times> afs" where
  "spec_rename A old_path new_path =
     (let oc = path_comps old_path; nc = path_comps new_path in
      if oc = [] \<or> nc = [] then (Inl InvalidArgument, A)
      else if oc = nc then (Inr (), A)
      else case resolve_from A [] (butlast oc) of
        Inl e \<Rightarrow> (Inl e, A)
      | Inr _ \<Rightarrow>
          (case A oc of
             None \<Rightarrow> (Inl NotFound, A)
           | Some src \<Rightarrow>
               (case resolve_from A [] (butlast nc) of
                  Inl e \<Rightarrow> (Inl e, A)
                | Inr _ \<Rightarrow>
                    (case spec_rename_check A src nc of
                       Some e \<Rightarrow> (Inl e, A)
                     | None \<Rightarrow> (Inr (), spec_move A oc nc)))))"

section \<open>The moving step\<close>

lemma rename_move_effect:
  assumes wf: "fs_wf fs" and op: "op \<in> dom (inode_table fs)" "\<not> is_file_inode (inode_of fs op)"
    and np: "np \<in> dom (inode_table fs)" "\<not> is_file_inode (inode_of fs np)"
    and i: "child fs op on = Some i"
  shows "fst (rename_move fs op on np nn ts) = Inr ()"
    and "child (snd (rename_move fs op on np nn ts)) =
      set_edge (set_edge (child fs) op on None) np nn (Some i)"
    and "node_of (snd (rename_move fs op on np nn ts)) = node_of fs"
    and "root_inode (snd (rename_move fs op on np nn ts)) = root_inode fs"
    and "fd_table (snd (rename_move fs op on np nn ts)) = fd_table fs"
proof -
  obtain es where es: "content (inode_of fs op) = Dir es" using op(2) by (rule not_is_file_inodeE)
  obtain ns where ns: "content (inode_of fs np) = Dir ns" using np(2) by (rule not_is_file_inodeE)
  have ids: "ino_id (inode_of fs op) = op" "ino_id (inode_of fs np) = np"
    using ino_id_inode_of [OF wf] op np by auto
  have ch: "child fs op m = map_of es m" "child fs np m = map_of ns m" for m
    using child_eq op np es ns by auto
  have on: "map_of es on = Some i" using i ch by simp
  have go: "fst (rename_move fs op on np nn ts) = Inr ()
    \<and> (\<forall>q m. child (snd (rename_move fs op on np nn ts)) q m =
        set_edge (set_edge (child fs) op on None) np nn (Some i) q m)
    \<and> node_of (snd (rename_move fs op on np nn ts)) = node_of fs
    \<and> root_inode (snd (rename_move fs op on np nn ts)) = root_inode fs
    \<and> fd_table (snd (rename_move fs op on np nn ts)) = fd_table fs"
  proof (cases "op = np")
    case True
    then show ?thesis
      using es on ids ch
      by (auto simp: rename_move_def Let_def child_def set_edge_apply map_of_bt_insert map_of_bt_remove
          node_of_def inode_of_insert fun_eq_iff)
  next
    case False
    then show ?thesis
      using es ns on ids ch
      by (auto simp: rename_move_def Let_def child_def set_edge_apply map_of_bt_insert map_of_bt_remove
          node_of_def inode_of_insert fun_eq_iff)
  qed
  then show "fst (rename_move fs op on np nn ts) = Inr ()"
    and "child (snd (rename_move fs op on np nn ts)) =
      set_edge (set_edge (child fs) op on None) np nn (Some i)"
    and "node_of (snd (rename_move fs op on np nn ts)) = node_of fs"
    and "root_inode (snd (rename_move fs op on np nn ts)) = root_inode fs"
    and "fd_table (snd (rename_move fs op on np nn ts)) = fd_table fs"
    by (auto simp: fun_eq_iff)
qed

lemma child_clock [simp]: "child (fs\<lparr>clock := c\<rparr>) = child fs"
  by (rule child_cong) simp

lemma node_of_clock [simp]: "node_of (fs\<lparr>clock := c\<rparr>) = node_of fs"
  by (simp add: node_of_def fun_eq_iff)

lemma abs_fs_clock [simp]: "abs_fs (fs\<lparr>clock := c\<rparr>) = abs_fs fs"
  by (simp add: abs_fs_def fun_eq_iff)

lemma abs_rename_move:
  assumes inv: "fs_inv fs" and oc: "oc \<noteq> []" and nc: "nc \<noteq> []" and ne: "oc \<noteq> nc"
    and op: "descend (child fs) (root_inode fs) (butlast oc) = Some op" "\<not> is_file_inode (inode_of fs op)"
    and np: "descend (child fs) (root_inode fs) (butlast nc) = Some np" "\<not> is_file_inode (inode_of fs np)"
    and i: "child fs op (last oc) = Some i"
  shows "abs_fs (snd (rename_move fs op (last oc) np (last nc) ts)) = spec_move (abs_fs fs) oc nc"
proof -
  note wf = fs_invD(1) [OF inv]
  note eff = rename_move_effect [OF wf descend_root_dom [OF wf op(1)] op(2) descend_root_dom [OF wf np(1)] np(2) i,
      of "last nc" ts]
  have o: "butlast oc @ [last oc] = oc" and n: "butlast nc @ [last nc] = nc" using oc nc by auto
  have ln: "Suc (length (butlast nc)) = length nc" using nc by simp
  have pre: "prefix oc (butlast nc) \<longleftrightarrow> prefix oc nc"
    using n ne by (metis prefix_snoc)
  show ?thesis
  proof (cases "prefix oc nc")
    case False
    have oX: "butlast oc @ last oc # X = oc @ X" for X
      using o by (metis append_Cons append_Nil append_assoc)
    have "descend (set_edge (set_edge (child fs) op (last oc) None) np (last nc) (Some i)) (root_inode fs) cs =
        (if prefix nc cs then descend (child fs) (root_inode fs) (oc @ drop (length nc) cs)
         else if prefix oc cs then None else descend (child fs) (root_inode fs) cs)" for cs
      using ft.move_path [OF inv op(1) i np(1), of "last nc" cs] False pre
      unfolding o n ln oX by simp
    with False show ?thesis
      by (simp add: abs_fs_def eff spec_move_def fun_eq_iff)
  next
    case True
    then obtain ds where "butlast nc = butlast oc @ last oc # ds"
      using pre o by (metis append_Cons append_Nil append_assoc prefixE)
    then show ?thesis
      using ft.move_inside_path [OF inv op(1) i, of ds np "last nc"] np(1) o True
      by (auto simp: abs_fs_def eff spec_move_def fun_eq_iff)
  qed
qed

section \<open>Refinement\<close>

lemma rename_check_spec:
  assumes inv: "fs_inv fs" and nc: "nc \<noteq> []" and w: "walk_parent fs nc = Inr np"
    and i: "i \<in> dom (inode_table fs)"
  shows "rename_check fs i np (last nc) = spec_rename_check (abs_fs fs) (node_of fs i) nc"
proof -
  note wf = fs_invD(1) [OF inv]
  note we = walk_parentE [OF wf w]
  have src: "is_dir (meta (inode_of fs i)) \<longleftrightarrow> node_of fs i = DirN"
    using inode_wf_is_dir [OF fs_wf_inode [OF wf i]] by (simp add: node_of_dir)
  show ?thesis
  proof (cases "child fs np (last nc)")
    case None
    then show ?thesis
      using we(5) we(6) [OF nc] by (simp add: rename_check_def spec_rename_check_def)
  next
    case (Some j)
    have jd: "j \<in> dom (inode_table fs)" using child_dom [OF wf Some] .
    have A: "abs_fs fs nc = Some (node_of fs j)" using we(6) [OF nc] Some by simp
    have dst: "is_dir (meta (inode_of fs j)) \<longleftrightarrow> node_of fs j = DirN"
      using inode_wf_is_dir [OF fs_wf_inode [OF wf jd]] by (simp add: node_of_dir)
    have "descend (child fs) (root_inode fs) (butlast nc @ [last nc]) = Some j"
      using we(2) Some by (simp add: descend_append)
    then have dj: "descend (child fs) (root_inode fs) nc = Some j" using nc by simp
    show ?thesis
    proof (cases "content (inode_of fs j)")
      case (File st)
      then have "node_of fs j = FileN (contents st)" by (simp add: node_of_def)
      then show ?thesis
        using we(5) [of "last nc"] Some A src dst File by (simp add: rename_check_def spec_rename_check_def)
    next
      case (Dir es)
      then have nd: "node_of fs j = DirN" by (simp add: node_of_def)
      then show ?thesis
        using we(5) [of "last nc"] Some A src dst Dir no_entries_iff [OF wf _ dj Dir]
        by (auto simp: rename_check_def spec_rename_check_def)
    qed
  qed
qed

lemma rename_spec:
  assumes inv: "fs_inv fs"
  shows "(fst (rename fs old_path new_path), abs_fs (snd (rename fs old_path new_path)))
    = spec_rename (abs_fs fs) old_path new_path"
proof (cases "path_comps old_path = [] \<or> path_comps new_path = [] \<or> path_comps old_path = path_comps new_path")
  case True
  then show ?thesis by (auto simp: rename_def spec_rename_def Let_def)
next
  case False
  define oc nc where "oc = path_comps old_path" and "nc = path_comps new_path"
  have ne: "oc \<noteq> []" "nc \<noteq> []" "oc \<noteq> nc" "old_path \<noteq> []" "new_path \<noteq> []"
    using False by (auto simp: oc_def nc_def)
  note wf = fs_invD(1) [OF inv]
  note unf = rename_def spec_rename_def Let_def oc_def [symmetric] nc_def [symmetric] time_now_eq
  show ?thesis
  proof (cases "walk_parent fs oc")
    case (Inl e)
    then show ?thesis using walk_parent_Inl [OF wf Inl] ne by (simp add: unf)
  next
    case (Inr op)
    note wo = walk_parentE [OF wf Inr]
    show ?thesis
    proof (cases "child fs op (last oc)")
      case None
      then show ?thesis using Inr wo(1,5) wo(6) [OF ne(1)] ne by (simp add: unf)
    next
      case (Some i)
      have A: "abs_fs fs oc = Some (node_of fs i)" using wo(6) [OF ne(1)] Some by simp
      show ?thesis
      proof (cases "walk_parent fs nc")
        case Inl2: (Inl e)
        then show ?thesis
          using walk_parent_Inl [OF wf Inl2] Inr Some A wo(1,5) ne by (simp add: unf)
      next
        case Inr2: (Inr np)
        note wn = walk_parentE [OF wf Inr2]
        note chk = rename_check_spec [OF inv ne(2) Inr2 child_dom [OF wf Some]]
        have inv': "fs_inv (fs\<lparr>clock := c\<rparr>)" for c using inv by (simp add: fs_inv_def)
        have mv: "abs_fs (snd (rename_move (fs\<lparr>clock := c\<rparr>) op (last oc) np (last nc) ts))
            = spec_move (abs_fs fs) oc nc" for c ts
          using abs_rename_move [OF inv' ne(1-3), of c op np i ts] wo(2,4) wn(2,4) Some by simp
        have ok: "fst (rename_move (fs\<lparr>clock := c\<rparr>) op (last oc) np (last nc) ts) = Inr ()" for c ts
          using rename_move_effect(1) [of "fs\<lparr>clock := c\<rparr>" op np "last oc" i] wf wo(3,4) wn(3,4) Some
          by simp
        show ?thesis
          using Inr Inr2 Some A wo(1,5) wn(1) ne chk mv ok
          by (simp add: unf split: option.splits)
      qed
    qed
  qed
qed

section \<open>The tree is kept\<close>

lemma fs_inv_same_tree:
  assumes "fs_inv fs" and "fs_wf fs'" and "child fs' = child fs" and "root_inode fs' = root_inode fs"
  shows "fs_inv fs'"
  using assms by (simp add: fs_inv_def)

lemma fs_inv_create:
  assumes inv: "fs_inv fs" and p: "p \<in> dom (inode_table fs)" and n: "name_ok n"
    and room: "next_inode fs \<noteq> - 1"
  shows "fs_inv (snd (create_inode fs p n dir))"
proof -
  note wf = fs_invD(1) [OF inv]
  obtain r fs' where cr: "create_inode fs p n dir = (r, fs')" by fastforce
  have wf': "fs_wf fs'" using fs_wf_create_inode [OF wf p n room, of dir] by (simp add: cr)
  show ?thesis
  proof (cases r)
    case (Inl e)
    then have "fs' = fs"
      using cr by (auto simp: create_inode_def allocate_inode_def time_now_eq Let_def
          split: file_content.splits if_splits)
    with inv show ?thesis by (simp add: cr)
  next
    case (Inr i)
    note c = child_create_inode [OF wf p cr [unfolded Inr]]
    have "tree (set_edge (child fs) p n (Some i)) (root_inode fs)"
      using fs_invD(2) [OF inv] c(4) child_dom [OF wf] fs_wf_root [OF wf]
      by (intro tree_insert) auto
    with wf' c show ?thesis by (simp add: cr fs_inv_def)
  qed
qed

lemma fs_inv_remove_entry:
  assumes "fs_inv fs" and "p \<in> dom (inode_table fs)"
  shows "fs_inv (snd (remove_entry fs p n))"
proof (cases "is_file_inode (inode_of fs p)")
  case True
  with assms show ?thesis by (auto simp: remove_entry_def Let_def elim!: is_file_inodeE)
next
  case False
  then show ?thesis
    using assms child_remove_entry [OF assms(2) False] fs_wf_remove_entry
    by (simp add: fs_inv_def tree_remove)
qed

lemma fs_inv_rename_move:
  assumes inv: "fs_inv fs" and "op \<in> dom (inode_table fs)" "\<not> is_file_inode (inode_of fs op)"
    and "np \<in> dom (inode_table fs)" "\<not> is_file_inode (inode_of fs np)"
    and i: "child fs op on = Some i" and "name_ok nn"
  shows "fs_inv (snd (rename_move fs op on np nn ts))"
proof -
  note wf = fs_invD(1) [OF inv] and t = fs_invD(2) [OF inv]
  have "tree (set_edge (set_edge (child fs) op on None) np nn (Some i)) (root_inode fs)"
    using tree_remove [OF t] tree_no_edge_after_remove [OF t i] tree_root [OF t] i
    by (intro tree_insert) metis+
  then show ?thesis
    using rename_move_effect [OF wf assms(2-5) i] fs_wf_rename_move [OF wf assms(2,4,7)]
    by (simp add: fs_inv_def)
qed

end
