(* ===== verification/Fs_Io.thy ===== *)
theory Fs_Io
  imports Fs_Rename
begin

text \<open>
  The data path: what reads, writes, truncations, seeks and opens do to the abstract file
  system and to the descriptor table, and that the full invariant holds in every reachable
  state.
\<close>

section \<open>Updating a regular file\<close>

lemma child_update_file:
  assumes "inode_table fs i = Some ino" and "content ino = File st" and "content ino' = File st'"
  shows "child (inode_insert fs i ino') = child fs"
  using assms by (auto simp: child_def fun_eq_iff split: option.splits)

lemma node_of_update_file:
  "content ino' = File st' \<Longrightarrow>
    node_of (inode_insert fs i ino') j = (if j = i then FileN (contents st') else node_of fs j)"
  by (simp add: node_of_def inode_of_insert)

lemma abs_update_file:
  assumes "inode_table fs i = Some ino" and "content ino = File st" and "content ino' = File st'"
  shows "abs_fs (inode_insert fs i ino') cs =
    (if descend (child fs) (root_inode fs) cs = Some i then Some (FileN (contents st')) else abs_fs fs cs)"
  by (auto simp: abs_fs_def child_update_file [OF assms] node_of_update_file [OF assms(3)]
      intro!: option.map_cong0)

lemma abs_fs_cong:
  assumes "inode_table fs = inode_table gs" and "root_inode fs = root_inode gs"
  shows "abs_fs fs = abs_fs gs"
proof -
  have "node_of fs = node_of gs" using assms(1) by (simp add: node_of_def inode_of_def fun_eq_iff)
  then show ?thesis
    unfolding abs_fs_def using child_cong [OF assms(1)] assms(2) by (intro ext) simp
qed

lemma abs_set_position [simp]: "abs_fs (set_position fs d p) = abs_fs fs"
  by (rule abs_fs_cong) simp_all

text \<open>The file an open descriptor refers to.\<close>

definition fd_file :: "fs \<Rightarrow> fd \<Rightarrow> (file_handle \<times> block_storage) option" where
  "fd_file fs d =
     (case fd_table fs d of
        None \<Rightarrow> None
      | Some h \<Rightarrow>
          (case inode_table fs (h_inode h) of
             None \<Rightarrow> None
           | Some ino \<Rightarrow> (case content ino of File st \<Rightarrow> Some (h, st) | Dir _ \<Rightarrow> None)))"

lemma fd_fileE:
  assumes "fd_file fs d = Some (h, st)"
  obtains ino where "fd_table fs d = Some h" "inode_table fs (h_inode h) = Some ino" "content ino = File st"
  using assms by (auto simp: fd_file_def split: option.splits file_content.splits)

lemma fs_wf_file: "fs_wf fs \<Longrightarrow> inode_table fs i = Some ino \<Longrightarrow> content ino = File st \<Longrightarrow> bs_inv st"
  using fs_wf_inode [of fs i] inode_wf_File [of _ i ino st] by (simp add: domI)

lemma fd_file_inv: "fs_wf fs \<Longrightarrow> fd_file fs d = Some (h, st) \<Longrightarrow> bs_inv st"
  by (erule fd_fileE) (rule fs_wf_file)

lemma write_with_errors:
  assumes "fs_wf fs"
  shows "write_with posf fs d buf =
    (case fd_table fs d of
       None \<Rightarrow> (Inl BadFileDescriptor, fs)
     | Some h \<Rightarrow>
         if access_mode (h_flags h) = O_RDONLY then (Inl PermissionDenied, fs)
         else if fd_file fs d = None then (Inl BadFileDescriptor, fs)
         else (Inr (length buf), snd (write_with posf fs d buf)))"
proof (cases "fd_table fs d")
  case None
  then show ?thesis by (simp add: write_with_def)
next
  case (Some h)
  then obtain ino where ino: "inode_table fs (h_inode h) = Some ino"
    using fs_wf_fd [OF assms Some] by auto
  then have "bs_inv st" if "content ino = File st" for st
    using that assms ino by (rule_tac fs_wf_file)
  then show ?thesis
    using Some ino fst_bs_write
    by (auto simp: write_with_def fd_file_def write_through_def time_now_eq Let_def
        split: file_content.splits prod.splits) (metis fst_conv)+
qed

text \<open>A successful write, in one fact: count, new content, new position, everything else.\<close>

lemma write_with_ok:
  assumes wf: "fs_wf fs" and f: "fd_file fs d = Some (h, st)" and w: "access_mode (h_flags h) \<noteq> O_RDONLY"
  shows "\<exists>fs' st'. write_with posf fs d buf = (Inr (length buf), fs')
    \<and> fd_file fs' d = Some (h\<lparr>position := of_nat (posf h st + length buf)\<rparr>, st')
    \<and> contents st' = write_spec (contents st) (posf h st) buf
    \<and> bsize st' = length (write_spec (contents st) (posf h st) buf)
    \<and> st' = snd (bs_write st (posf h st) buf)
    \<and> (\<forall>j. j \<noteq> h_inode h \<longrightarrow> inode_table fs' j = inode_table fs j)
    \<and> (\<forall>e. e \<noteq> d \<longrightarrow> fd_table fs' e = fd_table fs e)
    \<and> child fs' = child fs \<and> root_inode fs' = root_inode fs
    \<and> abs_fs fs' = (\<lambda>cs. if descend (child fs) (root_inode fs) cs = Some (h_inode h)
         then Some (FileN (write_spec (contents st) (posf h st) buf)) else abs_fs fs cs)"
proof -
  obtain ino where i: "fd_table fs d = Some h" "inode_table fs (h_inode h) = Some ino" "content ino = File st"
    using f by (rule fd_fileE)
  have inv: "bs_inv st" using fd_file_inv [OF wf f] .
  define pos where "pos = posf h st"
  define st' where "st' = snd (bs_write st pos buf)"
  define ino' where "ino' = ino\<lparr>content := File st',
      meta := (meta ino)\<lparr>md_size := of_nat (bsize st'), modified := clock fs\<rparr>\<rparr>"
  define gs where "gs = inode_insert (fs\<lparr>clock := clock fs + 1\<rparr>) (h_inode h) ino'"
  have st': "bs_write st pos buf = (length buf, st')"
    using fst_bs_write [OF inv, of pos buf] by (simp add: st'_def prod_eq_iff)
  have c': "contents st' = write_spec (contents st) pos buf"
    unfolding st'_def by (rule contents_write [OF inv])
  have sz: "bsize st' = length (write_spec (contents st) pos buf)"
    using c' by (metis length_contents)
  have run: "write_with posf fs d buf = (Inr (length buf), set_position gs d (of_nat (pos + length buf)))"
    using i w by (simp add: write_with_def write_through_def time_now_eq Let_def pos_def [symmetric] st' gs_def ino'_def)
  have i': "inode_table (fs\<lparr>clock := clock fs + 1\<rparr>) (h_inode h) = Some ino" "content ino' = File st'"
    using i by (simp_all add: ino'_def)
  have ch: "child (set_position gs d p) = child fs" for p
    using child_update_file [OF i'(1) i(3) i'(2)] child_cong [of "set_position gs d p" gs]
    by (simp add: gs_def)
  have "abs_fs gs = (\<lambda>cs. if descend (child fs) (root_inode fs) cs = Some (h_inode h)
         then Some (FileN (contents st')) else abs_fs fs cs)"
    using abs_update_file [OF i'(1) i(3) i'(2)] by (simp add: gs_def fun_eq_iff)
  then show ?thesis
    unfolding run pos_def [symmetric] c' [symmetric] using i i' sz ch
    by (simp add: fd_file_def fd_table_set_position gs_def st'_def [symmetric] c')
qed

lemma read_with_ok:
  assumes wf: "fs_wf fs" and f: "fd_file fs d = Some (h, st)" and r: "access_mode (h_flags h) \<noteq> O_WRONLY"
  shows "read_with posf fs d out =
    (let n = min (length out) (readable st - unat (posf h)) in
     (Inr (n, take n (drop (unat (posf h)) (contents st)) @ drop n out),
      set_position fs d (posf h + of_nat n)))"
proof -
  obtain ino where i: "fd_table fs d = Some h" "inode_table fs (h_inode h) = Some ino" "content ino = File st"
    using f by (rule fd_fileE)
  show ?thesis
    using i r bs.rd [OF fd_file_inv [OF wf f], of "unat (posf h)" out] by (simp add: read_with_def Let_def)
qed

section \<open>Opening\<close>

text \<open>The effect of an open on the abstract file system, and its result up to the descriptor.\<close>

definition spec_open :: "afs \<Rightarrow> string \<Rightarrow> u32 \<Rightarrow> (fs_error + unit) \<times> afs" where
  "spec_open A path fl =
     (let cs = path_comps path;
          finish = (\<lambda>A. if has_flag fl O_TRUNC then
                            (if access_mode fl = O_RDONLY then (Inl InvalidArgument, A)
                             else (Inr (), A(cs \<mapsto> FileN [])))
                          else (Inr (), A)) in
      if path = [] then (Inl InvalidArgument, A)
      else if cs = [] then (Inr (), A)
      else case resolve_from A [] (butlast cs) of
        Inl e \<Rightarrow> (Inl e, A)
      | Inr _ \<Rightarrow>
          (case A cs of
             None \<Rightarrow> if has_flag fl O_CREAT then finish (A(cs \<mapsto> FileN [])) else (Inl NotFound, A)
           | Some DirN \<Rightarrow>
               if access_mode fl = O_WRONLY \<or> access_mode fl = O_RDWR \<or> has_flag fl O_TRUNC
               then (Inl IsADirectory, A) else (Inr (), A)
           | Some (FileN _) \<Rightarrow> finish A))"

definition forget :: "fs_error + fd \<Rightarrow> fs_error + unit" where
  "forget r = (case r of Inl e \<Rightarrow> Inl e | Inr _ \<Rightarrow> Inr ())"

lemma forget_simps [simp]: "forget (Inl e) = Inl e" "forget (Inr d) = Inr ()"
  by (simp_all add: forget_def)

lemma abs_install_handle [simp]: "abs_fs (snd (install_handle fs i fl)) = abs_fs fs"
  by (rule abs_fs_cong) (simp_all add: install_handle_def allocate_fd_def fd_insert_def)

lemma fst_install_handle [simp]: "fst (install_handle fs i fl) = Inr (next_fd fs)"
  by (simp add: install_handle_def allocate_fd_def)

lemma truncate_inode_file:
  assumes "inode_table fs i = Some ino" and "content ino = File st"
  shows "truncate_inode fs i = inode_insert (fs\<lparr>clock := clock fs + 1\<rparr>) i
    (ino\<lparr>content := File (bs_truncate st 0), meta := (meta ino)\<lparr>md_size := 0, modified := clock fs\<rparr>\<rparr>)"
  using assms by (simp add: truncate_inode_def Let_def time_now_eq)

lemma abs_truncate_inode:
  assumes inv: "fs_inv fs" and cs: "descend (child fs) (root_inode fs) cs = Some i"
    and f: "is_file_inode (inode_of fs i)"
  shows "abs_fs (truncate_inode fs i) = (abs_fs fs)(cs \<mapsto> FileN [])"
proof
  fix ds
  note wf = fs_invD(1) [OF inv]
  have "i \<in> dom (inode_table fs)" using descend_root_dom [OF wf cs] .
  with f obtain ino st where i: "inode_table fs i = Some ino" "content ino = File st"
    by (auto elim: is_file_inodeE)
  have c: "contents (bs_truncate st 0) = []"
    by (metis bsize_truncate length_0_conv length_contents)
  have "descend (child fs) (root_inode fs) ds = Some i \<longleftrightarrow> ds = cs"
    using ft.no_alias [OF inv cs, of ds] cs by blast
  then show "abs_fs (truncate_inode fs i) ds = ((abs_fs fs)(cs \<mapsto> FileN [])) ds"
    unfolding truncate_inode_file [OF i] using i c
    by (subst abs_update_file [of _ i ino st _ "bs_truncate st 0"]) simp_all
qed

lemma open_inode_spec:
  assumes inv: "fs_inv fs" and cs: "descend (child fs) (root_inode fs) cs = Some i"
  shows "(forget (fst (open_inode fs i fl)), abs_fs (snd (open_inode fs i fl))) =
    (if node_of fs i = DirN then
       (if access_mode fl = O_WRONLY \<or> access_mode fl = O_RDWR \<or> has_flag fl O_TRUNC
        then (Inl IsADirectory, abs_fs fs) else (Inr (), abs_fs fs))
     else if has_flag fl O_TRUNC then
       (if access_mode fl = O_RDONLY then (Inl InvalidArgument, abs_fs fs)
        else (Inr (), (abs_fs fs)(cs \<mapsto> FileN [])))
     else (Inr (), abs_fs fs))"
  using abs_truncate_inode [OF inv cs]
  by (auto simp: open_inode_def Let_def node_of_dir [symmetric])

lemma open_path_spec:
  assumes inv: "fs_inv fs" and room: "next_inode fs \<noteq> - 1"
  shows "(forget (fst (open_path_with_flags fs path fl)), abs_fs (snd (open_path_with_flags fs path fl)))
    = spec_open (abs_fs fs) path fl"
proof (cases "path = [] \<or> path_comps path = []")
  case True
  then show ?thesis by (auto simp: open_path_with_flags_def spec_open_def Let_def)
next
  case False
  define cs where "cs = path_comps path"
  have cs: "cs \<noteq> []" "path \<noteq> []" using False by (auto simp: cs_def)
  note wf = fs_invD(1) [OF inv]
  note unf = open_path_with_flags_def spec_open_def Let_def cs_def [symmetric]
  show ?thesis
  proof (cases "walk_parent fs cs")
    case (Inl e)
    then show ?thesis using walk_parent_Inl [OF wf Inl] cs by (simp add: unf)
  next
    case (Inr p)
    note w = walk_parentE [OF wf Inr]
    have last_ok: "name_ok (last cs)" using last_path_comps cs by (simp add: cs_def)
    show ?thesis
    proof (cases "child fs p (last cs)")
      case (Some i)
      have "descend (child fs) (root_inode fs) (butlast cs @ [last cs]) = Some i"
        using w(2) Some by (simp add: descend_append)
      then have "descend (child fs) (root_inode fs) cs = Some i" using cs by simp
      note o = open_inode_spec [OF inv this, of fl]
      have "open_lookup fs p (last cs) fl = (Inr i, fs)"
        using w(5) [of "last cs"] Some by (simp add: open_lookup_def)
      then show ?thesis
        using Inr Some w(1) w(6) [OF cs(1)] cs o by (cases "node_of fs i") (simp_all add: unf)
    next
      case None
      then have A: "abs_fs fs cs = None" using w(6) [OF cs(1)] by simp
      show ?thesis
      proof (cases "has_flag fl O_CREAT")
        case False
        then show ?thesis
          using Inr None A w(1) w(5) [of "last cs"] cs by (simp add: unf open_lookup_def)
      next
        case True
        define fs' where "fs' = snd (create_inode fs p (last cs) False)"
        have cr: "create_inode fs p (last cs) False = (Inr (next_inode fs), fs')"
          using create_inode_result [OF wf w(3,4), of "last cs" False] None by (simp add: fs'_def)
        note c = child_create_inode [OF wf w(3) cr]
        have inv': "fs_inv fs'"
          using fs_inv_create [OF inv w(3) last_ok room, of False] by (simp add: fs'_def)
        have A': "abs_fs fs' = (abs_fs fs)(cs \<mapsto> FileN [])"
          using abs_create_inode [OF inv w(2) cr] cs by simp
        have "descend (child fs') (root_inode fs') (butlast cs @ [last cs]) = Some (next_inode fs)"
          unfolding c(1,7) using ft.new_leaf_path [OF inv w(2) c(3) _ c(2)] c(4) w(3) by force
        then have "descend (child fs') (root_inode fs') cs = Some (next_inode fs)" using cs by simp
        note o = open_inode_spec [OF inv' this, of fl]
        have "open_lookup fs p (last cs) fl = (Inr (next_inode fs), fs')"
          using w(5) [of "last cs"] None True cr by (simp add: open_lookup_def)
        then show ?thesis
          using Inr A A' True w(1) cs o c(5) by (simp add: unf)
      qed
    qed
  qed
qed

end
