(* ===== verification/Fs_Reach.thy ===== *)
theory Fs_Reach
  imports Fs_Io
begin

text \<open>
  Every call keeps the full invariant: the well-formedness of \<open>Fs_Inv\<close> and the tree shape of
  \<open>Fs_Tree\<close>. Calls on descriptors do not touch the directory graph (\<open>same_graph\<close>); calls on
  paths change it by one created, removed or moved entry.
\<close>

section \<open>Calls that leave the directory graph alone\<close>

definition same_graph :: "fs \<Rightarrow> fs \<Rightarrow> bool" where
  "same_graph fs fs' \<longleftrightarrow> child fs' = child fs \<and> root_inode fs' = root_inode fs"

lemma same_graph_refl [simp]: "same_graph fs fs"
  by (simp add: same_graph_def)

lemma same_graph_table:
  "inode_table fs' = inode_table fs \<Longrightarrow> root_inode fs' = root_inode fs \<Longrightarrow> same_graph fs fs'"
  using child_cong [of fs' fs] by (simp add: same_graph_def)

lemma same_graph_file:
  "inode_table fs i = Some ino \<Longrightarrow> content ino = File st \<Longrightarrow> content ino' = File st' \<Longrightarrow>
    same_graph fs (set_position (inode_insert (fs\<lparr>clock := c\<rparr>) i ino') d p)"
  using child_update_file [of "fs\<lparr>clock := c\<rparr>" i ino st ino' st']
    child_cong [of "set_position (inode_insert (fs\<lparr>clock := c\<rparr>) i ino') d p" "inode_insert (fs\<lparr>clock := c\<rparr>) i ino'"]
  by (simp add: same_graph_def)

lemma same_graph_file':
  "inode_table fs i = Some ino \<Longrightarrow> content ino = File st \<Longrightarrow> content ino' = File st' \<Longrightarrow>
    same_graph fs (inode_insert (fs\<lparr>clock := c\<rparr>) i ino')"
  using child_update_file [of "fs\<lparr>clock := c\<rparr>" i ino st ino' st'] by (simp add: same_graph_def)

lemma same_graph_write: "same_graph fs (snd (write_with posf fs d buf))"
  by (auto simp: write_with_def write_through_def time_now_eq Let_def intro!: same_graph_file
      split: option.splits file_content.splits prod.splits)

lemma same_graph_read: "same_graph fs (snd (read_with posf fs d out))"
  by (auto simp: read_with_def intro!: same_graph_table
      split: option.splits file_content.splits prod.splits)

lemma same_graph_ftruncate: "same_graph fs (snd (ftruncate fs d n))"
  by (auto simp: ftruncate_def time_now_eq intro!: same_graph_file' split: option.splits file_content.splits)

lemma same_graph_seek: "same_graph fs (snd (seek fs d off wh))"
  by (auto simp: seek_def Let_def intro!: same_graph_table split: option.splits file_content.splits)

lemma same_graph_close: "same_graph fs (snd (fs_close fs d))"
  by (auto simp: fs_close_def fd_remove_def intro!: same_graph_table split: option.splits)

lemma same_graph_truncate_inode:
  assumes "i \<in> dom (inode_table fs)" shows "same_graph fs (truncate_inode fs i)"
proof -
  obtain ino where i: "inode_table fs i = Some ino" using assms by auto
  then show ?thesis
    by (cases "content ino")
      (auto simp: truncate_inode_file [OF i] truncate_inode_def [of fs i] Let_def time_now_eq intro!: same_graph_file')
qed

lemma same_graph_install_handle: "same_graph fs (snd (install_handle fs i fl))"
  by (rule same_graph_table) (simp_all add: install_handle_def allocate_fd_def fd_insert_def)

lemma same_graph_trans: "same_graph fs gs \<Longrightarrow> same_graph gs hs \<Longrightarrow> same_graph fs hs"
  by (simp add: same_graph_def)

lemma same_graph_open_inode:
  "i \<in> dom (inode_table fs) \<Longrightarrow> same_graph fs (snd (open_inode fs i fl))"
  using same_graph_truncate_inode [of i fs] same_graph_install_handle same_graph_trans
  by (auto simp: open_inode_def Let_def)

lemma fs_inv_same_graph: "fs_inv fs \<Longrightarrow> fs_wf fs' \<Longrightarrow> same_graph fs fs' \<Longrightarrow> fs_inv fs'"
  unfolding same_graph_def by (blast intro: fs_inv_same_tree)

section \<open>Calls on paths\<close>

lemma fs_inv_open_lookup:
  assumes "fs_inv fs" and "p \<in> dom (inode_table fs)" and "name_ok n" and "next_inode fs \<noteq> - 1"
  shows "fs_inv (snd (open_lookup fs p n fl))"
  using fs_inv_create [OF assms, of False] assms(1)
  by (auto simp: open_lookup_def split: sum.splits prod.splits)

lemma fs_inv_open_tail:
  assumes inv: "fs_inv fs" and "p \<in> dom (inode_table fs)" and "name_ok n" and room: "has_room 1 fs"
  shows "fs_inv (snd (case open_lookup fs p n fl of (Inl e, fs) \<Rightarrow> (Inl e, fs) | (Inr i, fs) \<Rightarrow> open_inode fs i fl))"
proof -
  obtain r fs' where l: "open_lookup fs p n fl = (r, fs')" by fastforce
  have inv': "fs_inv fs'"
    using fs_inv_open_lookup [OF assms(1-3), of fl] has_room_inode [OF room] l by simp
  show ?thesis
  proof (cases r)
    case (Inl e)
    with l inv' show ?thesis by simp
  next
    case (Inr i)
    then have i: "i \<in> dom (inode_table fs')" using open_lookup_dom l by blast
    have "fs_wf (snd (open_inode fs' i fl))"
      using fs_wf_open_tail [OF fs_invD(1) [OF inv] assms(2-4), of fl] l Inr by simp
    with fs_inv_same_graph [OF inv' _ same_graph_open_inode [OF i]] l Inr show ?thesis by simp
  qed
qed

lemma fs_inv_open_path_with_flags:
  assumes inv: "fs_inv fs" and room: "has_room 1 fs"
  shows "fs_inv (snd (open_path_with_flags fs path fl))"
proof -
  note wf = fs_invD(1) [OF inv]
  have "fs_inv (snd (install_handle fs (root_inode fs) fl))"
    using fs_inv_same_graph [OF inv _ same_graph_install_handle]
      fs_wf_install_handle [OF wf fs_wf_root [OF wf] has_room_fd [OF room]] by blast
  moreover have "fs_inv (snd (case open_lookup fs cur (last (path_comps path)) fl of
      (Inl e, fs) \<Rightarrow> (Inl e, fs) | (Inr i, fs) \<Rightarrow> open_inode fs i fl))"
    if "walk_parent fs (path_comps path) = Inr cur" "path_comps path \<noteq> []" for cur
    using fs_inv_open_tail [OF inv _ last_path_comps [OF that(2)] room] walk_parent_ok [OF wf that(1)] by blast
  ultimately show ?thesis
    using inv by (auto simp: open_path_with_flags_def Let_def split: sum.splits)
qed

lemma split_path_last: "split_path p \<noteq> [] \<Longrightarrow> name_ok (last (split_path p))"
  using split_path_names last_in_set by blast

lemma fs_inv_open_at:
  assumes inv: "fs_inv fs" and room: "has_room 1 fs"
  shows "fs_inv (snd (open_at fs d path fl))"
proof -
  note wf = fs_invD(1) [OF inv]
  have "fs_inv (snd (case open_lookup fs cur (last (split_path path)) fl of
      (Inl e, fs) \<Rightarrow> (Inl e, fs) | (Inr i, fs) \<Rightarrow> open_inode fs i fl))"
    if "walk_dirs fs q (butlast (split_path path)) = Inr cur" "split_path path \<noteq> []"
      "q \<in> dom (inode_table fs)" "\<not> is_file_inode (inode_of fs q)" for q cur
    using fs_inv_open_tail [OF inv _ split_path_last [OF that(2)] room] walk_dirs_ok that wf by blast
  then show ?thesis
    using inv by (auto simp: open_at_def Let_def split: sum.splits option.splits)
qed

lemma fs_inv_mkdir:
  assumes inv: "fs_inv fs" and room: "has_room 1 fs"
  shows "fs_inv (snd (mkdir fs path))"
proof -
  have "fs_inv (snd (create_inode fs cur (last (path_comps path)) True))"
    if "walk_parent fs (path_comps path) = Inr cur" "path_comps path \<noteq> []" for cur
    using fs_inv_create [OF inv _ last_path_comps [OF that(2)]] has_room_inode [OF room]
      walk_parent_ok [OF fs_invD(1) [OF inv] that(1)] by simp
  with inv show ?thesis by (auto simp: mkdir_def Let_def split: sum.splits prod.splits)
qed

lemma fs_inv_mkdir_p_loop:
  assumes "fs_inv fs" and "cur \<in> dom (inode_table fs)" and "has_room (length cs) fs"
    and "\<forall>c \<in> set cs. name_ok c"
  shows "fs_inv (snd (mkdir_p_loop fs cur cs))"
  using assms
proof (induction cs arbitrary: fs cur)
  case Nil
  then show ?case by simp
next
  case (Cons c cs)
  have room: "has_room (length cs) fs" "next_inode fs \<noteq> - 1"
    using Cons.prems(3) has_room_inode [of "Suc (length cs)" fs] by (auto simp: has_room_def)
  obtain r fs' where cr: "create_inode fs cur c True = (r, fs')" by fastforce
  have fs': "fs_inv fs'" "has_room (length cs) fs'"
    using Cons.prems room has_room_create [of "length cs" fs cur c True]
      fs_inv_create [of fs cur c True] by (auto simp: cr)
  have found: "fs_inv (snd (mkdir_p_loop fs i cs))" if "find_inode fs cur c = Inr i" for i
    using Cons.IH [of fs i] Cons.prems room find_inode_dom [OF that] by auto
  have made: "fs_inv (snd (mkdir_p_loop fs' i cs))" if "i \<in> dom (inode_table fs')" for i
    using Cons.IH [of fs' i] Cons.prems fs' that by auto
  show ?case
    using Cons.prems(1) fs' found made create_inode_dom [of fs cur c True] find_inode_dom [of fs' cur c]
    by (auto simp: cr split: sum.splits)
qed

lemma fs_inv_mkdir_p:
  assumes "fs_inv fs" and "has_room (length (path_comps path)) fs"
  shows "fs_inv (snd (mkdir_p fs path))"
  using assms fs_wf_root [OF fs_invD(1) [OF assms(1)]] path_comps_names
  by (auto simp: mkdir_p_def Let_def intro!: fs_inv_mkdir_p_loop split: option.splits)

lemma fs_inv_unlink: "fs_inv fs \<Longrightarrow> fs_inv (snd (unlink fs path))"
  using fs_inv_remove_entry walk_parent_ok fs_invD(1)
  by (auto simp: unlink_def Let_def split: sum.splits)

lemma fs_inv_rmdir: "fs_inv fs \<Longrightarrow> fs_inv (snd (rmdir fs path))"
  using fs_inv_remove_entry walk_parent_ok fs_invD(1)
  by (auto simp: rmdir_def Let_def split: sum.splits file_content.splits)

lemma fs_inv_clock [simp]: "fs_inv (fs\<lparr>clock := c\<rparr>) = fs_inv fs"
  by (simp add: fs_inv_def)

lemma fs_inv_rename:
  assumes inv: "fs_inv fs" shows "fs_inv (snd (rename fs old new))"
proof -
  note wf = fs_invD(1) [OF inv]
  have "fs_inv (snd (rename_move (fs\<lparr>clock := c\<rparr>) op (last (path_comps old)) np (last (path_comps new)) ts))"
    if o: "walk_parent fs (path_comps old) = Inr op" and n: "walk_parent fs (path_comps new) = Inr np"
      and "path_comps new \<noteq> []" and f: "find_inode fs op (last (path_comps old)) = Inr i" for op np c ts i
  proof -
    note wo = walk_parentE [OF wf o] and wn = walk_parentE [OF wf n]
    have "child fs op (last (path_comps old)) = Some i"
      using f wo(5) [of "last (path_comps old)"] by (auto simp: ok_or_def split: option.splits)
    then show ?thesis
      using inv wo(3,4) wn(3,4) last_path_comps [OF that(3)] by (intro fs_inv_rename_move) auto
  qed
  with inv show ?thesis
    by (auto simp: rename_def Let_def time_now_eq split: sum.splits option.splits)
qed

section \<open>Reachable states\<close>

lemma child_new: "child fs_new = (\<lambda>_ _. None)"
  by (auto simp: fs_new_def with_time_provider_def counter_new_def counter_now_def empty_with_def
      Let_def child_def new_dir_def fun_eq_iff)

lemma fs_inv_new: "fs_inv fs_new"
  by (simp add: fs_inv_def fs_wf_new child_new tree_def)

lemmas fs_inv_call =
  fs_inv_open_path_with_flags fs_inv_open_at fs_inv_mkdir fs_inv_mkdir_p fs_inv_unlink fs_inv_rmdir
  fs_inv_rename

lemma fs_inv_exec:
  assumes "fs_inv fs" and "has_room (call_need c) fs"
  shows "fs_inv (fs_exec c fs)"
  using fs_wf_exec [OF fs_invD(1) [OF assms(1)] assms(2)] assms
    fs_inv_same_graph [OF assms(1)] same_graph_write same_graph_read same_graph_ftruncate
    same_graph_close same_graph_seek
  by (cases c) (simp_all add: fs_inv_call fs_write_def write_at_def append_write_def fs_read_def read_at_def)

lemma fs_reachable_inv: "fs_reachable fs \<Longrightarrow> fs_inv fs"
  by (induction rule: fs_reachable.induct) (auto intro: fs_inv_new fs_inv_exec)

end
