(* ===== verification/Fs_Mkdirp.thy ===== *)
theory Fs_Mkdirp
  imports Fs_Reach
begin

text \<open>
  \<open>mkdir_p\<close> on the abstract file system, and the facts on resolving existing directories and on
  open files surviving changes of the name space.
\<close>

fun spec_mkdir_p :: "afs \<Rightarrow> string list \<Rightarrow> string list \<Rightarrow> (fs_error + unit) \<times> afs" where
  "spec_mkdir_p A pre [] = (Inr (), A)"
| "spec_mkdir_p A pre (c # cs) =
     (case A (pre @ [c]) of
        None \<Rightarrow> spec_mkdir_p (A(pre @ [c] \<mapsto> DirN)) (pre @ [c]) cs
      | Some (FileN _) \<Rightarrow> (Inl NotADirectory, A)
      | Some DirN \<Rightarrow> spec_mkdir_p A (pre @ [c]) cs)"

lemma mkdir_p_loop_spec:
  assumes "fs_inv fs" and "descend (child fs) (root_inode fs) pre = Some cur"
    and "\<not> is_file_inode (inode_of fs cur)" and "has_room (length cs) fs" and "\<forall>c \<in> set cs. name_ok c"
  shows "(fst (mkdir_p_loop fs cur cs), abs_fs (snd (mkdir_p_loop fs cur cs))) = spec_mkdir_p (abs_fs fs) pre cs"
  using assms
proof (induction cs arbitrary: fs cur pre)
  case Nil
  then show ?case by simp
next
  case (Cons c cs)
  note inv = Cons.prems(1) and wf = fs_invD(1) [OF Cons.prems(1)]
  have cur: "cur \<in> dom (inode_table fs)" using descend_root_dom [OF wf Cons.prems(2)] .
  have room: "has_room (length cs) fs" "next_inode fs \<noteq> - 1"
    using Cons.prems(4) has_room_inode [of "Suc (length cs)" fs] by (auto simp: has_room_def)
  have ap: "descend (child fs) (root_inode fs) (pre @ [c]) = child fs cur c"
    using Cons.prems(2) by (simp add: descend_append)
  note find = find_inode_child [OF wf cur Cons.prems(3), of c]
  show ?case
  proof (cases "child fs cur c")
    case (Some i)
    then have A: "abs_fs fs (pre @ [c]) = Some (node_of fs i)" using ap by (simp add: abs_fs_def)
    show ?thesis
      using Cons.IH [of fs "pre @ [c]" i] Cons.prems room ap Some find A node_of_file [of fs i] node_of_dir [of fs i]
      by (cases "node_of fs i") auto
  next
    case None
    define fs' where "fs' = snd (create_inode fs cur c True)"
    have cr: "create_inode fs cur c True = (Inr (next_inode fs), fs')"
      using create_inode_result [OF wf cur Cons.prems(3), of c True] None by (simp add: fs'_def)
    note ch = child_create_inode [OF wf cur cr]
    have d: "descend (child fs') (root_inode fs') (pre @ [c]) = Some (next_inode fs)"
      unfolding ch(1,7) using ft.new_leaf_path [OF inv Cons.prems(2) ch(3) _ ch(2)] ch(4) cur by force
    have inv': "fs_inv fs'" "has_room (length cs) fs'"
      using fs_inv_create [OF inv cur _ room(2), of c True] Cons.prems(4,5) has_room_create
      by (auto simp: fs'_def)
    have A: "abs_fs fs (pre @ [c]) = None" using ap None by (simp add: abs_fs_def)
    have A': "abs_fs fs' = (abs_fs fs)(pre @ [c] \<mapsto> DirN)"
      using abs_create_inode [OF inv Cons.prems(2) cr] by simp
    have "\<not> is_file_inode (inode_of fs' (next_inode fs))"
      using ch(5) by (simp add: node_of_dir)
    from Cons.IH [OF inv'(1) d this inv'(2)] Cons.prems(5)
    have "(fst (mkdir_p_loop fs' (next_inode fs) cs), abs_fs (snd (mkdir_p_loop fs' (next_inode fs) cs)))
        = spec_mkdir_p (abs_fs fs') (pre @ [c]) cs" by simp
    then show ?thesis using None find cr A unfolding A' by (simp del: fun_upd_apply)
  qed
qed

text \<open>The recursive description in closed form.\<close>

lemma strict_prefix_step:
  "strict_prefix pre ds \<and> prefix ds (pre @ c # cs) \<longleftrightarrow>
    ds = pre @ [c] \<or> strict_prefix (pre @ [c]) ds \<and> prefix ds (pre @ c # cs)"
  by (auto simp: strict_prefix_def prefix_append prefix_Cons append_eq_Cons_conv elim!: prefixE)

lemma spec_mkdir_p_ok:
  "fst (spec_mkdir_p A pre cs) = Inr () \<Longrightarrow>
    snd (spec_mkdir_p A pre cs) = (\<lambda>ds. if strict_prefix pre ds \<and> prefix ds (pre @ cs) then Some DirN else A ds)"
proof (induction cs arbitrary: A pre)
  case Nil
  then show ?case by (auto simp: fun_eq_iff strict_prefix_def)
next
  case (Cons c cs)
  note split = strict_prefix_step [of pre _ c cs]
  define B where "B = A(pre @ [c] \<mapsto> DirN)"
  have B: "B ds = (if ds = pre @ [c] then Some DirN else A ds)" for ds by (simp add: B_def)
  consider (new) "A (pre @ [c]) = None" | (dir) "A (pre @ [c]) = Some DirN"
    using Cons.prems by (auto split: option.splits node.splits)
  then show ?case
  proof cases
    case new
    then have "fst (spec_mkdir_p B (pre @ [c]) cs) = Inr ()" using Cons.prems by (simp add: B_def)
    note IH = Cons.IH [OF this]
    show ?thesis
    proof
      fix ds
      show "snd (spec_mkdir_p A pre (c # cs)) ds =
          (if strict_prefix pre ds \<and> prefix ds (pre @ c # cs) then Some DirN else A ds)"
        using fun_cong [OF IH, of ds] new B [of ds] by (auto simp add: split B_def [symmetric])
    qed
  next
    case dir
    then have "fst (spec_mkdir_p A (pre @ [c]) cs) = Inr ()" using Cons.prems by simp
    from Cons.IH [OF this] dir show ?thesis by (auto simp: split fun_eq_iff)
  qed
qed

lemma spec_mkdir_p_result:
  "fst (spec_mkdir_p A pre cs) =
    (if \<exists>ds b. strict_prefix pre ds \<and> prefix ds (pre @ cs) \<and> A ds = Some (FileN b) then Inl NotADirectory else Inr ())"
proof (induction cs arbitrary: A pre)
  case Nil
  then show ?case by (auto simp: strict_prefix_def)
next
  case (Cons c cs)
  have split: "(\<exists>ds b. strict_prefix pre ds \<and> prefix ds (pre @ c # cs) \<and> B ds = Some (FileN b)) \<longleftrightarrow>
      (\<exists>b. B (pre @ [c]) = Some (FileN b)) \<or>
      (\<exists>ds b. strict_prefix (pre @ [c]) ds \<and> prefix ds (pre @ c # cs) \<and> B ds = Some (FileN b))" for B :: afs
    using strict_prefix_step [of pre _ c cs] by metis
  define B where "B = A(pre @ [c] \<mapsto> DirN)"
  have upd: "(\<exists>ds b. strict_prefix (pre @ [c]) ds \<and> prefix ds (pre @ c # cs) \<and> B ds = Some (FileN b))
      \<longleftrightarrow> (\<exists>ds b. strict_prefix (pre @ [c]) ds \<and> prefix ds (pre @ c # cs) \<and> A ds = Some (FileN b))"
    unfolding B_def strict_prefix_def fun_upd_def by metis
  show ?case
    using Cons.IH [of A "pre @ [c]"] Cons.IH [of B "pre @ [c]"] upd
    unfolding split by (auto simp: B_def [symmetric] split: option.splits node.splits)
qed

lemma abs_fs_root: "fs_wf fs \<Longrightarrow> abs_fs fs [] = Some DirN"
  using fs_wf_root_dir node_of_dir by (simp add: abs_fs_def)

lemma mkdir_p_spec:
  assumes inv: "fs_inv fs" and room: "has_room (length (path_comps path)) fs" and p: "path \<noteq> []"
  shows "(fst (mkdir_p fs path), abs_fs (snd (mkdir_p fs path))) =
    spec_mkdir_p (abs_fs fs) [] (path_comps path)"
proof -
  note wf = fs_invD(1) [OF inv]
  show ?thesis
    using mkdir_p_loop_spec [OF inv _ _ room, of "[]" "root_inode fs"] fs_wf_root [OF wf]
      fs_wf_root_dir [OF wf] path_comps_names p
    by (auto simp: mkdir_p_def Let_def split: option.splits)
qed

section \<open>Existing directories resolve\<close>

lemma resolve_existing:
  assumes "fs_wf fs" and "descend (child fs) (root_inode fs) pre = Some cur"
    and "descend (child fs) cur cs = Some i" and "node_of fs i = DirN"
  shows "resolve_from (abs_fs fs) pre cs = Inr ()"
  using assms(2,3)
proof (induction cs arbitrary: pre cur)
  case Nil
  then show ?case by simp
next
  case (Cons c cs)
  then obtain j where j: "child fs cur c = Some j" "descend (child fs) j cs = Some i"
    by (auto split: Option.bind_splits)
  have d: "descend (child fs) (root_inode fs) (pre @ [c]) = Some j"
    using Cons.prems(1) j by (simp add: descend_append)
  have "node_of fs j = DirN"
  proof (cases cs)
    case Nil
    with j assms(4) show ?thesis by simp
  next
    case (Cons e es)
    with j obtain k where "child fs j e = Some k" by (auto split: Option.bind_splits)
    then show ?thesis using child_src node_of_dir by blast
  qed
  then show ?case using d Cons.IH [OF d j(2)] by (simp add: abs_fs_def)
qed

lemma resolve_from_dir:
  "fs_wf fs \<Longrightarrow> abs_fs fs cs = Some DirN \<Longrightarrow> resolve_from (abs_fs fs) [] cs = Inr ()"
  using resolve_existing [of fs "[]" "root_inode fs" cs] by (auto simp: abs_fs_def)

lemma abs_parent_dir:
  assumes "fs_wf fs" and "abs_fs fs (cs @ [n]) \<noteq> None"
  shows "abs_fs fs cs = Some DirN"
proof -
  obtain p where p: "descend (child fs) (root_inode fs) cs = Some p" "child fs p n \<noteq> None"
    using assms(2) by (auto simp: abs_fs_def descend_append split: Option.bind_splits)
  then show ?thesis using child_src [of fs p n] node_of_dir by (auto simp: abs_fs_def)
qed

section \<open>Open files survive changes of the name space\<close>

text \<open>Files keep their storage, directories stay directories, descriptors are unchanged.\<close>

definition files_kept :: "fs \<Rightarrow> fs \<Rightarrow> bool" where
  "files_kept fs fs' \<longleftrightarrow> fd_table fs' = fd_table fs \<and>
     (\<forall>i ino. inode_table fs i = Some ino \<longrightarrow>
        (\<exists>ino'. inode_table fs' i = Some ino' \<and>
           (case content ino of File st \<Rightarrow> content ino' = File st | Dir _ \<Rightarrow> \<not> is_file_inode ino')))"

lemma files_kept_refl [simp]: "files_kept fs fs"
  by (auto simp: files_kept_def split: file_content.splits)

lemma files_kept_insert_dir:
  assumes "i \<in> dom (inode_table fs)" and "content (inode_of fs i) = Dir es" and "content ino' = Dir es'"
  shows "files_kept fs (inode_insert (fs\<lparr>clock := c\<rparr>) i ino')"
  using assms by (auto simp: files_kept_def split: file_content.splits)

lemma files_keptD:
  "files_kept fs fs' \<Longrightarrow> inode_table fs i = Some ino \<Longrightarrow>
    \<exists>ino'. inode_table fs' i = Some ino' \<and>
      (case content ino of File st \<Rightarrow> content ino' = File st | Dir _ \<Rightarrow> \<not> is_file_inode ino')"
  by (simp add: files_kept_def)

lemma files_kept_trans:
  assumes "files_kept fs gs" and "files_kept gs hs" shows "files_kept fs hs"
  unfolding files_kept_def
proof (intro conjI allI impI)
  show "fd_table hs = fd_table fs" using assms by (simp add: files_kept_def)
  fix i ino assume i: "inode_table fs i = Some ino"
  from files_keptD [OF assms(1) this] obtain i1 where i1: "inode_table gs i = Some i1"
    "case content ino of File st \<Rightarrow> content i1 = File st | Dir _ \<Rightarrow> \<not> is_file_inode i1" by blast
  from files_keptD [OF assms(2) i1(1)] obtain i2 where "inode_table hs i = Some i2"
    "case content i1 of File st \<Rightarrow> content i2 = File st | Dir _ \<Rightarrow> \<not> is_file_inode i2" by blast
  with i1(2) show "\<exists>ino'. inode_table hs i = Some ino' \<and>
      (case content ino of File st \<Rightarrow> content ino' = File st | Dir _ \<Rightarrow> \<not> is_file_inode ino')"
    by (auto simp: is_file_inode_def split: file_content.splits)
qed

lemma files_kept_remove_entry:
  "i \<in> dom (inode_table fs) \<Longrightarrow> files_kept fs (snd (remove_entry fs i n))"
  by (auto simp: remove_entry_def Let_def time_now_eq intro!: files_kept_insert_dir split: file_content.splits)

lemma files_kept_insert_dir':
  assumes "i \<in> dom (inode_table fs)" and "content (inode_of fs i) = Dir es" and "content ino' = Dir es'"
  shows "files_kept fs (inode_insert fs i ino')"
  using files_kept_insert_dir [OF assms, of "clock fs"] by simp

lemma files_kept_rename_move:
  assumes "op \<in> dom (inode_table fs)" and "np \<in> dom (inode_table fs)"
  shows "files_kept fs (snd (rename_move fs op on np nn ts))"
proof -
  have step: "files_kept fs (inode_insert (inode_insert fs op i1) np i2)"
    if "content (inode_of fs op) = Dir es" "content i1 = Dir e1"
      "content (inode_of (inode_insert fs op i1) np) = Dir e2" "content i2 = Dir e3" for i1 i2 es e1 e2 e3
    using files_kept_insert_dir' [OF assms(1) that(1,2)]
      files_kept_insert_dir' [OF _ that(3,4)] assms files_kept_trans by auto
  show ?thesis
    using assms
    by (auto simp: rename_move_def Let_def intro!: step files_kept_insert_dir'
        split: file_content.splits option.splits)
qed

lemma files_kept_unlink: "fs_wf fs \<Longrightarrow> files_kept fs (snd (unlink fs p))"
  using files_kept_remove_entry walk_parent_ok
  by (auto simp: unlink_def Let_def split: sum.splits)

lemma files_kept_rmdir: "fs_wf fs \<Longrightarrow> files_kept fs (snd (rmdir fs p))"
  using files_kept_remove_entry walk_parent_ok
  by (auto simp: rmdir_def Let_def split: sum.splits file_content.splits)

lemma files_kept_rename:
  assumes "fs_wf fs" shows "files_kept fs (snd (rename fs p q))"
proof -
  have "files_kept fs (snd (rename_move (fs\<lparr>clock := c\<rparr>) op on np nn ts))"
    if "walk_parent fs oc = Inr op" "walk_parent fs nc = Inr np" for oc nc op np on nn ts c
  proof -
    have "files_kept fs (fs\<lparr>clock := c\<rparr>)"
      by (auto simp: files_kept_def split: file_content.splits)
    then show ?thesis
      using files_kept_rename_move [of op "fs\<lparr>clock := c\<rparr>" np on nn ts] walk_parent_ok [OF assms] that
        files_kept_trans by auto
  qed
  then show ?thesis
    by (auto simp: rename_def Let_def time_now_eq split: sum.splits option.splits)
qed

lemma read_with_files_kept:
  assumes "files_kept fs fs'" and "fs_wf fs"
  shows "fst (read_with posf fs' d out) = fst (read_with posf fs d out)"
proof (cases "fd_table fs d")
  case None
  with assms(1) show ?thesis by (simp add: read_with_def files_kept_def)
next
  case (Some h)
  obtain ino where i: "inode_table fs (h_inode h) = Some ino"
    using fs_wf_fd [OF assms(2) Some] by auto
  with assms(1) obtain ino' where i': "inode_table fs' (h_inode h) = Some ino'"
      "case content ino of File st \<Rightarrow> content ino' = File st | Dir _ \<Rightarrow> \<not> is_file_inode ino'"
    unfolding files_kept_def by blast
  then show ?thesis
    using Some i assms(1)
    by (auto simp: read_with_def files_kept_def is_file_inode_def split: file_content.splits prod.splits)
qed

end
