(* ===== verification/Fs_Props.thy ===== *)
theory Fs_Props
  imports Fs_Mkdirp
begin

text \<open>
  The correctness properties of the in-memory file system: the invariant of every reachable
  state, the refinement of the abstract file system call by call, and the guarantees on
  descriptors. The concrete states \<open>demo_file\<close> (one empty file, open read-write as descriptor 3)
  and \<open>demo_dirs\<close> (nested directories as well) instantiate them.
\<close>

definition demo_file :: fs where
  "demo_file = fs_exec (COpenPath ''/f'' (O_RDWR OR O_CREAT)) fs_new"

definition demo_dirs :: fs where
  "demo_dirs = fs_exec (CMkdirP ''/a/b'') demo_file"

lemmas fs_eval =
  fs_new_def with_time_provider_def counter_new_def counter_now_def empty_with_def Let_def
  inode_insert_def new_dir_def new_file_def path_comps_def split_path_def trim_start_matches_def
  walk_parent_def inode_get_def find_inode_def inode_of_def ok_or_def create_inode_def
  allocate_inode_def time_now_def flag_defs has_flag_def access_mode_def
  open_path_with_flags_def open_lookup_def open_inode_def is_file_inode_def install_handle_def
  allocate_fd_def fd_insert_def new_handle_def mkdir_def mkdir_p_def bs_new_def

lemma demo_file_eq:
  "demo_file = \<lparr>next_inode = 2, next_fd = 4,
     fd_table = [3 \<mapsto> \<lparr>h_inode = 1, position = 0, h_flags = 66\<rparr>],
     inode_table =
       [1 \<mapsto> \<lparr>ino_id = 1,
              meta = \<lparr>md_size = 0, created = 1, modified = 1, permissions = 420, is_dir = False\<rparr>,
              content = File \<lparr>blocks = [], bsize = 0\<rparr>\<rparr>,
        0 \<mapsto> \<lparr>ino_id = 0,
              meta = \<lparr>md_size = 0, created = 0, modified = 1, permissions = 493, is_dir = True\<rparr>,
              content = Dir [(''f'', 1)]\<rparr>],
     root_inode = 0, clock = 2\<rparr>"
  by (simp add: demo_file_def fs_eval)

lemma demo_dirs_eq:
  "demo_dirs = \<lparr>next_inode = 4, next_fd = 4,
     fd_table = [3 \<mapsto> \<lparr>h_inode = 1, position = 0, h_flags = 66\<rparr>],
     inode_table =
       [1 \<mapsto> \<lparr>ino_id = 1,
              meta = \<lparr>md_size = 0, created = 1, modified = 1, permissions = 420, is_dir = False\<rparr>,
              content = File \<lparr>blocks = [], bsize = 0\<rparr>\<rparr>,
        0 \<mapsto> \<lparr>ino_id = 0,
              meta = \<lparr>md_size = 0, created = 0, modified = 2, permissions = 493, is_dir = True\<rparr>,
              content = Dir [(''a'', 2), (''f'', 1)]\<rparr>,
        3 \<mapsto> \<lparr>ino_id = 3,
              meta = \<lparr>md_size = 0, created = 3, modified = 3, permissions = 493, is_dir = True\<rparr>,
              content = Dir []\<rparr>,
        2 \<mapsto> \<lparr>ino_id = 2,
              meta = \<lparr>md_size = 0, created = 2, modified = 3, permissions = 493, is_dir = True\<rparr>,
              content = Dir [(''b'', 3)]\<rparr>],
     root_inode = 0, clock = 4\<rparr>"
  by (simp add: demo_dirs_def demo_file_eq fs_eval)

lemma demo_file_reachable: "fs_reachable demo_file"
  unfolding demo_file_def
  by (rule fs_call [OF fs_init]) (simp add: has_room_def fs_eval)

lemma demo_room: "has_room 1 demo_file" "has_room 2 demo_file" "has_room 1 demo_dirs"
  by (simp_all add: has_room_def demo_file_eq demo_dirs_eq)

lemma demo_comps: "path_comps ''/a/b'' = [''a'', ''b'']"
  by (simp add: fs_eval)

lemma demo_dirs_reachable: "fs_reachable demo_dirs"
  unfolding demo_dirs_def
  by (rule fs_call [OF demo_file_reachable]) (simp add: demo_comps demo_room numeral_2_eq_2 [symmetric])

lemma demo_walk:
  "walk demo_dirs (root_inode demo_dirs) [''a'', ''b''] = Inr 3"
  "walk demo_dirs (root_inode demo_dirs) [''f''] = Inr 1"
  by (simp_all add: demo_dirs_eq fs_eval)

section \<open>Invariant\<close>



text \<open>
  No aliasing: in a reachable state, two lists of names that the path walk of \<open>stat\<close> leads
  to the same inode are equal.
\<close>

theorem paths_do_not_alias:
  assumes "fs_reachable fs"
    and "walk fs (root_inode fs) cs = Inr i" and "walk fs (root_inode fs) ds = Inr i"
  shows "cs = ds"
proof -
  note inv = fs_reachable_inv [OF assms(1)]
  note wf = fs_invD(1) [OF inv]
  show ?thesis
    using assms(2,3) ft.no_alias [OF inv] unfolding walk_descend [OF wf fs_wf_root [OF wf]] by blast
qed

theorem paths_do_not_alias_witness:
  "walk demo_dirs (root_inode demo_dirs) [''a'', ''b''] = Inr 3 \<and> [''a'', ''b''] = [''a'', ''b'']"
  using paths_do_not_alias [OF demo_dirs_reachable demo_walk(1) demo_walk(1)] demo_walk(1) by simp

section \<open>Refinement of the abstract file system\<close>

text \<open>
  \<open>mkdir\<close> returns exactly the result that the abstract file system prescribes (the
  first missing or non-directory component decides the error, an existing target is
  \<open>AlreadyExists\<close>), and adds exactly one empty directory on success.
\<close>

theorem mkdir_refines:
  assumes "fs_reachable fs"
  shows "(fst (mkdir fs path), abs_fs (snd (mkdir fs path))) = spec_mkdir (abs_fs fs) path"
  by (rule mkdir_spec [OF fs_reachable_inv [OF assms]])

theorem mkdir_refines_witness:
  "fst (mkdir demo_dirs ''/a/c'') = Inr () \<and>
   (fst (mkdir demo_dirs ''/a/c''), abs_fs (snd (mkdir demo_dirs ''/a/c''))) = spec_mkdir (abs_fs demo_dirs) ''/a/c''"
  using mkdir_refines [OF demo_dirs_reachable, of "''/a/c''"] by (simp add: demo_dirs_eq fs_eval)

text \<open>
  \<open>unlink\<close> refines its abstract description: it removes exactly the named file, refuses
  directories, and leaves everything else alone.
\<close>

theorem unlink_refines:
  assumes "fs_reachable fs"
  shows "(fst (unlink fs path), abs_fs (snd (unlink fs path))) = spec_unlink (abs_fs fs) path"
  by (rule unlink_spec [OF fs_reachable_inv [OF assms]])

theorem unlink_refines_witness:
  "(fst (unlink demo_dirs ''/f''), abs_fs (snd (unlink demo_dirs ''/f''))) = spec_unlink (abs_fs demo_dirs) ''/f''"
  by (rule unlink_refines [OF demo_dirs_reachable])

text \<open>
  \<open>rmdir\<close> refines its abstract description: it removes exactly the named directory, and
  only when nothing lies below it.
\<close>

theorem rmdir_refines:
  assumes "fs_reachable fs"
  shows "(fst (rmdir fs path), abs_fs (snd (rmdir fs path))) = spec_rmdir (abs_fs fs) path"
  by (rule rmdir_spec [OF fs_reachable_inv [OF assms]])

theorem rmdir_refines_witness:
  "(fst (rmdir demo_dirs ''/a''), abs_fs (snd (rmdir demo_dirs ''/a''))) = spec_rmdir (abs_fs demo_dirs) ''/a''"
  by (rule rmdir_refines [OF demo_dirs_reachable])





text \<open>
  \<open>mkdir_p\<close> fails, with \<open>NotADirectory\<close>, exactly when a prefix of the path is a
  file; otherwise afterwards every prefix is a directory and no other path has changed.
\<close>

theorem mkdir_p_makes_prefixes:
  assumes "fs_reachable fs" and "has_room (length (path_comps path)) fs" and "path \<noteq> []"
  shows "if \<exists>ds b. prefix ds (path_comps path) \<and> abs_fs fs ds = Some (FileN b)
    then fst (mkdir_p fs path) = Inl NotADirectory
    else fst (mkdir_p fs path) = Inr () \<and>
      abs_fs (snd (mkdir_p fs path)) = (\<lambda>ds. if prefix ds (path_comps path) then Some DirN else abs_fs fs ds)"
proof -
  note inv = fs_reachable_inv [OF assms(1)]
  note root = abs_fs_root [OF fs_invD(1) [OF inv]]
  let ?S = "spec_mkdir_p (abs_fs fs) [] (path_comps path)"
  have s: "fst (mkdir_p fs path) = fst ?S" "abs_fs (snd (mkdir_p fs path)) = snd ?S"
    using mkdir_p_spec [OF inv assms(2,3)] by (metis fst_conv, metis snd_conv)
  have e: "strict_prefix [] ds \<and> prefix ds ([] @ cs) \<longleftrightarrow> ds \<noteq> [] \<and> prefix ds cs" for ds cs :: "string list"
    by (auto simp: strict_prefix_def)
  have r: "fst ?S = (if \<exists>ds b. prefix ds (path_comps path) \<and> abs_fs fs ds = Some (FileN b)
      then Inl NotADirectory else Inr ())"
    unfolding spec_mkdir_p_result using e root by (metis node.distinct(1) option.inject)
  have "snd ?S = (\<lambda>ds. if prefix ds (path_comps path) then Some DirN else abs_fs fs ds)" if "fst ?S = Inr ()"
    using spec_mkdir_p_ok [OF that] root unfolding e by (auto simp: fun_eq_iff)
  then show ?thesis unfolding s using r by auto
qed

theorem mkdir_p_makes_prefixes_witness:
  "abs_fs (snd (mkdir_p demo_file ''/a/b'')) =
    (\<lambda>ds. if prefix ds [''a'', ''b''] then Some DirN else abs_fs demo_file ds)"
proof -
  have r: "has_room (length (path_comps ''/a/b'')) demo_file"
    using demo_room(2) by (simp add: demo_comps numeral_2_eq_2)
  have "fst (mkdir_p demo_file ''/a/b'') = Inr ()" by (simp add: demo_file_eq fs_eval)
  with mkdir_p_makes_prefixes [OF demo_file_reachable r] show ?thesis
    by (auto simp: demo_comps split: if_splits)
qed

section \<open>Reading and writing\<close>

lemma abs_file_fd:
  assumes inv: "fs_inv fs" and h: "fd_table fs d = Some h"
    and i: "descend (child fs) (root_inode fs) cs = Some (h_inode h)" and old: "abs_fs fs cs = Some (FileN old)"
  obtains st where "fd_file fs d = Some (h, st)" and "contents st = old"
    and "\<And>ds. descend (child fs) (root_inode fs) ds = Some (h_inode h) \<longleftrightarrow> ds = cs"
proof -
  have "h_inode h \<in> dom (inode_table fs)" using descend_root_dom [OF fs_invD(1) [OF inv] i] .
  then obtain ino where ino: "inode_table fs (h_inode h) = Some ino" by auto
  with old i obtain st where "content ino = File st" "contents st = old"
    by (auto simp: abs_fs_def node_of_def split: file_content.splits)
  with ino h have "fd_file fs d = Some (h, st)" by (simp add: fd_file_def)
  moreover have "descend (child fs) (root_inode fs) ds = Some (h_inode h) \<longleftrightarrow> ds = cs" for ds
    using ft.no_alias [OF inv i, of ds] i by blast
  ultimately show ?thesis using that \<open>contents st = old\<close> by blast
qed

lemma write_with_abs:
  assumes inv: "fs_inv fs" and h: "fd_table fs d = Some h" and w: "access_mode (h_flags h) \<noteq> O_RDONLY"
    and i: "descend (child fs) (root_inode fs) cs = Some (h_inode h)" and old: "abs_fs fs cs = Some (FileN old)"
    and posf: "\<And>st. contents st = old \<Longrightarrow> posf h st = pos"
  shows "fst (write_with posf fs d buf) = Inr (length buf) \<and>
    abs_fs (snd (write_with posf fs d buf)) = (abs_fs fs)(cs \<mapsto> FileN (write_spec old pos buf))"
proof -
  obtain st where f: "fd_file fs d = Some (h, st)" "contents st = old"
      "\<And>ds. descend (child fs) (root_inode fs) ds = Some (h_inode h) \<longleftrightarrow> ds = cs"
    using abs_file_fd [OF inv h i old] by blast
  then show ?thesis
    using write_with_ok [OF fs_invD(1) [OF inv] f(1) w, of posf buf] posf [OF f(2)]
    by (auto simp: fun_eq_iff)
qed

text \<open>
  C4. The three write calls, on a descriptor open for writing whose file has the path \<open>cs\<close> and
  the bytes \<open>old\<close>, write all bytes and change exactly that file: \<open>write\<close> at the
  descriptor's position, or at the end with \<open>O_APPEND\<close>; \<open>write_at\<close> at the given offset;
  \<open>append_write\<close> at the end. Gaps read as zero bytes.
\<close>

theorem writes_refine:
  assumes "fs_reachable fs" and "fd_table fs d = Some h" and "access_mode (h_flags h) \<noteq> O_RDONLY"
    and "descend (child fs) (root_inode fs) cs = Some (h_inode h)" and "abs_fs fs cs = Some (FileN old)"
  shows "(fst (fs_write fs d buf) = Inr (length buf) \<and>
       abs_fs (snd (fs_write fs d buf)) = (abs_fs fs)(cs \<mapsto> FileN (write_spec old
         (if has_flag (h_flags h) O_APPEND then length old else unat (position h)) buf)))
    \<and> (fst (write_at fs d off buf) = Inr (length buf) \<and>
       abs_fs (snd (write_at fs d off buf)) = (abs_fs fs)(cs \<mapsto> FileN (write_spec old (unat off) buf)))
    \<and> (fst (append_write fs d buf) = Inr (length buf) \<and>
       abs_fs (snd (append_write fs d buf)) = (abs_fs fs)(cs \<mapsto> FileN (old @ buf)))"
proof -
  note w = write_with_abs [OF fs_reachable_inv [OF assms(1)] assms(2-5)]
  have "write_spec old (length old) buf = old @ buf" by (simp add: write_spec_def)
  then show ?thesis
    unfolding fs_write_def write_at_def append_write_def
    by (metis (no_types, lifting) w length_contents)
qed

theorem writes_refine_witness:
  "abs_fs (snd (write_at demo_dirs 3 1 [7, 8])) = (abs_fs demo_dirs)([''f''] \<mapsto> FileN [0, 7, 8])"
proof -
  have "fd_table demo_dirs 3 = Some \<lparr>h_inode = 1, position = 0, h_flags = 66\<rparr>"
    "access_mode (h_flags \<lparr>h_inode = 1, position = 0, h_flags = 66\<rparr>) \<noteq> O_RDONLY"
    "descend (child demo_dirs) (root_inode demo_dirs) [''f''] = Some (h_inode \<lparr>h_inode = 1, position = 0, h_flags = 66\<rparr>)"
    "abs_fs demo_dirs [''f''] = Some (FileN [])"
    by (simp_all add: demo_dirs_eq fs_eval child_def abs_fs_def node_of_def contents_def)
  from writes_refine [OF demo_dirs_reachable this, of "[7, 8]" 1] show ?thesis
    by (simp add: write_spec_def)
qed

text \<open>
  C5. Read after write: bytes written at an offset through a read-write descriptor are what a
  read of the same length at that offset returns, and the read leaves the position behind them.
\<close>

theorem read_after_write:
  assumes "fs_reachable fs" and "fd_file fs d = Some (h, st)"
    and "access_mode (h_flags h) \<noteq> O_RDONLY" and "access_mode (h_flags h) \<noteq> O_WRONLY"
    and "buf \<noteq> []" and "length out = length buf"
  shows "fst (read_at (snd (write_at fs d off buf)) d off out) = Inr (length buf, buf)
    \<and> fd_file (snd (read_at (snd (write_at fs d off buf)) d off out)) d =
        Some (h\<lparr>position := off + of_nat (length buf)\<rparr>, snd (bs_write st (unat off) buf))"
proof -
  note wf = fs_invD(1) [OF fs_reachable_inv [OF assms(1)]]
  note sti = fd_file_inv [OF wf assms(2)]
  define st' where "st' = snd (bs_write st (unat off) buf)"
  obtain fs' where w: "write_at fs d off buf = (Inr (length buf), fs')"
      "fd_file fs' d = Some (h\<lparr>position := off + of_nat (length buf)\<rparr>, st')"
    using write_with_ok [OF wf assms(2,3), of "\<lambda>h st. unat off" buf] by (auto simp: write_at_def st'_def)
  have wf': "fs_wf fs'" using fs_wf_write_with [OF wf, of "\<lambda>h st. unat off" d buf] w(1) by (simp add: write_at_def)
  have rd: "bs_read st' (unat off) out = (length buf, buf)"
    unfolding st'_def using bs.rd_after_wr [OF sti assms(5,6)] .
  show ?thesis
    using w assms(4) rd unfolding st'_def [symmetric]
    by (auto simp: read_at_def read_with_def fd_file_def fd_table_set_position
        split: option.splits file_content.splits)
qed

theorem read_after_write_witness:
  "fst (read_at (snd (write_at demo_file 3 5000 [1, 2, 3])) 3 5000 [0, 0, 0]) = Inr (3, [1, 2, 3])"
proof -
  have "fd_file demo_file 3 = Some (\<lparr>h_inode = 1, position = 0, h_flags = 66\<rparr>, bs_new)"
    by (simp add: demo_file_eq fd_file_def bs_new_def)
  from read_after_write [OF demo_file_reachable this, of "[1, 2, 3]" "[0, 0, 0]" 5000] show ?thesis
    by (simp add: access_mode_def flag_defs)
qed

end
