(* ===== verification/Fs_Guarantees.thy ===== *)
theory Fs_Guarantees
  imports Fs_Props
begin

text \<open>
  Guarantees on descriptors, metadata and listings, the error behaviour, and the corner cases
  in which the file system departs from what its own comments or POSIX promise.
\<close>

section \<open>Failing calls\<close>

lemma write_with_fail: "fs_wf fs \<Longrightarrow> fst (write_with posf fs d buf) = Inl e \<Longrightarrow> snd (write_with posf fs d buf) = fs"
  by (auto simp: write_with_def write_through_def time_now_eq Let_def
      split: option.splits file_content.splits prod.splits if_splits)

lemma create_inode_fail: "fst (create_inode fs p n dir) = Inl e \<Longrightarrow> snd (create_inode fs p n dir) = fs"
  by (auto simp: create_inode_def allocate_inode_def time_now_eq Let_def split: file_content.splits if_splits)

lemma mkdir_fail: "fst (mkdir fs path) = Inl e \<Longrightarrow> snd (mkdir fs path) = fs"
  by (auto simp: mkdir_def Let_def create_inode_def allocate_inode_def time_now_eq
      split: sum.splits prod.splits if_splits file_content.splits)

lemma remove_entry_fail: "fst (remove_entry fs p n) = Inl e \<Longrightarrow> snd (remove_entry fs p n) = fs"
  by (auto simp: remove_entry_def Let_def time_now_eq split: file_content.splits)

lemma unlink_fail: "fst (unlink fs path) = Inl e \<Longrightarrow> snd (unlink fs path) = fs"
  using remove_entry_fail by (auto simp: unlink_def Let_def split: sum.splits if_splits)

lemma rmdir_fail: "fst (rmdir fs path) = Inl e \<Longrightarrow> snd (rmdir fs path) = fs"
  using remove_entry_fail by (auto simp: rmdir_def Let_def split: sum.splits if_splits file_content.splits)

lemma rename_fail:
  assumes wf: "fs_wf fs" and f: "fst (rename fs old new) = Inl e"
  shows "snd (rename fs old new) = fs"
proof -
  have "fst (rename_move (fs\<lparr>clock := c\<rparr>) op (last (path_comps old)) np nn ts) = Inr ()"
    if "walk_parent fs (path_comps old) = Inr op" "walk_parent fs (path_comps new) = Inr np"
      "find_inode fs op (last (path_comps old)) = Inr i" for op np i c ts nn
  proof -
    note o = walk_parent_ok [OF wf that(1)] and n = walk_parent_ok [OF wf that(2)]
    have "child fs op (last (path_comps old)) = Some i"
      using that(3) find_inode_Inr [OF wf] o by blast
    then show ?thesis using rename_move_effect(1) [of "fs\<lparr>clock := c\<rparr>" op np] wf o n by simp
  qed
  with f show ?thesis
    by (fastforce simp: rename_def Let_def time_now_eq split: sum.splits option.splits if_splits)
qed



section \<open>Descriptors\<close>

text \<open>
  A successful open returns a descriptor that was not in use and is at least 3, with
  position 0 and the requested flags; after closing it every call on it answers
  \<open>BadFileDescriptor\<close>.
\<close>

lemma open_inode_fd:
  "open_inode fs i fl = (Inr d, fs') \<Longrightarrow> d = next_fd fs \<and>
    (\<exists>j. fd_table fs' = (fd_table fs)(d \<mapsto> new_handle j 0 fl))"
  by (auto simp: open_inode_def install_handle_def allocate_fd_def fd_insert_def Let_def truncate_inode_def
      time_now_eq split: if_splits file_content.splits)

lemma open_lookup_fd_table: "fd_table (snd (open_lookup fs p n fl)) = fd_table fs"
  by (auto simp: open_lookup_def create_inode_def allocate_inode_def time_now_eq Let_def
      split: sum.splits file_content.splits if_splits)

lemma open_path_fd:
  assumes "open_path_with_flags fs path fl = (Inr d, fs')"
  shows "d = next_fd fs \<and> (\<exists>j. fd_table fs' = (fd_table fs)(d \<mapsto> new_handle j 0 fl))"
proof -
  have "d = next_fd fs \<and> (\<exists>j. fd_table fs' = (fd_table fs)(d \<mapsto> new_handle j 0 fl))"
    if "open_lookup fs p n fl = (Inr i, gs)" "open_inode gs i fl = (Inr d, fs')" for p n i gs
    using open_inode_fd [OF that(2)] open_lookup_fd_table [of fs p n fl] open_lookup_next_fd [of fs p n fl] that(1)
    by auto
  with assms show ?thesis
    by (auto simp: open_path_with_flags_def Let_def install_handle_def allocate_fd_def fd_insert_def
        split: sum.splits prod.splits if_splits)
qed

theorem open_fresh_close_dead:
  assumes "fs_reachable fs" and "open_path_with_flags fs path fl = (Inr d, fs')"
  shows "fd_table fs d = None \<and> 3 \<le> d
    \<and> (\<exists>j. fd_table fs' d = Some \<lparr>h_inode = j, position = 0, h_flags = fl\<rparr>)
    \<and> (\<exists>fs''. fs_close fs' d = (Inr (), fs'') \<and>
         fst (fs_read fs'' d out) = Inl BadFileDescriptor \<and> fst (read_at fs'' d off out) = Inl BadFileDescriptor \<and>
         fst (fs_write fs'' d buf) = Inl BadFileDescriptor \<and> fst (write_at fs'' d off buf) = Inl BadFileDescriptor \<and>
         fst (append_write fs'' d buf) = Inl BadFileDescriptor \<and> fst (ftruncate fs'' d off) = Inl BadFileDescriptor \<and>
         fst (seek fs'' d soff wh) = Inl BadFileDescriptor \<and> fstat fs'' d = Inl BadFileDescriptor \<and>
         readdir_fd fs'' d = Inl BadFileDescriptor \<and> fst (fs_close fs'' d) = Inl BadFileDescriptor)"
proof -
  note wf = fs_invD(1) [OF fs_reachable_inv [OF assms(1)]]
  obtain j where o: "d = next_fd fs" "fd_table fs' = (fd_table fs)(d \<mapsto> new_handle j 0 fl)"
    using open_path_fd [OF assms(2)] by blast
  have "fd_table fs d = None"
    using fs_wf_fd [OF wf, of d] o(1) by (cases "fd_table fs d") auto
  moreover have "3 \<le> d" using wf o(1) by (simp add: fs_wf_def)
  moreover have "fs_close fs' d = (Inr (), fs'\<lparr>fd_table := (fd_table fs')(d := None)\<rparr>)"
    using o(2) by (simp add: fs_close_def fd_remove_def)
  ultimately show ?thesis
    using o(2) by (simp add: new_handle_def fs_read_def read_at_def read_with_def fs_write_def write_at_def
        append_write_def write_with_def ftruncate_def seek_def fstat_def readdir_fd_def)
      (simp add: fs_close_def fd_remove_def)
qed

theorem open_fresh_close_dead_witness:
  "\<exists>fs'. open_path_with_flags demo_dirs ''/f'' 0 = (Inr 4, fs') \<and>
    (\<exists>fs''. fs_close fs' 4 = (Inr (), fs'') \<and> fst (fs_read fs'' 4 []) = Inl BadFileDescriptor)"
proof -
  define fs' where "fs' = snd (open_path_with_flags demo_dirs ''/f'' 0)"
  have "open_path_with_flags demo_dirs ''/f'' 0 = (Inr 4, fs')"
    by (simp add: fs'_def demo_dirs_eq fs_eval)
  with open_fresh_close_dead [OF demo_dirs_reachable this, of "[]"] show ?thesis by blast
qed

definition seek_base :: "file_handle \<Rightarrow> block_storage \<Rightarrow> i32 \<Rightarrow> u64" where
  "seek_base h st wh = (if wh = 0 then 0 else if wh = 1 then position h else of_nat (bsize st))"

lemma sint_add_small:
  fixes a :: u64 and b :: i64
  assumes "uint a < 2 ^ 63" and "uint a + sint b < 2 ^ 63"
  shows "sint (a + b) = uint a + sint b"
proof -
  have "- (2 ^ 63) \<le> sint b" using sint_greater_eq [of b] by simp
  then have r: "- (2 ^ 63) \<le> uint a + sint b"
    using uint_ge_0 [of a] by linarith
  have "a + b = word_of_int (uint a + sint b)" by simp
  then have "sint (a + b) = signed_take_bit 63 (uint a + sint b)"
    by (simp only: signed_of_int) simp
  then show ?thesis using r assms(2) by (simp add: signed_take_bit_int_eq_self)
qed

text \<open>\<open>seek\<close> to an offset from the start.\<close>

lemma seek_set:
  assumes f: "fd_file f d = Some (h, st)" and s: "unat off < 2 ^ 63"
  shows "seek f d (ucast off) 0 = (Inr off, set_position f d off)"
proof -
  have "uint off = int (unat off)" by (rule uint_nat)
  moreover have "int (unat off) < int (2 ^ 63)" using s by (simp only: of_nat_less_iff)
  ultimately have "uint off < 2 ^ 63" by simp
  then have "sint (off + 0) = uint off + sint (0 :: i64)" by (intro sint_add_small) simp_all
  then have "\<not> sint off < 0" using uint_ge_0 [of off] by (simp only: add_0_right signed_0)
  then show ?thesis using f by (elim fd_fileE) (simp add: seek_def Let_def)
qed

lemma uint_of_sint_nonneg:
  fixes a :: u64 assumes "0 \<le> sint a" shows "uint a = sint a"
proof -
  have "uint a = take_bit 64 (sint a)" using uint_sint [of a] by simp
  moreover have "sint a < 2 ^ 63" using sint_less [of a] by simp
  ultimately show ?thesis using assms by (simp add: take_bit_int_eq_self)
qed

text \<open>
  C33. \<open>seek\<close> on a file computes in the integers: from the start, the position or the size, a
  target from 0 to the largest signed 64-bit number becomes the new position, a negative
  target or an unknown \<open>whence\<close> is \<open>InvalidArgument\<close> and leaves the descriptor alone.
\<close>

theorem seek_in_integers:
  assumes "fd_file fs d = Some (h, st)" and "uint (seek_base h st wh) < 2 ^ 63"
    and "uint (seek_base h st wh) + sint off < 2 ^ 63"
  shows "if wh \<in> {0, 1, 2} \<and> 0 \<le> uint (seek_base h st wh) + sint off
    then \<exists>p. fst (seek fs d off wh) = Inr p \<and> uint p = uint (seek_base h st wh) + sint off \<and>
      fd_file (snd (seek fs d off wh)) d = Some (h\<lparr>position := p\<rparr>, st)
    else seek fs d off wh = (Inl InvalidArgument, fs)"
proof -
  obtain ino where i: "fd_table fs d = Some h" "inode_table fs (h_inode h) = Some ino" "content ino = File st"
    using assms(1) by (rule fd_fileE)
  let ?p = "seek_base h st wh + off"
  have s: "sint ?p = uint (seek_base h st wh) + sint off" by (rule sint_add_small [OF assms(2,3)])
  have run: "seek fs d off wh = (if wh \<in> {0, 1, 2} \<and> 0 \<le> sint ?p then (Inr ?p, set_position fs d ?p)
      else (Inl InvalidArgument, fs))"
    using i by (auto simp: seek_def Let_def seek_base_def)
  have "fd_file (set_position fs d ?p) d = Some (h\<lparr>position := ?p\<rparr>, st)"
    using i by (simp add: fd_file_def fd_table_set_position)
  then show ?thesis
    using run s uint_of_sint_nonneg [of ?p] by (auto split: if_splits)
qed

theorem seek_in_integers_witness:
  "\<exists>p. fst (seek demo_file 3 7 1) = Inr p \<and> uint p = 7"
proof -
  have "fd_file demo_file 3 = Some (\<lparr>h_inode = 1, position = 0, h_flags = 66\<rparr>, bs_new)"
    by (simp add: demo_file_eq fd_file_def bs_new_def)
  from seek_in_integers [OF this, of 1 7] show ?thesis
    by (auto simp: seek_base_def)
qed

section \<open>Metadata and listings\<close>

lemma stat_walk:
  assumes "fs_wf fs" and "path \<noteq> []"
  shows "stat fs path = (case walk fs (root_inode fs) (path_comps path) of
    Inl e \<Rightarrow> Inl e | Inr i \<Rightarrow> Inr (meta (inode_of fs i)))"
  using assms(2) fs_wf_root [OF assms(1)] by (simp add: stat_def) (auto split: option.splits)

text \<open>
  \<open>stat\<close> succeeds exactly on the paths of the abstract file system, and tells the kind and,
  for files, the length in bytes.
\<close>

theorem stat_agrees:
  assumes "fs_reachable fs" and "path \<noteq> []"
  shows "case abs_fs fs (path_comps path) of
      None \<Rightarrow> \<exists>e. stat fs path = Inl e
    | Some DirN \<Rightarrow> \<exists>m. stat fs path = Inr m \<and> is_dir m
    | Some (FileN b) \<Rightarrow> \<exists>m. stat fs path = Inr m \<and> \<not> is_dir m \<and> md_size m = of_nat (length b)"
proof -
  note wf = fs_invD(1) [OF fs_reachable_inv [OF assms(1)]]
  note w = walk_descend [OF wf fs_wf_root [OF wf], of "path_comps path"]
  show ?thesis
  proof (cases "walk fs (root_inode fs) (path_comps path)")
    case (Inl e)
    then have "abs_fs fs (path_comps path) = None"
      using w by (cases "descend (child fs) (root_inode fs) (path_comps path)") (auto simp: abs_fs_def)
    then show ?thesis using Inl stat_walk [OF wf assms(2)] by simp
  next
    case (Inr i)
    then have d: "descend (child fs) (root_inode fs) (path_comps path) = Some i" using w by simp
    note iw = fs_wf_inode [OF wf descend_root_dom [OF wf d]]
    show ?thesis
      using d Inr stat_walk [OF wf assms(2)] inode_wf_is_dir [OF iw] inode_wf_File [OF iw]
      by (cases "content (inode_of fs i)") (auto simp: abs_fs_def node_of_def)
  qed
qed

theorem stat_agrees_witness:
  "abs_fs demo_dirs [''a'', ''b''] = Some DirN \<and> (\<exists>m. stat demo_dirs ''/a/b'' = Inr m \<and> is_dir m)"
proof -
  have "abs_fs demo_dirs [''a'', ''b''] = Some DirN"
    by (simp add: demo_dirs_eq fs_eval child_def abs_fs_def node_of_def)
  with stat_agrees [OF demo_dirs_reachable, of "''/a/b''"] show ?thesis by (simp add: demo_comps)
qed

text \<open>
  \<open>readdir\<close> of a directory lists exactly the names below it, without repetition and in
  ascending order; \<open>readdir_fd\<close> on a descriptor of the directory lists the same names.
\<close>

theorem readdir_lists_children:
  assumes "fs_reachable fs" and "path \<noteq> []" and "abs_fs fs (path_comps path) = Some DirN"
    and "fd_table fs d = Some h" and "walk fs (root_inode fs) (path_comps path) = Inr (h_inode h)"
  shows "\<exists>names. readdir fs path = Inr names \<and> sorted_wrt (<) names
    \<and> set names = {n. abs_fs fs (path_comps path @ [n]) \<noteq> None}
    \<and> (\<exists>es. readdir_fd fs d = Inr es \<and> map fst es = names)"
proof -
  note wf = fs_invD(1) [OF fs_reachable_inv [OF assms(1)]]
  note root = fs_wf_root [OF wf]
  have de: "descend (child fs) (root_inode fs) (path_comps path) = Some (h_inode h)"
    using assms(5) walk_descend [OF wf root] by blast
  note i = descend_root_dom [OF wf de]
  have "node_of fs (h_inode h) = DirN" using assms(3) de by (simp add: abs_fs_def)
  then obtain es where es: "content (inode_of fs (h_inode h)) = Dir es"
    by (auto simp: node_of_def split: file_content.splits)
  have ok: "entries_ok (dom (inode_table fs)) es" by (rule inode_wf_Dir [OF fs_wf_inode [OF wf i] es])
  have "set (bt_keys es) = {n. abs_fs fs (path_comps path @ [n]) \<noteq> None}"
    using de child_eq [OF i es] by (auto simp: abs_fs_def descend_append bt_keys_def domIff dom_map_of_conv_image_fst [symmetric])
  moreover have "sorted_wrt (<) (bt_keys es)" using ok by (simp add: entries_ok_def bt_inv_def)
  moreover have "readdir fs path = Inr (bt_keys es)"
    using assms(2,5) root es by (auto simp: readdir_def split: option.splits)
  moreover have "map fst (List.map_filter (\<lambda>(name, child). map_option (\<lambda>c. (name, is_dir (meta (inode_of fs c)))) (inode_get fs child)) es)
      = bt_keys es"
  proof -
    have "\<forall>e \<in> set es. snd e \<in> dom (inode_table fs)"
      using ok bt_set_iff [of es] unfolding entries_ok_def by (metis prod.collapse)
    then show ?thesis by (induction es) (auto simp: List.map_filter_def bt_keys_def inode_get_def)
  qed
  moreover have g: "inode_get fs (h_inode h) = Some (h_inode h)" using i by simp
  have "\<exists>l. readdir_fd fs d = Inr l \<and> l = List.map_filter
      (\<lambda>(name, child). map_option (\<lambda>c. (name, is_dir (meta (inode_of fs c)))) (inode_get fs child)) es"
    by (simp only: readdir_fd_def assms(4) g es option.case file_content.case sum.inject) simp
  ultimately show ?thesis by metis
qed

theorem readdir_lists_children_witness:
  "fst (open_path_with_flags demo_dirs ''/a'' 0) = Inr 4 \<and>
   (\<exists>names. readdir (fs_exec (COpenPath ''/a'' 0) demo_dirs) ''/a'' = Inr names \<and> ''b'' \<in> set names)"
proof -
  let ?fs = "fs_exec (COpenPath ''/a'' 0) demo_dirs"
  let ?h = "\<lparr>h_inode = 2, position = 0, h_flags = 0\<rparr>"
  have r: "fs_reachable ?fs" by (rule fs_call [OF demo_dirs_reachable]) (use demo_room in simp)
  have "abs_fs ?fs (path_comps ''/a'') = Some DirN" "fd_table ?fs 4 = Some ?h"
    "walk ?fs (root_inode ?fs) (path_comps ''/a'') = Inr (h_inode ?h)"
    by (simp_all add: demo_dirs_eq fs_eval child_def abs_fs_def node_of_def)
  note p = readdir_lists_children [OF r _ this]
  have b: "abs_fs ?fs (path_comps ''/a'' @ [''b'']) \<noteq> None"
    by (simp add: demo_dirs_eq fs_eval child_def abs_fs_def)
  have "fst (open_path_with_flags demo_dirs ''/a'' 0) = Inr 4" by (simp add: demo_dirs_eq fs_eval)
  moreover from p b have "\<exists>names. readdir ?fs ''/a'' = Inr names \<and> ''b'' \<in> set names" by auto
  ultimately show ?thesis ..
qed

text \<open>
  C32. Removing or renaming names never disturbs open files: what any descriptor reads is the
  same before and after an \<open>unlink\<close>, \<open>rmdir\<close> or \<open>rename\<close>, of its own file too.
\<close>

theorem open_files_survive_unlink:
  assumes "fs_reachable fs"
  shows "fst (read_at (snd (unlink fs p)) d off out) = fst (read_at fs d off out)
    \<and> fst (read_at (snd (rmdir fs p)) d off out) = fst (read_at fs d off out)
    \<and> fst (read_at (snd (rename fs p q)) d off out) = fst (read_at fs d off out)"
proof -
  note wf = fs_invD(1) [OF fs_reachable_inv [OF assms]]
  show ?thesis
    unfolding read_at_def
    using wf files_kept_unlink files_kept_rmdir files_kept_rename read_with_files_kept by blast
qed

theorem open_files_survive_unlink_witness:
  "fst (unlink demo_dirs ''/f'') = Inr () \<and>
   fst (read_at (snd (unlink demo_dirs ''/f'')) 3 0 [9]) = fst (read_at demo_dirs 3 0 [9])"
  using open_files_survive_unlink [OF demo_dirs_reachable, of "''/f''" 3 0 "[9]"]
  by (simp add: demo_dirs_eq fs_eval unlink_def remove_entry_def)

section \<open>Corner cases\<close>

text \<open>
  Renaming a directory to a new name below itself is not refused: the call succeeds and
  every path of the moved subtree is gone.
\<close>

theorem rename_below_itself_loses_subtree:
  assumes "fs_reachable fs" and "path_comps old \<noteq> []"
    and "abs_fs fs (path_comps old) = Some DirN" and "strict_prefix (path_comps old) (path_comps new)"
    and "abs_fs fs (butlast (path_comps new)) = Some DirN" and "abs_fs fs (path_comps new) = None"
  shows "fst (rename fs old new) = Inr () \<and>
    (\<forall>ds. abs_fs (snd (rename fs old new)) (path_comps old @ ds) = None)"
proof -
  let ?A = "abs_fs fs" and ?oc = "path_comps old" and ?nc = "path_comps new"
  note inv = fs_reachable_inv [OF assms(1)]
  note wf = fs_invD(1) [OF inv]
  have nc: "?nc \<noteq> []" "?nc \<noteq> ?oc" "prefix ?oc ?nc" using assms(4) by (auto simp: strict_prefix_def)
  have "?A (butlast ?oc) = Some DirN"
    using abs_parent_dir [OF wf, of "butlast ?oc" "last ?oc"] assms(2,3) by simp
  then have r: "resolve_from ?A [] (butlast ?oc) = Inr ()" "resolve_from ?A [] (butlast ?nc) = Inr ()"
    using resolve_from_dir [OF wf] assms(5) by auto
  have "spec_rename ?A old new = (Inr (), spec_move ?A ?oc ?nc)"
    using assms(2,3,6) nc r by (auto simp: spec_rename_def spec_rename_check_def Let_def)
  then have "fst (rename fs old new) = Inr () \<and> abs_fs (snd (rename fs old new)) = spec_move ?A ?oc ?nc"
    using rename_spec [OF inv, of old new] by simp
  then show ?thesis using nc(3) by (simp add: spec_move_def)
qed

theorem rename_below_itself_loses_subtree_witness:
  "abs_fs demo_dirs [''a'', ''b''] = Some DirN \<and> fst (rename demo_dirs ''/a'' ''/a/b/c'') = Inr () \<and>
   abs_fs (snd (rename demo_dirs ''/a'' ''/a/b/c'')) [''a'', ''b''] = None"
proof -
  have c: "path_comps ''/a'' = [''a'']" "path_comps ''/a/b/c'' = [''a'', ''b'', ''c'']" by (simp_all add: fs_eval)
  have A: "abs_fs demo_dirs [''a''] = Some DirN" "abs_fs demo_dirs [''a'', ''b''] = Some DirN"
    "abs_fs demo_dirs [''a'', ''b'', ''c''] = None"
    by (simp_all add: demo_dirs_eq fs_eval child_def abs_fs_def node_of_def)
  have "fst (rename demo_dirs ''/a'' ''/a/b/c'') = Inr () \<and>
      (\<forall>ds. abs_fs (snd (rename demo_dirs ''/a'' ''/a/b/c'')) (path_comps ''/a'' @ ds) = None)"
    by (rule rename_below_itself_loses_subtree [OF demo_dirs_reachable]) (simp_all add: c A strict_prefix_def)
  with A c show ?thesis by simp
qed

text \<open>
  \<open>O_EXCL\<close> does not make an open of an existing file fail: with \<open>O_CREAT\<close> and
  \<open>O_EXCL\<close> set, the open of an existing file succeeds as without them.
\<close>

theorem o_excl_opens_existing_file:
  assumes "fs_reachable fs" and "next_inode fs \<noteq> - 1" and "path \<noteq> []"
    and "abs_fs fs (path_comps path) = Some (FileN b)"
    and "has_flag fl O_CREAT" and "has_flag fl O_EXCL" and "\<not> has_flag fl O_TRUNC"
  shows "\<exists>d. fst (open_path_with_flags fs path fl) = Inr d"
proof -
  note inv = fs_reachable_inv [OF assms(1)]
  note wf = fs_invD(1) [OF inv]
  have ne: "path_comps path \<noteq> []" using assms(4) abs_fs_root [OF wf] by auto
  have "abs_fs fs (butlast (path_comps path)) = Some DirN"
    using abs_parent_dir [OF wf, of "butlast (path_comps path)" "last (path_comps path)"] assms(4) ne by simp
  then have "resolve_from (abs_fs fs) [] (butlast (path_comps path)) = Inr ()" by (rule resolve_from_dir [OF wf])
  then have "fst (spec_open (abs_fs fs) path fl) = Inr ()"
    using assms(3,4,7) ne by (simp add: spec_open_def Let_def)
  then have "forget (fst (open_path_with_flags fs path fl)) = Inr ()"
    using open_path_spec [OF inv assms(2), of path fl] by (metis fst_conv)
  then show ?thesis by (auto simp: forget_def split: sum.splits)
qed

theorem o_excl_opens_existing_file_witness:
  "\<exists>d. fst (open_path_with_flags demo_dirs ''/f'' (O_RDWR OR O_CREAT OR O_EXCL)) = Inr d"
proof -
  have "abs_fs demo_dirs (path_comps ''/f'') = Some (FileN [])"
    by (simp add: demo_dirs_eq fs_eval child_def abs_fs_def node_of_def contents_def)
  from o_excl_opens_existing_file [OF demo_dirs_reachable _ _ this, of "O_RDWR OR O_CREAT OR O_EXCL"] show ?thesis
    by (simp add: demo_dirs_eq has_flag_def flag_defs)
qed

end
