(* ===== verification/Snapshot.thy ===== *)
theory Snapshot
  imports Fs_Guarantees
begin

text \<open>
  \<open>crates/core/fs-core/src/snapshot.rs\<close>: taking a snapshot of a file system and restoring one.
  The order in which \<open>inode_for_each\<close> visits the hash table is the parameter \<open>order\<close>, a list of
  the identifiers of the table.
\<close>

record metadata_snapshot =
  s_size :: u64
  s_created :: u64
  s_modified :: u64
  s_permissions :: u16
  s_is_dir :: bool

record file_data_snapshot =
  fd_size :: nat
  fd_data :: bytes

datatype file_content_snapshot = FileS file_data_snapshot | DirS "(string, inode_id) btree"

record inode_snapshot =
  s_id :: inode_id
  s_metadata :: metadata_snapshot
  s_content :: file_content_snapshot

record fs_snapshot =
  s_next_inode :: inode_id
  s_root_inode :: inode_id
  s_inodes :: "inode_snapshot list"

definition metadata_to_snapshot :: "metadata \<Rightarrow> metadata_snapshot" where
  "metadata_to_snapshot m =
     \<lparr>s_size = md_size m, s_created = created m, s_modified = modified m,
      s_permissions = permissions m, s_is_dir = is_dir m\<rparr>"

definition metadata_from_snapshot :: "metadata_snapshot \<Rightarrow> metadata" where
  "metadata_from_snapshot m =
     \<lparr>md_size = s_size m, created = s_created m, modified = s_modified m,
      permissions = s_permissions m, is_dir = s_is_dir m\<rparr>"

definition storage_to_snapshot :: "block_storage \<Rightarrow> file_data_snapshot" where
  "storage_to_snapshot st =
     (let size = bsize st; data = replicate size 0 in
      \<lparr>fd_size = size, fd_data = snd (bs_read st 0 data)\<rparr>)"

definition inode_to_snapshot :: "inode_id \<Rightarrow> inode \<Rightarrow> inode_snapshot" where
  "inode_to_snapshot i ino =
     \<lparr>s_id = i, s_metadata = metadata_to_snapshot (meta ino),
      s_content = (case content ino of
         File st \<Rightarrow> FileS (storage_to_snapshot st) | Dir entries \<Rightarrow> DirS entries)\<rparr>"

definition to_snapshot :: "inode_id list \<Rightarrow> fs \<Rightarrow> fs_snapshot" where
  "to_snapshot order fs =
     \<lparr>s_next_inode = next_inode fs, s_root_inode = root_inode fs,
      s_inodes = List.map_filter (\<lambda>i. map_option (inode_to_snapshot i) (inode_table fs i)) order\<rparr>"

definition storage_from_snapshot :: "file_data_snapshot \<Rightarrow> block_storage" where
  "storage_from_snapshot d =
     (let st = bs_new;
          st = (if fd_data d \<noteq> [] then snd (bs_write st 0 (fd_data d)) else st) in
      if bsize st \<noteq> fd_size d then bs_truncate st (fd_size d) else st)"

definition inode_from_snapshot :: "inode_snapshot \<Rightarrow> inode" where
  "inode_from_snapshot s =
     \<lparr>ino_id = s_id s, meta = metadata_from_snapshot (s_metadata s),
      content = (case s_content s of
         FileS d \<Rightarrow> File (storage_from_snapshot d) | DirS entries \<Rightarrow> Dir entries)\<rparr>"

text \<open>\<open>c\<close> is the state of the time provider handed in.\<close>

definition from_snapshot :: "fs_snapshot \<Rightarrow> u64 \<Rightarrow> fs" where
  "from_snapshot s c =
     fold (\<lambda>is fs. inode_insert fs (s_id is) (inode_from_snapshot is)) (s_inodes s)
       (empty_with c (s_root_inode s) (s_next_inode s))"

section \<open>Restoring a snapshot\<close>

lemma metadata_snapshot_inverse [simp]: "metadata_from_snapshot (metadata_to_snapshot m) = m"
  by (simp add: metadata_from_snapshot_def metadata_to_snapshot_def)

text \<open>Reading into a zeroed buffer yields the whole content, holes past the last block included.\<close>

lemma snapshot_data:
  assumes "bs_inv st"
  shows "fd_data (storage_to_snapshot st) = contents st" "fd_size (storage_to_snapshot st) = bsize st"
proof -
  let ?n = "readable st"
  have rd: "snd (bs_read st 0 (replicate (bsize st) 0)) = take ?n (contents st) @ drop ?n (replicate (bsize st) 0)"
    using bs.rd [OF assms, of 0 "replicate (bsize st) 0"] readable_le [of st] by (simp add: Let_def min_absorb2)
  with contents_zero_tail [of st] show "fd_data (storage_to_snapshot st) = contents st" by (simp add: storage_to_snapshot_def)
  show "fd_size (storage_to_snapshot st) = bsize st" by (simp add: storage_to_snapshot_def Let_def)
qed

lemma storage_roundtrip:
  assumes "bs_inv st"
  shows "bs_inv (storage_from_snapshot (storage_to_snapshot st))"
    and "contents (storage_from_snapshot (storage_to_snapshot st)) = contents st"
proof -
  let ?d = "storage_to_snapshot st"
  let ?w = "if fd_data ?d \<noteq> [] then snd (bs_write bs_new 0 (fd_data ?d)) else bs_new"
  have w: "bs_inv ?w" using bs_inv_write [OF bs_inv_new] bs_inv_new by simp
  have c: "contents ?w = contents st"
    using contents_write [OF bs_inv_new, of 0 "contents st"]
    by (auto simp: snapshot_data [OF assms] write_spec_def)
  then have "bsize ?w = fd_size ?d" using length_contents snapshot_data(2) [OF assms] by metis
  then have "storage_from_snapshot ?d = ?w" by (simp add: storage_from_snapshot_def Let_def)
  with w c show "bs_inv (storage_from_snapshot ?d)" "contents (storage_from_snapshot ?d) = contents st"
    by simp_all
qed

definition restored :: "inode_id \<Rightarrow> inode \<Rightarrow> inode" where
  "restored i ino = inode_from_snapshot (inode_to_snapshot i ino)"

lemma restored_sel:
  "ino_id (restored i ino) = i" "meta (restored i ino) = meta ino"
  "content (restored i ino) = (case content ino of
     File st \<Rightarrow> File (storage_from_snapshot (storage_to_snapshot st)) | Dir es \<Rightarrow> Dir es)"
  by (simp_all add: restored_def inode_from_snapshot_def inode_to_snapshot_def split: file_content.split)

lemma fold_insert_sel:
  "fd_table (fold (\<lambda>is fs. inode_insert fs (f is) (g is)) xs fs) = fd_table fs"
  "root_inode (fold (\<lambda>is fs. inode_insert fs (f is) (g is)) xs fs) = root_inode fs"
  "next_inode (fold (\<lambda>is fs. inode_insert fs (f is) (g is)) xs fs) = next_inode fs"
  "next_fd (fold (\<lambda>is fs. inode_insert fs (f is) (g is)) xs fs) = next_fd fs"
  by (induction xs arbitrary: fs) simp_all

lemma restore_table:
  "inode_table (fold (\<lambda>is fs. inode_insert fs (s_id is) (inode_from_snapshot is))
      (List.map_filter (\<lambda>i. map_option (inode_to_snapshot i) (T i)) order) fs) i =
    (if i \<in> set order \<and> T i \<noteq> None then map_option (restored i) (T i) else inode_table fs i)"
proof (induction order arbitrary: fs)
  case Nil
  then show ?case by (simp add: List.map_filter_def)
next
  case (Cons j order)
  show ?case
  proof (cases "T j")
    case None
    with Cons show ?thesis by (auto simp add: List.map_filter_simps)
  next
    case (Some ino)
    then show ?thesis
      unfolding List.map_filter_simps
      by (auto simp: Cons restored_def) (simp_all add: inode_to_snapshot_def)
  qed
qed

lemma inode_table_restore:
  assumes "set order = dom (inode_table fs)"
  shows "inode_table (from_snapshot (to_snapshot order fs) c) i = map_option (restored i) (inode_table fs i)"
  using assms by (auto simp: from_snapshot_def to_snapshot_def restore_table empty_with_def domIff)

lemma restore_sel:
  "root_inode (from_snapshot (to_snapshot order fs) c) = root_inode fs"
  "next_inode (from_snapshot (to_snapshot order fs) c) = next_inode fs"
  "fd_table (from_snapshot (to_snapshot order fs) c) = Map.empty"
  "next_fd (from_snapshot (to_snapshot order fs) c) = 3"
  by (simp_all add: from_snapshot_def to_snapshot_def fold_insert_sel empty_with_def)

lemma child_restore:
  assumes "set order = dom (inode_table fs)"
  shows "child (from_snapshot (to_snapshot order fs) c) = child fs"
  by (auto simp: child_def inode_table_restore [OF assms] restored_sel fun_eq_iff
      split: option.split file_content.split)

lemma node_of_restore:
  assumes "fs_wf fs" and "set order = dom (inode_table fs)" and "i \<in> dom (inode_table fs)"
  shows "node_of (from_snapshot (to_snapshot order fs) c) i = node_of fs i"
  using assms(3) fs_wf_file [OF assms(1)]
  by (auto simp: node_of_def inode_of_def inode_table_restore [OF assms(2)] restored_sel storage_roundtrip
      split: file_content.split)

lemma restored_wf:
  assumes "inode_wf D i ino" shows "inode_wf D i (restored i ino)"
  using assms storage_roundtrip
  by (auto simp: inode_wf_def restored_sel split: file_content.splits) (metis length_contents)+

lemma fs_wf_restore:
  assumes wf: "fs_wf fs" and o: "set order = dom (inode_table fs)"
  shows "fs_wf (from_snapshot (to_snapshot order fs) c)"
proof -
  have d: "dom (inode_table (from_snapshot (to_snapshot order fs) c)) = dom (inode_table fs)"
    by (auto simp: inode_table_restore [OF o] dom_def)
  have r: "\<not> is_file_inode (inode_of (from_snapshot (to_snapshot order fs) c) (root_inode fs))"
    using fs_wf_root [OF wf] fs_wf_root_dir [OF wf]
    by (auto simp: inode_of_def inode_table_restore [OF o] is_file_inode_def restored_sel split: file_content.splits)
  have "inode_wf (dom (inode_table fs)) i (restored i ino) \<and> i < next_inode fs"
    if "inode_table fs i = Some ino" for i ino
    using that fs_wf_inode [OF wf, of i] fs_wf_inode_less [OF wf, of i] restored_wf by (auto simp: domI)
  then show ?thesis
    using fs_wf_root [OF wf] r unfolding fs_wf_def d restore_sel
    by (auto simp: inode_table_restore [OF o])
qed

text \<open>
  C34. Restoring the snapshot of a reachable state, whatever the order in which the inodes
  were visited, yields a file system with the same paths, the same bytes and the same metadata,
  with no open descriptors, that satisfies the invariant.
\<close>

theorem snapshot_roundtrip:
  assumes "fs_reachable fs" and "set order = dom (inode_table fs)"
  shows "abs_fs (from_snapshot (to_snapshot order fs) c) = abs_fs fs
    \<and> (\<forall>path. stat (from_snapshot (to_snapshot order fs) c) path = stat fs path)
    \<and> fd_table (from_snapshot (to_snapshot order fs) c) = Map.empty
    \<and> fs_inv (from_snapshot (to_snapshot order fs) c)"
proof -
  let ?r = "from_snapshot (to_snapshot order fs) c"
  note inv = fs_reachable_inv [OF assms(1)]
  note wf = fs_invD(1) [OF inv] and wf' = fs_wf_restore [OF fs_invD(1) [OF inv] assms(2), of c]
  have dom: "dom (inode_table ?r) = dom (inode_table fs)"
    by (auto simp: inode_table_restore [OF assms(2)] dom_def)
  have "abs_fs ?r cs = abs_fs fs cs" for cs
    using node_of_restore [OF wf assms(2)] descend_root_dom [OF wf, of cs]
    by (cases "descend (child fs) (root_inode fs) cs")
      (auto simp: abs_fs_def child_restore [OF assms(2)] restore_sel)
  moreover have "stat ?r path = stat fs path" for path
  proof -
    have m: "meta (inode_of ?r i) = meta (inode_of fs i)" if "i \<in> dom (inode_table fs)" for i
      using that by (auto simp: inode_of_def inode_table_restore [OF assms(2)] restored_sel)
    have f: "find_inode ?r i n = find_inode fs i n" if "i \<in> dom (inode_table fs)" for i n
      using that dom
      by (auto simp: find_inode_def inode_of_def inode_table_restore [OF assms(2)] restored_sel ok_or_def
          inode_get_def split: file_content.split option.split)
    have w: "walk ?r i cs = walk fs i cs" if "i \<in> dom (inode_table fs)" for i cs
      using that by (induction cs arbitrary: i) (auto simp: f dest: find_inode_dom split: sum.splits)
    show ?thesis
    proof (cases "path = []")
      case False
      then show ?thesis
        using w [OF fs_wf_root [OF wf], of "path_comps path"] m walk_dom [OF _ fs_wf_root [OF wf]]
        unfolding stat_walk [OF wf False] stat_walk [OF wf' False] restore_sel by (auto split: sum.splits)
    qed (simp add: stat_def)
  qed
  moreover have "fs_inv ?r"
    using wf' fs_invD(2) [OF inv] by (simp add: fs_inv_def child_restore [OF assms(2)] restore_sel)
  ultimately show ?thesis by (auto simp: restore_sel)
qed

theorem snapshot_roundtrip_witness:
  "abs_fs (from_snapshot (to_snapshot [3, 1, 0, 2] demo_dirs) 7) = abs_fs demo_dirs"
proof -
  have "set [3, 1, 0, 2] = dom (inode_table demo_dirs)" by (auto simp: demo_dirs_eq split: if_splits)
  from snapshot_roundtrip [OF demo_dirs_reachable this, of 7] show ?thesis by blast
qed

end
