(* ===== verification/Rust_Text.thy ===== *)
theory Rust_Text
  imports Prelude "HOL-Library.Sublist"
begin

text \<open>
  The text operations of the Rust standard library that the sync and RPC crates call, on strings
  as lists of UTF-8 bytes: decimal printing and parsing, \<open>trim\<close>, \<open>lines\<close>, \<open>split_once\<close>,
  \<open>strip_prefix\<close>, UTF-8 validation, ASCII lower case; and durations in nanoseconds.
\<close>

section \<open>Bytes and characters\<close>

definition byte_of :: "char \<Rightarrow> u8" where
  "byte_of c = of_nat (of_char c)"

definition char_of_byte :: "u8 \<Rightarrow> char" where
  "char_of_byte b = char_of (unat b)"

lemma char_of_byte_of [simp]: "char_of_byte (byte_of c) = c"
proof -
  have "(of_char c :: nat) < 256" by (metis of_char_of of_char_mod_256 mod_less_divisor zero_less_numeral)
  then have "unat (of_nat (of_char c) :: u8) = of_char c" by (simp add: unsigned_of_nat take_bit_nat_eq_self)
  then show ?thesis by (simp add: char_of_byte_def byte_of_def)
qed

definition into_bytes :: "string \<Rightarrow> bytes" where
  "into_bytes s = map byte_of s"

text \<open>\<open>std::str::from_utf8\<close>: the well-formed byte sequences of the Unicode standard.\<close>

definition utf8_cont :: "u8 \<Rightarrow> bool" where
  "utf8_cont b \<longleftrightarrow> 0x80 \<le> b \<and> b \<le> 0xBF"

text \<open>One character: the bytes that follow it, or \<open>None\<close> when the sequence is ill formed.\<close>

fun utf8_step :: "bytes \<Rightarrow> bytes option" where
  "utf8_step [] = None"
| "utf8_step (b # r) =
     (if b < 0x80 then Some r
      else if 0xC2 \<le> b \<and> b \<le> 0xDF then
        (case r of c # r' \<Rightarrow> if utf8_cont c then Some r' else None | _ \<Rightarrow> None)
      else if 0xE0 \<le> b \<and> b \<le> 0xEF then
        (case r of
           c # d # r' \<Rightarrow>
             if (if b = 0xE0 then 0xA0 \<le> c \<and> c \<le> 0xBF
                 else if b = 0xED then 0x80 \<le> c \<and> c \<le> 0x9F else utf8_cont c) \<and> utf8_cont d
             then Some r' else None
         | _ \<Rightarrow> None)
      else if 0xF0 \<le> b \<and> b \<le> 0xF4 then
        (case r of
           c # d # e # r' \<Rightarrow>
             if (if b = 0xF0 then 0x90 \<le> c \<and> c \<le> 0xBF
                 else if b = 0xF4 then 0x80 \<le> c \<and> c \<le> 0x8F else utf8_cont c)
               \<and> utf8_cont d \<and> utf8_cont e
             then Some r' else None
         | _ \<Rightarrow> None)
      else None)"

lemma utf8_step_shorter: "utf8_step b = Some r \<Longrightarrow> length r < length b"
  by (cases b) (auto split: list.splits if_splits)

lemma utf8_step_append: "utf8_step a = Some r \<Longrightarrow> utf8_step (a @ b) = Some (r @ b)"
  by (cases a) (auto split: list.splits if_splits)

function utf8_valid :: "bytes \<Rightarrow> bool" where
  "utf8_valid b = (b = [] \<or> (case utf8_step b of None \<Rightarrow> False | Some r \<Rightarrow> utf8_valid r))"
  by pat_completeness auto
termination
  by (relation "measure length") (auto dest: utf8_step_shorter)

declare utf8_valid.simps [simp del]

definition from_utf8 :: "bytes \<Rightarrow> string option" where
  "from_utf8 b = (if utf8_valid b then Some (map char_of_byte b) else None)"

lemma from_utf8_into_bytes: "utf8_valid (into_bytes s) \<Longrightarrow> from_utf8 (into_bytes s) = Some s"
  by (simp add: from_utf8_def into_bytes_def comp_def)

lemma utf8_valid_append: "utf8_valid a \<Longrightarrow> utf8_valid b \<Longrightarrow> utf8_valid (a @ b)"
proof (induction a rule: utf8_valid.induct)
  case (1 a)
  show ?case
  proof (cases "utf8_step a")
    case None
    with 1 show ?thesis by (simp add: utf8_valid.simps [of a])
  next
    case (Some r)
    with 1 have "utf8_valid (r @ b)" by (auto simp: utf8_valid.simps [of a])
    then show ?thesis using utf8_step_append [OF Some] by (subst utf8_valid.simps) simp
  qed
qed

lemma into_bytes_append [simp]: "into_bytes (s @ t) = into_bytes s @ into_bytes t"
  by (simp add: into_bytes_def)

section \<open>Numbers\<close>

definition digit_char :: "nat \<Rightarrow> char" where
  "digit_char k = char_of (48 + k)"

fun show_nat :: "nat \<Rightarrow> string" where
  "show_nat n = (if n < 10 then [digit_char n] else show_nat (n div 10) @ [digit_char (n mod 10)])"

declare show_nat.simps [simp del]

definition digit_val :: "char \<Rightarrow> nat option" where
  "digit_val c = (let k = of_char c :: nat in if 48 \<le> k \<and> k \<le> 57 then Some (k - 48) else None)"

fun digits_val :: "nat \<Rightarrow> string \<Rightarrow> nat option" where
  "digits_val acc [] = Some acc"
| "digits_val acc (c # cs) =
     (case digit_val c of None \<Rightarrow> None | Some d \<Rightarrow> digits_val (10 * acc + d) cs)"

text \<open>\<open>str::parse\<close> for unsigned 64-bit integers: an optional plus sign, at least one digit, no
  overflow.\<close>

definition parse_nat64 :: "string \<Rightarrow> nat option" where
  "parse_nat64 s =
     (let ds = (case s of c # r \<Rightarrow> if c = CHR ''+'' then r else s | [] \<Rightarrow> []) in
      if ds = [] then None
      else case digits_val 0 ds of None \<Rightarrow> None | Some n \<Rightarrow> if n < 2 ^ 64 then Some n else None)"

definition parse_u64 :: "string \<Rightarrow> u64 option" where
  "parse_u64 s = map_option of_nat (parse_nat64 s)"

lemma of_char_digit: "k < 10 \<Longrightarrow> (of_char (digit_char k) :: nat) = 48 + k"
  unfolding digit_char_def by (subst of_char_of) (simp add: take_bit_eq_mod)

lemma digit_val_digit [simp]: "k < 10 \<Longrightarrow> digit_val (digit_char k) = Some k"
  by (simp add: digit_val_def of_char_digit)

lemma digits_val_append:
  "digits_val acc (xs @ ys) = (case digits_val acc xs of None \<Rightarrow> None | Some n \<Rightarrow> digits_val n ys)"
  by (induction acc xs rule: digits_val.induct) (auto split: option.splits)

lemma digits_val_show: "digits_val 0 (show_nat n) = Some n"
proof (induction n rule: show_nat.induct)
  case (1 n)
  show ?case
  proof (cases "n < 10")
    case True
    then show ?thesis by (simp add: show_nat.simps [of n])
  next
    case False
    then show ?thesis using 1 by (simp add: show_nat.simps [of n] digits_val_append)
  qed
qed

lemma show_nat_digits: "c \<in> set (show_nat n) \<Longrightarrow> \<exists>k<10. c = digit_char k"
proof (induction n rule: show_nat.induct)
  case (1 n)
  have "n mod 10 < 10" by simp
  with 1 show ?case by (cases "n < 10") (auto simp: show_nat.simps [of n] simp del: mod_less_divisor)
qed

lemma show_nat_nonempty [simp]: "show_nat n \<noteq> []"
  by (simp add: show_nat.simps [of n])

lemma digit_char_plus: "k < 10 \<Longrightarrow> digit_char k \<noteq> CHR ''+''"
  using of_char_digit [of k] by auto

lemma parse_show_nat: "n < 2 ^ 64 \<Longrightarrow> parse_nat64 (show_nat n) = Some n"
proof -
  assume n: "n < 2 ^ 64"
  have "\<not> (\<exists>r. show_nat n = CHR ''+'' # r)"
    using show_nat_digits [of "CHR ''+''" n] digit_char_plus by (metis list.set_intros(1))
  then have "(case show_nat n of c # r \<Rightarrow> if c = CHR ''+'' then r else show_nat n | [] \<Rightarrow> []) = show_nat n"
    by (auto split: list.splits)
  then show ?thesis using n by (simp add: parse_nat64_def Let_def digits_val_show)
qed

lemma parse_show_u64: "parse_u64 (show_nat (unat w)) = Some w"
proof -
  have "unat w < 2 ^ 64" using unsigned_less [of w] by simp
  then show ?thesis by (simp add: parse_u64_def parse_show_nat)
qed

section \<open>Splitting and trimming\<close>

definition starts_with :: "string \<Rightarrow> string \<Rightarrow> bool" where
  "starts_with p s \<longleftrightarrow> prefix p s"

definition ends_with :: "string \<Rightarrow> string \<Rightarrow> bool" where
  "ends_with p s \<longleftrightarrow> suffix p s"

definition strip_prefix :: "string \<Rightarrow> string \<Rightarrow> string option" where
  "strip_prefix p s = (if prefix p s then Some (drop (length p) s) else None)"

fun split_once :: "char \<Rightarrow> string \<Rightarrow> (string \<times> string) option" where
  "split_once c [] = None"
| "split_once c (x # xs) =
     (if x = c then Some ([], xs)
      else map_option (\<lambda>(a, b). (x # a, b)) (split_once c xs))"

lemma split_once_append: "c \<notin> set a \<Longrightarrow> split_once c (a @ c # b) = Some (a, b)"
  by (induction a) auto

definition newline :: char where "newline = CHR 0x0A"
definition carriage_return :: char where "carriage_return = CHR 0x0D"

fun split_inclusive :: "string \<Rightarrow> string list" where
  "split_inclusive [] = []"
| "split_inclusive (x # xs) =
     (if x = newline then [x] # split_inclusive xs
      else case split_inclusive xs of [] \<Rightarrow> [[x]] | w # ws \<Rightarrow> (x # w) # ws)"

definition strip_eol :: "string \<Rightarrow> string" where
  "strip_eol l =
     (if l \<noteq> [] \<and> last l = newline
      then (let m = butlast l in if m \<noteq> [] \<and> last m = carriage_return then butlast m else m)
      else l)"

definition str_lines :: "string \<Rightarrow> string list" where
  "str_lines s = map strip_eol (split_inclusive s)"

lemma split_inclusive_line:
  "newline \<notin> set l \<Longrightarrow> split_inclusive (l @ newline # s) = (l @ [newline]) # split_inclusive s"
  by (induction l) auto

lemma str_lines_line:
  assumes "newline \<notin> set l" and "l = [] \<or> last l \<noteq> carriage_return"
  shows "str_lines (l @ newline # s) = l # str_lines s"
  using assms by (auto simp: str_lines_def split_inclusive_line strip_eol_def Let_def)

lemma str_lines_Nil [simp]: "str_lines [] = []"
  by (simp add: str_lines_def)

text \<open>The encodings of the characters with the property \<open>White_Space\<close>.\<close>

definition white_space :: "string list" where
  "white_space =
     map (\<lambda>n. [char_of n]) ([9 ..< 14] @ [32]) @
     map (map char_of)
       ([[0xC2, 0x85], [0xC2, 0xA0], [0xE1, 0x9A, 0x80]] @ map (\<lambda>n. [0xE2, 0x80, n]) [0x80 ..< 0x8B] @
        [[0xE2, 0x80, 0xA8], [0xE2, 0x80, 0xA9], [0xE2, 0x80, 0xAF], [0xE2, 0x81, 0x9F], [0xE3, 0x80, 0x80 :: nat]])"

function strip_any :: "string list \<Rightarrow> string \<Rightarrow> string" where
  "strip_any ws s =
     (case find (\<lambda>w. w \<noteq> [] \<and> prefix w s) ws of
        None \<Rightarrow> s
      | Some w \<Rightarrow> strip_any ws (drop (length w) s))"
  by pat_completeness auto
termination
  by (relation "measure (length o snd)") (auto simp: find_Some_iff prefix_def)

declare strip_any.simps [simp del]

definition str_trim :: "string \<Rightarrow> string" where
  "str_trim s = rev (strip_any (map rev white_space) (rev (strip_any white_space s)))"

text \<open>A string that neither starts nor ends with white space.\<close>

definition trimmed :: "string \<Rightarrow> bool" where
  "trimmed s \<longleftrightarrow> (\<forall>w \<in> set white_space. \<not> prefix w s \<and> \<not> suffix w s)"

lemma str_trim_trimmed: "trimmed s \<Longrightarrow> str_trim s = s"
proof -
  assume t: "trimmed s"
  then have "find (\<lambda>w. w \<noteq> [] \<and> prefix w s) white_space = None"
    by (auto simp: find_None_iff trimmed_def)
  moreover have "find (\<lambda>w. w \<noteq> [] \<and> prefix w (rev s)) (map rev white_space) = None"
    using t by (auto simp: find_None_iff trimmed_def suffix_to_prefix)
  ultimately show ?thesis by (simp add: str_trim_def strip_any.simps)
qed

definition to_ascii_lowercase :: "string \<Rightarrow> string" where
  "to_ascii_lowercase s =
     map (\<lambda>c. let k = of_char c :: nat in if 65 \<le> k \<and> k \<le> 90 then char_of (k + 32) else c) s"

section \<open>Durations\<close>

text \<open>A \<open>Duration\<close>, and an \<open>Instant\<close> since some origin, in nanoseconds.\<close>

type_synonym duration = nat
type_synonym instant = nat

definition from_millis :: "nat \<Rightarrow> duration" where
  "from_millis n = n * 1000000"

definition from_secs :: "nat \<Rightarrow> duration" where
  "from_secs n = n * 1000000000"

definition as_millis :: "duration \<Rightarrow> nat" where
  "as_millis d = d div 1000000"

end
