(* ===== verification/Object_Store.thy ===== *)
theory Object_Store
  imports Rust_Text
begin

text \<open>
  The types of the sync crate (\<open>types.rs\<close>) and its view of S3 (\<open>object_store.rs\<close>): the key
  layout, the interface \<open>ObjectStore\<close> as a record of operations on a store state \<open>'s\<close>, and
  the path-level helpers of \<open>FileStore\<close>. Every asynchronous call is one atomic step on the
  state, as S3 promises for a single request.
\<close>

section \<open>Types\<close>

record s3_object_info =
  oi_path :: string
  oi_etag :: string
  oi_last_modified :: u64
  oi_size :: u64
  oi_is_dir :: bool

record object_meta =
  om_key :: string
  om_etag :: string
  om_last_modified :: u64
  om_size :: u64

datatype precondition = NoCond | IfMatch string | IfNoneMatchAny

definition is_if_match :: "precondition \<Rightarrow> bool" where
  "is_if_match cond = (case cond of IfMatch _ \<Rightarrow> True | _ \<Rightarrow> False)"

lemma is_if_match_iff [simp]: "is_if_match cond \<longleftrightarrow> (\<exists>e. cond = IfMatch e)"
  by (simp add: is_if_match_def split: precondition.split)

datatype s3_error =
    S3Read string string
  | S3Write string string
  | S3Delete string string
  | PreconditionFailed string u16 string
  | S3NotFound string
  | NotImplemented string string

fun err_key :: "s3_error \<Rightarrow> string" where
  "err_key (S3Read k _) = k"
| "err_key (S3Write k _) = k"
| "err_key (S3Delete k _) = k"
| "err_key (PreconditionFailed k _ _) = k"
| "err_key (S3NotFound k) = k"
| "err_key (NotImplemented k _) = k"

definition is_precondition_failed :: "s3_error \<Rightarrow> bool" where
  "is_precondition_failed e = (case e of PreconditionFailed _ _ _ \<Rightarrow> True | _ \<Rightarrow> False)"

definition is_not_found :: "s3_error \<Rightarrow> bool" where
  "is_not_found e = (case e of S3NotFound _ \<Rightarrow> True | _ \<Rightarrow> False)"

definition is_not_implemented :: "s3_error \<Rightarrow> bool" where
  "is_not_implemented e = (case e of NotImplemented _ _ \<Rightarrow> True | _ \<Rightarrow> False)"

fun s3_error_display :: "s3_error \<Rightarrow> string" where
  "s3_error_display (S3Read k m) = ''S3 read error for '' @ k @ '': '' @ m"
| "s3_error_display (S3Write k m) = ''S3 write error for '' @ k @ '': '' @ m"
| "s3_error_display (S3Delete k m) = ''S3 delete error for '' @ k @ '': '' @ m"
| "s3_error_display (PreconditionFailed k st c) =
     ''S3 precondition failed for '' @ k @ '' ('' @ show_nat (unat st) @ '' '' @ c @ '')''"
| "s3_error_display (S3NotFound k) = ''S3 object not found: '' @ k"
| "s3_error_display (NotImplemented k m) = ''S3 operation not implemented for '' @ k @ '': '' @ m"

datatype sync_error =
    Busy string "string option"
  | Conflict string bool
  | SyncFs string string
  | SyncS3 s3_error

definition is_busy :: "sync_error \<Rightarrow> bool" where
  "is_busy e = (case e of Busy _ _ \<Rightarrow> True | _ \<Rightarrow> False)"

definition is_conflict :: "sync_error \<Rightarrow> bool" where
  "is_conflict e = (case e of Conflict _ _ \<Rightarrow> True | _ \<Rightarrow> False)"

fun sync_error_display :: "sync_error \<Rightarrow> string" where
  "sync_error_display (Busy p (Some h)) = p @ '' is locked by instance '' @ h"
| "sync_error_display (Busy p None) = p @ '' is locked by another instance''"
| "sync_error_display (Conflict p refreshed) =
     (if refreshed then p @ '' changed in S3 concurrently (local copy refreshed)''
      else p @ '' changed in S3 concurrently'')"
| "sync_error_display (SyncFs p m) = ''filesystem error for '' @ p @ '': '' @ m"
| "sync_error_display (SyncS3 e) = s3_error_display e"

section \<open>Keys\<close>

definition FILES_PREFIX :: string where "FILES_PREFIX = ''files/''"
definition LOCKS_PREFIX :: string where "LOCKS_PREFIX = ''locks/''"

definition file_key :: "string \<Rightarrow> string" where
  "file_key path = FILES_PREFIX @ trim_start_matches CHR ''/'' path"

definition dir_marker_key :: "string \<Rightarrow> string" where
  "dir_marker_key path = file_key (trim_end_matches CHR ''/'' path) @ ''/''"

definition lock_key :: "string \<Rightarrow> string" where
  "lock_key path = LOCKS_PREFIX @ trim_start_matches CHR ''/'' path"

definition path_from_file_key :: "string \<Rightarrow> (string \<times> bool) option" where
  "path_from_file_key key =
     (case strip_prefix FILES_PREFIX key of
        None \<Rightarrow> None
      | Some rest \<Rightarrow>
          if rest = [] then None
          else
            let dir = ends_with ''/'' rest; stem = trim_end_matches CHR ''/'' rest in
            if stem = [] then None else Some (''/'' @ stem, dir))"

section \<open>The store interface\<close>

record 's object_store =
  os_list :: "'s \<Rightarrow> string \<Rightarrow> nat option \<Rightarrow> (s3_error + object_meta list) \<times> 's"
  os_head :: "'s \<Rightarrow> string \<Rightarrow> (s3_error + object_meta option) \<times> 's"
  os_get :: "'s \<Rightarrow> string \<Rightarrow> (s3_error + (bytes \<times> object_meta) option) \<times> 's"
  os_put :: "'s \<Rightarrow> string \<Rightarrow> bytes \<Rightarrow> precondition \<Rightarrow> (s3_error + string) \<times> 's"
  os_delete :: "'s \<Rightarrow> string \<Rightarrow> precondition \<Rightarrow> (s3_error + unit) \<times> 's"

definition list_files :: "'s object_store \<Rightarrow> 's \<Rightarrow> (s3_error + s3_object_info list) \<times> 's" where
  "list_files S s =
     (case os_list S s FILES_PREFIX None of
        (Inl e, s) \<Rightarrow> (Inl e, s)
      | (Inr metas, s) \<Rightarrow>
          (Inr (List.map_filter
             (\<lambda>m. map_option
                (\<lambda>(path, dir). \<lparr>oi_path = path, oi_etag = om_etag m, oi_last_modified = om_last_modified m,
                   oi_size = om_size m, oi_is_dir = dir\<rparr>)
                (path_from_file_key (om_key m))) metas), s))"

definition head_file :: "'s object_store \<Rightarrow> 's \<Rightarrow> string \<Rightarrow> (s3_error + (string \<times> u64 \<times> u64) option) \<times> 's" where
  "head_file S s path =
     (case os_head S s (file_key path) of
        (Inl e, s) \<Rightarrow> (Inl e, s)
      | (Inr mo, s) \<Rightarrow> (Inr (map_option (\<lambda>m. (om_etag m, om_last_modified m, om_size m)) mo), s))"

definition get_file :: "'s object_store \<Rightarrow> 's \<Rightarrow> string \<Rightarrow> (s3_error + (bytes \<times> string \<times> u64) option) \<times> 's" where
  "get_file S s path =
     (case os_get S s (file_key path) of
        (Inl e, s) \<Rightarrow> (Inl e, s)
      | (Inr ro, s) \<Rightarrow> (Inr (map_option (\<lambda>(body, m). (body, om_etag m, om_last_modified m)) ro), s))"

definition put_file :: "'s object_store \<Rightarrow> 's \<Rightarrow> string \<Rightarrow> bytes \<Rightarrow> precondition \<Rightarrow> (s3_error + string) \<times> 's" where
  "put_file S s path data cond = os_put S s (file_key path) data cond"

definition delete_file :: "'s object_store \<Rightarrow> 's \<Rightarrow> string \<Rightarrow> precondition \<Rightarrow> (s3_error + unit) \<times> 's" where
  "delete_file S s path cond = os_delete S s (file_key path) cond"

definition head_dir_marker :: "'s object_store \<Rightarrow> 's \<Rightarrow> string \<Rightarrow> (s3_error + string option) \<times> 's" where
  "head_dir_marker S s path =
     (case os_head S s (dir_marker_key path) of
        (Inl e, s) \<Rightarrow> (Inl e, s)
      | (Inr mo, s) \<Rightarrow> (Inr (map_option om_etag mo), s))"

definition put_dir_marker :: "'s object_store \<Rightarrow> 's \<Rightarrow> string \<Rightarrow> (s3_error + string option) \<times> 's" where
  "put_dir_marker S s path =
     (case os_put S s (dir_marker_key path) [] IfNoneMatchAny of
        (Inr etag, s) \<Rightarrow> (Inr (Some etag), s)
      | (Inl e, s) \<Rightarrow> if is_precondition_failed e then (Inr None, s) else (Inl e, s))"

definition delete_dir_marker :: "'s object_store \<Rightarrow> 's \<Rightarrow> string \<Rightarrow> precondition \<Rightarrow> (s3_error + unit) \<times> 's" where
  "delete_dir_marker S s path cond = os_delete S s (dir_marker_key path) cond"

definition has_children :: "'s object_store \<Rightarrow> 's \<Rightarrow> string \<Rightarrow> (s3_error + bool) \<times> 's" where
  "has_children S s path =
     (case os_list S s (dir_marker_key path) (Some 2) of
        (Inl e, s) \<Rightarrow> (Inl e, s)
      | (Inr metas, s) \<Rightarrow> (Inr (\<exists>m \<in> set metas. om_key m \<noteq> dir_marker_key path), s))"

section \<open>Key round trips\<close>

text \<open>A normalised VFS path: a slash, then a body that is not empty and has no slash at its ends.\<close>

definition vfs_path :: "string \<Rightarrow> bool" where
  "vfs_path p \<longleftrightarrow> (\<exists>b. p = CHR ''/'' # b \<and> b \<noteq> [] \<and> hd b \<noteq> CHR ''/'' \<and> last b \<noteq> CHR ''/'')"

lemma trim_start_id: "b = [] \<or> hd b \<noteq> c \<Longrightarrow> trim_start_matches c b = b"
  by (cases b) (auto simp: trim_start_matches_def)

lemma trim_end_id: "b = [] \<or> last b \<noteq> c \<Longrightarrow> trim_end_matches c b = b"
  using trim_start_id [of "rev b" c] by (auto simp: trim_end_matches_def trim_start_matches_def hd_rev)

lemma trim_end_snoc: "trim_end_matches c (b @ [c]) = trim_end_matches c b"
  by (simp add: trim_end_matches_def)

lemma vfs_path_body:
  assumes "vfs_path p"
  obtains b where "p = CHR ''/'' # b" "b \<noteq> []" "trim_start_matches CHR ''/'' p = b"
    "trim_end_matches CHR ''/'' p = p" "trim_end_matches CHR ''/'' b = b" "last b \<noteq> CHR ''/''"
proof -
  obtain b where b: "p = CHR ''/'' # b" "b \<noteq> []" "hd b \<noteq> CHR ''/''" "last b \<noteq> CHR ''/''"
    using assms by (auto simp: vfs_path_def)
  then have "trim_start_matches CHR ''/'' p = b"
    using trim_start_id [of b] by (simp add: trim_start_matches_def)
  with b that [of b] trim_end_id [of p] trim_end_id [of b] show ?thesis by simp
qed

lemma file_key_path: "vfs_path p \<Longrightarrow> file_key p = ''files'' @ p"
  by (erule vfs_path_body) (simp add: file_key_def FILES_PREFIX_def)

lemma dir_marker_key_path: "vfs_path p \<Longrightarrow> dir_marker_key p = ''files'' @ p @ ''/''"
  by (erule vfs_path_body) (simp add: dir_marker_key_def file_key_def FILES_PREFIX_def)

lemma lock_key_path: "vfs_path p \<Longrightarrow> lock_key p = ''locks'' @ p"
  by (erule vfs_path_body) (simp add: lock_key_def LOCKS_PREFIX_def)

text \<open>
  Keys name paths without ambiguity: the file key and the directory marker key of a
  normalised path are mapped back to that path with the right kind, different paths get
  different keys, and no file or marker key is a lock key.
\<close>

theorem keys_round_trip:
  assumes "vfs_path p" and "vfs_path q"
  shows "path_from_file_key (file_key p) = Some (p, False)
    \<and> path_from_file_key (dir_marker_key p) = Some (p, True)
    \<and> (file_key p = file_key q \<longleftrightarrow> p = q) \<and> (lock_key p = lock_key q \<longleftrightarrow> p = q)
    \<and> file_key p \<noteq> dir_marker_key q \<and> file_key p \<noteq> lock_key q \<and> dir_marker_key p \<noteq> lock_key q
    \<and> path_from_file_key (lock_key p) = None"
proof -
  obtain b where b: "p = CHR ''/'' # b" "b \<noteq> []" "trim_end_matches CHR ''/'' b = b" "last b \<noteq> CHR ''/''"
    using vfs_path_body [OF assms(1)] by metis
  have "\<not> ends_with ''/'' b" using b(4) by (auto simp: ends_with_def suffix_def)
  then have "path_from_file_key (file_key p) = Some (p, False)"
    using b(1-3) assms(1) by (simp add: file_key_path path_from_file_key_def strip_prefix_def FILES_PREFIX_def Let_def)
  moreover have "path_from_file_key (dir_marker_key p) = Some (p, True)"
    using b assms(1) trim_end_snoc [of "CHR ''/''" b]
    by (simp add: dir_marker_key_path path_from_file_key_def strip_prefix_def FILES_PREFIX_def ends_with_def
        suffix_def Let_def)
  moreover have "file_key p \<noteq> dir_marker_key q"
  proof
    assume "file_key p = dir_marker_key q"
    then have "last p = last (q @ ''/'')" using assms by (simp add: file_key_path dir_marker_key_path)
    with b show False by simp
  qed
  ultimately show ?thesis
    using assms by (simp add: file_key_path lock_key_path dir_marker_key_path path_from_file_key_def
        strip_prefix_def FILES_PREFIX_def)
qed

theorem keys_round_trip_witness:
  "path_from_file_key (file_key ''/a/b'') = Some (''/a/b'', False) \<and> file_key ''/a/b'' \<noteq> lock_key ''/a''"
proof -
  have "vfs_path ''/a/b''" "vfs_path ''/a''" by (simp_all add: vfs_path_def)
  from keys_round_trip [OF this] show ?thesis by simp
qed

end
