(* ===== verification/Memory_Store.thy ===== *)
theory Memory_Store
  imports Object_Store BTree_Map
begin

text \<open>
  \<open>testing.rs\<close>: the in-memory object store, which reproduces the compare-and-swap semantics of
  S3. The hash behind \<open>etag_for\<close> is the standard library's default hasher, which promises no
  particular function: it is the parameter \<open>h\<close>. The locale \<open>cas_store\<close> states what the sync code
  relies on, and is interpreted on this store. \<open>with_env\<close> lets other clients act on a store
  before each request, which models several instances sharing one bucket.
\<close>

datatype store_op =
    OpList string
  | OpHead string
  | OpGet string
  | OpPut string precondition
  | OpDelete string precondition

record mem_object =
  mo_data :: bytes
  mo_etag :: string
  mo_last_modified :: u64

record mem_inner =
  objects :: "(string, mem_object) btree"
  ops :: "store_op list"
  fail_next :: "s3_error list"
  mclock :: u64
  reject_conditional_delete :: bool

definition mem_new :: mem_inner where
  "mem_new = \<lparr>objects = [], ops = [], fail_next = [], mclock = 0, reject_conditional_delete = False\<rparr>"

definition insert_raw :: "(bytes \<Rightarrow> string) \<Rightarrow> mem_inner \<Rightarrow> string \<Rightarrow> bytes \<Rightarrow> string \<times> mem_inner" where
  "insert_raw h s key data =
     (let s = s\<lparr>mclock := mclock s + 1\<rparr>; etag = h data in
      (etag, s\<lparr>objects := bt_insert key
         \<lparr>mo_data = data, mo_etag = etag, mo_last_modified = mclock s\<rparr> (objects s)\<rparr>))"

definition remove_raw :: "mem_inner \<Rightarrow> string \<Rightarrow> mem_inner" where
  "remove_raw s key = s\<lparr>objects := bt_remove key (objects s)\<rparr>"

definition get_raw :: "mem_inner \<Rightarrow> string \<Rightarrow> bytes option" where
  "get_raw s key = map_option mo_data (bt_get (objects s) key)"

definition etag_of :: "mem_inner \<Rightarrow> string \<Rightarrow> string option" where
  "etag_of s key = map_option mo_etag (bt_get (objects s) key)"

definition set_last_modified :: "mem_inner \<Rightarrow> string \<Rightarrow> u64 \<Rightarrow> mem_inner" where
  "set_last_modified s key v =
     (case bt_get (objects s) key of
        None \<Rightarrow> s
      | Some ob \<Rightarrow> s\<lparr>objects := bt_insert key (ob\<lparr>mo_last_modified := v\<rparr>) (objects s)\<rparr>)"

definition store_keys :: "mem_inner \<Rightarrow> string list" where
  "store_keys s = bt_keys (objects s)"

definition keys_under :: "mem_inner \<Rightarrow> string \<Rightarrow> string list" where
  "keys_under s pre = filter (starts_with pre) (bt_keys (objects s))"

definition queue_failure :: "mem_inner \<Rightarrow> s3_error \<Rightarrow> mem_inner" where
  "queue_failure s e = s\<lparr>fail_next := fail_next s @ [e]\<rparr>"

definition take_failure :: "mem_inner \<Rightarrow> (s3_error + unit) \<times> mem_inner" where
  "take_failure s =
     (case fail_next s of
        e # es \<Rightarrow> (Inl e, s\<lparr>fail_next := es\<rparr>)
      | [] \<Rightarrow> (Inr (), s))"

definition check_cond :: "mem_inner \<Rightarrow> string \<Rightarrow> precondition \<Rightarrow> s3_error + unit" where
  "check_cond s key cond =
     (let current = bt_get (objects s) key in
      case cond of
        NoCond \<Rightarrow> Inr ()
      | IfNoneMatchAny \<Rightarrow>
          if current \<noteq> None then Inl (PreconditionFailed key 412 ''PreconditionFailed'') else Inr ()
      | IfMatch expected \<Rightarrow>
          (case current of
             None \<Rightarrow> Inl (S3NotFound key)
           | Some ob \<Rightarrow>
               if mo_etag ob = expected then Inr ()
               else Inl (PreconditionFailed key 412 ''PreconditionFailed'')))"

definition meta_of :: "string \<Rightarrow> mem_object \<Rightarrow> object_meta" where
  "meta_of key ob =
     \<lparr>om_key = key, om_etag = mo_etag ob, om_last_modified = mo_last_modified ob,
      om_size = of_nat (length (mo_data ob))\<rparr>"

definition mem_list :: "mem_inner \<Rightarrow> string \<Rightarrow> nat option \<Rightarrow> (s3_error + object_meta list) \<times> mem_inner" where
  "mem_list s pre max_keys =
     (let s = s\<lparr>ops := ops s @ [OpList pre]\<rparr> in
      case take_failure s of
        (Inl e, s) \<Rightarrow> (Inl e, s)
      | (Inr _, s) \<Rightarrow>
          let metas = map (\<lambda>(k, ob). meta_of k ob) (filter (\<lambda>(k, _). starts_with pre k) (objects s)) in
          (Inr (case max_keys of Some n \<Rightarrow> take n metas | None \<Rightarrow> metas), s))"

definition mem_head :: "mem_inner \<Rightarrow> string \<Rightarrow> (s3_error + object_meta option) \<times> mem_inner" where
  "mem_head s key =
     (let s = s\<lparr>ops := ops s @ [OpHead key]\<rparr> in
      case take_failure s of
        (Inl e, s) \<Rightarrow> (Inl e, s)
      | (Inr _, s) \<Rightarrow> (Inr (map_option (meta_of key) (bt_get (objects s) key)), s))"

definition mem_get :: "mem_inner \<Rightarrow> string \<Rightarrow> (s3_error + (bytes \<times> object_meta) option) \<times> mem_inner" where
  "mem_get s key =
     (let s = s\<lparr>ops := ops s @ [OpGet key]\<rparr> in
      case take_failure s of
        (Inl e, s) \<Rightarrow> (Inl e, s)
      | (Inr _, s) \<Rightarrow> (Inr (map_option (\<lambda>ob. (mo_data ob, meta_of key ob)) (bt_get (objects s) key)), s))"

definition mem_put ::
  "(bytes \<Rightarrow> string) \<Rightarrow> mem_inner \<Rightarrow> string \<Rightarrow> bytes \<Rightarrow> precondition \<Rightarrow> (s3_error + string) \<times> mem_inner" where
  "mem_put h s key body cond =
     (let s = s\<lparr>ops := ops s @ [OpPut key cond]\<rparr> in
      case take_failure s of
        (Inl e, s) \<Rightarrow> (Inl e, s)
      | (Inr _, s) \<Rightarrow>
          (case check_cond s key cond of
             Inl e \<Rightarrow> (Inl e, s)
           | Inr _ \<Rightarrow>
               let s = s\<lparr>mclock := mclock s + 1\<rparr>; etag = h body in
               (Inr etag, s\<lparr>objects := bt_insert key
                  \<lparr>mo_data = body, mo_etag = etag, mo_last_modified = mclock s\<rparr> (objects s)\<rparr>)))"

definition mem_delete :: "mem_inner \<Rightarrow> string \<Rightarrow> precondition \<Rightarrow> (s3_error + unit) \<times> mem_inner" where
  "mem_delete s key cond =
     (let s = s\<lparr>ops := ops s @ [OpDelete key cond]\<rparr> in
      case take_failure s of
        (Inl e, s) \<Rightarrow> (Inl e, s)
      | (Inr _, s) \<Rightarrow>
          if reject_conditional_delete s \<and> cond \<noteq> NoCond
          then (Inl (NotImplemented key ''conditional delete rejected by test store''), s)
          else if is_if_match cond \<and> bt_get (objects s) key = None then (Inr (), s)
          else
            (case check_cond s key cond of
               Inl e \<Rightarrow> (Inl e, s)
             | Inr _ \<Rightarrow> (Inr (), s\<lparr>objects := bt_remove key (objects s)\<rparr>)))"

definition mem_store :: "(bytes \<Rightarrow> string) \<Rightarrow> mem_inner object_store" where
  "mem_store h = \<lparr>os_list = mem_list, os_head = mem_head, os_get = mem_get, os_put = mem_put h, os_delete = mem_delete\<rparr>"

text \<open>Other clients act on the store before the \<open>n\<close>-th request.\<close>

definition with_env :: "(nat \<Rightarrow> 's \<Rightarrow> 's) \<Rightarrow> 's object_store \<Rightarrow> (nat \<times> 's) object_store" where
  "with_env env S =
     \<lparr>os_list = (\<lambda>(n, s) p k. apsnd (Pair (Suc n)) (os_list S (env n s) p k)),
      os_head = (\<lambda>(n, s) k. apsnd (Pair (Suc n)) (os_head S (env n s) k)),
      os_get = (\<lambda>(n, s) k. apsnd (Pair (Suc n)) (os_get S (env n s) k)),
      os_put = (\<lambda>(n, s) k b c. apsnd (Pair (Suc n)) (os_put S (env n s) k b c)),
      os_delete = (\<lambda>(n, s) k c. apsnd (Pair (Suc n)) (os_delete S (env n s) k c))\<rparr>"

section \<open>Compare and swap\<close>

text \<open>The visible part of a store: body and tag of every key.\<close>

type_synonym store_view = "string \<rightharpoonup> bytes \<times> string"

fun cond_holds :: "(bytes \<times> string) option \<Rightarrow> precondition \<Rightarrow> bool" where
  "cond_holds cur NoCond \<longleftrightarrow> True"
| "cond_holds cur (IfMatch e) \<longleftrightarrow> (\<exists>b. cur = Some (b, e))"
| "cond_holds cur IfNoneMatchAny \<longleftrightarrow> cur = None"

locale cas_store =
  fixes S :: "'s object_store"
    and view :: "'s \<Rightarrow> store_view"
  assumes head_view: "os_head S s k = (Inr mo, s') \<Longrightarrow> view s' = view s \<and> map_option om_etag mo = map_option snd (view s k)"
    and head_fail: "os_head S s k = (Inl err, s') \<Longrightarrow> view s' = view s"
    and get_view: "os_get S s k = (Inr r, s') \<Longrightarrow>
        view s' = view s \<and> map_option (\<lambda>(b, m). (b, om_etag m)) r = view s k"
    and get_fail: "os_get S s k = (Inl err, s') \<Longrightarrow> view s' = view s"
    and put_ok: "os_put S s k b c = (Inr e, s') \<Longrightarrow> cond_holds (view s k) c \<and> view s' = (view s)(k \<mapsto> (b, e))"
    and put_fail: "os_put S s k b c = (Inl err, s') \<Longrightarrow> view s' = view s"
    and delete_ok: "os_delete S s k c = (Inr u, s') \<Longrightarrow>
        (view s k = None \<or> cond_holds (view s k) c) \<and> view s' = (view s)(k := None)"
    and delete_fail: "os_delete S s k c = (Inl err, s') \<Longrightarrow> view s' = view s"
    and list_view: "os_list S s q n = (metas, s') \<Longrightarrow> view s' = view s"
begin

text \<open>A key that was created by a conditional put is not created a second time while it exists.\<close>

lemma create_once:
  assumes "os_put S s k b IfNoneMatchAny = (Inr e, s')" and "view t k = view s' k"
  shows "fst (os_put S t k b' IfNoneMatchAny) \<noteq> Inr e'"
  using put_ok [OF assms(1)] put_ok [of t k b' IfNoneMatchAny e' "snd (os_put S t k b' IfNoneMatchAny)"] assms(2)
  by (cases "os_put S t k b' IfNoneMatchAny") auto

text \<open>A conditional put replaces exactly the version whose tag it names.\<close>

lemma put_replaces:
  assumes "os_put S s k b (IfMatch e0) = (Inr e, s')"
  shows "\<exists>b0. view s k = Some (b0, e0) \<and> view s' = (view s)(k \<mapsto> (b, e))"
  using put_ok [OF assms] by auto

lemma put_same_key: "os_put S s k b c = (r, s') \<Longrightarrow> j \<noteq> k \<Longrightarrow> view s' j = view s j"
  using put_ok [of s k b c _ s'] put_fail [of s k b c _ s'] by (cases r) auto

end

definition mem_view :: "mem_inner \<Rightarrow> store_view" where
  "mem_view s k = map_option (\<lambda>ob. (mo_data ob, mo_etag ob)) (map_of (objects s) k)"

lemma mem_view_insert:
  "mem_view (s\<lparr>objects := bt_insert k ob (objects s)\<rparr>) = (mem_view s)(k \<mapsto> (mo_data ob, mo_etag ob))"
  by (auto simp: mem_view_def map_of_bt_insert fun_eq_iff)

lemma mem_view_cong: "objects s' = objects s \<Longrightarrow> mem_view s' = mem_view s"
  by (simp add: mem_view_def fun_eq_iff)

lemma take_failure_view [simp]: "objects (snd (take_failure s)) = objects s"
  by (simp add: take_failure_def split: list.split)

lemma take_failure_cases:
  "take_failure s = (r, s') \<Longrightarrow> objects s' = objects s"
  using take_failure_view [of s] by simp

lemma check_cond_ok: "check_cond s k c = Inr u \<longleftrightarrow> cond_holds (mem_view s k) c"
  by (cases c) (auto simp: check_cond_def mem_view_def Let_def split: option.splits)

lemma mem_put_cases:
  assumes "mem_put h s k b c = (r, s')"
  shows "case r of Inl e \<Rightarrow> mem_view s' = mem_view s
    | Inr e \<Rightarrow> e = h b \<and> cond_holds (mem_view s k) c \<and> mem_view s' = (mem_view s)(k \<mapsto> (b, e))"
proof -
  obtain f t where t: "take_failure (s\<lparr>ops := ops s @ [OpPut k c]\<rparr>) = (f, t)" by fastforce
  have o: "objects t = objects s" using take_failure_cases [OF t] by simp
  then have v: "mem_view t = mem_view s" by (rule mem_view_cong)
  show ?thesis
    using assms t v check_cond_ok [of t k c]
    by (auto simp: mem_put_def Let_def mem_view_insert [where s = "t\<lparr>mclock := mclock t + 1\<rparr>", simplified]
        mem_view_cong [of "t\<lparr>mclock := mclock t + 1\<rparr>" t] split: sum.splits)
qed

lemma mem_delete_cases:
  assumes "mem_delete s k c = (r, s')"
  shows "case r of Inl e \<Rightarrow> mem_view s' = mem_view s
    | Inr e \<Rightarrow> (mem_view s k = None \<or> cond_holds (mem_view s k) c) \<and> mem_view s' = (mem_view s)(k := None)"
proof -
  obtain f t where t: "take_failure (s\<lparr>ops := ops s @ [OpDelete k c]\<rparr>) = (f, t)" by fastforce
  have o: "objects t = objects s" using take_failure_cases [OF t] by simp
  then have v: "mem_view t = mem_view s" by (rule mem_view_cong)
  have n: "mem_view s k = None \<longleftrightarrow> map_of (objects t) k = None" using o by (simp add: mem_view_def)
  have rm: "mem_view (t\<lparr>objects := bt_remove k (objects t)\<rparr>) = (mem_view t)(k := None)"
    by (auto simp: mem_view_def map_of_bt_remove fun_eq_iff)
  show ?thesis
    using assms t v n rm check_cond_ok [of t k c]
    by (auto simp: mem_delete_def Let_def fun_upd_idem split: sum.splits if_splits)
qed

lemma mem_get_cases:
  assumes "mem_get s k = (r, s')"
  shows "mem_view s' = mem_view s"
    and "r = Inr x \<Longrightarrow> map_option (\<lambda>(b, m). (b, om_etag m)) x = mem_view s k"
proof -
  obtain f t where t: "take_failure (s\<lparr>ops := ops s @ [OpGet k]\<rparr>) = (f, t)" by fastforce
  have o: "objects t = objects s" using take_failure_cases [OF t] by simp
  show "mem_view s' = mem_view s"
    using assms t mem_view_cong [OF o] by (auto simp: mem_get_def split: sum.splits)
  show "map_option (\<lambda>(b, m). (b, om_etag m)) x = mem_view s k" if "r = Inr x"
    using that assms t o by (auto simp: mem_get_def mem_view_def meta_of_def option.map_comp comp_def split: sum.splits)
qed

lemma mem_head_cases:
  assumes "mem_head s k = (r, s')"
  shows "mem_view s' = mem_view s"
    and "r = Inr x \<Longrightarrow> map_option om_etag x = map_option snd (mem_view s k)"
proof -
  obtain f t where t: "take_failure (s\<lparr>ops := ops s @ [OpHead k]\<rparr>) = (f, t)" by fastforce
  have o: "objects t = objects s" using take_failure_cases [OF t] by simp
  show "mem_view s' = mem_view s"
    using assms t mem_view_cong [OF o] by (auto simp: mem_head_def split: sum.splits)
  show "map_option om_etag x = map_option snd (mem_view s k)" if "r = Inr x"
    using that assms t o by (auto simp: mem_head_def mem_view_def meta_of_def option.map_comp comp_def split: sum.splits)
qed

lemma mem_list_cases:
  assumes "mem_list s q n = (r, s')" shows "mem_view s' = mem_view s"
proof -
  obtain f t where t: "take_failure (s\<lparr>ops := ops s @ [OpList q]\<rparr>) = (f, t)" by fastforce
  have o: "objects t = objects s" using take_failure_cases [OF t] by simp
  show ?thesis using assms t mem_view_cong [OF o] by (auto simp: mem_list_def Let_def split: sum.splits)
qed

interpretation ms: cas_store "mem_store h" mem_view for h
  by unfold_locales
     (auto simp: mem_store_def dest: mem_put_cases mem_delete_cases mem_get_cases mem_head_cases mem_list_cases)

section \<open>A store without failures\<close>

text \<open>In a calm state every request is answered, and the precondition alone decides.\<close>

locale reliable_store = cas_store S view for S :: "'s object_store" and view +
  fixes calm :: "'s \<Rightarrow> bool"
  assumes calm_put: "calm s \<Longrightarrow> os_put S s k b c = (r, s') \<Longrightarrow> calm s' \<and>
      (if cond_holds (view s k) c then is_ok r
       else \<exists>e. r = Inl e \<and> is_precondition_failed e = (view s k \<noteq> None) \<and> is_not_found e = (view s k = None))"
    and calm_get: "calm s \<Longrightarrow> os_get S s k = (g, s') \<Longrightarrow> calm s' \<and> is_ok g"
    and calm_head: "calm s \<Longrightarrow> os_head S s k = (mo, s') \<Longrightarrow> calm s' \<and> is_ok mo"
    and calm_list: "calm s \<Longrightarrow> os_list S s q n = (l, s') \<Longrightarrow> calm s' \<and> is_ok l"
    and calm_delete: "calm s \<Longrightarrow> os_delete S s k c = (d, s') \<Longrightarrow> calm s' \<and>
      (if view s k = None \<or> cond_holds (view s k) c then is_ok d else \<exists>e. d = Inl e \<and> is_precondition_failed e)"

definition mem_calm :: "mem_inner \<Rightarrow> bool" where
  "mem_calm s \<longleftrightarrow> fail_next s = [] \<and> \<not> reject_conditional_delete s"

interpretation rs: reliable_store "mem_store h" mem_view mem_calm for h
proof unfold_locales
  fix s k b c r s'
  assume "mem_calm s" and "os_put (mem_store h) s k b c = (r, s')"
  then show "mem_calm s' \<and> (if cond_holds (mem_view s k) c then is_ok r
       else \<exists>e. r = Inl e \<and> is_precondition_failed e = (mem_view s k \<noteq> None) \<and> is_not_found e = (mem_view s k = None))"
    by (cases c; cases "map_of (objects s) k")
       (auto simp: mem_calm_def mem_store_def mem_put_def take_failure_def check_cond_def mem_view_def Let_def
          is_precondition_failed_def is_not_found_def split: if_splits)
next
  fix s k c d s'
  assume "mem_calm s" and "os_delete (mem_store h) s k c = (d, s')"
  then show "mem_calm s' \<and> (if mem_view s k = None \<or> cond_holds (mem_view s k) c then is_ok d
      else \<exists>e. d = Inl e \<and> is_precondition_failed e)"
    by (cases c; cases "map_of (objects s) k")
       (auto simp: mem_calm_def mem_store_def mem_delete_def take_failure_def check_cond_def mem_view_def Let_def
          is_precondition_failed_def split: if_splits)
qed (auto simp: mem_calm_def mem_store_def mem_get_def mem_head_def mem_list_def take_failure_def Let_def)

text \<open>
  The in-memory store implements compare and swap: a put succeeds only when its
  precondition holds of the current object, then exactly that key changes; a failed put changes
  no object; and when no failure is injected the precondition alone decides.
\<close>

theorem memory_store_cas:
  assumes "mem_put h s k b c = (r, s')"
  shows "(case r of
      Inr e \<Rightarrow> e = h b \<and> cond_holds (mem_view s k) c \<and> mem_view s' = (mem_view s)(k \<mapsto> (b, h b))
    | Inl _ \<Rightarrow> mem_view s' = mem_view s)
    \<and> (fail_next s = [] \<longrightarrow> is_ok r = cond_holds (mem_view s k) c)"
proof -
  have "is_ok r = cond_holds (mem_view s k) c" if f: "fail_next s = []"
  proof -
    have "mem_view (s\<lparr>ops := ops s @ [OpPut k c]\<rparr>) = mem_view s" by (simp add: mem_view_def fun_eq_iff)
    then show ?thesis
      using assms f check_cond_ok [of "s\<lparr>ops := ops s @ [OpPut k c]\<rparr>" k c]
      by (cases "check_cond (s\<lparr>ops := ops s @ [OpPut k c]\<rparr>) k c")
        (auto simp: mem_put_def Let_def take_failure_def)
  qed
  then show ?thesis using mem_put_cases [OF assms] by (auto split: sum.splits)
qed

theorem memory_store_cas_witness:
  "\<exists>e s'. mem_put (\<lambda>b. ''t'') mem_new ''k'' [1] IfNoneMatchAny = (Inr e, s') \<and> mem_view s' ''k'' = Some ([1], ''t'')"
proof -
  obtain r s' where p: "mem_put (\<lambda>b. ''t'') mem_new ''k'' [1] IfNoneMatchAny = (r, s')" by fastforce
  have "fail_next mem_new = []" "cond_holds (mem_view mem_new ''k'') IfNoneMatchAny"
    by (simp_all add: mem_new_def mem_view_def)
  with memory_store_cas [OF p] have "is_ok r" by simp
  then obtain e where "r = Inr e" by (cases r) auto
  with memory_store_cas [OF p] p show ?thesis by auto
qed

end
