(* ===== verification/Lease.thy ===== *)
theory Lease
  imports Memory_Store "HOL-Library.AList"
begin

text \<open>
  \<open>lease.rs\<close>: per-file leases stored as objects. The wire format of a lease record, the local
  table of held leases, and the acquisition loop with takeover of expired records, renewal and
  release. A hash map is an association list, in the order in which it is iterated.

  Time is read through \<open>time_env\<close>: the \<open>n\<close>-th reading of the monotonic clock (nanoseconds) and
  of the wall clock (milliseconds), to which the time spent in \<open>sleep\<close> is added; \<open>jitter_hash\<close>
  stands for the randomly seeded hasher.
\<close>

section \<open>Lease records\<close>

record lock_record =
  lr_instance :: string
  lr_epoch :: u64
  lr_expires_ms :: u64
  lr_path :: string

definition lr_encode :: "lock_record \<Rightarrow> bytes" where
  "lr_encode r = into_bytes
     (''instance='' @ lr_instance r @ [newline] @
      ''epoch='' @ show_nat (unat (lr_epoch r)) @ [newline] @
      ''expires='' @ show_nat (unat (lr_expires_ms r)) @ [newline] @
      ''path='' @ lr_path r @ [newline])"

record lr_fields =
  f_instance :: "string option"
  f_epoch :: "u64 option"
  f_expires :: "u64 option"
  f_path :: "string option"

definition parse_line :: "string \<Rightarrow> lr_fields \<Rightarrow> lr_fields" where
  "parse_line line f =
     (case split_once CHR ''='' line of
        None \<Rightarrow> f
      | Some (k, v) \<Rightarrow>
          let k = str_trim k in
          if k = ''instance'' then f\<lparr>f_instance := Some (str_trim v)\<rparr>
          else if k = ''epoch'' then f\<lparr>f_epoch := parse_u64 (str_trim v)\<rparr>
          else if k = ''expires'' then f\<lparr>f_expires := parse_u64 (str_trim v)\<rparr>
          else if k = ''path'' then f\<lparr>f_path := Some (str_trim v)\<rparr>
          else f)"

definition lr_parse :: "bytes \<Rightarrow> lock_record option" where
  "lr_parse body =
     (case from_utf8 body of
        None \<Rightarrow> None
      | Some text \<Rightarrow>
          let f = fold parse_line (str_lines text)
                    \<lparr>f_instance = None, f_epoch = None, f_expires = None, f_path = None\<rparr> in
          case f_instance f of None \<Rightarrow> None | Some inst \<Rightarrow>
          (case f_epoch f of None \<Rightarrow> None | Some ep \<Rightarrow>
          (case f_expires f of None \<Rightarrow> None | Some ex \<Rightarrow>
             Some \<lparr>lr_instance = inst, lr_epoch = ep, lr_expires_ms = ex,
                   lr_path = (case f_path f of Some p \<Rightarrow> p | None \<Rightarrow> [])\<rparr>)))"

definition is_expired :: "lock_record \<Rightarrow> u64 \<Rightarrow> bool" where
  "is_expired r now_ms \<longleftrightarrow> now_ms \<ge> lr_expires_ms r"

section \<open>The lease table\<close>

record write_lease =
  base_etag :: "string option"
  wl_lock_etag :: string
  wl_epoch :: u64
  wl_expires_at :: instant
  refcount :: nat
  dirty :: bool
  pending_delete :: bool
  lost :: bool
  releasing :: bool

type_synonym lease_table = "(string \<times> write_lease) list"

definition lt_get :: "lease_table \<Rightarrow> string \<Rightarrow> write_lease option" where
  "lt_get t path = map_of t path"

text \<open>\<open>get_mut\<close> followed by an assignment.\<close>

definition lt_modify :: "lease_table \<Rightarrow> string \<Rightarrow> (write_lease \<Rightarrow> write_lease) \<Rightarrow> lease_table" where
  "lt_modify t path f = (case map_of t path of None \<Rightarrow> t | Some l \<Rightarrow> AList.update path (f l) t)"

definition lt_insert :: "lease_table \<Rightarrow> string \<Rightarrow> write_lease \<Rightarrow> lease_table" where
  "lt_insert t path l = AList.update path l t"

definition lt_remove :: "lease_table \<Rightarrow> string \<Rightarrow> lease_table" where
  "lt_remove t path = AList.delete path t"

definition lt_contains :: "lease_table \<Rightarrow> string \<Rightarrow> bool" where
  "lt_contains t path \<longleftrightarrow> map_of t path \<noteq> None"

definition lt_paths :: "lease_table \<Rightarrow> string list" where
  "lt_paths t = map fst t"

definition paths_needing_renewal :: "lease_table \<Rightarrow> instant \<Rightarrow> duration \<Rightarrow> string list" where
  "paths_needing_renewal t now lease =
     (let half = lease div 2 in
      map fst (filter (\<lambda>(_, l). wl_expires_at l - now \<le> half)
        (filter (\<lambda>(_, l). \<not> releasing l \<and> \<not> lost l) t)))"

section \<open>Clocks\<close>

record time_env =
  te_instant :: "nat \<Rightarrow> instant"
  te_wall :: "nat \<Rightarrow> nat"
  jitter_hash :: "u64 \<Rightarrow> nat"

record clk =
  readings :: nat
  slept :: duration

definition instant_now :: "time_env \<Rightarrow> clk \<Rightarrow> instant \<times> clk" where
  "instant_now E c = (te_instant E (readings c) + slept c, c\<lparr>readings := readings c + 1\<rparr>)"

definition now_ms :: "time_env \<Rightarrow> clk \<Rightarrow> u64 \<times> clk" where
  "now_ms E c = (of_nat (te_wall E (readings c) + as_millis (slept c)), c\<lparr>readings := readings c + 1\<rparr>)"

definition clk_sleep :: "duration \<Rightarrow> clk \<Rightarrow> clk" where
  "clk_sleep d c = c\<lparr>slept := slept c + d\<rparr>"

definition jitter :: "time_env \<Rightarrow> u64 \<Rightarrow> nat" where
  "jitter E step = jitter_hash E step mod 20"

section \<open>Acquiring\<close>

record acquired =
  a_lock_etag :: string
  a_epoch :: u64
  a_expires_at :: instant

definition verify_lease_landed ::
  "'s object_store \<Rightarrow> 's \<Rightarrow> string \<Rightarrow> string \<Rightarrow> u64 \<Rightarrow> string option \<times> 's" where
  "verify_lease_landed S s key inst epoch =
     (case os_get S s key of
        (Inl _, s) \<Rightarrow> (None, s)
      | (Inr None, s) \<Rightarrow> (None, s)
      | (Inr (Some (body, m)), s) \<Rightarrow>
          (case lr_parse body of
             None \<Rightarrow> (None, s)
           | Some r \<Rightarrow> (if lr_instance r = inst \<and> lr_epoch r = epoch then Some (om_etag m) else None, s)))"

text \<open>One turn of the loop: a result to return, or the holder to wait for.\<close>

datatype attempt = Got acquired | Failed sync_error | Again "string option"

text \<open>Writing a fresh record with the precondition \<open>cond\<close>, and looking again when that fails.\<close>

definition put_record ::
  "'s object_store \<Rightarrow> time_env \<Rightarrow> string \<Rightarrow> string \<Rightarrow> duration \<Rightarrow> u64 \<Rightarrow> precondition \<Rightarrow>
   (s3_error \<Rightarrow> bool) \<Rightarrow> string option \<Rightarrow> 's \<Rightarrow> clk \<Rightarrow> attempt \<times> 's \<times> clk" where
  "put_record S E path inst lease epoch cond retry holder s c =
     (case now_ms E c of (w, c) \<Rightarrow>
      let r = \<lparr>lr_instance = inst, lr_epoch = epoch, lr_expires_ms = w + of_nat (as_millis lease), lr_path = path\<rparr> in
      case instant_now E c of (t, c) \<Rightarrow>
      let expires_at = t + lease in
      case os_put S s (lock_key path) (lr_encode r) cond of
        (Inr etag, s) \<Rightarrow> (Got \<lparr>a_lock_etag = etag, a_epoch = epoch, a_expires_at = expires_at\<rparr>, s, c)
      | (Inl put_err, s) \<Rightarrow>
          (case verify_lease_landed S s (lock_key path) inst epoch of
             (Some etag, s) \<Rightarrow> (Got \<lparr>a_lock_etag = etag, a_epoch = epoch, a_expires_at = expires_at\<rparr>, s, c)
           | (None, s) \<Rightarrow>
               if retry put_err then (Again holder, s, c) else (Failed (SyncS3 put_err), s, c)))"

definition acquire_try ::
  "'s object_store \<Rightarrow> time_env \<Rightarrow> string \<Rightarrow> string \<Rightarrow> duration \<Rightarrow> string option \<Rightarrow> 's \<Rightarrow> clk \<Rightarrow>
   attempt \<times> 's \<times> clk" where
  "acquire_try S E path inst lease holder s c =
     (case os_get S s (lock_key path) of
        (Inl e, s) \<Rightarrow> (Failed (SyncS3 e), s, c)
      | (Inr None, s) \<Rightarrow>
          put_record S E path inst lease 1 IfNoneMatchAny is_precondition_failed holder s c
      | (Inr (Some (body, m)), s) \<Rightarrow>
          let record = lr_parse body in
          case (case record of
                  None \<Rightarrow> (True, c)
                | Some r \<Rightarrow> (case now_ms E c of (w, c) \<Rightarrow> (is_expired r w, c))) of
            (expired, c) \<Rightarrow>
              if expired then
                put_record S E path inst lease (case record of None \<Rightarrow> 1 | Some r \<Rightarrow> lr_epoch r + 1)
                  (IfMatch (om_etag m)) (\<lambda>e. is_precondition_failed e \<or> is_not_found e) holder s c
              else (Again (map_option lr_instance record), s, c))"

fun acquire_loop ::
  "nat \<Rightarrow> 's object_store \<Rightarrow> time_env \<Rightarrow> string \<Rightarrow> string \<Rightarrow> duration \<Rightarrow> instant \<Rightarrow> duration \<Rightarrow> u64 \<Rightarrow>
   string option \<Rightarrow> 's \<Rightarrow> clk \<Rightarrow> ((sync_error + acquired) \<times> 's \<times> clk) option" where
  "acquire_loop 0 S E path inst lease deadline backoff step holder s c = None"
| "acquire_loop (Suc n) S E path inst lease deadline backoff step holder s c =
     (case acquire_try S E path inst lease holder s c of
        (Got a, s, c) \<Rightarrow> Some (Inr a, s, c)
      | (Failed e, s, c) \<Rightarrow> Some (Inl e, s, c)
      | (Again holder, s, c) \<Rightarrow>
          (case instant_now E c of (now, c) \<Rightarrow>
             if now \<ge> deadline then Some (Inl (Busy path holder), s, c)
             else
               let step = step + 1;
                   wait = backoff + from_millis (jitter E step);
                   remaining = deadline - now;
                   c = clk_sleep (min wait remaining) c in
               acquire_loop n S E path inst lease deadline (min (backoff * 2) (from_secs 1)) step holder s c))"

definition acquire ::
  "nat \<Rightarrow> 's object_store \<Rightarrow> time_env \<Rightarrow> string \<Rightarrow> string \<Rightarrow> duration \<Rightarrow> duration \<Rightarrow> 's \<Rightarrow> clk \<Rightarrow>
   ((sync_error + acquired) \<times> 's \<times> clk) option" where
  "acquire fuel S E path inst lease timeout s c =
     (case instant_now E c of (now, c) \<Rightarrow>
        acquire_loop fuel S E path inst lease (now + timeout) (from_millis 50) 0 None s c)"

definition renew ::
  "'s object_store \<Rightarrow> time_env \<Rightarrow> string \<Rightarrow> string \<Rightarrow> u64 \<Rightarrow> string \<Rightarrow> duration \<Rightarrow> 's \<Rightarrow> clk \<Rightarrow>
   (s3_error + string \<times> instant) \<times> 's \<times> clk" where
  "renew S E path inst epoch lock_etag lease s c =
     (case now_ms E c of (w, c) \<Rightarrow>
      let r = \<lparr>lr_instance = inst, lr_epoch = epoch, lr_expires_ms = w + of_nat (as_millis lease), lr_path = path\<rparr> in
      case instant_now E c of (t, c) \<Rightarrow>
      case os_put S s (lock_key path) (lr_encode r) (IfMatch lock_etag) of
        (Inl e, s) \<Rightarrow> (Inl e, s, c)
      | (Inr etag, s) \<Rightarrow> (Inr (etag, t + lease), s, c))"

text \<open>Failures of the delete are logged only.\<close>

definition release :: "'s object_store \<Rightarrow> string \<Rightarrow> string \<Rightarrow> 's \<Rightarrow> 's" where
  "release S path lock_etag s = snd (os_delete S s (lock_key path) (IfMatch lock_etag))"

end
