(* ===== verification/Sync_Config.thy ===== *)
theory Sync_Config
  imports Lease
begin

text \<open>
  \<open>config.rs\<close> (modes, configuration from a key lookup) and \<open>file_metadata.rs\<close> (the cache of
  what this instance last saw of every synced file).
\<close>

section \<open>Configuration\<close>

datatype sync_operation = Upload string | Delete string "string option"

fun op_path :: "sync_operation \<Rightarrow> string" where
  "op_path (Upload p) = p"
| "op_path (Delete p _) = p"

datatype sync_mode = Batch | RealTime

definition parse_sync_mode :: "string option \<Rightarrow> sync_mode" where
  "parse_sync_mode v =
     (if v = Some ''realtime'' \<or> v = Some ''real-time'' \<or> v = Some ''immediate'' then RealTime else Batch)"

datatype inbound_mode = InboundNone | Polling | ReadThrough

definition parse_inbound_mode :: "string option \<Rightarrow> inbound_mode" where
  "parse_inbound_mode v =
     (if v = Some ''none'' \<or> v = Some ''disabled'' then InboundNone
      else if v = Some ''readthrough'' \<or> v = Some ''read-through'' then ReadThrough
      else Polling)"

datatype metadata_mode = MLocal | MS3

definition parse_metadata_mode :: "string option \<Rightarrow> metadata_mode" where
  "parse_metadata_mode v = (if v = Some ''s3'' then MS3 else MLocal)"

definition parse_secs :: "string option \<Rightarrow> nat \<Rightarrow> duration" where
  "parse_secs v default_secs =
     (case Option.bind v (\<lambda>s. parse_nat64 (str_trim s)) of
        Some n \<Rightarrow> from_secs n | None \<Rightarrow> from_secs default_secs)"

definition parse_millis :: "string option \<Rightarrow> nat \<Rightarrow> duration" where
  "parse_millis v default_ms =
     (case Option.bind v (\<lambda>s. parse_nat64 (str_trim s)) of
        Some n \<Rightarrow> from_millis n | None \<Rightarrow> from_millis default_ms)"

definition parse_usize :: "string option \<Rightarrow> nat \<Rightarrow> nat" where
  "parse_usize v d =
     (case Option.bind v (\<lambda>s. parse_nat64 (str_trim s)) of Some n \<Rightarrow> n | None \<Rightarrow> d)"

definition parse_enabled :: "string option \<Rightarrow> bool \<Rightarrow> bool" where
  "parse_enabled v d =
     (let w = map_option (\<lambda>s. to_ascii_lowercase (str_trim s)) v in
      if w = Some ''enabled'' then True else if w = Some ''disabled'' then False else d)"

record sync_config =
  cfg_mode :: sync_mode
  cfg_inbound_mode :: inbound_mode
  cfg_metadata_mode :: metadata_mode
  poll_interval :: duration
  flush_interval :: duration
  outbound_batch_size :: nat
  file_lock :: bool
  lock_timeout :: duration
  lock_lease :: duration

definition from_lookup :: "(string \<Rightarrow> string option) \<Rightarrow> sync_config" where
  "from_lookup get =
     \<lparr>cfg_mode = parse_sync_mode (get ''VFS_SYNC_MODE''),
      cfg_inbound_mode = parse_inbound_mode (get ''VFS_INBOUND_MODE''),
      cfg_metadata_mode = parse_metadata_mode (get ''VFS_METADATA_MODE''),
      poll_interval = parse_secs (get ''VFS_POLL_INTERVAL_SECS'') 30,
      flush_interval = parse_secs (get ''VFS_FLUSH_INTERVAL_SECS'') 5,
      outbound_batch_size = parse_usize (get ''VFS_OUTBOUND_BATCH_SIZE'') 10,
      file_lock = parse_enabled (get ''VFS_S3_FILE_LOCK'') True,
      lock_timeout = parse_millis (get ''VFS_S3_FILE_LOCK_TIMEOUT_MS'') 10000,
      lock_lease = parse_secs (get ''VFS_S3_FILE_LOCK_LEASE_SECS'') 30\<rparr>"

section \<open>The metadata cache\<close>

record synced_file_metadata =
  sm_etag :: string
  sm_last_modified :: u64
  sm_local_modified :: u64
  sm_size :: u64

record metadata_cache =
  mc_files :: "(string \<times> synced_file_metadata) list"
  mc_dirs :: "(string \<times> string) list"

definition mc_new :: metadata_cache where
  "mc_new = \<lparr>mc_files = [], mc_dirs = []\<rparr>"

definition current_timestamp :: "time_env \<Rightarrow> clk \<Rightarrow> u64 \<times> clk" where
  "current_timestamp E c =
     (of_nat ((te_wall E (readings c) + as_millis (slept c)) div 1000), c\<lparr>readings := readings c + 1\<rparr>)"

text \<open>\<open>now\<close> is the reading of \<open>current_timestamp\<close>.\<close>

definition update_after_upload :: "metadata_cache \<Rightarrow> string \<Rightarrow> string \<Rightarrow> u64 \<Rightarrow> u64 \<Rightarrow> u64 \<Rightarrow> metadata_cache" where
  "update_after_upload m path etag sz local_modified now =
     m\<lparr>mc_files := AList.update path
         \<lparr>sm_etag = etag, sm_last_modified = now, sm_local_modified = local_modified, sm_size = sz\<rparr> (mc_files m)\<rparr>"

definition update_after_download :: "metadata_cache \<Rightarrow> string \<Rightarrow> string \<Rightarrow> u64 \<Rightarrow> u64 \<Rightarrow> metadata_cache" where
  "update_after_download m path etag last_modified sz =
     m\<lparr>mc_files := AList.update path
         \<lparr>sm_etag = etag, sm_last_modified = last_modified, sm_local_modified = last_modified, sm_size = sz\<rparr> (mc_files m)\<rparr>"

definition mc_get :: "metadata_cache \<Rightarrow> string \<Rightarrow> synced_file_metadata option" where
  "mc_get m path = map_of (mc_files m) path"

definition mc_remove :: "metadata_cache \<Rightarrow> string \<Rightarrow> metadata_cache" where
  "mc_remove m path = m\<lparr>mc_files := AList.delete path (mc_files m)\<rparr>"

definition mc_paths :: "metadata_cache \<Rightarrow> string list" where
  "mc_paths m = map fst (mc_files m)"

definition add_dir :: "metadata_cache \<Rightarrow> string \<Rightarrow> string \<Rightarrow> metadata_cache" where
  "add_dir m path etag = m\<lparr>mc_dirs := AList.update path etag (mc_dirs m)\<rparr>"

definition remove_dir :: "metadata_cache \<Rightarrow> string \<Rightarrow> metadata_cache" where
  "remove_dir m path = m\<lparr>mc_dirs := AList.delete path (mc_dirs m)\<rparr>"

definition dir_etag :: "metadata_cache \<Rightarrow> string \<Rightarrow> string option" where
  "dir_etag m path = map_of (mc_dirs m) path"

definition has_dir :: "metadata_cache \<Rightarrow> string \<Rightarrow> bool" where
  "has_dir m path \<longleftrightarrow> map_of (mc_dirs m) path \<noteq> None"

definition mc_dir_paths :: "metadata_cache \<Rightarrow> string list" where
  "mc_dir_paths m = map fst (mc_dirs m)"

lemma mc_get_upload [simp]:
  "mc_get (update_after_upload m path etag sz lm now) q =
    (if q = path then Some \<lparr>sm_etag = etag, sm_last_modified = now, sm_local_modified = lm, sm_size = sz\<rparr>
     else mc_get m q)"
  by (simp add: mc_get_def update_after_upload_def update_conv')

lemma mc_get_download [simp]:
  "mc_get (update_after_download m path etag lm sz) q =
    (if q = path then Some \<lparr>sm_etag = etag, sm_last_modified = lm, sm_local_modified = lm, sm_size = sz\<rparr>
     else mc_get m q)"
  by (simp add: mc_get_def update_after_download_def update_conv')

lemma mc_get_remove [simp]: "mc_get (mc_remove m path) q = (if q = path then None else mc_get m q)"
  by (simp add: mc_get_def mc_remove_def delete_conv')

lemma mc_get_dirs [simp]: "mc_get (add_dir m p e) = mc_get m" "mc_get (remove_dir m p) = mc_get m"
  by (simp_all add: mc_get_def add_dir_def remove_dir_def fun_eq_iff)

end
