(* ===== verification/Fs_Backend.thy ===== *)
theory Fs_Backend
  imports Sync_Config Fs_Guarantees
begin

text \<open>
  \<open>fs_backend.rs\<close>: the local file system as the sync manager sees it, a record of operations on
  a state \<open>'f\<close>; its implementation on \<open>fs-core\<close> (\<open>HostFs\<close> in \<open>vfs-sync-host\<close> and, call for call
  the same, \<open>AdapterFs\<close> in \<open>vfs-sync-adapter\<close>); and the two compound operations through which
  the manager reads and replaces whole files. The laws the manager relies on are in
  \<open>Whole_Files\<close>.
\<close>

record 'f fs_backend =
  fb_open_read :: "'f \<Rightarrow> string \<Rightarrow> (s3_error + fd) \<times> 'f"
  fb_open_write_truncate :: "'f \<Rightarrow> string \<Rightarrow> (s3_error + fd) \<times> 'f"
  fb_read :: "'f \<Rightarrow> fd \<Rightarrow> bytes \<Rightarrow> (s3_error + nat \<times> bytes) \<times> 'f"
  fb_write :: "'f \<Rightarrow> fd \<Rightarrow> bytes \<Rightarrow> (s3_error + nat) \<times> 'f"
  fb_close :: "'f \<Rightarrow> fd \<Rightarrow> (s3_error + unit) \<times> 'f"
  fb_stat_modified :: "'f \<Rightarrow> string \<Rightarrow> u64"
  fb_fstat_size :: "'f \<Rightarrow> fd \<Rightarrow> s3_error + u64"
  fb_unlink :: "'f \<Rightarrow> string \<Rightarrow> (s3_error + unit) \<times> 'f"
  fb_mkdir_p :: "'f \<Rightarrow> string \<Rightarrow> 'f"
  fb_rmdir :: "'f \<Rightarrow> string \<Rightarrow> (s3_error + unit) \<times> 'f"

section \<open>The implementation on fs-core\<close>

text \<open>The derived \<open>Debug\<close> of \<open>FsError\<close> prints the name of the variant.\<close>

fun fs_error_debug :: "fs_error \<Rightarrow> string" where
  "fs_error_debug NotFound = ''NotFound''"
| "fs_error_debug NotADirectory = ''NotADirectory''"
| "fs_error_debug IsADirectory = ''IsADirectory''"
| "fs_error_debug InvalidArgument = ''InvalidArgument''"
| "fs_error_debug BadFileDescriptor = ''BadFileDescriptor''"
| "fs_error_debug PermissionDenied = ''PermissionDenied''"
| "fs_error_debug AlreadyExists = ''AlreadyExists''"
| "fs_error_debug NotEmpty = ''NotEmpty''"

text \<open>\<open>Result::map_err\<close>.\<close>

definition map_err :: "('e \<Rightarrow> 'g) \<Rightarrow> 'e + 'a \<Rightarrow> 'g + 'a" where
  "map_err f r = (case r of Inl e \<Rightarrow> Inl (f e) | Inr a \<Rightarrow> Inr a)"

lemma map_err_simps [simp]: "map_err f (Inl e) = Inl (f e)" "map_err f (Inr a) = Inr a"
  by (simp_all add: map_err_def)

lemma map_err_Inr [simp]: "map_err f r = Inr a \<longleftrightarrow> r = Inr a"
  by (cases r) auto

definition fd_text :: "fd \<Rightarrow> string" where
  "fd_text d = ''fd '' @ show_nat (unat d)"

definition host_open_read :: "fs \<Rightarrow> string \<Rightarrow> (s3_error + fd) \<times> fs" where
  "host_open_read f path =
     apfst (map_err (\<lambda>e. S3Read path (''Failed to open: '' @ fs_error_debug e))) (open_path_with_flags f path O_RDONLY)"

definition host_open_write_truncate :: "fs \<Rightarrow> string \<Rightarrow> (s3_error + fd) \<times> fs" where
  "host_open_write_truncate f path =
     apfst (map_err (\<lambda>e. S3Write path (''Failed to open: '' @ fs_error_debug e)))
       (open_path_with_flags f path (O_RDWR OR O_CREAT OR O_TRUNC))"

definition host_read :: "fs \<Rightarrow> fd \<Rightarrow> bytes \<Rightarrow> (s3_error + nat \<times> bytes) \<times> fs" where
  "host_read f d buf =
     apfst (map_err (\<lambda>e. S3Read (fd_text d) (''Failed to read: '' @ fs_error_debug e))) (fs_read f d buf)"

definition host_write :: "fs \<Rightarrow> fd \<Rightarrow> bytes \<Rightarrow> (s3_error + nat) \<times> fs" where
  "host_write f d buf =
     apfst (map_err (\<lambda>e. S3Write (fd_text d) (''Failed to write: '' @ fs_error_debug e))) (fs_write f d buf)"

definition host_close :: "fs \<Rightarrow> fd \<Rightarrow> (s3_error + unit) \<times> fs" where
  "host_close f d =
     apfst (map_err (\<lambda>e. S3Write (fd_text d) (''Failed to close: '' @ fs_error_debug e))) (fs_close f d)"

definition host_stat_modified :: "fs \<Rightarrow> string \<Rightarrow> u64" where
  "host_stat_modified f path = (case stat f path of Inl _ \<Rightarrow> 0 | Inr md \<Rightarrow> modified md)"

definition host_fstat_size :: "fs \<Rightarrow> fd \<Rightarrow> s3_error + u64" where
  "host_fstat_size f d =
     (case fstat f d of
        Inl e \<Rightarrow> Inl (S3Read (fd_text d) (''Failed to stat: '' @ fs_error_debug e))
      | Inr md \<Rightarrow> Inr (md_size md))"

definition host_unlink :: "fs \<Rightarrow> string \<Rightarrow> (s3_error + unit) \<times> fs" where
  "host_unlink f path =
     apfst (map_err (\<lambda>e. S3Delete path (''Failed to unlink: '' @ fs_error_debug e))) (unlink f path)"

definition host_mkdir_p :: "fs \<Rightarrow> string \<Rightarrow> fs" where
  "host_mkdir_p f path = snd (mkdir_p f path)"

definition host_rmdir :: "fs \<Rightarrow> string \<Rightarrow> (s3_error + unit) \<times> fs" where
  "host_rmdir f path =
     apfst (map_err (\<lambda>e. S3Delete path (''Failed to rmdir: '' @ fs_error_debug e))) (rmdir f path)"

definition host_fs :: "fs fs_backend" where
  "host_fs =
     \<lparr>fb_open_read = host_open_read, fb_open_write_truncate = host_open_write_truncate,
      fb_read = host_read, fb_write = host_write, fb_close = host_close,
      fb_stat_modified = host_stat_modified, fb_fstat_size = host_fstat_size,
      fb_unlink = host_unlink, fb_mkdir_p = host_mkdir_p, fb_rmdir = host_rmdir\<rparr>"

text \<open>\<open>AdapterFs\<close> wraps the same calls with the same error mapping around \<open>RefCell\<close> borrows, each of
  which ends with its call.\<close>

definition adapter_fs :: "fs fs_backend" where
  "adapter_fs = host_fs"

lemma host_fs_simps [simp]:
  "fb_open_read host_fs = host_open_read" "fb_open_write_truncate host_fs = host_open_write_truncate"
  "fb_read host_fs = host_read" "fb_write host_fs = host_write" "fb_close host_fs = host_close"
  "fb_stat_modified host_fs = host_stat_modified" "fb_fstat_size host_fs = host_fstat_size"
  "fb_unlink host_fs = host_unlink" "fb_mkdir_p host_fs = host_mkdir_p" "fb_rmdir host_fs = host_rmdir"
  by (simp_all add: host_fs_def)

section \<open>Whole files\<close>

definition read_file_content :: "'f fs_backend \<Rightarrow> 'f \<Rightarrow> string \<Rightarrow> (s3_error + bytes) \<times> 'f" where
  "read_file_content B f path =
     (case fb_open_read B f path of
        (Inl e, f) \<Rightarrow> (Inl e, f)
      | (Inr d, f) \<Rightarrow>
          (case fb_fstat_size B f d of
             Inl e \<Rightarrow> (Inl e, f)
           | Inr sz \<Rightarrow>
               (case fb_read B f d (replicate (unat sz) 0) of
                  (Inl e, f) \<Rightarrow> (Inl e, f)
                | (Inr (_, data), f) \<Rightarrow> (Inr data, snd (fb_close B f d)))))"

text \<open>\<open>Path::parent\<close>: the last component goes, and with it trailing slashes and \<open>.\<close> components.
  The helper works on the reversed string.\<close>

fun strip_tail :: "string \<Rightarrow> string" where
  "strip_tail (c # r) =
     (if c = CHR ''/'' then (if r = [] then ''/'' else strip_tail r)
      else (case r of
          d # r' \<Rightarrow> if c = CHR ''.'' \<and> d = CHR ''/'' then (if r' = [] then ''/'' else strip_tail r') else c # r
        | [] \<Rightarrow> c # r))"
| "strip_tail [] = []"

definition path_parent :: "string \<Rightarrow> string option" where
  "path_parent p =
     (let q = strip_tail (rev p) in
      if q = [] \<or> q = ''/'' then None
      else Some (rev (strip_tail (dropWhile (\<lambda>c. c \<noteq> CHR ''/'') q))))"

definition make_parents :: "'f fs_backend \<Rightarrow> 'f \<Rightarrow> string \<Rightarrow> 'f" where
  "make_parents B f path =
     (case path_parent path of
        None \<Rightarrow> f
      | Some parent \<Rightarrow> if parent \<noteq> [] \<and> parent \<noteq> ''/'' then fb_mkdir_p B f parent else f)"

definition write_file_content :: "'f fs_backend \<Rightarrow> 'f \<Rightarrow> string \<Rightarrow> bytes \<Rightarrow> (s3_error + unit) \<times> 'f" where
  "write_file_content B f path data =
     (let f = make_parents B f path in
      case fb_open_write_truncate B f path of
        (Inl e, f) \<Rightarrow> (Inl e, f)
      | (Inr d, f) \<Rightarrow>
          (case fb_write B f d data of
             (Inl e, f) \<Rightarrow> (Inl e, f)
           | (Inr _, f) \<Rightarrow> (Inr (), snd (fb_close B f d))))"

section \<open>The handle of an opened path\<close>

lemma open_lookup_next_inode:
  assumes "next_inode fs \<noteq> - 1"
  shows "unat (next_inode (snd (open_lookup fs p n fl))) \<le> unat (next_inode fs) + 1"
proof -
  have "unat (next_inode fs + 1) = Suc (unat (next_inode fs))"
    using assms by (metis Suc_eq_plus1 add.commute add.inverse_unique unatSuc)
  then show ?thesis
    by (auto simp: open_lookup_def create_inode_def allocate_inode_def time_now_eq Let_def
        split: sum.splits file_content.splits if_splits)
qed

lemma open_path_lookup:
  assumes inv: "fs_inv fs" and room: "next_inode fs \<noteq> - 1" and ne: "path_comps path \<noteq> []"
    and run: "open_path_with_flags fs path fl = (Inr d, fs')"
  shows "\<exists>i f1. fs_inv f1 \<and> descend (child f1) (root_inode f1) (path_comps path) = Some i
    \<and> open_inode f1 i fl = (Inr d, fs') \<and> next_fd f1 = next_fd fs \<and> unat (next_inode f1) \<le> unat (next_inode fs) + 1"
proof -
  define cs where "cs = path_comps path"
  have cs: "cs \<noteq> []" "path \<noteq> []" using ne by (auto simp: cs_def)
  note wf = fs_invD(1) [OF inv]
  obtain p where p: "walk_parent fs cs = Inr p"
    using run cs by (cases "walk_parent fs cs") (auto simp: open_path_with_flags_def Let_def cs_def)
  note w = walk_parentE [OF wf p]
  obtain lr f1 where l: "open_lookup fs p (last cs) fl = (lr, f1)" by fastforce
  obtain i where i: "lr = Inr i" "open_inode f1 i fl = (Inr d, fs')"
    using run p l cs by (cases lr) (auto simp: open_path_with_flags_def Let_def cs_def)
  have "fs_inv f1 \<and> descend (child f1) (root_inode f1) (butlast cs @ [last cs]) = Some i"
  proof (cases "child fs p (last cs)")
    case (Some j)
    then have "f1 = fs" "i = j" using l i(1) w(5) [of "last cs"] by (simp_all add: open_lookup_def)
    then show ?thesis using inv w(2) Some by (simp add: descend_append)
  next
    case None
    define f2 where "f2 = snd (create_inode fs p (last cs) False)"
    have cr: "create_inode fs p (last cs) False = (Inr (next_inode fs), f2)"
      using create_inode_result [OF wf w(3,4), of "last cs" False] None by (simp add: f2_def)
    have f1: "f1 = f2" "i = next_inode fs"
      using l i(1) w(5) [of "last cs"] None cr by (auto simp: open_lookup_def split: if_splits)
    have "name_ok (last cs)" using last_path_comps ne by (simp add: cs_def)
    then have "fs_inv f2" using fs_inv_create [OF inv w(3) _ room, of "last cs" False] by (simp add: f2_def)
    moreover note c = child_create_inode [OF wf w(3) cr]
    have "descend (child f2) (root_inode f2) (butlast cs @ [last cs]) = Some (next_inode fs)"
      unfolding c(1,7) using ft.new_leaf_path [OF inv w(2) c(3) _ c(2)] c(4) w(3) by force
    ultimately show ?thesis using f1 by simp
  qed
  moreover have "next_fd f1 = next_fd fs" using open_lookup_next_fd [of fs p "last cs" fl] l by simp
  moreover have "unat (next_inode f1) \<le> unat (next_inode fs) + 1"
    using open_lookup_next_inode [OF room, of p "last cs" fl] l by simp
  ultimately show ?thesis using i(2) cs by (auto simp: cs_def)
qed

lemma open_inode_handle:
  assumes inv: "fs_inv f1" and i: "descend (child f1) (root_inode f1) cs = Some i"
    and run: "open_inode f1 i fl = (Inr d, fs')" and room: "next_fd f1 \<noteq> - 1"
  shows "fs_inv fs' \<and> fd_table fs' d = Some (new_handle i 0 fl) \<and> d = next_fd f1 \<and>
    descend (child fs') (root_inode fs') cs = Some i \<and> next_fd fs' = next_fd f1 + 1 \<and> next_inode fs' = next_inode f1"
proof -
  note wf = fs_invD(1) [OF inv]
  note idom = descend_root_dom [OF wf i]
  define f2 where "f2 = (if has_flag fl O_TRUNC then truncate_inode f1 i else f1)"
  have r: "(Inr d, fs') = install_handle f2 (ino_id (inode_of f2 i)) fl"
    using run by (auto simp: open_inode_def f2_def Let_def split: if_splits)
  have "i \<in> dom (inode_table f2)" using idom dom_truncate_inode [of i f1] by (auto simp: f2_def)
  moreover have wf2: "fs_wf f2" using wf idom fs_wf_truncate_inode by (simp add: f2_def)
  ultimately have "ino_id (inode_of f2 i) = i" using ino_id_inode_of by blast
  with r have h: "d = next_fd f2" "fs' = fd_insert (f2\<lparr>next_fd := next_fd f2 + 1\<rparr>) d (new_handle i 0 fl)"
    by (simp_all add: install_handle_def allocate_fd_def)
  have g: "same_graph f1 fs'" using same_graph_open_inode [OF idom, of fl] run by simp
  have "fs_wf fs'" using fs_wf_open_inode [OF wf idom room, of fl] run by simp
  with g have "fs_inv fs'" using fs_inv_same_graph [OF inv] by blast
  with h g i show ?thesis
    by (simp add: f2_def fd_insert_def same_graph_def)
qed

text \<open>A well formed state in which \<open>n\<close> more inodes and descriptors can be allocated.\<close>

definition roomy :: "nat \<Rightarrow> fs \<Rightarrow> bool" where
  "roomy n f \<longleftrightarrow> fs_inv f \<and> unat (next_inode f) + n < 2 ^ 64 \<and> unat (next_fd f) + n < 2 ^ 32"

lemma roomy_Suc: "roomy (Suc n) f \<Longrightarrow> fs_inv f \<and> next_inode f \<noteq> - 1 \<and> next_fd f \<noteq> - 1"
  by (auto simp: roomy_def unat_minus_one)

text \<open>A successful open: the handle, the graph, and what is left of the room.\<close>

lemma open_path_ok:
  assumes r: "roomy (Suc n) f" and ne: "path_comps path \<noteq> []"
    and run: "open_path_with_flags f path fl = (Inr d, f')"
  shows "\<exists>i. roomy n f' \<and> fd_table f' d = Some (new_handle i 0 fl) \<and>
    descend (child f') (root_inode f') (path_comps path) = Some i \<and>
    abs_fs f' = snd (spec_open (abs_fs f) path fl)"
proof -
  note rs = roomy_Suc [OF r]
  obtain i f1 where o: "fs_inv f1" "descend (child f1) (root_inode f1) (path_comps path) = Some i"
      "open_inode f1 i fl = (Inr d, f')" "next_fd f1 = next_fd f" "unat (next_inode f1) \<le> unat (next_inode f) + 1"
    using open_path_lookup [OF _ _ ne run] rs by blast
  have fd: "next_fd f1 \<noteq> - 1" using rs o(4) by simp
  note h = open_inode_handle [OF o(1-3) fd]
  have "unat (next_fd f1 + 1) = Suc (unat (next_fd f1))"
    using fd by (metis Suc_eq_plus1 add.commute add.inverse_unique unatSuc)
  then have "roomy n f'" using r h o(4,5) by (auto simp: roomy_def)
  moreover have "abs_fs f' = snd (spec_open (abs_fs f) path fl)"
    using open_path_spec [of f path fl] rs run by (metis snd_conv)
  ultimately show ?thesis using h by blast
qed

lemma fs_close_abs: "abs_fs (snd (fs_close f d)) = abs_fs f"
  by (rule abs_fs_cong) (auto simp: fs_close_def fd_remove_def split: option.splits)

lemma fs_close_next:
  "next_fd (snd (fs_close f d)) = next_fd f" "next_inode (snd (fs_close f d)) = next_inode f"
  by (auto simp: fs_close_def fd_remove_def split: option.splits)

lemma roomy_close: "roomy n f \<Longrightarrow> roomy n (snd (fs_close f d))"
  using fs_inv_same_graph [OF _ _ same_graph_close] fs_wf_close fs_invD(1)
  by (auto simp: roomy_def fs_close_next)

lemma roomy_set_position: "roomy n f \<Longrightarrow> roomy n (set_position f d p)"
  using fs_inv_same_graph [of f "set_position f d p"] fs_wf_set_position fs_invD(1) same_graph_table [of "set_position f d p" f]
  by (auto simp: roomy_def)

lemma host_read_file:
  assumes r: "roomy (Suc n) f" and b: "abs_fs f (path_comps path) = Some (FileN b)" and len: "length b < 2 ^ 64"
    and pne: "path \<noteq> []"
  shows "\<exists>f'. read_file_content host_fs f path = (Inr b, f') \<and> abs_fs f' = abs_fs f \<and> roomy n f'"
proof -
  note rs = roomy_Suc [OF r]
  have wf: "fs_wf f" using rs fs_invD by blast
  have ne: "path_comps path \<noteq> []" using b abs_fs_root [OF wf] by auto
  have "abs_fs f (butlast (path_comps path)) = Some DirN"
    using abs_parent_dir [OF wf, of "butlast (path_comps path)" "last (path_comps path)"] b ne by simp
  then have sp: "spec_open (abs_fs f) path O_RDONLY = (Inr (), abs_fs f)"
    using resolve_from_dir [OF wf] b ne pne by (simp add: spec_open_def Let_def has_flag_def flag_defs)
  then have "forget (fst (open_path_with_flags f path O_RDONLY)) = Inr ()"
    using open_path_spec [of f path O_RDONLY] rs by (metis fst_conv)
  then obtain d f1 where o: "open_path_with_flags f path O_RDONLY = (Inr d, f1)"
    by (cases "open_path_with_flags f path O_RDONLY") (auto simp: forget_def split: sum.splits)
  obtain i where i: "roomy n f1" "fd_table f1 d = Some (new_handle i 0 O_RDONLY)"
      "descend (child f1) (root_inode f1) (path_comps path) = Some i" "abs_fs f1 = abs_fs f"
    using open_path_ok [OF r ne o] sp by auto
  have inv1: "fs_inv f1" and wf1: "fs_wf f1" using i(1) fs_invD by (auto simp: roomy_def)
  have at: "descend (child f1) (root_inode f1) (path_comps path) = Some (h_inode (new_handle i 0 O_RDONLY))"
    by (simp add: i(3) new_handle_def)
  have "abs_fs f1 (path_comps path) = Some (FileN b)" using b i(4) by simp
  then obtain st where st: "fd_file f1 d = Some (new_handle i 0 O_RDONLY, st)" "contents st = b"
    using abs_file_fd [OF inv1 i(2) at] by blast
  have sz: "bsize st = length b" using st(2) length_contents by metis
  obtain ino where ino: "inode_table f1 i = Some ino" "content ino = File st"
    using st(1) by (auto elim!: fd_fileE simp: new_handle_def)
  have "md_size (meta ino) = of_nat (bsize st)"
    using fs_wf_inode [OF wf1, of i] inode_wf_File [of _ i ino st] ino by (simp add: domI)
  then have stat: "host_fstat_size f1 d = Inr (of_nat (length b))"
    using ino i(2) sz by (simp add: host_fstat_size_def fstat_def new_handle_def inode_get_def)
  have un: "unat (of_nat (length b) :: u64) = length b" using len by (simp add: unsigned_of_nat take_bit_nat_eq_self)
  have rd: "fs_read f1 d (replicate (length b) 0) =
      (Inr (readable st, b), set_position f1 d (of_nat (readable st)))"
    using read_with_ok [OF wf1 st(1), of position "replicate (length b) 0"] contents_zero_tail [of st] sz st(2)
      readable_le [of st]
    by (simp add: fs_read_def new_handle_def Let_def access_mode_def flag_defs min_absorb2)
  define f2 where "f2 = snd (fs_close (set_position f1 d (of_nat (readable st))) d)"
  have "read_file_content host_fs f path = (Inr b, f2)"
    by (simp add: read_file_content_def host_fs_def host_open_read_def host_read_def host_close_def o stat un rd f2_def)
  moreover have "abs_fs f2 = abs_fs f" by (simp add: f2_def fs_close_abs i(4))
  moreover have "roomy n f2" unfolding f2_def by (rule roomy_close [OF roomy_set_position [OF i(1)]])
  ultimately show ?thesis by blast
qed

end
