(* ===== verification/Whole_Files.thy ===== *)
theory Whole_Files
  imports Fs_Backend
begin

text \<open>
  What the sync manager relies on when it reads and replaces whole files, as the locale
  \<open>whole_files\<close>, and its interpretation on the backend over \<open>fs-core\<close>. Inode numbers and
  descriptors are never reused, so every law carries a budget: \<open>roomy n\<close> says that \<open>n\<close> more of
  each can be handed out.
\<close>

section \<open>What is left of the budget\<close>

lemma roomy_le: "roomy n f \<Longrightarrow> k \<le> n \<Longrightarrow> roomy k f"
  by (simp add: roomy_def)

lemma roomy_has_room: "roomy n f \<Longrightarrow> k \<le> n \<Longrightarrow> 0 < n \<Longrightarrow> has_room k f"
  by (simp add: roomy_def has_room_def)

lemma unat_Suc_word: "w \<noteq> - 1 \<Longrightarrow> unat (w + 1) = Suc (unat (w :: 'a :: len word))"
  by (metis Suc_eq_plus1 add.commute add.inverse_unique unatSuc)

lemma open_inode_next:
  "next_inode (snd (open_inode f i fl)) = next_inode f"
  "next_fd f \<noteq> - 1 \<Longrightarrow> unat (next_fd (snd (open_inode f i fl))) \<le> unat (next_fd f) + 1"
  by (auto simp: open_inode_def install_handle_def allocate_fd_def truncate_inode_def fd_insert_def
      unat_Suc_word time_now_eq Let_def split: if_splits file_content.splits)

lemma open_path_next:
  assumes "next_inode f \<noteq> - 1" and "next_fd f \<noteq> - 1"
  shows "unat (next_inode (snd (open_path_with_flags f path fl))) \<le> unat (next_inode f) + 1 \<and>
    unat (next_fd (snd (open_path_with_flags f path fl))) \<le> unat (next_fd f) + 1"
proof (cases "walk_parent f (path_comps path)")
  case (Inr p)
  obtain r f1 where l: "open_lookup f p (last (path_comps path)) fl = (r, f1)" by fastforce
  have "unat (next_inode f1) \<le> unat (next_inode f) + 1" "next_fd f1 = next_fd f"
    using open_lookup_next_inode [OF assms(1), of p "last (path_comps path)" fl]
      open_lookup_next_fd [of f p "last (path_comps path)" fl] l by simp_all
  then show ?thesis
    using Inr l assms open_inode_next [of f1 _ fl]
    by (cases r) (auto simp: open_path_with_flags_def install_handle_def allocate_fd_def fd_insert_def unat_Suc_word Let_def)
qed (use assms in \<open>auto simp: open_path_with_flags_def install_handle_def allocate_fd_def fd_insert_def unat_Suc_word Let_def\<close>)

lemma roomy_open:
  assumes "roomy (Suc n) f" shows "roomy n (snd (open_path_with_flags f path fl))"
  using assms open_path_next [of f path fl] roomy_Suc [OF assms]
    fs_inv_open_path_with_flags [OF _ roomy_has_room [OF assms, of 1], of path fl]
  by (auto simp: roomy_def)

lemma mkdir_p_loop_next:
  "unat (next_inode f) + length cs < 2 ^ 64 \<Longrightarrow>
    unat (next_inode (snd (mkdir_p_loop f cur cs))) \<le> unat (next_inode f) + length cs \<and>
    next_fd (snd (mkdir_p_loop f cur cs)) = next_fd f"
proof (induction cs arbitrary: f cur)
  case (Cons c cs)
  obtain r f1 where cr: "create_inode f cur c True = (r, f1)" by fastforce
  have ne: "next_inode f \<noteq> - 1" using Cons.prems by (auto simp: unat_minus_one)
  have n1: "unat (next_inode f1) \<le> unat (next_inode f) + 1" "next_fd f1 = next_fd f"
    using cr unat_Suc_word [OF ne]
    by (auto simp: create_inode_def allocate_inode_def time_now_eq Let_def split: file_content.splits if_splits)
  have "unat (next_inode f) + length cs < 2 ^ 64" "unat (next_inode f1) + length cs < 2 ^ 64"
    using Cons.prems n1 by simp_all
  note ih = Cons.IH [OF this(1)] Cons.IH [OF this(2)]
  have "unat (next_inode (snd (mkdir_p_loop f1 i cs))) \<le> Suc (unat (next_inode f) + length cs)" for i
    using ih(2) [of i] n1(1) by linarith
  then show ?case
    using cr n1 ih by (auto simp: le_SucI split: sum.splits)
qed simp

lemma length_split_path: "length (split_path p) \<le> length p"
proof -
  have "length (filter (\<lambda>s. s \<noteq> []) (split_on c p)) \<le> length p" for c
    by (induction p) (auto split: list.splits if_splits)
  then show ?thesis by (simp add: split_path_def)
qed

lemma length_path_comps: "length (path_comps p) \<le> length p"
  using length_split_path [of "trim_start_matches CHR ''/'' p"] length_dropWhile_le [of "\<lambda>x. x = CHR ''/''" p]
  by (simp add: path_comps_def trim_start_matches_def)

lemma roomy_mkdir_p:
  assumes "roomy (Suc n + length path) f" shows "roomy (Suc n) (snd (mkdir_p f path))"
proof -
  have "fs_inv (snd (mkdir_p f path))"
    using fs_inv_mkdir_p [of f path] roomy_has_room [OF assms, of "length (path_comps path)"] length_path_comps [of path] assms
    by (simp add: roomy_def)
  moreover have "unat (next_inode (snd (mkdir_p f path))) \<le> unat (next_inode f) + length path \<and>
      next_fd (snd (mkdir_p f path)) = next_fd f"
    using mkdir_p_loop_next [of f "path_comps path"] length_path_comps [of path] assms
    by (auto simp: mkdir_p_def roomy_def Let_def split: option.splits) (meson add_left_mono order_trans)
  ultimately show ?thesis using assms by (auto simp: roomy_def)
qed

lemma roomy_write: "roomy n f \<Longrightarrow> roomy n (snd (fs_write f d buf))"
proof -
  have "next_inode (snd (write_with posf f d buf)) = next_inode f" "next_fd (snd (write_with posf f d buf)) = next_fd f" for posf
    by (auto simp: write_with_def write_through_def time_now_eq fd_insert_def Let_def
        split: option.splits file_content.splits prod.splits)
  then show "roomy n f \<Longrightarrow> roomy n (snd (fs_write f d buf))"
    using fs_inv_same_graph [OF _ fs_wf_write_with same_graph_write] fs_invD(1)
    by (auto simp: roomy_def fs_write_def)
qed


section \<open>The local file at a path\<close>

definition file_in :: "afs \<Rightarrow> string list \<Rightarrow> bytes option" where
  "file_in A cs = (case A cs of Some (FileN b) \<Rightarrow> Some b | _ \<Rightarrow> None)"

definition file_at :: "fs \<Rightarrow> string \<Rightarrow> bytes option" where
  "file_at f path = file_in (abs_fs f) (path_comps path)"

definition same_file :: "string \<Rightarrow> string \<Rightarrow> bool" where
  "same_file p q \<longleftrightarrow> path_comps p = path_comps q"

lemma file_in_upd: "file_in (A(cs \<mapsto> FileN b)) ds = (if ds = cs then Some b else file_in A ds)"
  by (simp add: file_in_def)

lemma file_in_Some: "file_in A cs = Some b \<longleftrightarrow> A cs = Some (FileN b)"
  by (auto simp: file_in_def split: option.splits node.splits)

lemma file_in_mkdir_p: "file_in (snd (spec_mkdir_p A pre cs)) = file_in A"
proof (induction cs arbitrary: A pre)
  case (Cons c cs)
  have "file_in (A(pre @ [c] \<mapsto> DirN)) = file_in A" if "A (pre @ [c]) = None"
    using that by (auto simp: file_in_def fun_eq_iff)
  with Cons show ?case by (simp add: fun_upd_def split: option.splits node.splits)
qed simp

lemma file_at_mkdir_p:
  assumes "roomy (Suc n + length path) f" shows "file_at (snd (mkdir_p f path)) = file_at f"
proof (cases "path = []")
  case False
  have inv: "fs_inv f" using assms by (simp add: roomy_def)
  have room: "has_room (length (path_comps path)) f"
    using roomy_has_room [OF assms, of "length (path_comps path)"] length_path_comps [of path] by simp
  have "abs_fs (snd (mkdir_p f path)) = snd (spec_mkdir_p (abs_fs f) [] (path_comps path))"
    using mkdir_p_spec [OF inv room False] by (metis snd_conv)
  then show ?thesis by (intro ext) (simp add: file_at_def file_in_mkdir_p)
qed (simp add: mkdir_p_def)

lemma length_strip_tail: "length (strip_tail q) \<le> length q"
proof (induction q rule: strip_tail.induct)
  case (1 c r)
  show ?case
    by (subst strip_tail.simps) (use 1 in \<open>auto simp del: strip_tail.simps split: list.splits\<close>)
qed simp

lemma length_path_parent: "path_parent p = Some q \<Longrightarrow> length q \<le> length p"
  using length_strip_tail [of "rev p"] length_dropWhile_le [of "\<lambda>c. c \<noteq> CHR ''/''" "strip_tail (rev p)"]
    length_strip_tail [of "dropWhile (\<lambda>c. c \<noteq> CHR ''/'') (strip_tail (rev p))"]
  by (auto simp: path_parent_def Let_def split: if_splits)

lemma make_parents_host:
  assumes "roomy (Suc n + length path) f"
  shows "roomy (Suc n) (make_parents host_fs f path) \<and> file_at (make_parents host_fs f path) = file_at f"
proof (cases "path_parent path")
  case (Some q)
  then have "roomy (Suc n + length q) f" using roomy_le [OF assms] length_path_parent [OF Some] by simp
  then show ?thesis
    using Some roomy_mkdir_p [of n q f] file_at_mkdir_p [of n q f] roomy_le [OF assms, of "Suc n"]
    by (simp add: make_parents_def host_fs_def host_mkdir_p_def)
qed (use roomy_le [OF assms, of "Suc n"] in \<open>simp add: make_parents_def\<close>)

section \<open>Replacing a file\<close>

abbreviation (input) replace_flags :: u32 where
  "replace_flags \<equiv> O_RDWR OR O_CREAT OR O_TRUNC"

lemma replace_flags_simps:
  "has_flag replace_flags O_CREAT" "has_flag replace_flags O_TRUNC" "\<not> has_flag replace_flags O_APPEND"
  "access_mode replace_flags = O_RDWR" "O_RDWR \<noteq> O_RDONLY"
  by (simp_all add: has_flag_def access_mode_def flag_defs)

lemma spec_open_replace:
  "spec_open A path replace_flags =
     (let cs = path_comps path in
      if path = [] then (Inl InvalidArgument, A)
      else if cs = [] then (Inr (), A)
      else case resolve_from A [] (butlast cs) of
        Inl e \<Rightarrow> (Inl e, A)
      | Inr _ \<Rightarrow> if A cs = Some DirN then (Inl IsADirectory, A) else (Inr (), A(cs \<mapsto> FileN [])))"
  by (auto simp: spec_open_def Let_def replace_flags_simps split: sum.splits option.splits node.splits)

lemma host_write_root:
  assumes r: "roomy (Suc n) f" and e: "path_comps path = []" and o: "host_open_write_truncate f path = (Inr d, f1)"
  shows "\<exists>e. host_write f1 d data = (Inl e, f1)"
proof -
  have o': "open_path_with_flags f path replace_flags = (Inr d, f1)"
    using o by (cases "open_path_with_flags f path replace_flags") (auto simp: host_open_write_truncate_def)
  then have "path \<noteq> []" by (auto simp: open_path_with_flags_def)
  then have h: "fd_table f1 d = Some (new_handle (root_inode f) 0 replace_flags)" "inode_table f1 = inode_table f"
    using o' e by (auto simp: open_path_with_flags_def install_handle_def allocate_fd_def fd_insert_def Let_def)
  have "fs_wf f" using r fs_invD(1) by (auto simp: roomy_def)
  then obtain ino where "inode_table f (root_inode f) = Some ino" "\<not> is_file_inode ino"
    by (auto simp: fs_wf_def)
  then have "fs_write f1 d data = (Inl BadFileDescriptor, f1)"
    using h by (auto simp: fs_write_def write_with_def new_handle_def is_file_inode_def replace_flags_simps split: file_content.splits)
  then show ?thesis by (simp add: host_write_def)
qed

lemma spec_open_replace_result:
  "snd (spec_open A path replace_flags) =
    (if is_ok (fst (spec_open A path replace_flags)) \<and> path_comps path \<noteq> []
     then A(path_comps path \<mapsto> FileN []) else A)"
  unfolding spec_open_replace
  by (cases "path = []"; cases "path_comps path = []"; cases "resolve_from A [] (butlast (path_comps path))";
      cases "A (path_comps path) = Some DirN") (simp_all add: Let_def)

lemma file_at_cong: "abs_fs f' = abs_fs f \<Longrightarrow> file_at f' = file_at f"
  by (intro ext) (simp add: file_at_def)

lemma host_replace:
  assumes r: "roomy (Suc n) g" and ne: "path_comps path \<noteq> []"
    and o: "open_path_with_flags g path replace_flags = (Inr d, f1)"
  shows "\<exists>f2. fs_write f1 d data = (Inr (length data), f2) \<and> roomy n f2 \<and>
    abs_fs f2 = (abs_fs g)(path_comps path \<mapsto> FileN data)"
proof -
  note rs = roomy_Suc [OF r]
  obtain i where i: "roomy n f1" "fd_table f1 d = Some (new_handle i 0 replace_flags)"
      "descend (child f1) (root_inode f1) (path_comps path) = Some i"
      "abs_fs f1 = snd (spec_open (abs_fs g) path replace_flags)"
    using open_path_ok [OF r ne o] by blast
  have "fst (spec_open (abs_fs g) path replace_flags) = Inr ()"
    using open_path_spec [of g path replace_flags] rs o by (metis forget_simps(2) fst_conv)
  then have a: "abs_fs f1 = (abs_fs g)(path_comps path \<mapsto> FileN [])"
    using i(4) ne by (simp add: spec_open_replace_result)
  have inv1: "fs_inv f1" using i(1) by (simp add: roomy_def)
  have "fst (fs_write f1 d data) = Inr (length data) \<and>
      abs_fs (snd (fs_write f1 d data)) = (abs_fs f1)(path_comps path \<mapsto> FileN (write_spec [] 0 data))"
    unfolding fs_write_def
    by (rule write_with_abs [OF inv1 i(2)]) (simp_all add: new_handle_def replace_flags_simps i(3) a)
  moreover have "write_spec [] 0 data = data" by (simp add: write_spec_def)
  ultimately show ?thesis
    using roomy_write [OF i(1), of d data] a by (cases "fs_write f1 d data") auto
qed

lemma host_write_file:
  assumes room: "roomy (Suc n + length path) f" and run: "write_file_content host_fs f path data = (r, f')"
  shows "roomy n f' \<and> (\<forall>q. path_comps q \<noteq> path_comps path \<longrightarrow> file_at f' q = file_at f q) \<and>
    file_at f' path = (case r of Inl _ \<Rightarrow> file_at f path | Inr _ \<Rightarrow> Some data)"
proof -
  define g where "g = make_parents host_fs f path"
  have g: "roomy (Suc n) g" "file_at g = file_at f" using make_parents_host [OF room] by (simp_all add: g_def)
  obtain ro f1 where o: "open_path_with_flags g path replace_flags = (ro, f1)" by fastforce
  have r1: "roomy n f1" using roomy_open [OF g(1), of path replace_flags] o by simp
  have sp: "fst (spec_open (abs_fs g) path replace_flags) = forget ro"
      "snd (spec_open (abs_fs g) path replace_flags) = abs_fs f1"
    using open_path_spec [of g path replace_flags] roomy_Suc [OF g(1)] o by (metis fst_conv snd_conv)+
  have w: "write_file_content host_fs f path data = (case ro of
      Inl e \<Rightarrow> (Inl (S3Write path (''Failed to open: '' @ fs_error_debug e)), f1)
    | Inr d \<Rightarrow> (case host_write f1 d data of (Inl e, f2) \<Rightarrow> (Inl e, f2) | (Inr _, f2) \<Rightarrow> (Inr (), snd (host_close f2 d))))"
    using o by (simp add: write_file_content_def g_def [symmetric] host_open_write_truncate_def split: sum.split prod.split)
  show ?thesis
  proof (cases "\<exists>d. ro = Inr d \<and> path_comps path \<noteq> []")
    case False
    then have "abs_fs f1 = abs_fs g"
      using sp spec_open_replace_result [of "abs_fs g" path] by (cases ro) auto
    then have f1: "file_at f1 = file_at f" using g(2) file_at_cong by metis
    have "\<exists>e. r = Inl e \<and> f' = f1"
    proof (cases ro)
      case (Inr d)
      then have "path_comps path = []" "host_open_write_truncate g path = (Inr d, f1)"
        using False o by (auto simp: host_open_write_truncate_def)
      then show ?thesis using host_write_root [OF g(1), of path d f1 data] run w Inr by auto
    qed (use run w in auto)
    then show ?thesis using r1 f1 by auto
  next
    case True
    then obtain d where d: "ro = Inr d" "path_comps path \<noteq> []" by blast
    then obtain f2 where f2: "fs_write f1 d data = (Inr (length data), f2)" "roomy n f2"
        "abs_fs f2 = (abs_fs g)(path_comps path \<mapsto> FileN data)"
      using host_replace [OF g(1)] o by blast
    then have "r = Inr ()" "f' = snd (fs_close f2 d)"
      using run w d by (simp_all add: host_write_def host_close_def)
    moreover have "abs_fs (snd (fs_close f2 d)) = (abs_fs g)(path_comps path \<mapsto> FileN data)"
      using f2(3) by (simp add: fs_close_abs)
    ultimately have "file_at f' q = (if path_comps q = path_comps path then Some data else file_at g q)" for q
      by (simp add: file_at_def file_in_upd)
    then show ?thesis
      using roomy_close [OF f2(2)] g(2) \<open>r = Inr ()\<close> \<open>f' = _\<close> by simp
  qed
qed

section \<open>Reading a file\<close>

lemma spec_open_rdonly: "snd (spec_open A path O_RDONLY) = A"
  by (auto simp: spec_open_def Let_def has_flag_def access_mode_def flag_defs split: sum.splits option.splits node.splits)

lemma host_read_frame:
  assumes room: "roomy (Suc n) f" and run: "read_file_content host_fs f path = (r, f')"
  shows "roomy n f' \<and> file_at f' = file_at f"
proof -
  obtain ro f1 where o: "open_path_with_flags f path O_RDONLY = (ro, f1)" by fastforce
  have r1: "roomy n f1" using roomy_open [OF room, of path O_RDONLY] o by simp
  have "abs_fs f1 = abs_fs f"
    using open_path_spec [of f path O_RDONLY] roomy_Suc [OF room] o spec_open_rdonly [of "abs_fs f" path]
    by (metis snd_conv)
  then have a1: "file_at f1 = file_at f" by (rule file_at_cong)
  have "f' = f1 \<or> (\<exists>d p. f' = set_position f1 d p \<or> f' = snd (fs_close (set_position f1 d p) d)) \<or> (\<exists>d. f' = snd (fs_close f1 d))"
  proof (cases "\<exists>d sz. ro = Inr d \<and> host_fstat_size f1 d = Inr sz")
    case True
    then obtain d sz where d: "ro = Inr d" "host_fstat_size f1 d = Inr sz" by blast
    obtain rr f2 where rd: "fs_read f1 d (replicate (unat sz) 0) = (rr, f2)" by fastforce
    then have "f2 = f1 \<or> (\<exists>p. f2 = set_position f1 d p)"
      by (auto simp: fs_read_def read_with_def split: option.splits file_content.splits prod.splits if_splits)
    moreover have "f' = f2 \<or> f' = snd (fs_close f2 d)"
      using run o d rd by (cases rr) (auto simp: read_file_content_def host_open_read_def host_read_def host_close_def)
    ultimately show ?thesis by blast
  qed (use run o in \<open>auto simp: read_file_content_def host_open_read_def split: sum.splits\<close>)
  moreover have "abs_fs (set_position f1 d p) = abs_fs f1" for d p by simp
  ultimately show ?thesis
    using r1 a1 by (elim disjE exE) (simp_all add: roomy_set_position roomy_close file_at_def fs_close_abs fun_eq_iff)
qed

lemma fs_read_dir:
  assumes "fd_table f d = Some h" and "inode_table f (h_inode h) = Some ino" and "\<not> is_file_inode ino"
  shows "\<not> is_ok (fst (fs_read f d buf))"
  using assms by (auto simp: fs_read_def read_with_def is_file_inode_def split: file_content.splits)

lemma host_read_missing:
  assumes room: "roomy (Suc n) f" and none: "file_at f path = None"
  shows "\<not> is_ok (fst (read_file_content host_fs f path))"
proof -
  obtain ro f1 where o: "open_path_with_flags f path O_RDONLY = (ro, f1)" by fastforce
  have "\<exists>h ino. fd_table f1 d = Some h \<and> inode_table f1 (h_inode h) = Some ino \<and> \<not> is_file_inode ino" if ro: "ro = Inr d" for d
  proof (cases "path_comps path = []")
    case True
    have "fs_wf f" using room fs_invD(1) by (auto simp: roomy_def)
    moreover have "path \<noteq> []" using o ro by (auto simp: open_path_with_flags_def)
    ultimately show ?thesis using o ro True
      by (auto simp: fs_wf_def open_path_with_flags_def install_handle_def allocate_fd_def fd_insert_def Let_def new_handle_def)
  next
    case False
    then obtain i where i: "roomy n f1" "fd_table f1 d = Some (new_handle i 0 O_RDONLY)"
        "descend (child f1) (root_inode f1) (path_comps path) = Some i" "abs_fs f1 = abs_fs f"
      using open_path_ok [OF room _ o [unfolded ro]] spec_open_rdonly by metis
    have "fs_wf f1" using i(1) fs_invD(1) by (auto simp: roomy_def)
    then have "i \<in> dom (inode_table f1)" using descend_root_dom i(3) by blast
    moreover have "\<not> is_file_inode (inode_of f1 i)"
    proof
      assume "is_file_inode (inode_of f1 i)"
      then obtain b where "node_of f1 i = FileN b" using node_of_file by blast
      then have "abs_fs f1 (path_comps path) = Some (FileN b)" using i(3) by (simp add: abs_fs_def)
      with none i(4) show False by (simp add: file_at_def file_in_def)
    qed
    ultimately show ?thesis using i(2) by (auto simp: new_handle_def)
  qed
  then have rd: "\<exists>e f2. fs_read f1 d buf = (Inl e, f2)" if "ro = Inr d" for d buf
    using fs_read_dir [of f1 d _ _ buf] that by (cases "fs_read f1 d buf"; cases "fst (fs_read f1 d buf)") auto
  show ?thesis
  proof (cases "\<exists>d sz. ro = Inr d \<and> host_fstat_size f1 d = Inr sz")
    case True
    then obtain d sz where d: "ro = Inr d" "host_fstat_size f1 d = Inr sz" by blast
    obtain e f2 where "fs_read f1 d (replicate (unat sz) 0) = (Inl e, f2)" using rd [OF d(1)] by blast
    then show ?thesis using o d by (simp add: read_file_content_def host_open_read_def host_read_def)
  qed (use o in \<open>auto simp: read_file_content_def host_open_read_def split: sum.splits\<close>)
qed

section \<open>The contract\<close>

locale whole_files =
  fixes B :: "'f fs_backend"
    and lfile :: "'f \<Rightarrow> string \<Rightarrow> bytes option"
    and room :: "nat \<Rightarrow> 'f \<Rightarrow> bool"
    and same :: "string \<Rightarrow> string \<Rightarrow> bool"
  assumes room_le: "room n f \<Longrightarrow> k \<le> n \<Longrightarrow> room k f"
    and same_refl: "same p p"
    and read_frame: "room (Suc n) f \<Longrightarrow> read_file_content B f p = (r, f') \<Longrightarrow> room n f' \<and> lfile f' = lfile f"
    and read_some: "room (Suc n) f \<Longrightarrow> lfile f p = Some b \<Longrightarrow> length b < 2 ^ 64 \<Longrightarrow>
        fst (read_file_content B f p) = Inr b"
    and read_none: "room (Suc n) f \<Longrightarrow> lfile f p = None \<Longrightarrow> \<not> is_ok (fst (read_file_content B f p))"
    and write_law: "room (Suc n + length p) f \<Longrightarrow> write_file_content B f p b = (w, f') \<Longrightarrow>
        room n f' \<and> (\<forall>q. \<not> same q p \<longrightarrow> lfile f' q = lfile f q) \<and>
        lfile f' p = (case w of Inl _ \<Rightarrow> lfile f p | Inr _ \<Rightarrow> Some b)"
begin

text \<open>What was written is read back.\<close>

lemma write_read:
  assumes "room (Suc (Suc n) + length p) f" and "write_file_content B f p b = (Inr (), f')" and "length b < 2 ^ 64"
  shows "fst (read_file_content B f' p) = Inr b"
  using write_law [of "Suc n" p f b "Inr ()" f'] assms read_some [of n f' p b] by simp

lemma read_value:
  assumes "room (Suc n) f" and "read_file_content B f p = (Inr b, f')" and "\<And>c. lfile f p = Some c \<Longrightarrow> length c < 2 ^ 64"
  shows "lfile f p = Some b"
  using assms read_none [OF assms(1), of p] read_some [OF assms(1), of p] by (cases "lfile f p") auto

end

interpretation hf: whole_files host_fs file_at roomy same_file
proof unfold_locales
  fix n f p b
  assume r: "roomy (Suc n) f" and b: "file_at f p = Some b" and len: "length b < 2 ^ 64"
  have "fs_wf f" using r fs_invD(1) by (auto simp: roomy_def)
  then have "p \<noteq> []" using b abs_fs_root by (auto simp: file_at_def file_in_Some)
  with host_read_file [OF r _ len, of p] b show "fst (read_file_content host_fs f p) = Inr b"
    by (auto simp: file_at_def file_in_Some)
next
  fix n p f b r f'
  assume "roomy (Suc n + length p) f" and "write_file_content host_fs f p b = (r, f')"
  from host_write_file [OF this]
  show "roomy n f' \<and> (\<forall>q. \<not> same_file q p \<longrightarrow> file_at f' q = file_at f q) \<and>
      file_at f' p = (case r of Inl _ \<Rightarrow> file_at f p | Inr _ \<Rightarrow> Some b)"
    by (simp add: same_file_def)
qed (auto simp: same_file_def roomy_le host_read_missing dest: host_read_frame)

section \<open>Removing files, making and removing directories\<close>

lemma remove_entry_next:
  "next_inode (snd (remove_entry f i n)) = next_inode f" "next_fd (snd (remove_entry f i n)) = next_fd f"
  by (auto simp: remove_entry_def time_now_eq Let_def split: file_content.splits)

lemma unlink_next:
  "next_inode (snd (unlink f p)) = next_inode f" "next_fd (snd (unlink f p)) = next_fd f"
  by (auto simp: unlink_def remove_entry_next Let_def split: sum.splits)

lemma rmdir_next:
  "next_inode (snd (rmdir f p)) = next_inode f" "next_fd (snd (rmdir f p)) = next_fd f"
  by (auto simp: rmdir_def remove_entry_next Let_def split: sum.splits file_content.splits)

lemma roomy_unlink: "roomy n f \<Longrightarrow> roomy n (snd (unlink f p))"
  using fs_inv_unlink [of f p] by (simp add: roomy_def unlink_next)

lemma roomy_rmdir: "roomy n f \<Longrightarrow> roomy n (snd (rmdir f p))"
  using fs_inv_rmdir [of f p] by (simp add: roomy_def rmdir_next)

lemma file_at_unlink:
  assumes "roomy n f"
  shows "path_comps q \<noteq> path_comps p \<Longrightarrow> file_at (snd (unlink f p)) q = file_at f q"
    and "is_ok (fst (unlink f p)) \<Longrightarrow> file_at (snd (unlink f p)) p = None"
proof -
  have inv: "fs_inv f" using assms by (simp add: roomy_def)
  have s: "fst (unlink f p) = fst (spec_unlink (abs_fs f) p)" "abs_fs (snd (unlink f p)) = snd (spec_unlink (abs_fs f) p)"
    using unlink_spec [OF inv, of p] by (metis fst_conv, metis snd_conv)
  show "path_comps q \<noteq> path_comps p \<Longrightarrow> file_at (snd (unlink f p)) q = file_at f q"
    by (auto simp: file_at_def s spec_unlink_def file_in_def Let_def split: sum.splits option.splits node.splits)
  show "is_ok (fst (unlink f p)) \<Longrightarrow> file_at (snd (unlink f p)) p = None"
    by (auto simp: file_at_def s spec_unlink_def file_in_def Let_def split: sum.splits option.splits node.splits if_splits)
qed

lemma file_at_rmdir: "roomy n f \<Longrightarrow> file_at (snd (rmdir f p)) = file_at f"
proof -
  assume "roomy n f"
  then have inv: "fs_inv f" by (simp add: roomy_def)
  have "abs_fs (snd (rmdir f p)) = snd (spec_rmdir (abs_fs f) p)"
    using rmdir_spec [OF inv, of p] by (metis snd_conv)
  moreover have "file_in (snd (spec_rmdir A p)) cs = file_in A cs" for A cs
    by (auto simp: spec_rmdir_def file_in_def Let_def split: sum.splits option.splits node.splits)
  ultimately show ?thesis by (intro ext) (simp add: file_at_def)
qed

locale local_files = whole_files B lfile room same
  for B :: "'f fs_backend" and lfile room same +
  assumes unlink_law: "room n f \<Longrightarrow> fb_unlink B f p = (u, f') \<Longrightarrow>
        room n f' \<and> (\<forall>q. \<not> same q p \<longrightarrow> lfile f' q = lfile f q) \<and> (is_ok u \<longrightarrow> lfile f' p = None)"
    and mkdir_law: "room (Suc n + length p) f \<Longrightarrow> room n (fb_mkdir_p B f p) \<and> lfile (fb_mkdir_p B f p) = lfile f"
    and rmdir_law: "room n f \<Longrightarrow> fb_rmdir B f p = (u, f') \<Longrightarrow> room n f' \<and> lfile f' = lfile f"

interpretation lf: local_files host_fs file_at roomy same_file
proof unfold_locales
  fix n f p u f'
  assume r: "roomy n f" and run: "fb_unlink host_fs f p = (u, f')"
  then have f': "f' = snd (unlink f p)" "is_ok u = is_ok (fst (unlink f p))"
    by (cases "unlink f p"; cases "fst (unlink f p)"; auto simp: host_unlink_def)+
  show "roomy n f' \<and> (\<forall>q. \<not> same_file q p \<longrightarrow> file_at f' q = file_at f q) \<and> (is_ok u \<longrightarrow> file_at f' p = None)"
    using roomy_unlink [OF r, of p] file_at_unlink [OF r] f' by (auto simp: same_file_def)
next
  fix n f and p :: string assume r: "roomy (Suc n + length p) f"
  show "roomy n (fb_mkdir_p host_fs f p) \<and> file_at (fb_mkdir_p host_fs f p) = file_at f"
    using file_at_mkdir_p [OF r] roomy_le [OF roomy_mkdir_p [OF r], of n] by (simp add: host_mkdir_p_def)
next
  fix n f p u f'
  assume r: "roomy n f" and run: "fb_rmdir host_fs f p = (u, f')"
  then have "f' = snd (rmdir f p)" by (cases "rmdir f p") (auto simp: host_rmdir_def)
  then show "roomy n f' \<and> file_at f' = file_at f" using roomy_rmdir [OF r] file_at_rmdir [OF r] by simp
qed

end
