(* ===== verification/Sync_Manager.thy ===== *)
theory Sync_Manager
  imports Whole_Files
begin

text \<open>
  \<open>sync_manager.rs\<close>: the bidirectional sync manager over an object store and a local file system.
  The mutable fields of \<open>SyncManager\<close> are the record \<open>sync_manager\<close>, threaded through every call;
  the trait objects, the configuration and the clock it is built with are the record \<open>sync_env\<close>.

  Calls of one instance run one after the other: each method is one function on the state. Other
  instances act on the store between the requests of a call when the store is wrapped by
  \<open>with_env\<close>. The requests that \<open>tokio::join!\<close> runs together are issued in the order written.
  Logging is left out.
\<close>

record ('s, 'f) sync_env =
  se_store :: "'s object_store"
  se_fs :: "'f fs_backend"
  se_time :: time_env
  config :: sync_config

record ('s, 'f) sync_manager =
  m_store :: 's
  m_fs :: 'f
  outbound_queue :: "sync_operation list"
  m_cache :: metadata_cache
  leases :: lease_table
  instance_id :: string
  last_poll :: instant
  last_flush :: instant
  m_shutdown :: bool
  m_clk :: clk

record sync_stats =
  downloaded :: nat
  deleted :: nat

text \<open>The message of \<open>LoadFs\<close> is the debug text of the error it carries.\<close>

datatype load_error = LoadS3 s3_error | LoadFs s3_error

section \<open>Access to the parts\<close>

definition on_store :: "('s \<Rightarrow> 'r \<times> 's) \<Rightarrow> ('s, 'f) sync_manager \<Rightarrow> 'r \<times> ('s, 'f) sync_manager" where
  "on_store g m = (case g (m_store m) of (r, s) \<Rightarrow> (r, m\<lparr>m_store := s\<rparr>))"

definition on_fs :: "('f \<Rightarrow> 'r \<times> 'f) \<Rightarrow> ('s, 'f) sync_manager \<Rightarrow> 'r \<times> ('s, 'f) sync_manager" where
  "on_fs g m = (case g (m_fs m) of (r, f) \<Rightarrow> (r, m\<lparr>m_fs := f\<rparr>))"

definition read_instant :: "('s, 'f) sync_env \<Rightarrow> ('s, 'f) sync_manager \<Rightarrow> instant \<times> ('s, 'f) sync_manager" where
  "read_instant X m = (case instant_now (se_time X) (m_clk m) of (t, c) \<Rightarrow> (t, m\<lparr>m_clk := c\<rparr>))"

definition modify_lease ::
  "string \<Rightarrow> (write_lease \<Rightarrow> write_lease) \<Rightarrow> ('s, 'f) sync_manager \<Rightarrow> ('s, 'f) sync_manager" where
  "modify_lease path g m = m\<lparr>leases := lt_modify (leases m) path g\<rparr>"

definition cache_uploaded ::
  "('s, 'f) sync_env \<Rightarrow> string \<Rightarrow> string \<Rightarrow> u64 \<Rightarrow> u64 \<Rightarrow> ('s, 'f) sync_manager \<Rightarrow> ('s, 'f) sync_manager" where
  "cache_uploaded X path etag sz local_modified m =
     (case current_timestamp (se_time X) (m_clk m) of (now, c) \<Rightarrow>
        m\<lparr>m_clk := c, m_cache := update_after_upload (m_cache m) path etag sz local_modified now\<rparr>)"

definition cache_downloaded ::
  "string \<Rightarrow> string \<Rightarrow> u64 \<Rightarrow> bytes \<Rightarrow> ('s, 'f) sync_manager \<Rightarrow> ('s, 'f) sync_manager" where
  "cache_downloaded path etag last_modified data m =
     m\<lparr>m_cache := update_after_download (m_cache m) path etag last_modified (of_nat (length data))\<rparr>"

definition base_cond :: "string option \<Rightarrow> precondition" where
  "base_cond base = (case base of Some etag \<Rightarrow> IfMatch etag | None \<Rightarrow> IfNoneMatchAny)"

definition fs_error_of :: "string \<Rightarrow> s3_error \<Rightarrow> sync_error" where
  "fs_error_of path e = SyncFs path (s3_error_display e)"

section \<open>The outbound queue\<close>

text \<open>\<open>new\<close>: \<open>inst\<close> is the random identifier of \<open>generate_instance_id\<close>.\<close>

definition sm_new ::
  "('s, 'f) sync_env \<Rightarrow> 's \<Rightarrow> 'f \<Rightarrow> metadata_cache \<Rightarrow> string \<Rightarrow> clk \<Rightarrow> ('s, 'f) sync_manager" where
  "sm_new X s f cache inst c =
     (case instant_now (se_time X) c of (t1, c) \<Rightarrow>
      case instant_now (se_time X) c of (t2, c) \<Rightarrow>
        \<lparr>m_store = s, m_fs = f, outbound_queue = [], m_cache = cache, leases = [], instance_id = inst,
         last_poll = t1, last_flush = t2, m_shutdown = False, m_clk = c\<rparr>)"

definition is_locked :: "('s, 'f) sync_manager \<Rightarrow> string \<Rightarrow> bool" where
  "is_locked m path = lt_contains (leases m) path"

definition requeue :: "sync_operation \<Rightarrow> sync_operation list \<Rightarrow> sync_operation list" where
  "requeue op q = filter (\<lambda>o'. op_path o' \<noteq> op_path op) q @ [op]"

definition enqueue_upload :: "string \<Rightarrow> ('s, 'f) sync_manager \<Rightarrow> ('s, 'f) sync_manager" where
  "enqueue_upload path m =
     (if is_locked m path then modify_lease path (\<lambda>l. l\<lparr>dirty := True, pending_delete := False\<rparr>) m
      else m\<lparr>outbound_queue := requeue (Upload path) (outbound_queue m)\<rparr>)"

definition enqueue_delete :: "string \<Rightarrow> ('s, 'f) sync_manager \<Rightarrow> ('s, 'f) sync_manager" where
  "enqueue_delete path m =
     (if is_locked m path then modify_lease path (\<lambda>l. l\<lparr>pending_delete := True, dirty := False\<rparr>) m
      else
        let etag = map_option sm_etag (mc_get (m_cache m) path) in
        m\<lparr>m_cache := mc_remove (m_cache m) path,
          outbound_queue := requeue (Delete path etag) (outbound_queue m)\<rparr>)"

definition pending_count :: "('s, 'f) sync_manager \<Rightarrow> nat" where
  "pending_count m = length (outbound_queue m)"

definition is_realtime :: "('s, 'f) sync_env \<Rightarrow> bool" where
  "is_realtime X \<longleftrightarrow> cfg_mode (config X) = RealTime"

definition sm_shutdown :: "('s, 'f) sync_manager \<Rightarrow> ('s, 'f) sync_manager" where
  "sm_shutdown m = m\<lparr>m_shutdown := True\<rparr>"

definition has_pending_op :: "('s, 'f) sync_manager \<Rightarrow> string \<Rightarrow> bool" where
  "has_pending_op m path \<longleftrightarrow> (\<exists>op \<in> set (outbound_queue m). op_path op = path)"

section \<open>Uploading\<close>

definition cond_for_upload :: "('s, 'f) sync_manager \<Rightarrow> string \<Rightarrow> precondition" where
  "cond_for_upload m path =
     (case lt_get (leases m) path of
        Some l \<Rightarrow> base_cond (base_etag l)
      | None \<Rightarrow>
          (case mc_get (m_cache m) path of
             Some md \<Rightarrow> IfMatch (sm_etag md)
           | None \<Rightarrow> IfNoneMatchAny))"

text \<open>The existence checks of the passthrough mode: all three run, then the first error is returned.\<close>

definition passthrough_checks ::
  "('s, 'f) sync_env \<Rightarrow> string \<Rightarrow> ('s, 'f) sync_manager \<Rightarrow> (s3_error + unit) \<times> ('s, 'f) sync_manager" where
  "passthrough_checks X path m =
     (if cfg_metadata_mode (config X) = MS3 then
        (case on_store (\<lambda>s. head_file (se_store X) s path) m of (r1, m) \<Rightarrow>
         case on_store (\<lambda>s. head_dir_marker (se_store X) s path) m of (r2, m) \<Rightarrow>
         case on_store (\<lambda>s. has_children (se_store X) s path) m of (r3, m) \<Rightarrow>
           (case r1 of Inl e \<Rightarrow> Inl e | Inr _ \<Rightarrow>
            case r2 of Inl e \<Rightarrow> Inl e | Inr _ \<Rightarrow>
            case r3 of Inl e \<Rightarrow> Inl e | Inr _ \<Rightarrow> Inr (), m))
      else (Inr (), m))"

definition verify_upload_landed ::
  "('s, 'f) sync_env \<Rightarrow> string \<Rightarrow> precondition \<Rightarrow> ('s, 'f) sync_manager \<Rightarrow> string option \<times> ('s, 'f) sync_manager" where
  "verify_upload_landed X path cond m =
     (case on_store (\<lambda>s. head_file (se_store X) s path) m of
        (Inr (Some (remote_etag, _, _)), m) \<Rightarrow>
          (if (case cond of
                 IfNoneMatchAny \<Rightarrow> True
               | IfMatch base \<Rightarrow> remote_etag \<noteq> base
               | NoCond \<Rightarrow> False)
           then Some remote_etag else None, m)
      | (_, m) \<Rightarrow> (None, m))"

text \<open>The guarded retries around the PUT of \<open>upload_with_cond\<close>.\<close>

definition put_upload ::
  "('s, 'f) sync_env \<Rightarrow> string \<Rightarrow> bytes \<Rightarrow> precondition \<Rightarrow> ('s, 'f) sync_manager \<Rightarrow>
   (s3_error + string) \<times> ('s, 'f) sync_manager" where
  "put_upload X path data cond m =
     (case on_store (\<lambda>s. put_file (se_store X) s path data cond) m of
        (Inr etag, m) \<Rightarrow> (Inr etag, m)
      | (Inl e, m) \<Rightarrow>
          if is_not_found e \<and> is_if_match cond then
            on_store (\<lambda>s. put_file (se_store X) s path data IfNoneMatchAny) m
          else if is_precondition_failed e \<and> cond = IfNoneMatchAny then
            (case on_store (\<lambda>s. head_file (se_store X) s path) m of
               (Inl e', m) \<Rightarrow> (Inl e', m)
             | (Inr (Some _), m) \<Rightarrow> (Inl e, m)
             | (Inr None, m) \<Rightarrow> on_store (\<lambda>s. put_file (se_store X) s path data IfNoneMatchAny) m)
          else if \<not> is_precondition_failed e then
            (case verify_upload_landed X path cond m of
               (Some etag, m) \<Rightarrow> (Inr etag, m)
             | (None, m) \<Rightarrow> (Inl e, m))
          else (Inl e, m))"

definition upload_with_cond ::
  "('s, 'f) sync_env \<Rightarrow> string \<Rightarrow> precondition \<Rightarrow> ('s, 'f) sync_manager \<Rightarrow>
   (sync_error + string) \<times> ('s, 'f) sync_manager" where
  "upload_with_cond X path cond m =
     (case on_fs (\<lambda>f. read_file_content (se_fs X) f path) m of
        (Inl e, m) \<Rightarrow> (Inl (fs_error_of path e), m)
      | (Inr data, m) \<Rightarrow>
          let sz = of_nat (length data); local_modified = fb_stat_modified (se_fs X) (m_fs m) path in
          case passthrough_checks X path m of
            (Inl e, m) \<Rightarrow> (Inl (SyncS3 e), m)
          | (Inr _, m) \<Rightarrow>
              (case put_upload X path data cond m of
                 (Inl e, m) \<Rightarrow> (Inl (SyncS3 e), m)
               | (Inr etag, m) \<Rightarrow>
                   (Inr etag,
                    modify_lease path (\<lambda>l. l\<lparr>base_etag := Some etag, dirty := False\<rparr>)
                      (cache_uploaded X path etag sz local_modified m))))"

definition refresh_local_from_remote ::
  "('s, 'f) sync_env \<Rightarrow> string \<Rightarrow> ('s, 'f) sync_manager \<Rightarrow> bool \<times> ('s, 'f) sync_manager" where
  "refresh_local_from_remote X path m =
     (case on_store (\<lambda>s. get_file (se_store X) s path) m of
        (Inr (Some (data, etag, last_modified)), m) \<Rightarrow>
          (case on_fs (\<lambda>f. write_file_content (se_fs X) f path data) m of
             (Inl _, m) \<Rightarrow> (False, m)
           | (Inr _, m) \<Rightarrow>
               (True, modify_lease path (\<lambda>l. l\<lparr>base_etag := Some etag, dirty := False\<rparr>)
                        (cache_downloaded path etag last_modified data m)))
      | (Inr None, m) \<Rightarrow>
          (False, modify_lease path (\<lambda>l. l\<lparr>base_etag := None\<rparr>) (m\<lparr>m_cache := mc_remove (m_cache m) path\<rparr>))
      | (Inl _, m) \<Rightarrow> (False, m))"

definition handle_upload_conflict ::
  "('s, 'f) sync_env \<Rightarrow> string \<Rightarrow> ('s, 'f) sync_manager \<Rightarrow> (sync_error + unit) \<times> ('s, 'f) sync_manager" where
  "handle_upload_conflict X path m =
     (if \<not> file_lock (config X) then
        (case upload_with_cond X path NoCond m of
           (Inl e, m) \<Rightarrow> (Inl e, m)
         | (Inr _, m) \<Rightarrow> (Inr (), m))
      else
        (case refresh_local_from_remote X path m of
           (refreshed, m) \<Rightarrow> (Inl (Conflict path refreshed), m)))"

text \<open>\<open>Err(SyncError::S3(e)) if e.is_precondition_failed()\<close>.\<close>

definition rejected :: "sync_error \<Rightarrow> bool" where
  "rejected err = (case err of SyncS3 e \<Rightarrow> is_precondition_failed e | _ \<Rightarrow> False)"

definition sync_file_now ::
  "('s, 'f) sync_env \<Rightarrow> string \<Rightarrow> ('s, 'f) sync_manager \<Rightarrow> (sync_error + unit) \<times> ('s, 'f) sync_manager" where
  "sync_file_now X path m =
     (case upload_with_cond X path (cond_for_upload m path) m of
        (Inr _, m) \<Rightarrow> (Inr (), m)
      | (Inl e, m) \<Rightarrow> if rejected e then handle_upload_conflict X path m else (Inl e, m))"

section \<open>Refreshing single files\<close>

definition refresh_file_from_s3 ::
  "('s, 'f) sync_env \<Rightarrow> string \<Rightarrow> ('s, 'f) sync_manager \<Rightarrow> (sync_error + unit) \<times> ('s, 'f) sync_manager" where
  "refresh_file_from_s3 X path m =
     (if is_locked m path then (Inr (), m)
      else
        (case on_store (\<lambda>s. get_file (se_store X) s path) m of
           (Inl e, m) \<Rightarrow> (Inl (SyncS3 e), m)
         | (Inr None, m) \<Rightarrow> (Inr (), m)
         | (Inr (Some (data, etag, last_modified)), m) \<Rightarrow>
             (case on_fs (\<lambda>f. write_file_content (se_fs X) f path data) m of
                (Inl e, m) \<Rightarrow> (Inl (fs_error_of path e), m)
              | (Inr _, m) \<Rightarrow> (Inr (), cache_downloaded path etag last_modified data m))))"

definition head_and_refresh ::
  "('s, 'f) sync_env \<Rightarrow> string \<Rightarrow> ('s, 'f) sync_manager \<Rightarrow>
   (sync_error + string option \<times> bool) \<times> ('s, 'f) sync_manager" where
  "head_and_refresh X path m =
     (case on_store (\<lambda>s. head_file (se_store X) s path) m of
        (Inl e, m) \<Rightarrow> (Inl (SyncS3 e), m)
      | (Inr None, m) \<Rightarrow> (Inr (None, False), m)
      | (Inr (Some (s3_etag, _, _)), m) \<Rightarrow>
          let needs_refresh =
            (case mc_get (m_cache m) path of Some md \<Rightarrow> s3_etag \<noteq> sm_etag md | None \<Rightarrow> True) in
          if \<not> needs_refresh then (Inr (Some s3_etag, False), m)
          else
            (case on_store (\<lambda>s. get_file (se_store X) s path) m of
               (Inl e, m) \<Rightarrow> (Inl (SyncS3 e), m)
             | (Inr None, m) \<Rightarrow> (Inr (None, False), m)
             | (Inr (Some (data, etag, last_modified)), m) \<Rightarrow>
                 (case on_fs (\<lambda>f. write_file_content (se_fs X) f path data) m of
                    (Inl e, m) \<Rightarrow> (Inl (fs_error_of path e), m)
                  | (Inr _, m) \<Rightarrow> (Inr (Some etag, True), cache_downloaded path etag last_modified data m))))"

definition check_and_refresh_from_s3 ::
  "('s, 'f) sync_env \<Rightarrow> string \<Rightarrow> ('s, 'f) sync_manager \<Rightarrow> (sync_error + bool) \<times> ('s, 'f) sync_manager" where
  "check_and_refresh_from_s3 X path m =
     (if is_locked m path then (Inr False, m)
      else
        (case head_and_refresh X path m of
           (Inl e, m) \<Rightarrow> (Inl e, m)
         | (Inr (_, refreshed), m) \<Rightarrow> (Inr refreshed, m)))"

section \<open>Leases\<close>

definition release_lock ::
  "('s, 'f) sync_env \<Rightarrow> string \<Rightarrow> string \<Rightarrow> ('s, 'f) sync_manager \<Rightarrow> ('s, 'f) sync_manager" where
  "release_lock X path lock_etag m = m\<lparr>m_store := release (se_store X) path lock_etag (m_store m)\<rparr>"

text \<open>The loop in front of the acquisition: an entry that is being released is waited for, another
  entry is joined (\<open>Some True\<close>), and without an entry the lease has to be acquired (\<open>Some False\<close>).\<close>

fun join_lease :: "nat \<Rightarrow> string \<Rightarrow> ('s, 'f) sync_manager \<Rightarrow> (bool \<times> ('s, 'f) sync_manager) option" where
  "join_lease 0 path m = None"
| "join_lease (Suc n) path m =
     (case lt_get (leases m) path of
        None \<Rightarrow> Some (False, m)
      | Some l \<Rightarrow>
          if releasing l then join_lease n path (m\<lparr>m_clk := clk_sleep (from_millis 10) (m_clk m)\<rparr>)
          else Some (True, modify_lease path (\<lambda>l. l\<lparr>refcount := refcount l + 1\<rparr>) m))"

definition take_queued_upload :: "string \<Rightarrow> ('s, 'f) sync_manager \<Rightarrow> bool \<times> ('s, 'f) sync_manager" where
  "take_queued_upload path m =
     (let q = filter (\<lambda>op. op \<noteq> Upload path) (outbound_queue m) in
      (length q \<noteq> length (outbound_queue m), m\<lparr>outbound_queue := q\<rparr>))"

text \<open>The base version of a fresh lease: a queued upload lands first, otherwise the remote version
  is adopted.\<close>

definition adopt_base ::
  "('s, 'f) sync_env \<Rightarrow> string \<Rightarrow> acquired \<Rightarrow> ('s, 'f) sync_manager \<Rightarrow>
   (sync_error + string option) \<times> ('s, 'f) sync_manager" where
  "adopt_base X path a m =
     (case take_queued_upload path m of
        (True, m) \<Rightarrow>
          (case upload_with_cond X path (cond_for_upload m path) m of
             (Inr etag, m) \<Rightarrow> (Inr (Some etag), m)
           | (Inl e, m) \<Rightarrow>
               if rejected e then
                 (case refresh_local_from_remote X path m of
                    (refreshed, m) \<Rightarrow>
                      (Inl (Conflict path refreshed), release_lock X path (a_lock_etag a) m))
               else (Inl e, release_lock X path (a_lock_etag a) m))
      | (False, m) \<Rightarrow>
          (case head_and_refresh X path m of
             (Inr (base, _), m) \<Rightarrow> (Inr base, m)
           | (Inl e, m) \<Rightarrow> (Inl e, release_lock X path (a_lock_etag a) m)))"

definition fresh_lease :: "string option \<Rightarrow> acquired \<Rightarrow> write_lease" where
  "fresh_lease base a =
     \<lparr>base_etag = base, wl_lock_etag = a_lock_etag a, wl_epoch = a_epoch a, wl_expires_at = a_expires_at a,
      refcount = 1, dirty = False, pending_delete = False, lost = False, releasing = False\<rparr>"

definition on_open_write ::
  "nat \<Rightarrow> ('s, 'f) sync_env \<Rightarrow> string \<Rightarrow> ('s, 'f) sync_manager \<Rightarrow>
   ((sync_error + unit) \<times> ('s, 'f) sync_manager) option" where
  "on_open_write fuel X path m =
     (if \<not> file_lock (config X) then Some (Inr (), m)
      else
        (case join_lease fuel path m of
           None \<Rightarrow> None
         | Some (True, m) \<Rightarrow> Some (Inr (), m)
         | Some (False, m) \<Rightarrow>
             (case acquire fuel (se_store X) (se_time X) path (instance_id m) (lock_lease (config X))
                     (lock_timeout (config X)) (m_store m) (m_clk m) of
                None \<Rightarrow> None
              | Some (ra, s, c) \<Rightarrow>
                  let m = m\<lparr>m_store := s, m_clk := c\<rparr> in
                  (case ra of
                     Inl e \<Rightarrow> Some (Inl e, m)
                   | Inr a \<Rightarrow>
                       if is_locked m path then
                         Some (Inr (), release_lock X path (a_lock_etag a)
                                (modify_lease path (\<lambda>l. l\<lparr>refcount := refcount l + 1\<rparr>) m))
                       else
                         (case adopt_base X path a m of
                            (Inl e, m) \<Rightarrow> Some (Inl e, m)
                          | (Inr base, m) \<Rightarrow>
                              Some (Inr (), m\<lparr>leases := lt_insert (leases m) path (fresh_lease base a)\<rparr>))))))"

definition flush_lease ::
  "('s, 'f) sync_env \<Rightarrow> string \<Rightarrow> write_lease \<Rightarrow> ('s, 'f) sync_manager \<Rightarrow>
   (sync_error + unit) \<times> ('s, 'f) sync_manager" where
  "flush_lease X path snapshot m =
     (if pending_delete snapshot then
        (case base_etag snapshot of
           None \<Rightarrow> (Inr (), m\<lparr>m_cache := mc_remove (m_cache m) path\<rparr>)
         | Some base \<Rightarrow>
             (case on_store (\<lambda>s. delete_file (se_store X) s path (IfMatch base)) m of
                (Inr _, m) \<Rightarrow> (Inr (), m\<lparr>m_cache := mc_remove (m_cache m) path\<rparr>)
              | (Inl e, m) \<Rightarrow>
                  if is_precondition_failed e then
                    (case refresh_local_from_remote X path m of
                       (refreshed, m) \<Rightarrow> (Inl (Conflict path refreshed), m))
                  else (Inl (SyncS3 e), m)))
      else if \<not> dirty snapshot then (Inr (), m)
      else
        (case upload_with_cond X path (base_cond (base_etag snapshot)) m of
           (Inr _, m) \<Rightarrow> (Inr (), m)
         | (Inl e, m) \<Rightarrow>
             if rejected e then
               (case refresh_local_from_remote X path m of
                  (refreshed, m) \<Rightarrow> (Inl (Conflict path refreshed), m))
             else (Inl e, m)))"

text \<open>Flushing, deleting the lock object and dropping the entry, as \<open>on_close\<close> and
  \<open>release_all_leases\<close> end.\<close>

definition drop_lease ::
  "('s, 'f) sync_env \<Rightarrow> string \<Rightarrow> write_lease \<Rightarrow> ('s, 'f) sync_manager \<Rightarrow>
   (sync_error + unit) \<times> ('s, 'f) sync_manager" where
  "drop_lease X path snapshot m =
     (case flush_lease X path snapshot m of
        (result, m) \<Rightarrow>
          let m = release_lock X path (wl_lock_etag snapshot) m in
          (result, m\<lparr>leases := lt_remove (leases m) path\<rparr>))"

definition on_close ::
  "('s, 'f) sync_env \<Rightarrow> string \<Rightarrow> ('s, 'f) sync_manager \<Rightarrow> (sync_error + unit) \<times> ('s, 'f) sync_manager" where
  "on_close X path m =
     (case lt_get (leases m) path of
        None \<Rightarrow> (Inr (), m)
      | Some l \<Rightarrow>
          if refcount l > 1 then (Inr (), modify_lease path (\<lambda>l. l\<lparr>refcount := refcount l - 1\<rparr>) m)
          else drop_lease X path (l\<lparr>releasing := True\<rparr>) (modify_lease path (\<lambda>l. l\<lparr>releasing := True\<rparr>) m))"

definition on_fsync ::
  "('s, 'f) sync_env \<Rightarrow> string \<Rightarrow> ('s, 'f) sync_manager \<Rightarrow> (sync_error + unit) \<times> ('s, 'f) sync_manager" where
  "on_fsync X path m =
     (case lt_get (leases m) path of
        Some l \<Rightarrow> if dirty l \<or> pending_delete l then flush_lease X path l m else (Inr (), m)
      | None \<Rightarrow> sync_file_now X path m)"

definition on_mkdir ::
  "('s, 'f) sync_env \<Rightarrow> string \<Rightarrow> ('s, 'f) sync_manager \<Rightarrow> (sync_error + unit) \<times> ('s, 'f) sync_manager" where
  "on_mkdir X path m =
     (case (case on_store (\<lambda>s. put_dir_marker (se_store X) s path) m of
              (Inl e, m) \<Rightarrow> (Inl e, m)
            | (Inr (Some etag), m) \<Rightarrow> (Inr (Some etag), m)
            | (Inr None, m) \<Rightarrow> on_store (\<lambda>s. head_dir_marker (se_store X) s path) m) of
        (Inl e, m) \<Rightarrow> (Inl (SyncS3 e), m)
      | (Inr (Some etag), m) \<Rightarrow> (Inr (), m\<lparr>m_cache := add_dir (m_cache m) path etag\<rparr>)
      | (Inr None, m) \<Rightarrow> (Inr (), m))"

definition on_rmdir ::
  "('s, 'f) sync_env \<Rightarrow> string \<Rightarrow> ('s, 'f) sync_manager \<Rightarrow> (sync_error + unit) \<times> ('s, 'f) sync_manager" where
  "on_rmdir X path m =
     (let cond = (case dir_etag (m_cache m) path of Some etag \<Rightarrow> IfMatch etag | None \<Rightarrow> NoCond) in
      case on_store (\<lambda>s. delete_dir_marker (se_store X) s path cond) m of
        (r, m) \<Rightarrow>
          (case r of
             Inl e \<Rightarrow>
               if is_precondition_failed e
               then (Inr (), m\<lparr>m_cache := remove_dir (m_cache m) path\<rparr>) else (Inl (SyncS3 e), m)
           | Inr _ \<Rightarrow> (Inr (), m\<lparr>m_cache := remove_dir (m_cache m) path\<rparr>)))"

fun release_paths ::
  "('s, 'f) sync_env \<Rightarrow> string list \<Rightarrow> sync_error option \<Rightarrow> ('s, 'f) sync_manager \<Rightarrow>
   sync_error option \<times> ('s, 'f) sync_manager" where
  "release_paths X [] first_err m = (first_err, m)"
| "release_paths X (path # ps) first_err m =
     (case lt_get (leases m) path of
        None \<Rightarrow> release_paths X ps first_err m
      | Some l \<Rightarrow>
          (case drop_lease X path (l\<lparr>releasing := True\<rparr>) (modify_lease path (\<lambda>l. l\<lparr>releasing := True\<rparr>) m) of
             (r, m) \<Rightarrow>
               release_paths X ps
                 (case r of Inl e \<Rightarrow> (case first_err of None \<Rightarrow> Some e | Some e' \<Rightarrow> Some e') | Inr _ \<Rightarrow> first_err) m))"

definition release_all_leases ::
  "('s, 'f) sync_env \<Rightarrow> ('s, 'f) sync_manager \<Rightarrow> (sync_error + unit) \<times> ('s, 'f) sync_manager" where
  "release_all_leases X m =
     (case release_paths X (lt_paths (leases m)) None m of
        (Some e, m) \<Rightarrow> (Inl e, m)
      | (None, m) \<Rightarrow> (Inr (), m))"

definition renew_one :: "('s, 'f) sync_env \<Rightarrow> string \<Rightarrow> ('s, 'f) sync_manager \<Rightarrow> ('s, 'f) sync_manager" where
  "renew_one X path m =
     (case lt_get (leases m) path of
        None \<Rightarrow> m
      | Some l \<Rightarrow>
          (case renew (se_store X) (se_time X) path (instance_id m) (wl_epoch l) (wl_lock_etag l)
                  (lock_lease (config X)) (m_store m) (m_clk m) of
             (r, s, c) \<Rightarrow>
               let m = m\<lparr>m_store := s, m_clk := c\<rparr> in
               (case r of
                  Inr (new_etag, expires_at) \<Rightarrow>
                    modify_lease path (\<lambda>l. l\<lparr>wl_lock_etag := new_etag, wl_expires_at := expires_at\<rparr>) m
                | Inl e \<Rightarrow>
                    if is_precondition_failed e \<or> is_not_found e
                    then modify_lease path (\<lambda>l. l\<lparr>lost := True\<rparr>) m else m)))"

definition renew_leases :: "('s, 'f) sync_env \<Rightarrow> ('s, 'f) sync_manager \<Rightarrow> ('s, 'f) sync_manager" where
  "renew_leases X m =
     (case read_instant X m of (now, m) \<Rightarrow>
        fold (renew_one X) (paths_needing_renewal (leases m) now (lock_lease (config X))) m)"

section \<open>Flushing the queue\<close>

definition flush_delete ::
  "('s, 'f) sync_env \<Rightarrow> string \<Rightarrow> string option \<Rightarrow> ('s, 'f) sync_manager \<Rightarrow> ('s, 'f) sync_manager" where
  "flush_delete X path etag m =
     (let cond = (case etag of Some e \<Rightarrow> IfMatch e | None \<Rightarrow> NoCond) in
      case on_store (\<lambda>s. delete_file (se_store X) s path cond) m of
        (Inr _, m) \<Rightarrow> m
      | (Inl e, m) \<Rightarrow>
          if is_precondition_failed e then
            (if file_lock (config X) then snd (refresh_local_from_remote X path m)
             else snd (on_store (\<lambda>s. delete_file (se_store X) s path NoCond) m))
          else if is_not_implemented e then
            snd (on_store (\<lambda>s. delete_file (se_store X) s path NoCond) m)
          else m)"

definition push_back :: "sync_operation \<Rightarrow> ('s, 'f) sync_manager \<Rightarrow> ('s, 'f) sync_manager" where
  "push_back op m = m\<lparr>outbound_queue := outbound_queue m @ [op]\<rparr>"

text \<open>One queued upload: the error that ends the flush, or whether it was processed.\<close>

definition flush_upload ::
  "('s, 'f) sync_env \<Rightarrow> string \<Rightarrow> ('s, 'f) sync_manager \<Rightarrow> (sync_error + unit) \<times> ('s, 'f) sync_manager" where
  "flush_upload X path m =
     (case upload_with_cond X path (cond_for_upload m path) m of
        (Inr _, m) \<Rightarrow> (Inr (), m)
      | (Inl e, m) \<Rightarrow>
          if rejected e then
            (case handle_upload_conflict X path m of
               (Inr _, m) \<Rightarrow> (Inr (), m)
             | (Inl e, m) \<Rightarrow> if is_conflict e then (Inr (), m) else (Inl e, push_back (Upload path) m))
          else (Inl e, push_back (Upload path) m))"

fun flush_loop ::
  "('s, 'f) sync_env \<Rightarrow> nat \<Rightarrow> nat \<Rightarrow> ('s, 'f) sync_manager \<Rightarrow> (sync_error + nat) \<times> ('s, 'f) sync_manager" where
  "flush_loop X 0 processed m = (Inr processed, m)"
| "flush_loop X (Suc n) processed m =
     (case outbound_queue m of
        [] \<Rightarrow> (Inr processed, m)
      | op # rest \<Rightarrow>
          let m = m\<lparr>outbound_queue := rest\<rparr> in
          (case op of
             Upload path \<Rightarrow>
               if is_realtime X \<or> is_locked m path then flush_loop X n processed m
               else
                 (case flush_upload X path m of
                    (Inl e, m) \<Rightarrow> (Inl e, m)
                  | (Inr _, m) \<Rightarrow> flush_loop X n (processed + 1) m)
           | Delete path etag \<Rightarrow> flush_loop X n (processed + 1) (flush_delete X path etag m)))"

definition flush_outbound ::
  "('s, 'f) sync_env \<Rightarrow> ('s, 'f) sync_manager \<Rightarrow> (sync_error + nat) \<times> ('s, 'f) sync_manager" where
  "flush_outbound X m =
     (case flush_loop X (outbound_batch_size (config X)) 0 m of
        (Inl e, m) \<Rightarrow> (Inl e, m)
      | (Inr processed, m) \<Rightarrow>
          (case read_instant X m of (now, m) \<Rightarrow> (Inr processed, m\<lparr>last_flush := now\<rparr>)))"

fun force_flush_loop ::
  "nat \<Rightarrow> ('s, 'f) sync_env \<Rightarrow> nat \<Rightarrow> ('s, 'f) sync_manager \<Rightarrow>
   ((sync_error + nat) \<times> ('s, 'f) sync_manager) option" where
  "force_flush_loop 0 X acc m = None"
| "force_flush_loop (Suc n) X acc m =
     (if outbound_queue m = [] then Some (Inr acc, m)
      else
        (case flush_outbound X m of
           (Inl e, m) \<Rightarrow> Some (Inl e, m)
         | (Inr k, m) \<Rightarrow> force_flush_loop n X (acc + k) m))"

definition force_flush ::
  "nat \<Rightarrow> ('s, 'f) sync_env \<Rightarrow> ('s, 'f) sync_manager \<Rightarrow> ((sync_error + nat) \<times> ('s, 'f) sync_manager) option" where
  "force_flush fuel X m = force_flush_loop fuel X 0 m"

section \<open>Polling\<close>

definition download_file ::
  "('s, 'f) sync_env \<Rightarrow> s3_object_info \<Rightarrow> ('s, 'f) sync_manager \<Rightarrow> (s3_error + unit) \<times> ('s, 'f) sync_manager" where
  "download_file X obj m =
     (case on_store (\<lambda>s. get_file (se_store X) s (oi_path obj)) m of
        (Inl e, m) \<Rightarrow> (Inl e, m)
      | (Inr None, m) \<Rightarrow> (Inl (S3NotFound (oi_path obj)), m)
      | (Inr (Some (data, etag, last_modified)), m) \<Rightarrow>
          (case on_fs (\<lambda>f. write_file_content (se_fs X) f (oi_path obj) data) m of
             (Inl e, m) \<Rightarrow> (Inl e, m)
           | (Inr _, m) \<Rightarrow> (Inr (), cache_downloaded (oi_path obj) etag last_modified data m)))"

definition delete_local_file ::
  "('s, 'f) sync_env \<Rightarrow> string \<Rightarrow> ('s, 'f) sync_manager \<Rightarrow> (s3_error + unit) \<times> ('s, 'f) sync_manager" where
  "delete_local_file X path m =
     (case on_fs (\<lambda>f. fb_unlink (se_fs X) f path) m of
        (Inl e, m) \<Rightarrow> (Inl e, m)
      | (Inr _, m) \<Rightarrow> (Inr (), m\<lparr>m_cache := mc_remove (m_cache m) path\<rparr>))"

definition poll_object ::
  "('s, 'f) sync_env \<Rightarrow> s3_object_info \<Rightarrow> sync_stats \<times> ('s, 'f) sync_manager \<Rightarrow> sync_stats \<times> ('s, 'f) sync_manager" where
  "poll_object X obj = (\<lambda>(stats, m).
     if oi_is_dir obj then
       (if has_dir (m_cache m) (oi_path obj) then (stats, m)
        else (stats, m\<lparr>m_fs := fb_mkdir_p (se_fs X) (m_fs m) (oi_path obj),
                       m_cache := add_dir (m_cache m) (oi_path obj) (oi_etag obj)\<rparr>))
     else
       let should_download =
         (case mc_get (m_cache m) (oi_path obj) of Some md \<Rightarrow> oi_etag obj \<noteq> sm_etag md | None \<Rightarrow> True) in
       if \<not> should_download \<or> is_locked m (oi_path obj) \<or> has_pending_op m (oi_path obj) then (stats, m)
       else
         (case download_file X obj m of
            (Inl _, m) \<Rightarrow> (stats, m)
          | (Inr _, m) \<Rightarrow> (stats\<lparr>downloaded := downloaded stats + 1\<rparr>, m)))"

definition poll_gone_file ::
  "('s, 'f) sync_env \<Rightarrow> string set \<Rightarrow> string \<Rightarrow> sync_stats \<times> ('s, 'f) sync_manager \<Rightarrow>
   sync_stats \<times> ('s, 'f) sync_manager" where
  "poll_gone_file X s3_files path = (\<lambda>(stats, m).
     if path \<in> s3_files \<or> is_locked m path \<or> has_pending_op m path then (stats, m)
     else
       (case delete_local_file X path m of
          (Inl _, m) \<Rightarrow> (stats, m)
        | (Inr _, m) \<Rightarrow> (stats\<lparr>deleted := deleted stats + 1\<rparr>, m)))"

definition poll_gone_dir ::
  "('s, 'f) sync_env \<Rightarrow> string set \<Rightarrow> string \<Rightarrow> ('s, 'f) sync_manager \<Rightarrow> ('s, 'f) sync_manager" where
  "poll_gone_dir X s3_dirs dir m =
     (if dir \<in> s3_dirs then m
      else (case on_fs (\<lambda>f. fb_rmdir (se_fs X) f dir) m of
              (_, m) \<Rightarrow> m\<lparr>m_cache := remove_dir (m_cache m) dir\<rparr>))"

definition poll_inbound ::
  "('s, 'f) sync_env \<Rightarrow> ('s, 'f) sync_manager \<Rightarrow> (s3_error + sync_stats) \<times> ('s, 'f) sync_manager" where
  "poll_inbound X m =
     (case on_store (list_files (se_store X)) m of
        (Inl e, m) \<Rightarrow> (Inl e, m)
      | (Inr objs, m) \<Rightarrow>
          let s3_files = oi_path ` set (filter (\<lambda>ob. \<not> oi_is_dir ob) objs);
              s3_dirs = oi_path ` set (filter oi_is_dir objs) in
          case fold (poll_object X) objs (\<lparr>downloaded = 0, deleted = 0\<rparr>, m) of
            (stats, m) \<Rightarrow>
              (case fold (poll_gone_file X s3_files) (mc_paths (m_cache m)) (stats, m) of
                 (stats, m) \<Rightarrow> (Inr stats, fold (poll_gone_dir X s3_dirs) (mc_dir_paths (m_cache m)) m)))"

section \<open>The background tick\<close>

definition should_flush :: "('s, 'f) sync_env \<Rightarrow> duration \<Rightarrow> sync_operation list \<Rightarrow> bool" where
  "should_flush X elapsed q =
     (case cfg_mode (config X) of
        RealTime \<Rightarrow> (\<exists>op \<in> set q. case op of Delete _ _ \<Rightarrow> True | Upload _ \<Rightarrow> False)
      | Batch \<Rightarrow> length q \<ge> outbound_batch_size (config X) \<or> q \<noteq> [] \<and> elapsed \<ge> flush_interval (config X))"

definition maybe_sync ::
  "('s, 'f) sync_env \<Rightarrow> ('s, 'f) sync_manager \<Rightarrow> bool \<times> ('s, 'f) sync_manager" where
  "maybe_sync X m =
     (if m_shutdown m then (False, m)
      else
        let m = (if file_lock (config X) then renew_leases X m else m) in
        case read_instant X m of (now, m) \<Rightarrow>
        case (if should_flush X (now - last_flush m) (outbound_queue m) then
                (case flush_outbound X m of
                   (Inr count, m) \<Rightarrow> (count > 0, m)
                 | (Inl _, m) \<Rightarrow> (False, m))
              else (False, m)) of (flushed, m) \<Rightarrow>
        case read_instant X m of (now, m) \<Rightarrow>
          if now - last_poll m \<ge> poll_interval (config X) then
            (case (case poll_inbound X m of
                     (Inr stats, m) \<Rightarrow> (downloaded stats > 0 \<or> deleted stats > 0, m)
                   | (Inl _, m) \<Rightarrow> (False, m)) of (polled, m) \<Rightarrow>
             case read_instant X m of (now, m) \<Rightarrow> (flushed \<or> polled, m\<lparr>last_poll := now\<rparr>))
          else (flushed, m))"

section \<open>Loading a file system from the store\<close>

fun load_files ::
  "'s object_store \<Rightarrow> 'f fs_backend \<Rightarrow> s3_object_info list \<Rightarrow> metadata_cache \<Rightarrow> 's \<Rightarrow> 'f \<Rightarrow>
   (load_error + metadata_cache) \<times> 's \<times> 'f" where
  "load_files S B [] cache s f = (Inr cache, s, f)"
| "load_files S B (obj # objs) cache s f =
     (case get_file S s (oi_path obj) of
        (Inr (Some (data, etag, last_modified)), s) \<Rightarrow>
          let f = make_parents B f (oi_path obj) in
          (case fb_open_write_truncate B f (oi_path obj) of
             (Inl e, f) \<Rightarrow> (Inl (LoadFs e), s, f)
           | (Inr d, f) \<Rightarrow>
               (case fb_write B f d data of
                  (Inl e, f) \<Rightarrow> (Inl (LoadFs e), s, f)
                | (Inr _, f) \<Rightarrow>
                    (case fb_close B f d of
                       (Inl e, f) \<Rightarrow> (Inl (LoadFs e), s, f)
                     | (Inr _, f) \<Rightarrow>
                         load_files S B objs
                           (update_after_download cache (oi_path obj) etag last_modified (of_nat (length data))) s f)))
      | (_, s) \<Rightarrow> load_files S B objs cache s f)"

definition load_dir ::
  "'f fs_backend \<Rightarrow> s3_object_info \<Rightarrow> 'f \<times> metadata_cache \<Rightarrow> 'f \<times> metadata_cache" where
  "load_dir B obj = (\<lambda>(f, cache). (fb_mkdir_p B f (oi_path obj), add_dir cache (oi_path obj) (oi_etag obj)))"

definition populate_from_s3 ::
  "'s object_store \<Rightarrow> 'f fs_backend \<Rightarrow> 's \<Rightarrow> 'f \<Rightarrow> (load_error + metadata_cache) \<times> 's \<times> 'f" where
  "populate_from_s3 S B s f =
     (case list_files S s of
        (Inl e, s) \<Rightarrow> (Inl (LoadS3 e), s, f)
      | (Inr objs, s) \<Rightarrow>
          (case fold (load_dir B) (filter oi_is_dir objs) (f, mc_new) of
             (f, cache) \<Rightarrow> load_files S B (filter (\<lambda>ob. \<not> oi_is_dir ob) objs) cache s f))"

text \<open>\<open>init_from_s3\<close> of \<open>vfs-sync-host\<close>.\<close>

definition init_from_s3 :: "'s object_store \<Rightarrow> 's \<Rightarrow> (load_error + fs \<times> metadata_cache) \<times> 's" where
  "init_from_s3 S s =
     (case populate_from_s3 S host_fs s fs_new of
        (Inl e, s, _) \<Rightarrow> (Inl e, s)
      | (Inr cache, s, f) \<Rightarrow> (Inr (f, cache), s))"

end
