(* ===== verification/Lease_Props.thy ===== *)
theory Lease_Props
  imports Lease
begin

text \<open>
  Properties of the lease protocol: records survive their wire format, the acquisition loop
  always returns, a takeover never replaces a live lease even when other instances act between
  its requests, and renewal and release touch the instance's own record only.
\<close>

section \<open>The wire format\<close>

definition visible :: "char \<Rightarrow> bool" where
  "visible c \<longleftrightarrow> 32 < (of_char c :: nat) \<and> (of_char c :: nat) < 128"

lemma white_space_ends: "w \<in> set white_space \<Longrightarrow> w \<noteq> [] \<and> \<not> visible (hd w) \<and> \<not> visible (last w)"
  by (auto simp: white_space_def visible_def upt_rec)

lemma trimmed_visible:
  assumes "\<And>c. c \<in> set s \<Longrightarrow> visible c"
  shows "trimmed s"
  unfolding trimmed_def
proof (intro ballI conjI notI)
  fix w assume w: "w \<in> set white_space"
  note e = white_space_ends [OF w]
  { assume "prefix w s"
    then have "hd w \<in> set s" using e by (auto simp: prefix_def)
    then show False using assms [of "hd w"] e by simp }
  { assume "suffix w s"
    then have "last w \<in> set s" using e by (auto simp: suffix_def)
    then show False using assms [of "last w"] e by simp }
qed

lemma visible_digit: "k < 10 \<Longrightarrow> visible (digit_char k)"
  by (simp add: visible_def of_char_digit)

lemma trimmed_show_nat: "trimmed (show_nat n)"
  by (rule trimmed_visible) (auto dest!: show_nat_digits simp: visible_digit)

lemma carriage_return_white: "[carriage_return] \<in> set white_space"
proof -
  have "carriage_return = char_of (13 :: nat)" by code_simp
  then show ?thesis by (simp add: white_space_def upt_rec)
qed

lemma trimmed_no_cr: "trimmed s \<Longrightarrow> s \<noteq> [] \<Longrightarrow> last s \<noteq> carriage_return"
proof
  assume t: "trimmed s" and "s \<noteq> []" "last s = carriage_return"
  then have "suffix [carriage_return] s" by (metis append_butlast_last_id suffixI)
  with t carriage_return_white show False by (auto simp: trimmed_def)
qed

lemma show_nat_no_newline: "newline \<notin> set (show_nat n)"
proof
  assume "newline \<in> set (show_nat n)"
  then obtain k where "k < 10" "newline = digit_char k" using show_nat_digits by blast
  moreover have "of_char newline = (10 :: nat)" by (simp add: newline_def)
  ultimately show False using of_char_digit [of k] by simp
qed

lemma utf8_ascii: "(\<And>c. c \<in> set s \<Longrightarrow> byte_of c < 0x80) \<Longrightarrow> utf8_valid (into_bytes s)"
proof (induction s)
  case Nil
  then show ?case by (simp add: into_bytes_def utf8_valid.simps)
next
  case (Cons c s)
  then have "byte_of c < 0x80" "utf8_valid (into_bytes s)" by auto
  then show ?case by (simp add: into_bytes_def utf8_valid.simps [of "byte_of c # _"])
qed

lemma utf8_show_nat: "utf8_valid (into_bytes (show_nat n))"
proof (rule utf8_ascii)
  fix c assume "c \<in> set (show_nat n)"
  then obtain k where k: "k < 10" "c = digit_char k" using show_nat_digits by blast
  have "unat (of_nat (48 + k) :: u8) = 48 + k" using k(1) by (simp only: unsigned_of_nat) (simp add: take_bit_nat_eq_self)
  then show "byte_of c < 0x80" using k of_char_digit [of k] by (simp add: byte_of_def word_less_nat_alt)
qed

text \<open>A line \<open>key=value\<close> is read back.\<close>

lemma field_line:
  assumes "newline \<notin> set v" and "trimmed v" and "newline \<notin> set k" and "CHR ''='' \<notin> set k"
  shows "str_lines ((k @ CHR ''='' # v) @ newline # s) = (k @ CHR ''='' # v) # str_lines s"
    and "split_once CHR ''='' (k @ CHR ''='' # v) = Some (k, v)"
proof -
  have "last (k @ CHR ''='' # v) \<noteq> carriage_return"
    using trimmed_no_cr [OF assms(2)] by (cases "v = []") (simp_all add: carriage_return_def)
  moreover have "newline \<notin> set (k @ CHR ''='' # v)" using assms by (simp add: newline_def)
  ultimately show "str_lines ((k @ CHR ''='' # v) @ newline # s) = (k @ CHR ''='' # v) # str_lines s"
    by (intro str_lines_line) simp_all
  show "split_once CHR ''='' (k @ CHR ''='' # v) = Some (k, v)" by (rule split_once_append [OF assms(4)])
qed

lemma trim_keys:
  "str_trim ''instance'' = ''instance''" "str_trim ''epoch'' = ''epoch''"
  "str_trim ''expires'' = ''expires''" "str_trim ''path'' = ''path''"
  by (rule str_trim_trimmed, rule trimmed_visible, auto simp: visible_def)+

definition lr_wf :: "lock_record \<Rightarrow> bool" where
  "lr_wf r \<longleftrightarrow> newline \<notin> set (lr_instance r) \<and> trimmed (lr_instance r) \<and> utf8_valid (into_bytes (lr_instance r))
     \<and> newline \<notin> set (lr_path r) \<and> trimmed (lr_path r) \<and> utf8_valid (into_bytes (lr_path r))"

lemma lr_encode_alt:
  "lr_encode r = into_bytes
    ((''instance'' @ CHR ''='' # lr_instance r) @ newline #
     (''epoch'' @ CHR ''='' # show_nat (unat (lr_epoch r))) @ newline #
     (''expires'' @ CHR ''='' # show_nat (unat (lr_expires_ms r))) @ newline #
     (''path'' @ CHR ''='' # lr_path r) @ newline # [])"
  by (simp add: lr_encode_def)

lemma utf8_const:
  "utf8_valid (into_bytes ''instance='')" "utf8_valid (into_bytes ''epoch='')"
  "utf8_valid (into_bytes ''expires='')" "utf8_valid (into_bytes ''path='')" "utf8_valid (into_bytes [newline])"
  by (rule utf8_ascii, auto simp: byte_of_def newline_def)+

lemma utf8_encode: "lr_wf r \<Longrightarrow> utf8_valid (lr_encode r)"
  unfolding lr_encode_def into_bytes_append
  by (intro utf8_valid_append utf8_const utf8_show_nat) (simp_all add: lr_wf_def)

lemma lr_roundtrip:
  assumes wf: "lr_wf r"
  shows "lr_parse (lr_encode r) = Some r"
proof -
  let ?i = "''instance'' @ CHR ''='' # lr_instance r" and ?p = "''path'' @ CHR ''='' # lr_path r"
  let ?e = "''epoch'' @ CHR ''='' # show_nat (unat (lr_epoch r))"
  let ?x = "''expires'' @ CHR ''='' # show_nat (unat (lr_expires_ms r))"
  have v: "newline \<notin> set (lr_instance r)" "trimmed (lr_instance r)" "newline \<notin> set (lr_path r)" "trimmed (lr_path r)"
    using wf by (simp_all add: lr_wf_def)
  have n: "newline \<notin> set ''instance''" "newline \<notin> set ''epoch''" "newline \<notin> set ''expires''" "newline \<notin> set ''path''"
    by (simp_all add: newline_def)
  have q: "CHR ''='' \<notin> set ''instance''" "CHR ''='' \<notin> set ''epoch''" "CHR ''='' \<notin> set ''expires''" "CHR ''='' \<notin> set ''path''"
    by simp_all
  note i = field_line [OF v(1,2) n(1) q(1)] and p = field_line [OF v(3,4) n(4) q(4)]
    and e = field_line [OF show_nat_no_newline trimmed_show_nat n(2) q(2)]
    and x = field_line [OF show_nat_no_newline trimmed_show_nat n(3) q(3)]
  have t: "from_utf8 (lr_encode r) = Some (?i @ newline # ?e @ newline # ?x @ newline # ?p @ newline # [])"
    using from_utf8_into_bytes utf8_encode [OF wf] unfolding lr_encode_alt by blast
  have l: "str_lines (?i @ newline # ?e @ newline # ?x @ newline # ?p @ newline # []) = [?i, ?e, ?x, ?p]"
    by (simp only: i(1) e(1) x(1) p(1) str_lines_Nil)
  have f: "parse_line ?i f = f\<lparr>f_instance := Some (lr_instance r)\<rparr>"
    "parse_line ?e f = f\<lparr>f_epoch := Some (lr_epoch r)\<rparr>"
    "parse_line ?x f = f\<lparr>f_expires := Some (lr_expires_ms r)\<rparr>"
    "parse_line ?p f = f\<lparr>f_path := Some (lr_path r)\<rparr>" for f
    unfolding parse_line_def i(2) e(2) x(2) p(2) option.case prod.case
    by (simp_all add: trim_keys str_trim_trimmed v trimmed_show_nat parse_show_u64)
  show ?thesis
    unfolding lr_parse_def t option.case l fold_simps f by simp
qed

text \<open>
  C35. A lease record whose instance and path contain no line break and no white space at their
  ends is read back from its encoding as it was written, expiry and epoch included.
\<close>

theorem lock_record_round_trip:
  assumes "lr_wf r"
  shows "lr_parse (lr_encode r) = Some r"
  by (rule lr_roundtrip [OF assms])

definition demo_record :: lock_record where
  "demo_record = \<lparr>lr_instance = ''a1'', lr_epoch = 3, lr_expires_ms = 1700, lr_path = ''/x=y''\<rparr>"

lemma demo_record_wf: "lr_wf demo_record"
proof -
  have "trimmed ''a1''" "trimmed ''/x=y''" by (rule trimmed_visible, auto simp: visible_def)+
  moreover have "utf8_valid (into_bytes ''a1'')" "utf8_valid (into_bytes ''/x=y'')"
    by (rule utf8_ascii, auto simp: byte_of_def)+
  ultimately show ?thesis by (simp add: lr_wf_def demo_record_def newline_def)
qed

theorem lock_record_round_trip_witness: "lr_parse (lr_encode demo_record) = Some demo_record"
  by (rule lock_record_round_trip [OF demo_record_wf])

section \<open>Acquisition returns\<close>

lemma put_record_clk:
  "put_record S E path inst lease epoch cond retry holder s c = (r, s', c') \<Longrightarrow>
    readings c \<le> readings c' \<and> slept c' = slept c"
  by (auto simp: put_record_def now_ms_def instant_now_def Let_def split: prod.splits sum.splits option.splits if_splits)

lemma acquire_try_clk:
  "acquire_try S E path inst lease holder s c = (r, s', c') \<Longrightarrow> readings c \<le> readings c' \<and> slept c' = slept c"
  by (auto simp: acquire_try_def now_ms_def Let_def split: prod.splits sum.splits option.splits if_splits
      dest!: put_record_clk)

definition clock_value :: "time_env \<Rightarrow> clk \<Rightarrow> instant" where
  "clock_value E c = te_instant E (readings c) + slept c"

lemma acquire_loop_returns:
  assumes "mono (te_instant E)" and "from_millis 50 \<le> backoff" and "deadline - clock_value E c \<le> n * from_millis 50"
  shows "\<exists>r. acquire_loop (Suc n) S E path inst lease deadline backoff step holder s c = Some r"
  using assms(2,3)
proof (induction n arbitrary: backoff step holder s c)
  case 0
  obtain r s' c' where t: "acquire_try S E path inst lease holder s c = (r, s', c')" by (metis prod_cases3)
  have "clock_value E c \<le> clock_value E c'"
    using acquire_try_clk [OF t] monoD [OF assms(1)] by (simp add: clock_value_def)
  then have "deadline \<le> fst (instant_now E c')" using 0 by (simp add: instant_now_def clock_value_def)
  then show ?case using t by (auto simp: instant_now_def split: attempt.splits)
next
  case (Suc n)
  obtain r s' c' where t: "acquire_try S E path inst lease holder s c = (r, s', c')" by (metis prod_cases3)
  show ?case
  proof (cases r)
    case (Again holder')
    define now where "now = clock_value E c'"
    define c2 where "c2 = clk_sleep (min (backoff + from_millis (jitter E (step + 1))) (deadline - now))
      (c'\<lparr>readings := readings c' + 1\<rparr>)"
    have now: "clock_value E c \<le> now"
      using acquire_try_clk [OF t] monoD [OF assms(1)] by (simp add: clock_value_def now_def)
    have "te_instant E (readings c') \<le> te_instant E (readings c' + 1)" using assms(1) by (simp add: monoD)
    then have "now + min (backoff + from_millis (jitter E (step + 1))) (deadline - now) \<le> clock_value E c2"
      by (simp add: c2_def clk_sleep_def clock_value_def now_def)
    then have "deadline - clock_value E c2 \<le> n * from_millis 50"
      using Suc.prems now by (auto simp: min_def split: if_splits)
    moreover have "from_millis 50 \<le> min (backoff * 2) (from_secs 1)"
      using Suc.prems(1) by (simp add: from_millis_def from_secs_def)
    ultimately have "\<exists>r. acquire_loop (Suc n) S E path inst lease deadline (min (backoff * 2) (from_secs 1))
        (step + 1) holder' s' c2 = Some r"
      by (rule Suc.IH [rotated])
    then show ?thesis
      unfolding acquire_loop.simps(2) [of "Suc n"] t Again
      by (simp add: instant_now_def now_def clock_value_def c2_def Let_def)
  qed (simp_all add: t)
qed

text \<open>
  C36. With a monotonic clock the acquisition loop returns, whatever the store answers and
  whoever holds the lease: the turns are bounded by the timeout divided by the shortest back-off
  of 50 milliseconds, plus two.
\<close>

theorem acquire_returns:
  assumes "mono (te_instant E)" and "timeout div from_millis 50 + 2 \<le> fuel"
  shows "\<exists>r. acquire fuel S E path inst lease timeout s c = Some r"
proof -
  obtain n where n: "fuel = Suc n" "timeout div from_millis 50 + 1 \<le> n"
    using assms(2) by (cases fuel) auto
  let ?c = "c\<lparr>readings := readings c + 1\<rparr>" and ?d = "te_instant E (readings c) + slept c + timeout"
  have "te_instant E (readings c) \<le> te_instant E (readings c + 1)" using assms(1) by (simp add: monoD)
  then have "?d - clock_value E ?c \<le> timeout" by (simp add: clock_value_def)
  also have "timeout \<le> (timeout div from_millis 50 + 1) * from_millis 50"
    using div_mult_mod_eq [of timeout "from_millis 50"] mod_less_divisor [of "from_millis 50" timeout]
    by (simp add: from_millis_def)
  also have "\<dots> \<le> n * from_millis 50" using n(2) by (rule mult_right_mono) simp
  finally have "\<exists>r. acquire_loop (Suc n) S E path inst lease ?d (from_millis 50) 0 None s ?c = Some r"
    by (intro acquire_loop_returns assms(1)) simp_all
  then show ?thesis by (simp add: acquire_def instant_now_def n(1))
qed

definition demo_time :: time_env where
  "demo_time = \<lparr>te_instant = (\<lambda>n. n), te_wall = (\<lambda>n. n), jitter_hash = (\<lambda>_. 7)\<rparr>"

theorem acquire_returns_witness:
  "\<exists>r. acquire 2 (mem_store (\<lambda>_. ''t'')) demo_time ''/x'' ''i'' 5 0 mem_new \<lparr>readings = 0, slept = 0\<rparr> = Some r"
  by (rule acquire_returns) (simp_all add: demo_time_def mono_def)

section \<open>A takeover replaces expired records only\<close>

text \<open>
  Other instances act on the store before every request (\<open>with_env\<close>). What is assumed of them:
  tags are those the store computes, and they do not write records in our name.
\<close>

definition tags_ok :: "(bytes \<Rightarrow> string) \<Rightarrow> store_view \<Rightarrow> bool" where
  "tags_ok h v \<longleftrightarrow> (\<forall>k b e. v k = Some (b, e) \<longrightarrow> e = h b)"

definition own_record :: "string \<Rightarrow> string \<Rightarrow> store_view \<Rightarrow> bool" where
  "own_record path inst v \<longleftrightarrow>
     (\<exists>b e r. v (lock_key path) = Some (b, e) \<and> lr_parse b = Some r \<and> lr_instance r = inst)"

definition foreign :: "(bytes \<Rightarrow> string) \<Rightarrow> string \<Rightarrow> string \<Rightarrow> mem_inner \<Rightarrow> bool" where
  "foreign h path inst s \<longleftrightarrow> tags_ok h (mem_view s) \<and> \<not> own_record path inst (mem_view s)"

text \<open>The lease at \<open>path\<close> is free: no record, one that cannot be read, or one that had expired
  at a wall-clock reading made between \<open>c\<close> and \<open>c'\<close>.\<close>

definition lease_free :: "time_env \<Rightarrow> string \<Rightarrow> clk \<Rightarrow> clk \<Rightarrow> mem_inner \<Rightarrow> bool" where
  "lease_free E path c c' t \<longleftrightarrow>
     (case mem_view t (lock_key path) of
        None \<Rightarrow> True
      | Some (b, _) \<Rightarrow>
          (case lr_parse b of
             None \<Rightarrow> True
           | Some r \<Rightarrow> \<exists>c0. readings c \<le> readings c0 \<and> readings c0 < readings c' \<and> is_expired r (fst (now_ms E c0))))"

lemma foreign_cong: "mem_view s' = mem_view s \<Longrightarrow> foreign h path inst s \<Longrightarrow> foreign h path inst s'"
  by (simp add: foreign_def)

text \<open>What one conditional write of our record does.\<close>

definition installs :: "(bytes \<Rightarrow> string) \<Rightarrow> string \<Rightarrow> string \<Rightarrow> u64 \<Rightarrow> precondition \<Rightarrow> acquired \<Rightarrow> mem_inner \<Rightarrow> mem_inner \<Rightarrow> bool" where
  "installs h path inst epoch cond a t s' \<longleftrightarrow> foreign h path inst t \<and> cond_holds (mem_view t (lock_key path)) cond \<and>
     a_epoch a = epoch \<and> a_lock_etag a \<in> range h \<and>
     (\<exists>r. lr_instance r = inst \<and> lr_epoch r = epoch \<and> lr_path r = path \<and>
        mem_view s' = (mem_view t)(lock_key path \<mapsto> (lr_encode r, a_lock_etag a)))"

lemma installs_epoch: "installs h path inst ep cond a t s' \<Longrightarrow> installs h path inst (a_epoch a) cond a t s'"
  by (simp add: installs_def)

lemma verify_foreign:
  assumes "foreign h path inst s" and env: "\<And>n s. foreign h path inst s \<Longrightarrow> foreign h path inst (env n s)"
  shows "\<exists>n' s'. verify_lease_landed (with_env env (mem_store h)) (n, s) (lock_key path) inst epoch = (None, (n', s'))
    \<and> foreign h path inst s'"
proof -
  obtain g s' where g: "mem_get (env n s) (lock_key path) = (g, s')" by fastforce
  have f: "foreign h path inst (env n s)" using assms by blast
  note v = mem_get_cases [OF g]
  have "fst (verify_lease_landed (with_env env (mem_store h)) (n, s) (lock_key path) inst epoch) = None"
  proof (cases g)
    case (Inr x)
    then have "mem_view (env n s) (lock_key path) = map_option (\<lambda>(b, m). (b, om_etag m)) x"
      using v(2) by simp
    then show ?thesis
      using f g Inr
      by (auto simp: verify_lease_landed_def with_env_def mem_store_def foreign_def own_record_def
          split: option.splits)
  qed (simp add: verify_lease_landed_def with_env_def mem_store_def g)
  moreover have "snd (verify_lease_landed (with_env env (mem_store h)) (n, s) (lock_key path) inst epoch) = (Suc n, s')"
    by (auto simp: verify_lease_landed_def with_env_def mem_store_def g split: sum.splits option.splits)
  ultimately show ?thesis using foreign_cong [OF v(1) f] by (metis prod.collapse)
qed

lemma put_record_foreign:
  assumes f: "foreign h path inst s" and env: "\<And>n s. foreign h path inst s \<Longrightarrow> foreign h path inst (env n s)"
    and run: "put_record (with_env env (mem_store h)) E path inst lease epoch cond retry holder (n, s) c = (r, (n', s'), c')"
  shows "case r of Got a \<Rightarrow> \<exists>t. installs h path inst epoch cond a t s' | _ \<Rightarrow> foreign h path inst s'"
proof -
  have f': "foreign h path inst (env n s)" using f env by blast
  define rec where "rec = \<lparr>lr_instance = inst, lr_epoch = epoch,
    lr_expires_ms = fst (now_ms E c) + of_nat (as_millis lease), lr_path = path\<rparr>"
  obtain p t where p: "mem_put h (env n s) (lock_key path) (lr_encode rec) cond = (p, t)" by fastforce
  note pc = mem_put_cases [OF p]
  have put: "os_put (with_env env (mem_store h)) (n, s) (lock_key path) (lr_encode rec) cond = (p, (Suc n, t))"
    by (simp add: with_env_def mem_store_def p)
  show ?thesis
  proof (cases p)
    case (Inr e)
    then have "r = Got \<lparr>a_lock_etag = e, a_epoch = epoch, a_expires_at = fst (instant_now E (snd (now_ms E c))) + lease\<rparr>" "s' = t"
      using run put by (simp_all add: put_record_def rec_def Let_def split_beta split: prod.splits)
    moreover have "lr_instance rec = inst" "lr_epoch rec = epoch" "lr_path rec = path" by (simp_all add: rec_def)
    ultimately show ?thesis using pc Inr f' by (auto simp: installs_def)
  next
    case (Inl e)
    then have ft: "foreign h path inst t" using pc foreign_cong f' by auto
    obtain n2 s2 where "verify_lease_landed (with_env env (mem_store h)) (Suc n, t) (lock_key path) inst epoch = (None, (n2, s2))"
        "foreign h path inst s2"
      using verify_foreign [OF ft, of env "Suc n" epoch] env by blast
    then show ?thesis
      using run put Inl by (auto simp: put_record_def rec_def Let_def split: prod.splits if_splits)
  qed
qed

lemma acquire_try_foreign:
  assumes inj: "inj h" and f: "foreign h path inst s"
    and env: "\<And>n s. foreign h path inst s \<Longrightarrow> foreign h path inst (env n s)"
    and run: "acquire_try (with_env env (mem_store h)) E path inst lease holder (n, s) c = (r, (n', s'), c')"
  shows "case r of
      Got a \<Rightarrow> \<exists>t cond. lease_free E path c c' t \<and> installs h path inst (a_epoch a) cond a t s'
    | _ \<Rightarrow> foreign h path inst s'"
proof -
  have f': "foreign h path inst (env n s)" using f env by blast
  obtain g s1 where g: "mem_get (env n s) (lock_key path) = (g, s1)" by fastforce
  note v = mem_get_cases [OF g]
  have f1: "foreign h path inst s1" by (rule foreign_cong [OF v(1) f'])
  have get: "os_get (with_env env (mem_store h)) (n, s) (lock_key path) = (g, (Suc n, s1))"
    by (simp add: with_env_def mem_store_def g)
  consider (err) e where "g = Inl e" | (none) "g = Inr None" | (some) body mt where "g = Inr (Some (body, mt))"
    by (cases g; cases "projr g") auto
  then show ?thesis
  proof cases
    case err
    then show ?thesis using run get f1 by (auto simp: acquire_try_def)
  next
    case none
    then have p: "put_record (with_env env (mem_store h)) E path inst lease 1 IfNoneMatchAny is_precondition_failed
        holder (Suc n, s1) c = (r, (n', s'), c')"
      using run get by (simp add: acquire_try_def)
    have free: "lease_free E path c c' t" if "installs h path inst 1 IfNoneMatchAny a t s'" for a t
      using that by (simp add: installs_def lease_free_def)
    show ?thesis
    proof (cases r)
      case (Got a)
      then obtain t where t: "installs h path inst 1 IfNoneMatchAny a t s'"
        using put_record_foreign [OF f1 env p] by auto
      show ?thesis using free [OF t] installs_epoch [OF t] Got by auto
    qed (use put_record_foreign [OF f1 env p] in auto)
  next
    case some
    then have rd: "mem_view s1 (lock_key path) = Some (body, om_etag mt)" using v by simp
    then have tag: "om_etag mt = h body" using f1 by (simp add: foreign_def tags_ok_def)
    define x where "x = (case lr_parse body of None \<Rightarrow> (True, c)
      | Some rc \<Rightarrow> (is_expired rc (fst (now_ms E c)), snd (now_ms E c)))"
    show ?thesis
    proof (cases "fst x")
      case False
      then show ?thesis using run get some f1
        by (auto simp: acquire_try_def x_def Let_def split: option.splits prod.splits)
    next
      case True
      define ep where "ep = (case lr_parse body of None \<Rightarrow> 1 | Some rc \<Rightarrow> lr_epoch rc + 1)"
      have p: "put_record (with_env env (mem_store h)) E path inst lease ep (IfMatch (h body))
          (\<lambda>e. is_precondition_failed e \<or> is_not_found e) holder (Suc n, s1) (snd x) = (r, (n', s'), c')"
        using run get some True tag
        by (auto simp: acquire_try_def x_def ep_def Let_def split: option.splits prod.splits)
      have free: "lease_free E path c c' t" if i: "installs h path inst ep (IfMatch (h body)) a t s'" for a t
      proof -
        obtain b0 where b0: "mem_view t (lock_key path) = Some (b0, h body)"
          using i by (auto simp: installs_def)
        then have "h body = h b0" using i by (auto simp: installs_def foreign_def tags_ok_def)
        then have "b0 = body" using inj by (simp add: inj_eq)
        moreover have "readings c < readings c'" if "lr_parse body = Some rc" for rc
          using put_record_clk [OF p] that by (simp add: x_def now_ms_def)
        ultimately show ?thesis
          using True b0 by (auto simp: lease_free_def x_def split: option.splits)
      qed
      show ?thesis
      proof (cases r)
        case (Got a)
        then obtain t where t: "installs h path inst ep (IfMatch (h body)) a t s'"
          using put_record_foreign [OF f1 env p] by auto
        show ?thesis using free [OF t] installs_epoch [OF t] Got by auto
      qed (use put_record_foreign [OF f1 env p] in auto)
    qed
  qed
qed

lemma lease_free_mono:
  "lease_free E path c1 c2 t \<Longrightarrow> readings c \<le> readings c1 \<Longrightarrow> readings c2 \<le> readings c' \<Longrightarrow> lease_free E path c c' t"
  unfolding lease_free_def by (auto split: option.splits) (meson le_trans less_le_trans)

lemma acquire_loop_foreign:
  assumes inj: "inj h" and env: "\<And>n s. foreign h path inst s \<Longrightarrow> foreign h path inst (env n s)"
    and "foreign h path inst s"
    and "acquire_loop fuel (with_env env (mem_store h)) E path inst lease deadline backoff step holder (n, s) c
      = Some (Inr a, (n', s'), c')"
  shows "\<exists>t cond. lease_free E path c c' t \<and> installs h path inst (a_epoch a) cond a t s'"
  using assms(3,4)
proof (induction fuel arbitrary: backoff step holder n s c)
  case 0
  then show ?case by simp
next
  case (Suc fuel)
  obtain r n1 s1 c1 where t: "acquire_try (with_env env (mem_store h)) E path inst lease holder (n, s) c = (r, (n1, s1), c1)"
    by (metis prod_cases3 surj_pair)
  note turn = acquire_try_foreign [OF inj Suc.prems(1) env t]
  show ?case
  proof (cases r)
    case (Got a')
    then show ?thesis using Suc.prems(2) t turn by auto
  next
    case (Failed e)
    then show ?thesis using Suc.prems(2) t by simp
  next
    case (Again hd')
    define c2 where "c2 = clk_sleep (min (backoff + from_millis (jitter E (step + 1)))
      (deadline - fst (instant_now E c1))) (snd (instant_now E c1))"
    have "acquire_loop fuel (with_env env (mem_store h)) E path inst lease deadline (min (backoff * 2) (from_secs 1))
        (step + 1) hd' (n1, s1) c2 = Some (Inr a, (n', s'), c')"
      using Suc.prems(2) t Again by (auto simp: c2_def Let_def split: prod.splits if_splits)
    moreover have "foreign h path inst s1" using turn Again by simp
    ultimately obtain u cond where u: "lease_free E path c2 c' u" "installs h path inst (a_epoch a) cond a u s'"
      using Suc.IH by blast
    have "readings c \<le> readings c2"
      using acquire_try_clk [OF t] by (simp add: c2_def clk_sleep_def instant_now_def)
    with u lease_free_mono show ?thesis by blast
  qed
qed

text \<open>
  C11. Mutual exclusion of leases. Let other instances act on the store before every request of
  an acquisition, as long as they use the store's tags and do not write in our name. When the
  acquisition succeeds there was a state \<open>t\<close>, directly before the winning write, in which the
  lease was free: there was no record, an unreadable one, or one that had expired at a
  wall-clock reading of this acquisition. The write changed the lock object only, and the lock
  now carries our record, with the tag that was returned.
\<close>

theorem takeover_only_when_free:
  assumes "inj h" and "\<And>n s. foreign h path inst s \<Longrightarrow> foreign h path inst (env n s)"
    and "foreign h path inst s"
    and "acquire fuel (with_env env (mem_store h)) E path inst lease timeout (n, s) c = Some (Inr a, (n', s'), c')"
  shows "\<exists>t r. lease_free E path c c' t \<and> lr_instance r = inst \<and> lr_epoch r = a_epoch a \<and>
    mem_view s' = (mem_view t)(lock_key path \<mapsto> (lr_encode r, a_lock_etag a))"
proof -
  have "\<exists>t cond. lease_free E path (snd (instant_now E c)) c' t \<and> installs h path inst (a_epoch a) cond a t s'"
    using acquire_loop_foreign [where env = env, OF assms(1,2,3), of fuel E lease
        "fst (instant_now E c) + timeout" "from_millis 50" 0 None n "snd (instant_now E c)" a n' s' c'] assms(4)
    by (auto simp: acquire_def split: prod.splits)
  then obtain t cond where t: "lease_free E path (snd (instant_now E c)) c' t" "installs h path inst (a_epoch a) cond a t s'"
    by blast
  have "lease_free E path c c' t" by (rule lease_free_mono [OF t(1)]) (simp_all add: instant_now_def)
  with t(2) show ?thesis unfolding installs_def by blast
qed

text \<open>Tags that spell out the body are injective.\<close>

definition demo_tag :: "bytes \<Rightarrow> string" where
  "demo_tag b = map char_of_byte b"

lemma byte_of_char_of_byte: "byte_of (char_of_byte b) = b"
proof -
  have "unat b < 256" using unsigned_less [of b] by simp
  then have "of_char (char_of (unat b)) = unat b" by (simp add: take_bit_eq_mod)
  then show ?thesis by (simp add: byte_of_def char_of_byte_def)
qed

lemma demo_tag_inj: "inj demo_tag"
  by (rule inj_on_inverseI [where g = "map byte_of"]) (simp add: demo_tag_def comp_def byte_of_char_of_byte)

theorem takeover_only_when_free_witness:
  "\<exists>a s' n' c'. acquire 2 (with_env (\<lambda>_ s. s) (mem_store demo_tag)) demo_time ''/x'' ''i'' 5 0 (0, mem_new)
     \<lparr>readings = 0, slept = 0\<rparr> = Some (Inr a, (n', s'), c') \<and>
   (\<exists>t r. lease_free demo_time ''/x'' \<lparr>readings = 0, slept = 0\<rparr> c' t \<and> lr_instance r = ''i'' \<and>
     lr_epoch r = a_epoch a \<and> mem_view s' = (mem_view t)(lock_key ''/x'' \<mapsto> (lr_encode r, a_lock_etag a)))"
proof -
  let ?c = "\<lparr>readings = 0, slept = 0\<rparr>"
  have f: "foreign demo_tag ''/x'' ''i'' mem_new"
    by (simp add: foreign_def tags_ok_def own_record_def mem_view_def mem_new_def)
  have "\<exists>a s' n' c'. acquire 2 (with_env (\<lambda>_ s. s) (mem_store demo_tag)) demo_time ''/x'' ''i'' 5 0 (0, mem_new) ?c
      = Some (Inr a, (n', s'), c')"
    by (simp add: acquire_def acquire_try_def put_record_def instant_now_def now_ms_def numeral_2_eq_2 with_env_def
        mem_store_def mem_get_def mem_put_def mem_new_def take_failure_def check_cond_def Let_def)
  then obtain a s' n' c' where a: "acquire 2 (with_env (\<lambda>_ s. s) (mem_store demo_tag)) demo_time ''/x'' ''i'' 5 0
      (0, mem_new) ?c = Some (Inr a, (n', s'), c')" by blast
  show ?thesis using a takeover_only_when_free [OF demo_tag_inj _ f a] by blast
qed

section \<open>Renewal and release\<close>

lemma renew_own:
  assumes "renew (mem_store h) E path inst epoch e lease s c = (Inr (e', t), s', c')"
  shows "\<exists>b r. mem_view s (lock_key path) = Some (b, e) \<and> lr_instance r = inst \<and> lr_epoch r = epoch \<and>
    mem_view s' = (mem_view s)(lock_key path \<mapsto> (lr_encode r, e'))"
proof -
  define r where "r = \<lparr>lr_instance = inst, lr_epoch = epoch,
    lr_expires_ms = fst (now_ms E c) + of_nat (as_millis lease), lr_path = path\<rparr>"
  have "os_put (mem_store h) s (lock_key path) (lr_encode r) (IfMatch e) = (Inr e', s')"
    using assms by (auto simp: renew_def r_def Let_def split: prod.splits sum.splits)
  moreover have "lr_instance r = inst" "lr_epoch r = epoch" by (simp_all add: r_def)
  ultimately show ?thesis using ms.put_replaces by blast
qed

lemma release_own:
  assumes "mem_view (release (mem_store h) path e s) \<noteq> mem_view s"
  shows "(\<exists>b. mem_view s (lock_key path) = Some (b, e)) \<and>
    mem_view (release (mem_store h) path e s) = (mem_view s)(lock_key path := None)"
proof -
  obtain r t where d: "os_delete (mem_store h) s (lock_key path) (IfMatch e) = (r, t)" by fastforce
  then show ?thesis
    using ms.delete_ok [of h s "lock_key path" "IfMatch e" _ t] ms.delete_fail [of h s "lock_key path" "IfMatch e" _ t] assms
    by (cases r) (auto simp: release_def fun_upd_idem)
qed

text \<open>
  C37. Renewing succeeds only while the lock object still has our tag, and then changes nothing
  else; releasing removes the lock object only while it has our tag, so a lease that was taken
  over is never extended and never deleted by its former holder.
\<close>

theorem renew_release_own_only:
  "(renew (mem_store h) E path inst epoch e lease s c = (Inr (e', t), s', c') \<longrightarrow>
      (\<exists>b r. mem_view s (lock_key path) = Some (b, e) \<and> lr_instance r = inst \<and> lr_epoch r = epoch \<and>
        mem_view s' = (mem_view s)(lock_key path \<mapsto> (lr_encode r, e')))) \<and>
   (mem_view (release (mem_store h) path e s) \<noteq> mem_view s \<longrightarrow>
      (\<exists>b. mem_view s (lock_key path) = Some (b, e)) \<and>
      mem_view (release (mem_store h) path e s) = (mem_view s)(lock_key path := None))"
  using renew_own release_own by blast

definition demo_locked :: mem_inner where
  "demo_locked = snd (insert_raw (\<lambda>_. ''t'') mem_new (lock_key ''/x'') [7])"

theorem renew_release_own_only_witness:
  "mem_view (release (mem_store (\<lambda>_. ''t'')) ''/x'' ''t'' demo_locked) = (mem_view demo_locked)(lock_key ''/x'' := None)"
proof -
  have "mem_view (release (mem_store (\<lambda>_. ''t'')) ''/x'' ''t'' demo_locked) (lock_key ''/x'') = None"
    "mem_view demo_locked (lock_key ''/x'') \<noteq> None"
    by (simp_all add: release_def mem_store_def mem_delete_def demo_locked_def insert_raw_def mem_new_def take_failure_def
        check_cond_def mem_view_def bt_remove_def Let_def)
  then have "mem_view (release (mem_store (\<lambda>_. ''t'')) ''/x'' ''t'' demo_locked) \<noteq> mem_view demo_locked" by metis
  then show ?thesis using renew_release_own_only [of _ _ "''/x''" _ _ "''t''" _ demo_locked] by blast
qed

end
