(* ===== verification/Sync_Inv.thy ===== *)
theory Sync_Inv
  imports Sync_Manager Lease_Props
begin

text \<open>
  The manager's own bookkeeping, for any store and any local file system, whatever they answer:
  which fields each call touches, the invariant of the queue and the lease table over all
  reachable states, and which calls return.
\<close>

named_theorems sync_frame \<open>fields that a call of the manager leaves alone\<close>

section \<open>Frames\<close>

lemma on_store_frame [sync_frame]:
  "outbound_queue (snd (on_store g m)) = outbound_queue m" "leases (snd (on_store g m)) = leases m"
  "m_cache (snd (on_store g m)) = m_cache m" "m_fs (snd (on_store g m)) = m_fs m"
  by (simp_all add: on_store_def split: prod.split)

lemma on_fs_frame [sync_frame]:
  "outbound_queue (snd (on_fs g m)) = outbound_queue m" "leases (snd (on_fs g m)) = leases m"
  "m_cache (snd (on_fs g m)) = m_cache m" "m_store (snd (on_fs g m)) = m_store m"
  by (simp_all add: on_fs_def split: prod.split)

lemma on_storeD:
  "on_store g m = (r, m') \<Longrightarrow> outbound_queue m' = outbound_queue m \<and> leases m' = leases m \<and> m_cache m' = m_cache m \<and> m_fs m' = m_fs m"
  using on_store_frame [of g m] by simp

lemma on_fsD:
  "on_fs g m = (r, m') \<Longrightarrow> outbound_queue m' = outbound_queue m \<and> leases m' = leases m \<and> m_cache m' = m_cache m \<and> m_store m' = m_store m"
  using on_fs_frame [of g m] by simp

lemma field_updates [sync_frame]:
  "outbound_queue (modify_lease p g m) = outbound_queue m" "leases (modify_lease p g m) = lt_modify (leases m) p g"
  "m_store (modify_lease p g m) = m_store m" "m_fs (modify_lease p g m) = m_fs m" "m_cache (modify_lease p g m) = m_cache m"
  "outbound_queue (cache_uploaded X p e z t m) = outbound_queue m" "leases (cache_uploaded X p e z t m) = leases m"
  "m_store (cache_uploaded X p e z t m) = m_store m" "m_fs (cache_uploaded X p e z t m) = m_fs m"
  "outbound_queue (cache_downloaded p e t b m) = outbound_queue m" "leases (cache_downloaded p e t b m) = leases m"
  "m_store (cache_downloaded p e t b m) = m_store m" "m_fs (cache_downloaded p e t b m) = m_fs m"
  "outbound_queue (release_lock X p e m) = outbound_queue m" "leases (release_lock X p e m) = leases m"
  "m_fs (release_lock X p e m) = m_fs m" "m_cache (release_lock X p e m) = m_cache m"
  by (simp_all add: modify_lease_def cache_uploaded_def cache_downloaded_def release_lock_def split: prod.split)

lemma read_instantD:
  "read_instant X m = (t, m') \<Longrightarrow> outbound_queue m' = outbound_queue m \<and> leases m' = leases m \<and> m_cache m' = m_cache m
    \<and> m_fs m' = m_fs m \<and> m_store m' = m_store m"
  by (auto simp: read_instant_def split: prod.splits)

text \<open>The lease table as a map, and what an update of the entry of one path does to it.\<close>

lemma lt_get_modify: "lt_get (lt_modify t p g) q = (if q = p then map_option g (lt_get t p) else lt_get t q)"
  by (auto simp: lt_modify_def lt_get_def update_conv' split: option.splits)

lemma lt_get_remove: "lt_get (lt_remove t p) q = (if q = p then None else lt_get t q)"
  by (simp add: lt_remove_def lt_get_def delete_conv')

lemma lt_get_insert: "lt_get (lt_insert t p l) q = (if q = p then Some l else lt_get t q)"
  by (simp add: lt_insert_def lt_get_def update_conv')

lemma lt_contains_get: "lt_contains t p \<longleftrightarrow> lt_get t p \<noteq> None"
  by (simp add: lt_contains_def lt_get_def)

lemma lt_paths_get: "p \<in> set (lt_paths t) \<longleftrightarrow> lt_get t p \<noteq> None"
  by (simp add: lt_paths_def lt_get_def map_of_eq_None_iff)

lemma is_locked_get: "is_locked m p \<longleftrightarrow> lt_get (leases m) p \<noteq> None"
  by (simp add: is_locked_def lt_contains_get)

lemma lt_paths_modify: "lt_paths (lt_modify t p g) = lt_paths t"
  by (auto simp: lt_paths_def lt_modify_def update_keys map_of_eq_None_iff image_iff split: option.splits dest: map_of_SomeD)

lemmas lease_table_simps = lt_paths_modify lt_get_modify lt_get_remove lt_get_insert lt_contains_get

section \<open>Changes of a lease by an upload or a refresh\<close>

text \<open>Uploads and refreshes change the base version and the dirty flag of entries only.\<close>

definition same_hold :: "write_lease \<Rightarrow> write_lease \<Rightarrow> bool" where
  "same_hold l l' \<longleftrightarrow> refcount l' = refcount l \<and> releasing l' = releasing l \<and> wl_lock_etag l' = wl_lock_etag l
     \<and> wl_epoch l' = wl_epoch l \<and> pending_delete l' = pending_delete l \<and> (dirty l' \<longrightarrow> dirty l)"

definition holds_kept :: "('s, 'f) sync_manager \<Rightarrow> ('s, 'f) sync_manager \<Rightarrow> bool" where
  "holds_kept m m' \<longleftrightarrow> outbound_queue m' = outbound_queue m \<and> lt_paths (leases m') = lt_paths (leases m) \<and>
     (\<forall>p. rel_option same_hold (lt_get (leases m) p) (lt_get (leases m') p))"

lemma same_hold_refl: "same_hold l l"
  by (simp add: same_hold_def)

lemma holds_kept_eq: "outbound_queue m' = outbound_queue m \<Longrightarrow> leases m' = leases m \<Longrightarrow> holds_kept m m'"
  by (simp add: holds_kept_def option.rel_refl same_hold_refl)

lemma holds_kept_trans [trans]:
  assumes "holds_kept m1 m2" and "holds_kept m2 m3" shows "holds_kept m1 m3"
proof -
  have "same_hold OO same_hold \<le> same_hold" by (auto simp: same_hold_def)
  then have "rel_option same_hold a b \<Longrightarrow> rel_option same_hold b c \<Longrightarrow> rel_option same_hold a c" for a b c
    by (cases a; cases b; cases c) (auto simp: same_hold_def)
  with assms show ?thesis unfolding holds_kept_def by (metis (no_types))
qed

lemma holds_kept_modify:
  "(\<And>l. same_hold l (g l)) \<Longrightarrow> holds_kept m (modify_lease p g m)"
  by (auto simp: holds_kept_def sync_frame lease_table_simps option.rel_map option.rel_refl same_hold_refl intro: option.rel_refl_strong)

lemma holds_kept_locked: "holds_kept m m' \<Longrightarrow> is_locked m' p = is_locked m p"
  by (auto simp: is_locked_get holds_kept_def) (metis option.rel_distinct(1,2) option.exhaust)+

text \<open>A state that differs in the store, the local files, the cache and the clock only.\<close>

definition same_book :: "('s, 'f) sync_manager \<Rightarrow> ('s, 'f) sync_manager \<Rightarrow> bool" where
  "same_book m m' \<longleftrightarrow> outbound_queue m' = outbound_queue m \<and> leases m' = leases m \<and> instance_id m' = instance_id m"

lemma same_book_refl [simp]: "same_book m m"
  by (simp add: same_book_def)

lemma same_book_trans [trans]: "same_book m1 m2 \<Longrightarrow> same_book m2 m3 \<Longrightarrow> same_book m1 m3"
  by (simp add: same_book_def)

lemma same_book_kept: "same_book m m' \<Longrightarrow> holds_kept m m'"
  by (simp add: same_book_def holds_kept_eq)

lemma same_book_updates [simp]:
  "same_book m (m'\<lparr>m_store := s\<rparr>) = same_book m m'" "same_book m (m'\<lparr>m_fs := f\<rparr>) = same_book m m'"
  "same_book m (m'\<lparr>m_cache := k\<rparr>) = same_book m m'" "same_book m (m'\<lparr>m_clk := c\<rparr>) = same_book m m'"
  "same_book m (m'\<lparr>last_flush := t'\<rparr>) = same_book m m'" "same_book m (m'\<lparr>last_poll := t'\<rparr>) = same_book m m'"
  "same_book m (cache_uploaded X p e z t m') = same_book m m'" "same_book m (cache_downloaded p e t b m') = same_book m m'"
  "same_book m (release_lock X p e m') = same_book m m'"
  by (simp_all add: same_book_def cache_uploaded_def cache_downloaded_def release_lock_def split: prod.split)

lemma same_book_on_store [simp]: "same_book m (snd (on_store g m'))  = same_book m m'"
  by (simp add: on_store_def split: prod.split)

lemma same_book_on_fs [simp]: "same_book m (snd (on_fs g m')) = same_book m m'"
  by (simp add: on_fs_def split: prod.split)

lemma same_book_on_storeD: "on_store g m1 = (r, m2) \<Longrightarrow> same_book m m2 = same_book m m1"
  by (metis same_book_on_store snd_conv)

lemma same_book_on_fsD: "on_fs g m1 = (r, m2) \<Longrightarrow> same_book m m2 = same_book m m1"
  by (metis same_book_on_fs snd_conv)

lemma same_book_instantD: "read_instant X m1 = (t, m2) \<Longrightarrow> same_book m m2 = same_book m m1"
  by (auto simp: read_instant_def same_book_def split: prod.splits)

lemmas same_bookD = same_book_on_storeD same_book_on_fsD same_book_instantD

lemma same_book_passthrough: "passthrough_checks X p m = (r, m') \<Longrightarrow> same_book m m'"
  by (auto simp: passthrough_checks_def split: prod.splits if_splits dest!: same_bookD [of _ _ _ _ m])

lemma same_book_verify: "verify_upload_landed X p c m = (r, m') \<Longrightarrow> same_book m m'"
  by (auto simp: verify_upload_landed_def split: prod.splits sum.splits option.splits dest!: same_bookD [of _ _ _ _ m])

lemma same_book_put_upload: "put_upload X p b c m = (r, m') \<Longrightarrow> same_book m m'"
  by (auto simp: put_upload_def split: prod.splits sum.splits option.splits if_splits
      dest!: same_bookD [of _ _ _ _ m] dest: same_book_verify same_book_trans)

lemma same_hold_base: "same_hold l (l\<lparr>base_etag := e, dirty := False\<rparr>)" "same_hold l (l\<lparr>base_etag := e\<rparr>)"
  by (simp_all add: same_hold_def)

lemma holds_kept_base:
  assumes "same_book m m'"
  shows "holds_kept m (modify_lease p (\<lambda>l. l\<lparr>base_etag := e, dirty := False\<rparr>) m')"
    and "holds_kept m (modify_lease p (\<lambda>l. l\<lparr>base_etag := e\<rparr>) m')"
  using same_book_kept [OF assms] holds_kept_modify same_hold_base holds_kept_trans by metis+

lemma holds_kept_upload: "upload_with_cond X p c m = (r, m') \<Longrightarrow> holds_kept m m'"
proof -
  assume run: "upload_with_cond X p c m = (r, m')"
  obtain r1 m1 where 1: "on_fs (\<lambda>f. read_file_content (se_fs X) f p) m = (r1, m1)" by fastforce
  obtain r2 m2 where 2: "passthrough_checks X p m1 = (r2, m2)" by fastforce
  have b: "same_book m m1" "same_book m m2"
    using same_bookD(2) [OF 1, of m] same_book_passthrough [OF 2] same_book_trans by auto
  have b3: "same_book m m3" if "put_upload X p d c m2 = (r3, m3)" for d r3 m3
    using same_book_put_upload [OF that] b(2) same_book_trans by blast
  show ?thesis
    using run 1 2 b b3
    by (auto simp: upload_with_cond_def Let_def holds_kept_base same_book_kept split: sum.splits prod.splits)
qed

lemma holds_kept_refresh: "refresh_local_from_remote X p m = (r, m') \<Longrightarrow> holds_kept m m'"
  by (auto simp: refresh_local_from_remote_def holds_kept_base same_book_kept
      split: prod.splits sum.splits option.splits dest!: same_bookD [of _ _ _ _ m])

lemma holds_kept_conflict: "handle_upload_conflict X p m = (r, m') \<Longrightarrow> holds_kept m m'"
  by (auto simp: handle_upload_conflict_def dest: holds_kept_upload holds_kept_refresh split: if_splits prod.splits sum.splits)

lemma holds_kept_sync_now: "sync_file_now X p m = (r, m') \<Longrightarrow> holds_kept m m'"
  by (auto simp: sync_file_now_def dest: holds_kept_upload holds_kept_conflict intro: holds_kept_trans
      split: if_splits prod.splits sum.splits)

lemma holds_kept_flush_lease: "flush_lease X p l m = (r, m') \<Longrightarrow> holds_kept m m'"
  by (auto simp: flush_lease_def same_book_kept
      split: if_splits option.splits prod.splits sum.splits
      dest!: same_bookD [of _ _ _ _ m] holds_kept_upload [where m = m] dest: holds_kept_refresh)
     (blast intro: holds_kept_trans same_book_kept dest: holds_kept_refresh)+

section \<open>Calls that leave queue and leases alone\<close>

lemma same_book_refresh_file: "refresh_file_from_s3 X p m = (r, m') \<Longrightarrow> same_book m m'"
  by (auto simp: refresh_file_from_s3_def split: if_splits prod.splits sum.splits option.splits
      dest!: same_bookD [of _ _ _ _ m])

lemma same_book_head_refresh: "head_and_refresh X p m = (r, m') \<Longrightarrow> same_book m m'"
  by (auto simp: head_and_refresh_def Let_def split: if_splits prod.splits sum.splits option.splits
      dest!: same_bookD [of _ _ _ _ m])

lemma same_book_check: "check_and_refresh_from_s3 X p m = (r, m') \<Longrightarrow> same_book m m'"
  by (auto simp: check_and_refresh_from_s3_def split: if_splits prod.splits sum.splits dest: same_book_head_refresh)

lemma same_book_mkdir: "on_mkdir X p m = (r, m') \<Longrightarrow> same_book m m'"
  by (auto simp: on_mkdir_def split: prod.splits sum.splits option.splits dest!: same_bookD [of _ _ _ _ m])

lemma same_book_rmdir: "on_rmdir X p m = (r, m') \<Longrightarrow> same_book m m'"
  by (auto simp: on_rmdir_def Let_def split: if_splits prod.splits sum.splits dest!: same_bookD [of _ _ _ _ m])

lemma same_book_download: "download_file X ob m = (r, m') \<Longrightarrow> same_book m m'"
  by (auto simp: download_file_def split: prod.splits sum.splits option.splits dest!: same_bookD [of _ _ _ _ m])

lemma same_book_delete_local: "delete_local_file X p m = (r, m') \<Longrightarrow> same_book m m'"
  by (auto simp: delete_local_file_def split: prod.splits sum.splits dest!: same_bookD [of _ _ _ _ m])

lemma same_book_poll_object: "poll_object X ob (st, m) = (st', m') \<Longrightarrow> same_book m m'"
  by (auto simp: poll_object_def Let_def split: if_splits prod.splits sum.splits dest: same_book_download)

lemma same_book_gone_file: "poll_gone_file X F p (st, m) = (st', m') \<Longrightarrow> same_book m m'"
  by (auto simp: poll_gone_file_def split: if_splits prod.splits sum.splits dest: same_book_delete_local)

lemma same_book_gone_dir: "same_book m (poll_gone_dir X D p m)"
  by (auto simp: poll_gone_dir_def split: prod.split dest!: same_bookD [of _ _ _ _ m])

lemma same_book_fold:
  assumes "\<And>x st m st' m'. step x (st, m) = (st', m') \<Longrightarrow> same_book m m'"
  shows "fold step xs (st, m) = (st', m') \<Longrightarrow> same_book m m'"
proof (induction xs arbitrary: st m)
  case (Cons x xs)
  obtain st1 m1 where "step x (st, m) = (st1, m1)" by fastforce
  with Cons assms show ?case using same_book_trans by fastforce
qed simp

lemma same_book_fold_dirs: "same_book m (fold (poll_gone_dir X D) ps m)"
  by (induction ps arbitrary: m) (auto intro: same_book_trans same_book_gone_dir)

lemma same_book_poll: "poll_inbound X m = (r, m') \<Longrightarrow> same_book m m'"
proof -
  assume run: "poll_inbound X m = (r, m')"
  obtain r1 m1 where 1: "on_store (list_files (se_store X)) m = (r1, m1)" by fastforce
  have b1: "same_book m m1" using same_bookD(1) [OF 1, of m] by simp
  show ?thesis
  proof (cases r1)
    case (Inr objs)
    define F where "F = oi_path ` set (filter (\<lambda>ob. \<not> oi_is_dir ob) objs)"
    define D where "D = oi_path ` set (filter oi_is_dir objs)"
    obtain st2 m2 where 2: "fold (poll_object X) objs (\<lparr>downloaded = 0, deleted = 0\<rparr>, m1) = (st2, m2)" by fastforce
    obtain st3 m3 where 3: "fold (poll_gone_file X F) (mc_paths (m_cache m2)) (st2, m2) = (st3, m3)" by fastforce
    note b1
    also have "same_book m1 m2" by (rule same_book_fold [OF same_book_poll_object 2])
    also have "same_book m2 m3" by (rule same_book_fold [OF same_book_gone_file 3])
    also have "same_book m3 (fold (poll_gone_dir X D) (mc_dir_paths (m_cache m3)) m3)" by (rule same_book_fold_dirs)
    also have "fold (poll_gone_dir X D) (mc_dir_paths (m_cache m3)) m3 = m'"
      using run 1 Inr 2 3 by (simp add: poll_inbound_def F_def D_def)
    finally show ?thesis .
  qed (use run 1 b1 in \<open>simp add: poll_inbound_def\<close>)
qed

lemma holds_kept_flush_delete: "holds_kept m (flush_delete X p e m)"
proof -
  have "holds_kept m (snd (refresh_local_from_remote X p m1))" if "same_book m m1" for m1
    using holds_kept_trans [OF same_book_kept [OF that] holds_kept_refresh] by (metis prod.collapse)
  then show ?thesis
    by (auto simp: flush_delete_def Let_def same_book_kept split: prod.splits sum.splits if_splits
        dest!: same_bookD(1) [of _ _ _ _ m])
qed

section \<open>The invariant\<close>

definition lease_ok :: "('s, 'f) sync_manager \<Rightarrow> string \<Rightarrow> bool" where
  "lease_ok m p \<longleftrightarrow>
     (\<forall>l. lt_get (leases m) p = Some l \<longrightarrow>
        1 \<le> refcount l \<and> \<not> releasing l \<and> \<not> (dirty l \<and> pending_delete l) \<and> Upload p \<notin> set (outbound_queue m))"

definition book_ok :: "('s, 'f) sync_manager \<Rightarrow> bool" where
  "book_ok m \<longleftrightarrow> distinct (map op_path (outbound_queue m)) \<and> distinct (lt_paths (leases m))"

definition sm_inv :: "('s, 'f) sync_manager \<Rightarrow> bool" where
  "sm_inv m \<longleftrightarrow> book_ok m \<and> (\<forall>p. lease_ok m p)"

lemma lease_ok_kept: "holds_kept m m' \<Longrightarrow> lease_ok m p \<Longrightarrow> lease_ok m' p"
proof -
  assume k: "holds_kept m m'" and ok: "lease_ok m p"
  have r: "rel_option same_hold (lt_get (leases m) p) (lt_get (leases m') p)" "outbound_queue m' = outbound_queue m"
    using k by (simp_all add: holds_kept_def)
  show ?thesis
    unfolding lease_ok_def
  proof (intro allI impI)
    fix l' assume "lt_get (leases m') p = Some l'"
    with r(1) obtain l where "lt_get (leases m) p = Some l" "same_hold l l'" by (cases "lt_get (leases m) p") auto
    then show "1 \<le> refcount l' \<and> \<not> releasing l' \<and> \<not> (dirty l' \<and> pending_delete l') \<and> Upload p \<notin> set (outbound_queue m')"
      using ok r(2) by (auto simp: lease_ok_def same_hold_def)
  qed
qed

lemma book_ok_kept: "holds_kept m m' \<Longrightarrow> book_ok m \<Longrightarrow> book_ok m'"
  by (simp add: holds_kept_def book_ok_def)

lemma sm_inv_kept: "holds_kept m m' \<Longrightarrow> sm_inv m \<Longrightarrow> sm_inv m'"
  unfolding sm_inv_def using lease_ok_kept [of m m'] book_ok_kept [of m m'] by blast

lemma sm_inv_book: "same_book m m' \<Longrightarrow> sm_inv m \<Longrightarrow> sm_inv m'"
  using sm_inv_kept same_book_kept by blast

lemma distinct_requeue:
  "distinct (map op_path q) \<Longrightarrow> distinct (map op_path (requeue op q))"
  by (auto simp: requeue_def distinct_map_filter)

lemma sm_inv_enqueue_upload: "sm_inv m \<Longrightarrow> sm_inv (enqueue_upload p m)"
  using distinct_requeue [of "outbound_queue m" "Upload p"]
  by (auto simp: sm_inv_def book_ok_def lease_ok_def enqueue_upload_def sync_frame lease_table_simps is_locked_get
      requeue_def split: if_splits)

lemma sm_inv_enqueue_delete: "sm_inv m \<Longrightarrow> sm_inv (enqueue_delete p m)"
  using distinct_requeue [of "outbound_queue m" "Delete p (map_option sm_etag (mc_get (m_cache m) p))"]
  by (auto simp: sm_inv_def book_ok_def lease_ok_def enqueue_delete_def sync_frame lease_table_simps is_locked_get
      requeue_def Let_def split: if_splits)

lemma sm_inv_join:
  "sm_inv m \<Longrightarrow> join_lease n p m = Some (b, m') \<Longrightarrow>
    sm_inv m' \<and> (b = False \<longrightarrow> m' = m \<and> \<not> is_locked m p)"
proof (cases n)
  case (Suc k)
  assume inv: "sm_inv m" and run: "join_lease n p m = Some (b, m')"
  have "\<not> releasing l" if "lt_get (leases m) p = Some l" for l
    using inv that by (auto simp: sm_inv_def lease_ok_def)
  then show ?thesis using Suc run inv
    by (auto simp: sm_inv_def book_ok_def lease_ok_def sync_frame lease_table_simps is_locked_get
        split: option.splits if_splits)
qed simp

text \<open>The entry of \<open>p\<close> is about to go: the others are in order.\<close>

lemma drop_lease_inv:
  assumes "book_ok m" and "\<And>q. q \<noteq> p \<Longrightarrow> lease_ok m q" and run: "drop_lease X p l m = (r, m')"
  shows "sm_inv m' \<and> \<not> is_locked m' p \<and> lt_paths (leases m') = filter (\<lambda>q. q \<noteq> p) (lt_paths (leases m))"
proof -
  obtain m1 where f: "flush_lease X p l m = (r, m1)" and m': "leases m' = lt_remove (leases m1) p"
      "outbound_queue m' = outbound_queue m1"
    using run by (auto simp: drop_lease_def Let_def sync_frame split: prod.splits)
  note k = holds_kept_flush_lease [OF f]
  have "lease_ok m1 q" if "q \<noteq> p" for q using lease_ok_kept [OF k assms(2) [OF that]] .
  moreover have "book_ok m1" using book_ok_kept [OF k assms(1)] .
  moreover have rm: "lt_paths (lt_remove (leases m1) p) = filter (\<lambda>q. q \<noteq> p) (lt_paths (leases m1))"
    by (simp add: lt_paths_def lt_remove_def delete_keys removeAll_filter_not_eq eq_commute cong: filter_cong)
  ultimately show ?thesis
    using m' k
    by (auto simp: sm_inv_def book_ok_def lease_ok_def lease_table_simps is_locked_get holds_kept_def)
qed

lemma sm_inv_releasing:
  assumes "sm_inv m" shows "book_ok (modify_lease p g m)" and "q \<noteq> p \<Longrightarrow> lease_ok (modify_lease p g m) q"
  using assms by (auto simp: sm_inv_def book_ok_def lease_ok_def sync_frame lease_table_simps)

lemma sm_inv_close:
  assumes "sm_inv m" and "on_close X p m = (r, m')" shows "sm_inv m'"
proof (cases "lt_get (leases m) p")
  case (Some l)
  show ?thesis
  proof (cases "refcount l > 1")
    case True
    then show ?thesis using assms Some
      by (auto simp: on_close_def sm_inv_def book_ok_def lease_ok_def sync_frame lease_table_simps split: if_splits)
  next
    case False
    then show ?thesis
      using assms(2) Some drop_lease_inv [OF sm_inv_releasing [OF assms(1)]] by (simp add: on_close_def)
  qed
qed (use assms in \<open>simp add: on_close_def\<close>)

lemma sm_inv_release_paths:
  "sm_inv m \<Longrightarrow> release_paths X ps e m = (r, m') \<Longrightarrow>
    sm_inv m' \<and> set (lt_paths (leases m')) = set (lt_paths (leases m)) - set ps"
proof (induction ps arbitrary: e m)
  case (Cons p ps)
  show ?case
  proof (cases "lt_get (leases m) p")
    case None
    then have "p \<notin> set (lt_paths (leases m))" by (simp add: lt_paths_get)
    then show ?thesis using Cons None by auto
  next
    case (Some l)
    obtain r1 m1 where d: "drop_lease X p (l\<lparr>releasing := True\<rparr>) (modify_lease p (\<lambda>l. l\<lparr>releasing := True\<rparr>) m) = (r1, m1)"
      by fastforce
    have i1: "sm_inv m1 \<and> lt_paths (leases m1) = filter (\<lambda>q. q \<noteq> p) (lt_paths (leases m))"
      using drop_lease_inv [OF sm_inv_releasing [OF Cons.prems(1)] d] by (simp add: sync_frame lease_table_simps)
    obtain e1 where "release_paths X ps e1 m1 = (r, m')" using Cons.prems(2) Some d by simp
    with Cons.IH [of m1 e1] i1 show ?thesis by auto
  qed
qed simp

section \<open>Opening for writing, renewing\<close>

lemma sm_inv_take_queued: "sm_inv m \<Longrightarrow> take_queued_upload p m = (b, m') \<Longrightarrow>
    sm_inv m' \<and> leases m' = leases m \<and> Upload p \<notin> set (outbound_queue m')"
  by (auto simp: take_queued_upload_def Let_def sm_inv_def book_ok_def lease_ok_def distinct_map_filter)

lemma adopt_kept:
  assumes t: "take_queued_upload p m = (b, m1)" and run: "adopt_base X p a m = (r, m')"
  shows "holds_kept m1 m'"
proof -
  have k: "holds_kept m1 (release_lock X p e m2)" if "holds_kept m1 m2" for e m2
    using that holds_kept_eq [of "release_lock X p e m2" m2] holds_kept_trans by (auto simp: sync_frame)
  show ?thesis
  proof (cases b)
    case True
    then show ?thesis using run t
      by (auto simp: adopt_base_def split: prod.splits sum.splits if_splits dest!: holds_kept_upload holds_kept_refresh
          intro!: k intro: holds_kept_trans)
  next
    case False
    then show ?thesis using run t
      by (auto simp: adopt_base_def split: prod.splits sum.splits dest!: same_book_head_refresh
          intro!: k same_book_kept)
  qed
qed

lemma sm_inv_adopt:
  assumes "sm_inv m" and run: "adopt_base X p a m = (r, m')"
  shows "sm_inv m' \<and> Upload p \<notin> set (outbound_queue m') \<and> lt_paths (leases m') = lt_paths (leases m)"
proof -
  obtain b m1 where t: "take_queued_upload p m = (b, m1)" by fastforce
  note i1 = sm_inv_take_queued [OF assms(1) t]
  have "holds_kept m1 m'" by (rule adopt_kept [OF t run])
  with i1 sm_inv_kept [of m1 m'] show ?thesis by (simp add: holds_kept_def)
qed

lemma adopt_queue:
  assumes "adopt_base X p a m = (r, m')"
  shows "outbound_queue m' = filter (\<lambda>op. op \<noteq> Upload p) (outbound_queue m)"
proof -
  obtain b m1 where t: "take_queued_upload p m = (b, m1)" by fastforce
  then show ?thesis using adopt_kept [OF t assms] by (auto simp: take_queued_upload_def holds_kept_def Let_def)
qed

lemma sm_inv_open_write:
  assumes inv: "sm_inv m" and run: "on_open_write n X p m = Some (r, m')" shows "sm_inv m'"
proof (cases "file_lock (config X)")
  case True
  obtain b m1 where j: "join_lease n p m = Some (b, m1)"
    using run True by (auto simp: on_open_write_def split: option.splits)
  note i1 = sm_inv_join [OF inv j]
  show ?thesis
  proof (cases b)
    case True
    then show ?thesis using run j i1 \<open>file_lock (config X)\<close> by (auto simp: on_open_write_def)
  next
    case False
    obtain ra s c where a: "acquire n (se_store X) (se_time X) p (instance_id m1) (lock_lease (config X))
        (lock_timeout (config X)) (m_store m1) (m_clk m1) = Some (ra, s, c)"
      using run j \<open>file_lock (config X)\<close> False by (auto simp: on_open_write_def split: option.splits)
    define m2 where "m2 = m1\<lparr>m_store := s, m_clk := c\<rparr>"
    have b2: "same_book m1 m2" by (simp add: m2_def)
    have i2: "sm_inv m2" "\<not> is_locked m2 p"
      using sm_inv_book [OF b2] i1 False by (auto simp: m2_def is_locked_def)
    have "sm_inv m'" if ra: "ra = Inr aq" for aq
    proof -
      obtain rb m3 where ab: "adopt_base X p aq m2 = (rb, m3)" by fastforce
      note i3 = sm_inv_adopt [OF i2(1) ab]
      have "lt_get (leases m3) p = None"
        using i2(2) i3 lt_paths_get [of p "leases m3"] lt_paths_get [of p "leases m2"] by (simp add: is_locked_get)
      then have "sm_inv (m3\<lparr>leases := lt_insert (leases m3) p (fresh_lease base aq)\<rparr>)" for base
        using i3 distinct_update [of "leases m3" p "fresh_lease base aq"]
        by (auto simp: sm_inv_def book_ok_def lease_ok_def lease_table_simps lt_paths_def lt_insert_def [symmetric]
            fresh_lease_def split: if_splits)
      then show ?thesis
        using run j a \<open>file_lock (config X)\<close> False ra i2(2) i3 ab
        by (cases rb) (auto simp: on_open_write_def m2_def Let_def)
    qed
    then show ?thesis
      using run j a \<open>file_lock (config X)\<close> False i2(1)
      by (cases ra) (auto simp: on_open_write_def m2_def Let_def)
  qed
qed (use assms in \<open>simp add: on_open_write_def\<close>)

lemma join_lease_queue:
  "join_lease n p m = Some (b, m') \<Longrightarrow> outbound_queue m' = outbound_queue m \<and> (b \<longrightarrow> is_locked m' p)"
proof (induction n arbitrary: m)
  case (Suc n)
  show ?case
  proof (cases "\<exists>l. lt_get (leases m) p = Some l \<and> releasing l")
    case True
    then have "join_lease n p (m\<lparr>m_clk := clk_sleep (from_millis 10) (m_clk m)\<rparr>) = Some (b, m')"
      using Suc.prems by auto
    from Suc.IH [OF this] show ?thesis by simp
  next
    case False
    then show ?thesis using Suc.prems
      by (auto simp: sync_frame is_locked_get lease_table_simps split: option.splits)
  qed
qed simp

text \<open>Opening drops queued uploads of the path from the queue, and nothing else; a success holds
  the lease.\<close>

lemma open_write_queue:
  assumes run: "on_open_write n X p m = Some (r, m')" and lock: "file_lock (config X)"
  shows "set (outbound_queue m) - {Upload p} \<subseteq> set (outbound_queue m') \<and> (is_ok r \<longrightarrow> is_locked m' p)"
proof -
  obtain b m1 where j: "join_lease n p m = Some (b, m1)"
    using run lock by (auto simp: on_open_write_def split: option.splits)
  note jq = join_lease_queue [OF j]
  show ?thesis
  proof (cases b)
    case True
    then show ?thesis using run lock j jq by (auto simp: on_open_write_def)
  next
    case False
    obtain ra s c where a: "acquire n (se_store X) (se_time X) p (instance_id m1) (lock_lease (config X))
        (lock_timeout (config X)) (m_store m1) (m_clk m1) = Some (ra, s, c)"
      using run j lock False by (auto simp: on_open_write_def split: option.splits)
    define m2 where "m2 = m1\<lparr>m_store := s, m_clk := c\<rparr>"
    show ?thesis
    proof (cases "\<exists>aq. ra = Inr aq \<and> \<not> is_locked m2 p")
      case True
      then obtain aq where aq: "ra = Inr aq" "\<not> is_locked m2 p" by blast
      obtain rb m3 where ab: "adopt_base X p aq m2 = (rb, m3)" by fastforce
      have q3: "outbound_queue m3 = filter (\<lambda>op. op \<noteq> Upload p) (outbound_queue m)"
        using adopt_queue [OF ab] jq by (simp add: m2_def)
      have "case rb of Inl e \<Rightarrow> r = Inl e \<and> m' = m3
        | Inr base \<Rightarrow> m' = m3\<lparr>leases := lt_insert (leases m3) p (fresh_lease base aq)\<rparr>"
        using run j a lock False aq ab by (cases rb) (auto simp: on_open_write_def m2_def Let_def)
      then show ?thesis using q3 by (cases rb) (auto simp: is_locked_get lease_table_simps)
    next
      case nt: False
      then show ?thesis
        using run j a lock False jq
        by (cases ra) (auto simp: on_open_write_def m2_def Let_def sync_frame is_locked_get lease_table_simps)
    qed
  qed
qed

lemma on_close_queue: "on_close X p m = (r, m') \<Longrightarrow> outbound_queue m' = outbound_queue m"
  using holds_kept_flush_lease [of X p]
  by (auto simp: on_close_def drop_lease_def Let_def sync_frame holds_kept_def split: option.splits if_splits prod.splits)

lemma sm_inv_fsync: "sm_inv m \<Longrightarrow> on_fsync X p m = (r, m') \<Longrightarrow> sm_inv m'"
  by (auto simp: on_fsync_def split: option.splits if_splits dest: holds_kept_flush_lease holds_kept_sync_now intro: sm_inv_kept)

lemma sm_inv_renew_one: "sm_inv m \<Longrightarrow> sm_inv (renew_one X p m)"
  by (auto simp: renew_one_def Let_def sm_inv_def book_ok_def lease_ok_def sync_frame lease_table_simps
      split: option.splits prod.splits sum.splits if_splits)

lemma sm_inv_renew: "sm_inv m \<Longrightarrow> sm_inv (renew_leases X m)"
proof -
  assume "sm_inv m"
  moreover have "sm_inv m1 \<Longrightarrow> sm_inv (fold (renew_one X) ps m1)" for ps m1
    by (induction ps arbitrary: m1) (auto intro: sm_inv_renew_one)
  ultimately show ?thesis
    using sm_inv_book [of m] by (auto simp: renew_leases_def split: prod.split dest!: same_bookD(3) [of _ _ _ _ m])
qed

section \<open>Flushing\<close>

lemma flush_upload_queue:
  assumes "flush_upload X p m = (r, m')"
  shows "holds_kept m m' \<and> is_ok r \<or> (\<exists>m1. holds_kept m m1 \<and> m' = push_back (Upload p) m1 \<and> \<not> is_ok r)"
proof -
  obtain ru mu where u: "upload_with_cond X p (cond_for_upload m p) m = (ru, mu)" by fastforce
  obtain rc mc where c: "handle_upload_conflict X p mu = (rc, mc)" by fastforce
  have k: "holds_kept m mu" "holds_kept m mc"
    using holds_kept_upload [OF u] holds_kept_conflict [OF c] holds_kept_trans by auto
  show ?thesis
    using assms u c k by (cases ru; cases rc) (auto simp: flush_upload_def split: if_splits)
qed

lemma sm_inv_push_back:
  assumes "sm_inv m" and "\<not> is_locked m p" and "p \<notin> op_path ` set (outbound_queue m)"
  shows "sm_inv (push_back (Upload p) m)"
  using assms by (auto simp: sm_inv_def book_ok_def lease_ok_def push_back_def is_locked_get)

lemma sm_inv_pop:
  assumes "sm_inv m" and "outbound_queue m = op # rest"
  shows "sm_inv (m\<lparr>outbound_queue := rest\<rparr>)" and "op_path op \<notin> op_path ` set rest"
  using assms by (auto simp: sm_inv_def book_ok_def lease_ok_def)

text \<open>A flush keeps the invariant; when it succeeds with a positive budget it shortens the queue.\<close>

lemma flush_loop_inv:
  "sm_inv m \<Longrightarrow> flush_loop X n k m = (r, m') \<Longrightarrow>
    sm_inv m' \<and> (is_ok r \<longrightarrow> length (outbound_queue m') = length (outbound_queue m) - n)"
proof (induction n arbitrary: k m)
  case (Suc n)
  show ?case
  proof (cases "outbound_queue m")
    case (Cons op rest)
    define m1 where "m1 = m\<lparr>outbound_queue := rest\<rparr>"
    have i1: "sm_inv m1" "op_path op \<notin> op_path ` set rest"
      using sm_inv_pop [OF Suc.prems(1) Cons] by (simp_all add: m1_def)
    have step: "sm_inv m' \<and> (is_ok r \<longrightarrow> length (outbound_queue m') = length (outbound_queue m) - Suc n)"
      if h: "holds_kept m1 m2" and rec: "flush_loop X n k' m2 = (r, m')" for m2 k'
    proof -
      have "length (outbound_queue m2) = length rest" using h by (simp add: holds_kept_def m1_def)
      then show ?thesis using Suc.IH [OF sm_inv_kept [OF h i1(1)] rec] Cons by simp
    qed
    have refl: "holds_kept m1 m1" by (simp add: same_book_kept)
    show ?thesis
    proof (cases op)
      case (Delete p e)
      then have "flush_loop X n (k + 1) (flush_delete X p e m1) = (r, m')"
        using Suc.prems(2) Cons by (simp add: m1_def)
      then show ?thesis using step holds_kept_flush_delete by blast
    next
      case (Upload p)
      show ?thesis
      proof (cases "is_realtime X \<or> is_locked m1 p")
        case True
        then have "flush_loop X n k m1 = (r, m')" using Suc.prems(2) Cons Upload by (auto simp: m1_def)
        with step refl show ?thesis by blast
      next
        case False
        obtain ru m2 where u: "flush_upload X p m1 = (ru, m2)" by fastforce
        show ?thesis
        proof (cases ru)
          case (Inr x)
          then have "flush_loop X n (k + 1) m2 = (r, m')" "holds_kept m1 m2"
            using Suc.prems(2) Cons Upload False u flush_upload_queue [OF u] by (simp_all add: m1_def)
          with step show ?thesis by blast
        next
          case (Inl e)
          then have r: "r = Inl e" "m' = m2" using Suc.prems(2) Cons Upload False u by (simp_all add: m1_def)
          obtain m3 where m3: "holds_kept m1 m3" "m2 = push_back (Upload p) m3"
            using flush_upload_queue [OF u] Inl by auto
          have "\<not> is_locked m3 p" using False holds_kept_locked [OF m3(1)] by blast
          moreover have "p \<notin> op_path ` set (outbound_queue m3)"
            using m3(1) i1(2) Upload by (simp add: holds_kept_def m1_def)
          ultimately have "sm_inv m2" unfolding m3(2) by (rule sm_inv_push_back [OF sm_inv_kept [OF m3(1) i1(1)]])
          with r show ?thesis by simp
        qed
      qed
    qed
  qed (use Suc.prems in simp)
qed simp

lemma flush_outbound_inv:
  assumes "sm_inv m" and "flush_outbound X m = (r, m')"
  shows "sm_inv m' \<and> (is_ok r \<longrightarrow>
    length (outbound_queue m') = length (outbound_queue m) - outbound_batch_size (config X))"
proof -
  obtain r1 m1 where l: "flush_loop X (outbound_batch_size (config X)) 0 m = (r1, m1)" by fastforce
  note i1 = flush_loop_inv [OF assms(1) l]
  show ?thesis
  proof (cases r1)
    case (Inr k)
    obtain t m2 where t: "read_instant X m1 = (t, m2)" by fastforce
    then have "same_book m1 (m2\<lparr>last_flush := t\<rparr>)" using same_bookD(3) [OF t, of m1] by simp
    moreover have "r = Inr k" "m' = m2\<lparr>last_flush := t\<rparr>" using assms(2) l Inr t by (simp_all add: flush_outbound_def)
    ultimately show ?thesis using i1 Inr sm_inv_book [of m1 m'] by (simp add: same_book_def)
  qed (use assms(2) l i1 in \<open>simp add: flush_outbound_def\<close>)
qed

lemma force_flush_inv:
  "sm_inv m \<Longrightarrow> force_flush_loop n X acc m = Some (r, m') \<Longrightarrow>
    sm_inv m' \<and> (is_ok r \<longrightarrow> outbound_queue m' = [])"
proof (induction n arbitrary: acc m)
  case (Suc n)
  obtain r1 m1 where f: "flush_outbound X m = (r1, m1)" by fastforce
  show ?case using Suc f flush_outbound_inv [OF Suc.prems(1) f] by (cases r1) (auto split: if_splits)
qed simp

lemma force_flush_returns:
  "sm_inv m \<Longrightarrow> 0 < outbound_batch_size (config X) \<Longrightarrow> length (outbound_queue m) < n \<Longrightarrow>
    \<exists>r. force_flush_loop n X acc m = Some r"
proof (induction n arbitrary: acc m)
  case (Suc n)
  obtain r1 m1 where f: "flush_outbound X m = (r1, m1)" by fastforce
  note i = flush_outbound_inv [OF Suc.prems(1) f]
  show ?case
  proof (cases "outbound_queue m = [] \<or> \<not> is_ok r1")
    case True
    then show ?thesis using f by (cases r1) auto
  next
    case False
    then have "0 < length (outbound_queue m)" "length (outbound_queue m1) = length (outbound_queue m) - outbound_batch_size (config X)"
      using i by simp_all
    then have "length (outbound_queue m1) < n" using Suc.prems(2,3) by linarith
    with Suc.IH [of m1 "acc + projr r1"] Suc.prems(2) i False f show ?thesis by (cases r1) auto
  qed
qed simp

lemma force_flush_spins:
  "outbound_batch_size (config X) = 0 \<Longrightarrow> outbound_queue m \<noteq> [] \<Longrightarrow> force_flush_loop n X acc m = None"
proof (induction n arbitrary: acc m)
  case (Suc n)
  then show ?case by (auto simp: flush_outbound_def read_instant_def split: prod.splits)
qed simp

lemma sm_inv_tick:
  assumes "sm_inv m" and "maybe_sync X m = (r, m')" shows "sm_inv m'"
proof -
  have fl: "sm_inv m2" if "(if c then case flush_outbound X m1 of (Inr k, m) \<Rightarrow> (k > 0, m) | (Inl _, m) \<Rightarrow> (False, m)
      else (False, m1)) = (b, m2)" "sm_inv m1" for c b m1 m2
    using that flush_outbound_inv [of m1 X] by (auto split: if_splits prod.splits sum.splits)
  have po: "sm_inv m2" if "(case poll_inbound X m1 of (Inr st, m) \<Rightarrow> (downloaded st > 0 \<or> deleted st > 0, m) | (Inl _, m) \<Rightarrow> (False, m))
      = (b, m2)" "sm_inv m1" for b m1 m2
    using that same_book_poll [of X m1] sm_inv_book by (auto split: prod.splits sum.splits)
  have ti: "sm_inv m2" if "read_instant X m1 = (t, m2)" "sm_inv m1" for t m1 m2
    using that same_bookD(3) [of X m1 t m2 m1] sm_inv_book by auto
  have lp: "sm_inv (m1\<lparr>last_poll := t\<rparr>)" if "sm_inv m1" for m1 t using sm_inv_book [of m1 "m1\<lparr>last_poll := t\<rparr>"] that by simp
  define m1 where "m1 = (if file_lock (config X) then renew_leases X m else m)"
  have i1: "sm_inv m1" using sm_inv_renew [OF assms(1), of X] assms(1) by (simp add: m1_def)
  obtain t m2 where 2: "read_instant X m1 = (t, m2)" by fastforce
  obtain b m3 where 3: "(if should_flush X (t - last_flush m2) (outbound_queue m2) then
      case flush_outbound X m2 of (Inr k, m) \<Rightarrow> (k > 0, m) | (Inl _, m) \<Rightarrow> (False, m) else (False, m2)) = (b, m3)" by fastforce
  obtain t' m4 where 4: "read_instant X m3 = (t', m4)" by fastforce
  obtain b' m5 where 5: "(case poll_inbound X m4 of (Inr st, m) \<Rightarrow> (downloaded st > 0 \<or> deleted st > 0, m) | (Inl _, m) \<Rightarrow> (False, m))
      = (b', m5)" by fastforce
  obtain t'' m6 where 6: "read_instant X m5 = (t'', m6)" by fastforce
  have i: "sm_inv m4" "sm_inv m6"
    using ti [OF 2 i1] fl [OF 3] ti [OF 4] po [OF 5] ti [OF 6] by auto
  have "m' = m \<or> m' = m6\<lparr>last_poll := t''\<rparr> \<or> m' = m4"
    using assms(2) 2 3 4 5 6 by (auto simp: maybe_sync_def m1_def [symmetric] Let_def split: if_splits)
  then show ?thesis using assms(1) i lp by auto
qed

section \<open>Reachable states\<close>

text \<open>The calls of the manager, with what happens around it: other clients of the store and local
  file system activity, both arbitrary.\<close>

datatype ('s, 'f) sm_call =
    EnqueueUpload string | EnqueueDelete string | OpenWrite nat string | CloseFile string
  | Fsync string | SyncNow string | RefreshFile string | CheckRefresh string | MkDir string | RmDir string
  | Tick | ForceFlush nat | ReleaseAll | Shutdown | OtherClients "'s \<Rightarrow> 's" | LocalFiles "'f \<Rightarrow> 'f"

fun sm_exec ::
  "('s, 'f) sync_env \<Rightarrow> ('s, 'f) sm_call \<Rightarrow> ('s, 'f) sync_manager \<Rightarrow> ('s, 'f) sync_manager option" where
  "sm_exec X (EnqueueUpload p) m = Some (enqueue_upload p m)"
| "sm_exec X (EnqueueDelete p) m = Some (enqueue_delete p m)"
| "sm_exec X (OpenWrite n p) m = map_option snd (on_open_write n X p m)"
| "sm_exec X (CloseFile p) m = Some (snd (on_close X p m))"
| "sm_exec X (Fsync p) m = Some (snd (on_fsync X p m))"
| "sm_exec X (SyncNow p) m = Some (snd (sync_file_now X p m))"
| "sm_exec X (RefreshFile p) m = Some (snd (refresh_file_from_s3 X p m))"
| "sm_exec X (CheckRefresh p) m = Some (snd (check_and_refresh_from_s3 X p m))"
| "sm_exec X (MkDir p) m = Some (snd (on_mkdir X p m))"
| "sm_exec X (RmDir p) m = Some (snd (on_rmdir X p m))"
| "sm_exec X Tick m = Some (snd (maybe_sync X m))"
| "sm_exec X (ForceFlush n) m = map_option snd (force_flush n X m)"
| "sm_exec X ReleaseAll m = Some (snd (release_all_leases X m))"
| "sm_exec X Shutdown m = Some (sm_shutdown m)"
| "sm_exec X (OtherClients g) m = Some (m\<lparr>m_store := g (m_store m)\<rparr>)"
| "sm_exec X (LocalFiles g) m = Some (m\<lparr>m_fs := g (m_fs m)\<rparr>)"

inductive sm_reachable :: "('s, 'f) sync_env \<Rightarrow> ('s, 'f) sync_manager \<Rightarrow> bool" for X where
  sm_init: "sm_reachable X (sm_new X s f cache inst c)"
| sm_step: "sm_reachable X m \<Longrightarrow> sm_exec X call m = Some m' \<Longrightarrow> sm_reachable X m'"

lemma sm_inv_new: "sm_inv (sm_new X s f cache inst c)"
  by (simp add: sm_new_def sm_inv_def book_ok_def lease_ok_def lt_get_def lt_paths_def split: prod.split)

lemma sm_inv_release_all: "sm_inv m \<Longrightarrow> release_all_leases X m = (r, m') \<Longrightarrow> sm_inv m' \<and> lt_paths (leases m') = []"
proof -
  assume inv: "sm_inv m" and run: "release_all_leases X m = (r, m')"
  obtain e where e: "release_paths X (lt_paths (leases m)) None m = (e, m')"
    using run by (auto simp: release_all_leases_def split: prod.splits option.splits)
  show ?thesis using sm_inv_release_paths [OF inv e] by simp
qed

lemma sm_inv_exec: "sm_inv m \<Longrightarrow> sm_exec X call m = Some m' \<Longrightarrow> sm_inv m'"
proof (induction call)
  case (OpenWrite n p)
  then show ?case using sm_inv_open_write by (fastforce simp: map_option_case split: option.splits)
next
  case (ForceFlush n)
  then show ?case using force_flush_inv by (fastforce simp: force_flush_def map_option_case split: option.splits)
next
  case (OtherClients g)
  then show ?case using sm_inv_book [of m m'] by auto
next
  case (LocalFiles g)
  then show ?case using sm_inv_book [of m m'] by auto
next
  case Shutdown
  then show ?case by (auto simp: sm_shutdown_def sm_inv_def book_ok_def lease_ok_def)
qed (auto simp: sm_inv_enqueue_upload sm_inv_enqueue_delete
    sm_inv_close [OF _ prod.collapse [symmetric]] sm_inv_fsync [OF _ prod.collapse [symmetric]]
    sm_inv_tick [OF _ prod.collapse [symmetric]]
    sm_inv_kept [OF holds_kept_sync_now [OF prod.collapse [symmetric]]]
    sm_inv_book [OF same_book_refresh_file [OF prod.collapse [symmetric]]]
    sm_inv_book [OF same_book_check [OF prod.collapse [symmetric]]]
    sm_inv_book [OF same_book_mkdir [OF prod.collapse [symmetric]]]
    sm_inv_book [OF same_book_rmdir [OF prod.collapse [symmetric]]]
    sm_inv_release_all [OF _ prod.collapse [symmetric]])

section \<open>The bookkeeping theorems\<close>

text \<open>The manager over the in-memory store and \<open>fs-core\<close>.\<close>

definition mem_env :: "(bytes \<Rightarrow> string) \<Rightarrow> time_env \<Rightarrow> sync_config \<Rightarrow> (mem_inner, fs) sync_env" where
  "mem_env h E C = \<lparr>se_store = mem_store h, se_fs = host_fs, se_time = E, config = C\<rparr>"

definition demo_env :: "(mem_inner, fs) sync_env" where
  "demo_env = mem_env demo_tag demo_time (from_lookup (\<lambda>_. None))"

definition demo_start :: "(mem_inner, fs) sync_manager" where
  "demo_start = sm_new demo_env mem_new demo_file mc_new ''i'' \<lparr>readings = 0, slept = 0\<rparr>"

definition demo_queued :: "(mem_inner, fs) sync_manager" where
  "demo_queued = enqueue_upload ''/f'' demo_start"

lemma demo_queued_reachable: "sm_reachable demo_env demo_queued"
  unfolding demo_queued_def demo_start_def by (rule sm_step [OF sm_init]) (rule sm_exec.simps(1))

lemma demo_config:
  "outbound_batch_size (config demo_env) = 10" "file_lock (config demo_env)"
  "cfg_mode (config demo_env) = Batch" "cfg_metadata_mode (config demo_env) = MLocal"
  by (simp_all add: demo_env_def mem_env_def from_lookup_def parse_usize_def parse_enabled_def
      parse_sync_mode_def parse_metadata_mode_def)

text \<open>
  C38. The manager's bookkeeping is sound in every reachable state, whatever the store, the local
  file system and other clients do: the queue holds at most one operation per path; the table has
  one entry per path, referenced by at least one open descriptor, not half released, never at once
  dirty and to be deleted; and no leased path has a queued upload, so that the background flush
  cannot race with the upload at close.
\<close>

theorem manager_invariant:
  assumes "sm_reachable X m"
  shows "distinct (map op_path (outbound_queue m)) \<and> distinct (lt_paths (leases m)) \<and>
    (\<forall>p l. lt_get (leases m) p = Some l \<longrightarrow>
       1 \<le> refcount l \<and> \<not> releasing l \<and> \<not> (dirty l \<and> pending_delete l) \<and> Upload p \<notin> set (outbound_queue m))"
proof -
  have "sm_inv m" using assms by induction (auto intro: sm_inv_new sm_inv_exec)
  then show ?thesis by (simp add: sm_inv_def book_ok_def lease_ok_def)
qed

theorem manager_invariant_witness:
  "outbound_queue demo_queued = [Upload ''/f''] \<and> distinct (map op_path (outbound_queue demo_queued))"
  using manager_invariant [OF demo_queued_reachable]
  by (simp add: demo_queued_def demo_start_def sm_new_def enqueue_upload_def is_locked_get lt_get_def requeue_def
      instant_now_def)

lemma sm_reachable_inv: "sm_reachable X m \<Longrightarrow> sm_inv m"
  by (induction rule: sm_reachable.induct) (auto intro: sm_inv_new sm_inv_exec)

text \<open>
  C39. \<open>force_flush\<close> returns if and only if the batch size is positive or nothing is queued: with a
  positive batch size every round that does not fail shortens the queue, and a successful return
  means that the queue is empty; with batch size zero, which the configuration accepts, it spins.
\<close>

theorem force_flush_terminates:
  assumes "sm_reachable X m"
  shows "((\<exists>fuel r. force_flush fuel X m = Some r) \<longleftrightarrow> 0 < outbound_batch_size (config X) \<or> outbound_queue m = [])
    \<and> (\<forall>fuel k m'. force_flush fuel X m = Some (Inr k, m') \<longrightarrow> outbound_queue m' = [])"
proof -
  note inv = sm_reachable_inv [OF assms]
  have "\<exists>r. force_flush (Suc (length (outbound_queue m))) X m = Some r" if "0 < outbound_batch_size (config X)"
    using force_flush_returns [OF inv that, of "Suc (length (outbound_queue m))" 0] unfolding force_flush_def by simp
  moreover have "force_flush (Suc 0) X m = Some (Inr 0, m)" if "outbound_queue m = []"
    using that by (simp add: force_flush_def)
  moreover have "force_flush fuel X m = None" if "outbound_batch_size (config X) = 0" "outbound_queue m \<noteq> []" for fuel
    using force_flush_spins [OF that] by (simp add: force_flush_def)
  ultimately show ?thesis using force_flush_inv [OF inv] by (fastforce simp: force_flush_def)
qed

theorem force_flush_terminates_witness: "\<exists>fuel r. force_flush fuel demo_env demo_queued = Some r"
  using force_flush_terminates [OF demo_queued_reachable] by (simp add: demo_config)

text \<open>
  Shutting down leaves no lease behind: whatever fails on the way, after
  \<open>release_all_leases\<close> no path is leased.
\<close>

theorem release_all_releases:
  assumes "sm_reachable X m" and "release_all_leases X m = (r, m')"
  shows "\<not> is_locked m' p"
  using sm_inv_release_all [OF sm_reachable_inv [OF assms(1)] assms(2)] lt_paths_get [of p "leases m'"]
  by (simp add: is_locked_get)

theorem release_all_releases_witness: "\<not> is_locked (snd (release_all_leases demo_env demo_queued)) ''/f''"
  by (rule release_all_releases [OF demo_queued_reachable prod.collapse [symmetric]])

end
