(* ===== verification/Sync_Props.thy ===== *)
theory Sync_Props
  imports Sync_Inv
begin

text \<open>
  What the sync manager does to the store and to the local files, over the contracts of the two
  parts it connects: a compare-and-swap store that may fail (\<open>cas_store\<close>, \<open>reliable_store\<close> when it
  does not) and a local file system (\<open>whole_files\<close>). The locale \<open>sync_world\<close> joins them; it is
  interpreted on the in-memory store and \<open>fs-core\<close>.
\<close>

lemma keys_apart [simp]: "file_key p \<noteq> lock_key q" "lock_key q \<noteq> file_key p"
  by (simp_all add: file_key_def lock_key_def FILES_PREFIX_def LOCKS_PREFIX_def)

text \<open>The tag of an object is not the one a conditional write was based on.\<close>

fun not_based_on :: "string \<Rightarrow> precondition \<Rightarrow> bool" where
  "not_based_on e (IfMatch b) \<longleftrightarrow> e \<noteq> b"
| "not_based_on e IfNoneMatchAny \<longleftrightarrow> True"
| "not_based_on e NoCond \<longleftrightarrow> False"

text \<open>What an upload of \<open>data\<close> with precondition \<open>cond\<close> may do to the object: replace the version
  that the precondition names, create it when it is gone, or leave it alone; when it reports
  success without having written, another version is there.\<close>

definition upload_effect ::
  "string \<Rightarrow> bytes \<Rightarrow> precondition \<Rightarrow> store_view \<Rightarrow> 'e + string \<Rightarrow> store_view \<Rightarrow> bool" where
  "upload_effect k data cond v r v' \<longleftrightarrow>
     (case r of
        Inr e \<Rightarrow>
          v' = v(k \<mapsto> (data, e)) \<and> (cond_holds (v k) cond \<or> v k = None) \<or>
          v' = v \<and> (\<exists>b. v k = Some (b, e)) \<and> not_based_on e cond
      | Inl _ \<Rightarrow> v' = v)"

section \<open>An acquisition touches the lock object only\<close>

context cas_store
begin

lemma verify_lease_view:
  "verify_lease_landed S s k inst ep = (r, s') \<Longrightarrow> view s' = view s"
  using get_view [of s k _ s'] get_fail [of s k _ s']
  by (auto simp: verify_lease_landed_def split: prod.splits sum.splits option.splits)

lemma put_record_view:
  assumes "put_record S E p inst lease ep c rt hdr s clk = (r, s', clk')" and "k \<noteq> lock_key p"
  shows "view s' k = view s k"
proof -
  have put: "view t k = view s k" if "os_put S s (lock_key p) b c = (q, t)" for b q t
    using put_same_key [OF that assms(2)] .
  show ?thesis
    using assms(1) put verify_lease_view
    by (auto simp: put_record_def Let_def split: prod.splits sum.splits option.splits if_splits)
qed

lemma acquire_try_view:
  assumes "acquire_try S E p inst lease hdr s clk = (r, s', clk')" and "k \<noteq> lock_key p"
  shows "view s' k = view s k"
proof -
  obtain g t where g: "os_get S s (lock_key p) = (g, t)" by fastforce
  have "view t = view s" using g get_view [of s "lock_key p" _ t] get_fail [of s "lock_key p" _ t] by (cases g) auto
  then show ?thesis
    using assms(1) g put_record_view [OF _ assms(2)]
    by (auto simp: acquire_try_def Let_def split: sum.splits option.splits prod.splits if_splits)
qed

lemma acquire_loop_view:
  assumes "k \<noteq> lock_key p"
  shows "acquire_loop n S E p inst lease dl bo st hdr s clk = Some (r, s', clk') \<Longrightarrow> view s' k = view s k"
proof (induction n arbitrary: bo st hdr s clk)
  case (Suc n)
  obtain a s1 c1 where t: "acquire_try S E p inst lease hdr s clk = (a, s1, c1)" by (metis prod_cases3)
  note v = acquire_try_view [OF t assms]
  show ?case using Suc t v by (cases a) (auto simp: Let_def split: prod.splits if_splits)
qed simp

lemma acquire_view:
  "acquire n S E p inst lease tm s clk = Some (r, s', clk') \<Longrightarrow> k \<noteq> lock_key p \<Longrightarrow> view s' k = view s k"
  by (auto simp: acquire_def split: prod.splits dest: acquire_loop_view)

end

context reliable_store
begin

text \<open>An acquisition leaves a calm store calm.\<close>

lemma verify_lease_calm: "verify_lease_landed S s k inst ep = (r, s') \<Longrightarrow> calm s \<Longrightarrow> calm s'"
  using calm_get [of s k _ s']
  by (auto simp: verify_lease_landed_def split: prod.splits sum.splits option.splits)

lemma put_record_calm:
  assumes "put_record S E p inst lease ep c rt hdr s clk = (r, s', clk')" and "calm s" shows "calm s'"
proof -
  obtain w c1 where w: "now_ms E clk = (w, c1)" by fastforce
  obtain t c2 where t: "instant_now E c1 = (t, c2)" by fastforce
  obtain q s1 where o: "os_put S s (lock_key p) (lr_encode \<lparr>lr_instance = inst, lr_epoch = ep,
      lr_expires_ms = w + of_nat (as_millis lease), lr_path = p\<rparr>) c = (q, s1)" by fastforce
  obtain v s2 where v: "verify_lease_landed S s1 (lock_key p) inst ep = (v, s2)" by fastforce
  have "calm s1" using calm_put [OF assms(2) o] by simp
  moreover have "calm s2" by (rule verify_lease_calm [OF v \<open>calm s1\<close>])
  ultimately show ?thesis using assms(1) w t o v
    by (auto simp: put_record_def Let_def split: sum.splits option.splits if_splits)
qed

lemma acquire_try_calm:
  assumes "acquire_try S E p inst lease hdr s clk = (r, s', clk')" and "calm s" shows "calm s'"
proof -
  obtain g t where g: "os_get S s (lock_key p) = (g, t)" by fastforce
  have c: "calm t" using calm_get [OF assms(2) g] by simp
  have pr: "calm s2" if "put_record S E p inst lease ep cd rt hdr t k = (q, s2, k')" for ep cd rt k q s2 k'
    using put_record_calm [OF that c] .
  show ?thesis using assms(1) g c pr
    by (auto simp: acquire_try_def Let_def split: sum.splits option.splits prod.splits if_splits)
qed

lemma acquire_loop_calm:
  "calm s \<Longrightarrow> acquire_loop n S E p inst lease dl bo st hdr s clk = Some (r, s', clk') \<Longrightarrow> calm s'"
proof (induction n arbitrary: bo st hdr s clk)
  case (Suc n)
  obtain a s1 c1 where t: "acquire_try S E p inst lease hdr s clk = (a, s1, c1)" by (metis prod_cases3)
  note v = acquire_try_calm [OF t Suc.prems(1)]
  show ?case using Suc t v by (cases a) (auto simp: Let_def split: prod.splits if_splits)
qed simp

lemma acquire_calm: "calm s \<Longrightarrow> acquire n S E p inst lease tm s clk = Some (r, s', clk') \<Longrightarrow> calm s'"
  by (auto simp: acquire_def split: prod.splits dest: acquire_loop_calm)

text \<open>Without failures a lease that nobody holds is acquired in the first turn.\<close>

lemma acquire_free:
  assumes "calm s" and "view s (lock_key p) = None"
  shows "\<exists>a s' c'. acquire (Suc n) S E p inst lease tm s c = Some (Inr a, s', c') \<and> calm s'"
proof -
  obtain g s1 where g: "os_get S s (lock_key p) = (g, s1)" by fastforce
  then have g': "g = Inr None" "calm s1" "view s1 (lock_key p) = None"
    using calm_get [OF assms(1) g] get_view [of s "lock_key p" _ s1] assms(2) by (cases g; auto)+
  have ok: "\<exists>e s2. os_put S s1 (lock_key p) b IfNoneMatchAny = (Inr e, s2) \<and> calm s2" for b
    using calm_put [OF g'(2), of "lock_key p" b IfNoneMatchAny] g'(3)
    by (cases "os_put S s1 (lock_key p) b IfNoneMatchAny"; cases "fst (os_put S s1 (lock_key p) b IfNoneMatchAny)") auto
  have "\<exists>a s' c'. acquire_try S E p inst lease None s c1 = (Got a, s', c') \<and> calm s'" for c1
  proof -
    obtain w c2 where w: "now_ms E c1 = (w, c2)" by fastforce
    obtain t c3 where t: "instant_now E c2 = (t, c3)" by fastforce
    obtain e s2 where "os_put S s1 (lock_key p) (lr_encode \<lparr>lr_instance = inst, lr_epoch = 1,
        lr_expires_ms = w + of_nat (as_millis lease), lr_path = p\<rparr>) IfNoneMatchAny = (Inr e, s2)" "calm s2"
      using ok by blast
    then show ?thesis using g g' w t by (simp add: acquire_try_def put_record_def)
  qed
  then show ?thesis
    by (cases "instant_now E c") (auto simp: acquire_def, metis (no_types, lifting) attempt.simps(10) case_prod_conv)
qed

end

locale sync_world =
  reliable_store "se_store X" view calm + whole_files "se_fs X" lfile room same
  for X :: "('s, 'f) sync_env" and view calm lfile room same
begin

text \<open>Requests through the manager.\<close>

lemma head_request:
  assumes "on_store (\<lambda>s. head_file (se_store X) s p) m = (r, m')"
  shows "view (m_store m') = view (m_store m) \<and> (calm (m_store m) \<longrightarrow> calm (m_store m') \<and> is_ok r) \<and>
    (\<forall>x. r = Inr x \<longrightarrow> map_option fst x = map_option snd (view (m_store m) (file_key p)))"
proof -
  obtain h s' where h: "os_head (se_store X) (m_store m) (file_key p) = (h, s')" by fastforce
  show ?thesis
    using assms h head_view [of "m_store m" "file_key p" _ s'] head_fail [of "m_store m" "file_key p" _ s']
      calm_head [OF _ h]
    by (cases h) (auto simp: on_store_def head_file_def option.map_comp comp_def split: prod.splits)
qed

lemma get_request:
  assumes "on_store (\<lambda>s. get_file (se_store X) s p) m = (r, m')"
  shows "view (m_store m') = view (m_store m) \<and> (calm (m_store m) \<longrightarrow> calm (m_store m') \<and> is_ok r) \<and>
    (\<forall>x. r = Inr x \<longrightarrow> map_option (\<lambda>(b, e, t). (b, e)) x = view (m_store m) (file_key p))"
proof -
  obtain h s' where h: "os_get (se_store X) (m_store m) (file_key p) = (h, s')" by fastforce
  show ?thesis
    using assms h get_view [of "m_store m" "file_key p" _ s'] get_fail [of "m_store m" "file_key p" _ s']
      calm_get [OF _ h]
    by (cases h) (auto simp: on_store_def get_file_def option.map_comp comp_def case_prod_unfold split: prod.splits)
qed

lemma put_request:
  assumes "on_store (\<lambda>s. put_file (se_store X) s p b c) m = (r, m')"
  shows "(case r of Inr e \<Rightarrow> cond_holds (view (m_store m) (file_key p)) c \<and>
       view (m_store m') = (view (m_store m))(file_key p \<mapsto> (b, e)) | Inl _ \<Rightarrow> view (m_store m') = view (m_store m)) \<and>
    (calm (m_store m) \<longrightarrow> calm (m_store m') \<and>
      (if cond_holds (view (m_store m) (file_key p)) c then is_ok r
       else \<exists>e. r = Inl e \<and> is_precondition_failed e = (view (m_store m) (file_key p) \<noteq> None)
         \<and> is_not_found e = (view (m_store m) (file_key p) = None)))"
proof -
  obtain s' where h: "os_put (se_store X) (m_store m) (file_key p) b c = (r, s')" and m': "m' = m\<lparr>m_store := s'\<rparr>"
    using assms by (auto simp: on_store_def put_file_def split: prod.splits)
  show ?thesis
    using m' h put_ok [of "m_store m" "file_key p" b c _ s'] put_fail [of "m_store m" "file_key p" b c _ s'] calm_put [OF _ h]
    by (cases r) auto
qed

lemma passthrough_view:
  assumes "passthrough_checks X p m = (r, m')"
  shows "view (m_store m') = view (m_store m) \<and> m_fs m' = m_fs m \<and> m_cache m' = m_cache m \<and>
    (calm (m_store m) \<longrightarrow> calm (m_store m') \<and> is_ok r)"
proof -
  have dm: "view s' = view s \<and> (calm s \<longrightarrow> calm s' \<and> is_ok q)" if "head_dir_marker (se_store X) s p = (q, s')" for q s s'
    using that head_view head_fail calm_head
    by (cases "os_head (se_store X) s (dir_marker_key p)"; cases "fst (os_head (se_store X) s (dir_marker_key p))")
       (fastforce simp: head_dir_marker_def)+
  have ch: "view s' = view s \<and> (calm s \<longrightarrow> calm s' \<and> is_ok q)" if "has_children (se_store X) s p = (q, s')" for q s s'
    using that list_view calm_list
    by (cases "os_list (se_store X) s (dir_marker_key p) (Some 2)"; cases "fst (os_list (se_store X) s (dir_marker_key p) (Some 2))")
       (fastforce simp: has_children_def)+
  have hf: "view s' = view s \<and> (calm s \<longrightarrow> calm s' \<and> is_ok q)" if "head_file (se_store X) s p = (q, s')" for q s s'
    using that head_view head_fail calm_head
    by (cases "os_head (se_store X) s (file_key p)"; cases "fst (os_head (se_store X) s (file_key p))")
       (fastforce simp: head_file_def)+
  show ?thesis
    using assms
    by (auto simp: passthrough_checks_def on_store_def split: if_splits prod.splits sum.splits dest!: hf dm ch)
qed

text \<open>The guarded PUT.\<close>

lemma verify_effect:
  assumes "verify_upload_landed X p c m = (r, m')"
  shows "view (m_store m') = view (m_store m) \<and> m_fs m' = m_fs m \<and> m_cache m' = m_cache m \<and>
    (\<forall>e. r = Some e \<longrightarrow> (\<exists>b. view (m_store m) (file_key p) = Some (b, e)) \<and> not_based_on e c)"
proof -
  obtain q m1 where h: "on_store (\<lambda>s. head_file (se_store X) s p) m = (q, m1)" by fastforce
  note v = head_request [OF h] and fr = on_storeD [OF h]
  have m': "m' = m1" using assms h by (auto simp: verify_upload_landed_def split: sum.splits option.splits prod.splits)
  have "(\<exists>b. view (m_store m) (file_key p) = Some (b, e)) \<and> not_based_on e c" if e: "r = Some e" for e
  proof -
    obtain t z where q: "q = Inr (Some (e, t, z))"
      using assms h e by (auto simp: verify_upload_landed_def split: sum.splits option.splits prod.splits if_splits)
    then have "map_option snd (view (m_store m) (file_key p)) = Some e" using v by simp
    moreover have "not_based_on e c"
      using assms h e q by (cases c) (auto simp: verify_upload_landed_def split: if_splits)
    ultimately show ?thesis by (cases "view (m_store m) (file_key p)") auto
  qed
  then show ?thesis using m' v fr by blast
qed

lemma put_upload_effect:
  assumes run: "put_upload X p data c m = (r, m')"
  shows "upload_effect (file_key p) data c (view (m_store m)) r (view (m_store m')) \<and> m_fs m' = m_fs m \<and> m_cache m' = m_cache m"
proof -
  let ?v = "view (m_store m)" and ?k = "file_key p"
  obtain q1 m1 where 1: "on_store (\<lambda>s. put_file (se_store X) s p data c) m = (q1, m1)" by fastforce
  note p1 = put_request [OF 1] and f1 = on_storeD [OF 1]
  show ?thesis
  proof (cases q1)
    case (Inr e)
    then show ?thesis using run 1 p1 f1 by (auto simp: put_upload_def upload_effect_def)
  next
    case (Inl e)
    have v1: "view (m_store m1) = ?v" using p1 Inl by simp
    have again: "upload_effect ?k data c ?v r (view (m_store m')) \<and> m_fs m' = m_fs m \<and> m_cache m' = m_cache m"
      if 2: "on_store (\<lambda>s. put_file (se_store X) s p data IfNoneMatchAny) m2 = (r, m')" and v2: "view (m_store m2) = ?v"
        and f2: "m_fs m2 = m_fs m" "m_cache m2 = m_cache m" for m2
      using put_request [OF 2] on_storeD [OF 2] v2 f2 by (cases r) (auto simp: upload_effect_def)
    obtain q3 m3 where 3: "on_store (\<lambda>s. head_file (se_store X) s p) m1 = (q3, m3)" by fastforce
    have v3: "view (m_store m3) = ?v" "m_fs m3 = m_fs m" "m_cache m3 = m_cache m"
      using head_request [OF 3] on_storeD [OF 3] v1 f1 by simp_all
    consider (create) "is_not_found e \<and> is_if_match c"
      | (spurious) "\<not> (is_not_found e \<and> is_if_match c)" "is_precondition_failed e \<and> c = IfNoneMatchAny"
      | (landed) "\<not> (is_not_found e \<and> is_if_match c)" "\<not> is_precondition_failed e"
      | (rejected) "\<not> (is_not_found e \<and> is_if_match c)" "\<not> (is_precondition_failed e \<and> c = IfNoneMatchAny)" "is_precondition_failed e"
      by blast
    then show ?thesis
    proof cases
      case create
      then have "on_store (\<lambda>s. put_file (se_store X) s p data IfNoneMatchAny) m1 = (r, m')"
        using run 1 Inl by (simp add: put_upload_def)
      then show ?thesis using again v1 f1 by blast
    next
      case spurious
      then have "on_store (\<lambda>s. put_file (se_store X) s p data IfNoneMatchAny) m3 = (r, m') \<or> (\<not> is_ok r \<and> m' = m3)"
        using run 1 Inl 3 by (auto simp: put_upload_def split: sum.splits option.splits)
      then show ?thesis using again v3 by (cases r) (auto simp: upload_effect_def)
    next
      case landed
      obtain q4 m4 where 4: "verify_upload_landed X p c m1 = (q4, m4)" by fastforce
      note e4 = verify_effect [OF 4]
      have "(case q4 of Some t \<Rightarrow> r = Inr t | None \<Rightarrow> r = Inl e) \<and> m' = m4"
        using run 1 Inl landed 4 by (auto simp: put_upload_def split: option.splits)
      then show ?thesis using e4 v1 f1 by (cases q4) (auto simp: upload_effect_def)
    next
      case rejected
      then have "r = Inl e \<and> m' = m1" using run 1 Inl by (auto simp: put_upload_def split: if_splits)
      then show ?thesis using v1 f1 by (simp add: upload_effect_def)
    qed
  qed
qed

text \<open>Without failures the object alone decides.\<close>

lemma put_upload_calm:
  assumes run: "put_upload X p data c m = (r, m')" and calm: "calm (m_store m)"
  shows "calm (m_store m') \<and>
    (if cond_holds (view (m_store m) (file_key p)) c \<or> view (m_store m) (file_key p) = None
     then \<exists>e. r = Inr e \<and> view (m_store m') = (view (m_store m))(file_key p \<mapsto> (data, e))
     else \<exists>e. r = Inl e \<and> is_precondition_failed e \<and> view (m_store m') = view (m_store m))"
proof -
  let ?v = "view (m_store m)" and ?k = "file_key p"
  obtain q1 m1 where 1: "on_store (\<lambda>s. put_file (se_store X) s p data c) m = (q1, m1)" by fastforce
  note p1 = put_request [OF 1]
  show ?thesis
  proof (cases q1)
    case (Inr e)
    then show ?thesis using run 1 p1 calm by (auto simp: put_upload_def split: if_splits)
  next
    case (Inl e)
    then have n: "\<not> cond_holds (?v ?k) c" "view (m_store m1) = ?v" "calm (m_store m1)"
        "is_precondition_failed e = (?v ?k \<noteq> None)" "is_not_found e = (?v ?k = None)"
      using p1 calm by (auto split: if_splits)
    show ?thesis
    proof (cases "?v ?k")
      case None
      then have "is_if_match c" "is_not_found e" using n by (cases c; simp)+
      then have 2: "on_store (\<lambda>s. put_file (se_store X) s p data IfNoneMatchAny) m1 = (r, m')"
        using run 1 Inl by (simp add: put_upload_def)
      show ?thesis using put_request [OF 2] n None by (cases r) auto
    next
      case (Some be)
      obtain q3 m3 where 3: "on_store (\<lambda>s. head_file (se_store X) s p) m1 = (q3, m3)" by fastforce
      have v3: "view (m_store m3) = ?v" "calm (m_store m3)" "\<exists>t. q3 = Inr (Some t)"
        using head_request [OF 3] n Some by (cases q3; auto)+
      have pf: "is_precondition_failed e" "\<not> is_not_found e" using n Some by simp_all
      have "r = Inl e \<and> (m' = m1 \<or> m' = m3)"
        using run 1 Inl 3 v3(3) pf by (auto simp: put_upload_def split: if_splits)
      then show ?thesis using n pf v3 Some by auto
    qed
  qed
qed

lemma upload_split:
  assumes "upload_with_cond X p c m = (r, m')"
  obtains (read) e f where "read_file_content (se_fs X) (m_fs m) p = (Inl e, f)" "r = Inl (fs_error_of p e)" "m' = m\<lparr>m_fs := f\<rparr>"
  | (check) data f e m1 where "read_file_content (se_fs X) (m_fs m) p = (Inr data, f)"
      "passthrough_checks X p (m\<lparr>m_fs := f\<rparr>) = (Inl e, m1)" "r = Inl (SyncS3 e)" "m' = m1"
  | (put) data f m1 q m2 where "read_file_content (se_fs X) (m_fs m) p = (Inr data, f)"
      "passthrough_checks X p (m\<lparr>m_fs := f\<rparr>) = (Inr (), m1)" "put_upload X p data c m1 = (q, m2)"
      "case q of Inl e \<Rightarrow> r = Inl (SyncS3 e) \<and> m' = m2
       | Inr e \<Rightarrow> r = Inr e \<and> (\<exists>lm. m' = modify_lease p (\<lambda>l. l\<lparr>base_etag := Some e, dirty := False\<rparr>)
           (cache_uploaded X p e (of_nat (length data)) lm m2))"
proof -
  obtain r1 f where 1: "read_file_content (se_fs X) (m_fs m) p = (r1, f)" by fastforce
  obtain r2 m1 where 2: "passthrough_checks X p (m\<lparr>m_fs := f\<rparr>) = (r2, m1)" by fastforce
  show ?thesis
  proof (cases r1)
    case (Inl e)
    then have "r = Inl (fs_error_of p e) \<and> m' = m\<lparr>m_fs := f\<rparr>"
      using assms 1 by (auto simp: upload_with_cond_def on_fs_def)
    then show ?thesis using 1 Inl read by blast
  next
    case (Inr data)
    note r1 = this
    obtain q m2 where 3: "put_upload X p data c m1 = (q, m2)" by fastforce
    show ?thesis
    proof (cases r2)
      case (Inl e)
      have "r = Inl (SyncS3 e) \<and> m' = m1"
        using assms 1 2 r1 Inl by (auto simp: upload_with_cond_def on_fs_def Let_def)
      then show ?thesis using check [of data f e m1] 1 2 r1 Inl by blast
    next
      case (Inr u)
      note r2 = this
      show ?thesis
      proof (rule put [of data f m1 q m2])
        show "case q of Inl e \<Rightarrow> r = Inl (SyncS3 e) \<and> m' = m2
         | Inr e \<Rightarrow> r = Inr e \<and> (\<exists>lm. m' = modify_lease p (\<lambda>l. l\<lparr>base_etag := Some e, dirty := False\<rparr>)
             (cache_uploaded X p e (of_nat (length data)) lm m2))"
          using assms 1 2 3 r1 r2
          by (cases q) (auto simp: upload_with_cond_def on_fs_def Let_def)
      qed (use 1 2 3 r1 r2 in simp_all)
    qed
  qed
qed

lemma mc_get_cache_uploaded:
  "map_option sm_etag (mc_get (m_cache (cache_uploaded X p e z lm m)) q) =
    (if q = p then Some e else map_option sm_etag (mc_get (m_cache m) q))"
  by (simp add: cache_uploaded_def split: prod.split)

lemma upload_outcome:
  assumes run: "upload_with_cond X p c m = (r, m')" and rm: "room (Suc n) (m_fs m)"
  shows "room n (m_fs m') \<and> lfile (m_fs m') = lfile (m_fs m) \<and>
    (case r of
       Inl _ \<Rightarrow> view (m_store m') = view (m_store m) \<and> m_cache m' = m_cache m
     | Inr e \<Rightarrow>
         (\<exists>data. fst (read_file_content (se_fs X) (m_fs m) p) = Inr data \<and>
            upload_effect (file_key p) data c (view (m_store m)) r (view (m_store m'))) \<and>
         (\<forall>q. map_option sm_etag (mc_get (m_cache m') q) = (if q = p then Some e else map_option sm_etag (mc_get (m_cache m) q))))"
  using run
proof (cases rule: upload_split)
  case (read e f)
  then show ?thesis using read_frame [OF rm read(1)] by simp
next
  case (check data f e m1)
  then show ?thesis using read_frame [OF rm check(1)] passthrough_view [OF check(2)] by simp
next
  case (put data f m1 q m2)
  note fr = read_frame [OF rm put(1)] and pv = passthrough_view [OF put(2)] and pu = put_upload_effect [OF put(3)]
  show ?thesis
  proof (cases q)
    case (Inl e)
    then show ?thesis using put fr pv pu by (simp add: upload_effect_def)
  next
    case (Inr e)
    then obtain lm where m': "r = Inr e" "m' = modify_lease p (\<lambda>l. l\<lparr>base_etag := Some e, dirty := False\<rparr>)
        (cache_uploaded X p e (of_nat (length data)) lm m2)" using put by auto
    have "upload_effect (file_key p) data c (view (m_store m)) r (view (m_store m'))"
      using pu pv Inr m' by (simp add: sync_frame upload_effect_def)
    then show ?thesis using put(1) fr pv pu m' by (simp add: sync_frame mc_get_cache_uploaded)
  qed
qed

lemma upload_calm:
  assumes run: "upload_with_cond X p c m = (r, m')" and rm: "room (Suc n) (m_fs m)" and calm: "calm (m_store m)"
    and data: "lfile (m_fs m) p = Some data" "length data < 2 ^ 64"
  shows "calm (m_store m') \<and>
    (if cond_holds (view (m_store m) (file_key p)) c \<or> view (m_store m) (file_key p) = None
     then \<exists>e. r = Inr e \<and> view (m_store m') = (view (m_store m))(file_key p \<mapsto> (data, e))
     else \<exists>e. r = Inl e \<and> rejected e \<and> view (m_store m') = view (m_store m))"
  using run
proof (cases rule: upload_split)
  case (read e f)
  then show ?thesis using read_some [OF rm data] by simp
next
  case (check d f e m1)
  then show ?thesis using passthrough_view [OF check(2)] calm by simp
next
  case (put d f m1 q m2)
  have d: "d = data" using read_some [OF rm data] put(1) by simp
  have pv: "view (m_store m1) = view (m_store m)" "calm (m_store m1)" using passthrough_view [OF put(2)] calm by simp_all
  show ?thesis
    using put(4) put_upload_calm [OF put(3) pv(2)] pv(1) d
    by (cases q) (auto simp: sync_frame rejected_def split: if_splits)
qed

text \<open>Refreshing the local copy.\<close>

lemma refresh_outcome:
  assumes run: "refresh_local_from_remote X p m = (b, m')" and rm: "room (Suc n + length p) (m_fs m)"
  shows "room n (m_fs m') \<and> view (m_store m') = view (m_store m) \<and> (calm (m_store m) \<longrightarrow> calm (m_store m')) \<and>
    (\<forall>q. \<not> same q p \<longrightarrow> lfile (m_fs m') q = lfile (m_fs m) q) \<and>
    (if b then \<exists>d e. view (m_store m) (file_key p) = Some (d, e) \<and> lfile (m_fs m') p = Some d \<and>
         map_option sm_etag (mc_get (m_cache m') p) = Some e
     else lfile (m_fs m') p = lfile (m_fs m) p)"
proof -
  obtain g m1 where 1: "on_store (\<lambda>s. get_file (se_store X) s p) m = (g, m1)" by fastforce
  note g = get_request [OF 1] and fr = on_storeD [OF 1]
  have low: "room n (m_fs m)" by (rule room_le [OF rm]) simp
  consider (none) "\<forall>x. g \<noteq> Inr (Some x)" | (some) d e t where "g = Inr (Some (d, e, t))"
    by (metis prod_cases3)
  then show ?thesis
  proof cases
    case none
    then have "b = False" "m_store m' = m_store m1" "m_fs m' = m_fs m1"
      using run 1 by (auto simp: refresh_local_from_remote_def sync_frame split: sum.splits option.splits)
    then show ?thesis using g fr low by simp
  next
    case some
    obtain w f where w: "write_file_content (se_fs X) (m_fs m1) p d = (w, f)" by fastforce
    have rm1: "room (Suc n + length p) (m_fs m1)" using rm fr by simp
    note wl = write_law [OF rm1 w]
    have vw: "view (m_store m) (file_key p) = Some (d, e)" using g some by simp
    have m': "case w of Inl _ \<Rightarrow> b = False \<and> m' = m1\<lparr>m_fs := f\<rparr>
      | Inr _ \<Rightarrow> b = True \<and> m' = modify_lease p (\<lambda>l. l\<lparr>base_etag := Some e, dirty := False\<rparr>)
          (cache_downloaded p e t d (m1\<lparr>m_fs := f\<rparr>))"
      using run 1 some w by (auto simp: refresh_local_from_remote_def on_fs_def split: sum.splits)
    show ?thesis
      using wl m' g fr vw by (cases w) (auto simp: sync_frame cache_downloaded_def)
  qed
qed

lemma cond_holds_base: "cond_holds cur (base_cond b) \<or> cur = None \<longleftrightarrow> cur = None \<or> map_option snd cur = b"
  by (cases b; cases cur) (auto simp: base_cond_def)

text \<open>The push of a dirty lease: fenced by the pinned base.\<close>

lemma flush_dirty:
  assumes run: "flush_lease X p l m = (r, m')" and d: "dirty l" "\<not> pending_delete l"
    and rm: "room (Suc (Suc n) + length p) (m_fs m)"
  shows "room n (m_fs m') \<and>
    (case r of
       Inl _ \<Rightarrow> view (m_store m') = view (m_store m)
     | Inr _ \<Rightarrow> \<exists>data e. fst (read_file_content (se_fs X) (m_fs m) p) = Inr data \<and>
         upload_effect (file_key p) data (base_cond (base_etag l)) (view (m_store m)) (Inr e :: sync_error + string) (view (m_store m')))"
proof -
  obtain q m1 where u: "upload_with_cond X p (base_cond (base_etag l)) m = (q, m1)" by fastforce
  have rm': "room (Suc (Suc n + length p)) (m_fs m)" using rm by simp
  note o = upload_outcome [OF u rm']
  have low: "room n (m_fs m1)" by (rule room_le [of "Suc n + length p"]) (use o in simp_all)
  show ?thesis
  proof (cases q)
    case (Inr e)
    then have "r = Inr ()" "m' = m1" using run d u by (simp_all add: flush_lease_def)
    then show ?thesis using o low Inr by auto
  next
    case (Inl e)
    obtain b m2 where rf: "refresh_local_from_remote X p m1 = (b, m2)" by fastforce
    have "(\<exists>err. r = Inl err) \<and> (m' = m1 \<or> m' = m2)"
      using run d u Inl rf by (auto simp: flush_lease_def split: if_splits)
    then show ?thesis using o low Inl refresh_outcome [OF rf, of n] by auto
  qed
qed

lemma flush_dirty_calm:
  assumes run: "flush_lease X p l m = (r, m')" and d: "dirty l" "\<not> pending_delete l" and calm: "calm (m_store m)"
    and rm: "room (Suc (Suc n) + length p) (m_fs m)" and data: "lfile (m_fs m) p = Some data" "length data < 2 ^ 64"
  shows "if view (m_store m) (file_key p) = None \<or> map_option snd (view (m_store m) (file_key p)) = base_etag l
    then r = Inr () \<and> (\<exists>e. view (m_store m') = (view (m_store m))(file_key p \<mapsto> (data, e)))
    else \<exists>b. r = Inl (Conflict p b) \<and> view (m_store m') = view (m_store m) \<and>
      (b \<longrightarrow> lfile (m_fs m') p = map_option fst (view (m_store m) (file_key p)))"
proof -
  obtain q m1 where u: "upload_with_cond X p (base_cond (base_etag l)) m = (q, m1)" by fastforce
  have rm': "room (Suc (Suc n + length p)) (m_fs m)" using rm by simp
  note o = upload_outcome [OF u rm'] and c = upload_calm [OF u rm' calm data, unfolded cond_holds_base]
  show ?thesis
  proof (cases q)
    case (Inr e)
    then have "r = Inr ()" "m' = m1" using run d u by (simp_all add: flush_lease_def)
    then show ?thesis using c Inr by (auto split: if_splits)
  next
    case (Inl e)
    obtain b m2 where rf: "refresh_local_from_remote X p m1 = (b, m2)" by fastforce
    have e: "rejected e" "view (m_store m1) = view (m_store m)"
      "\<not> (view (m_store m) (file_key p) = None \<or> map_option snd (view (m_store m) (file_key p)) = base_etag l)"
      using c Inl by (auto split: if_splits)
    then have "r = Inl (Conflict p b)" "m' = m2" using run d u Inl rf by (simp_all add: flush_lease_def)
    then show ?thesis using e refresh_outcome [OF rf, of n] o by auto
  qed
qed

lemma release_effect:
  "view (m_store (release_lock X p t m)) = view (m_store m) \<or>
    view (m_store (release_lock X p t m)) = (view (m_store m))(lock_key p := None) \<and>
    map_option snd (view (m_store m) (lock_key p)) = Some t"
proof -
  obtain r s' where d: "os_delete (se_store X) (m_store m) (lock_key p) (IfMatch t) = (r, s')" by fastforce
  show ?thesis
    using d delete_ok [of "m_store m" "lock_key p" "IfMatch t" _ s'] delete_fail [of "m_store m" "lock_key p" "IfMatch t" _ s']
    by (cases r) (auto simp: release_lock_def release_def fun_upd_idem)
qed

text \<open>Taking a lease on a path without a queued upload.\<close>

lemma head_refresh_outcome:
  assumes run: "head_and_refresh X p m = (Inr (b, rf), m')" and rm: "room (Suc n + length p) (m_fs m)"
  shows "room n (m_fs m') \<and> view (m_store m') = view (m_store m) \<and>
    (b = map_option snd (view (m_store m) (file_key p)) \<and>
     (case view (m_store m) (file_key p) of
       None \<Rightarrow> m_fs m' = m_fs m
     | Some (d, e) \<Rightarrow> map_option sm_etag (mc_get (m_cache m) p) = Some e \<and> m_fs m' = m_fs m \<or> lfile (m_fs m') p = Some d))"
proof -
  obtain h m1 where 1: "on_store (\<lambda>s. head_file (se_store X) s p) m = (h, m1)" by fastforce
  note hq = head_request [OF 1] and f1 = on_storeD [OF 1]
  obtain g m2 where 2: "on_store (\<lambda>s. get_file (se_store X) s p) m1 = (g, m2)" by fastforce
  note gq = get_request [OF 2] and f2 = on_storeD [OF 2]
  have low: "room n (m_fs m)" by (rule room_le [OF rm]) simp
  consider (none) "h = Inr None" | (some) e z where "h = Inr (Some (e, z))"
    using run 1 by (cases h; cases "projr h") (auto simp: head_and_refresh_def)
  then show ?thesis
  proof cases
    case none
    then have "b = None" "m' = m1" using run 1 by (auto simp: head_and_refresh_def)
    then show ?thesis using hq f1 low none by (auto split: option.splits)
  next
    case some
    obtain d0 where rem: "view (m_store m) (file_key p) = Some (d0, e)"
      using hq some by (cases "view (m_store m) (file_key p)") auto
    show ?thesis
    proof (cases "map_option sm_etag (mc_get (m_cache m) p) = Some e")
      case True
      then have "b = Some e" "m' = m1" using run 1 some f1
        by (auto simp: head_and_refresh_def split: option.splits prod.splits)
      then show ?thesis using hq f1 low rem True by simp
    next
      case False
      then have need: "(case mc_get (m_cache m1) p of Some md \<Rightarrow> e \<noteq> sm_etag md | None \<Rightarrow> True)"
        using f1 by (auto split: option.splits)
      have "map_option (\<lambda>(b, e, t). (b, e)) (projr g) = Some (d0, e)" if "is_ok g"
        using gq hq rem that by (cases g) auto
      moreover have "is_ok g" using run 1 2 some need by (cases g) (auto simp: head_and_refresh_def split: prod.splits)
      ultimately obtain t where g: "g = Inr (Some (d0, e, t))" by (cases g) auto
      obtain w f where w: "write_file_content (se_fs X) (m_fs m2) p d0 = (w, f)" by fastforce
      have ok: "w = Inr ()" "b = Some e" "m' = cache_downloaded p e t d0 (m2\<lparr>m_fs := f\<rparr>)"
        using run 1 2 some need g w by (cases w; auto simp: head_and_refresh_def on_fs_def split: prod.splits)+
      have rm2: "room (Suc n + length p) (m_fs m2)" using rm f1 f2 by simp
      show ?thesis using write_law [OF rm2 w] ok hq gq rem by (simp add: sync_frame)
    qed
  qed
qed

lemma open_fresh:
  assumes run: "on_open_write n X p m = Some (Inr (), m')" and lock: "file_lock (config X)"
    and free: "\<not> is_locked m p" and q: "Upload p \<notin> set (outbound_queue m)"
  obtains a m1 m2 base rf where "m_fs m1 = m_fs m" "m_cache m1 = m_cache m" "outbound_queue m1 = outbound_queue m"
    "\<And>k. k \<noteq> lock_key p \<Longrightarrow> view (m_store m1) k = view (m_store m) k"
    "head_and_refresh X p m1 = (Inr (base, rf), m2)" "m' = m2\<lparr>leases := lt_insert (leases m2) p (fresh_lease base a)\<rparr>"
    "calm (m_store m) \<Longrightarrow> calm (m_store m1)"
proof -
  have "n \<noteq> 0" using run lock by (cases n) (auto simp: on_open_write_def)
  then obtain k where "n = Suc k" by (cases n) auto
  then have j: "join_lease n p m = Some (False, m)" using free by (simp add: is_locked_get)
  obtain ra s c where a: "acquire n (se_store X) (se_time X) p (instance_id m) (lock_lease (config X))
      (lock_timeout (config X)) (m_store m) (m_clk m) = Some (ra, s, c)"
    using run lock j by (cases "acquire n (se_store X) (se_time X) p (instance_id m) (lock_lease (config X))
      (lock_timeout (config X)) (m_store m) (m_clk m)") (auto simp: on_open_write_def)
  obtain aq where ra: "ra = Inr aq" using run lock j a by (cases ra) (auto simp: on_open_write_def Let_def)
  define m0 where "m0 = m\<lparr>m_store := s, m_clk := c\<rparr>"
  have nl: "\<not> is_locked m0 p" using free by (simp add: m0_def is_locked_def)
  have qq: "filter (\<lambda>op. op \<noteq> Upload p) (outbound_queue m) = outbound_queue m" using q by (auto simp: filter_id_conv)
  then have t: "take_queued_upload p m0 = (False, m0)" by (simp add: take_queued_upload_def m0_def Let_def)
  obtain hr m2 where h: "head_and_refresh X p m0 = (hr, m2)" by fastforce
  obtain base rf where hr: "hr = Inr (base, rf)" "m' = m2\<lparr>leases := lt_insert (leases m2) p (fresh_lease base aq)\<rparr>"
    using run lock j a ra nl t h by (cases hr) (auto simp: on_open_write_def adopt_base_def m0_def Let_def)
  show ?thesis
    using that [of m0 base rf m2 aq] h hr acquire_view [OF a] acquire_calm [OF _ a] by (simp add: m0_def)
qed

lemma head_refresh_calm:
  "calm (m_store m) \<Longrightarrow> head_and_refresh X p m = (r, m') \<Longrightarrow> calm (m_store m')"
  by (auto simp: head_and_refresh_def Let_def on_fs_def sync_frame split: prod.splits sum.splits option.splits if_splits
      dest!: head_request get_request)

text \<open>The state after such an open: a clean lease on the current remote version.\<close>

lemma open_clean:
  assumes run: "on_open_write n X p m = Some (Inr (), m')" and lock: "file_lock (config X)"
    and free: "\<not> is_locked m p" and q: "Upload p \<notin> set (outbound_queue m)" and rm: "room (Suc k + length p) (m_fs m)"
  shows "room k (m_fs m') \<and> (calm (m_store m) \<longrightarrow> calm (m_store m')) \<and>
    view (m_store m') (file_key p) = view (m_store m) (file_key p) \<and> outbound_queue m' = outbound_queue m \<and>
    (\<exists>a. lt_get (leases m') p = Some (fresh_lease (map_option snd (view (m_store m) (file_key p))) a)) \<and>
    (view (m_store m) (file_key p) = None \<longrightarrow> m_fs m' = m_fs m)"
proof -
  obtain a m1 m2 base rf where o: "m_fs m1 = m_fs m" "outbound_queue m1 = outbound_queue m"
    "\<And>k. k \<noteq> lock_key p \<Longrightarrow> view (m_store m1) k = view (m_store m) k"
    "head_and_refresh X p m1 = (Inr (base, rf), m2)"
    "m' = m2\<lparr>leases := lt_insert (leases m2) p (fresh_lease base a)\<rparr>" "calm (m_store m) \<Longrightarrow> calm (m_store m1)"
    using open_fresh [OF run lock free q] by metis
  have "room (Suc k + length p) (m_fs m1)" using rm o(1) by simp
  note hr = head_refresh_outcome [OF o(4) this]
  have "view (m_store m1) (file_key p) = view (m_store m) (file_key p)" using o(3) by simp
  moreover have "outbound_queue m2 = outbound_queue m" using same_book_head_refresh [OF o(4)] o(2) by (simp add: same_book_def)
  ultimately show ?thesis
    using hr o(1,5,6) head_refresh_calm [OF _ o(4)] by (auto simp: lease_table_simps split: option.splits)
qed

lemma open_free:
  assumes "calm (m_store m)" and "view (m_store m) (lock_key p) = None" and "view (m_store m) (file_key p) = None"
    and "file_lock (config X)" and "\<not> is_locked m p" and "Upload p \<notin> set (outbound_queue m)"
  shows "\<exists>m'. on_open_write (Suc n) X p m = Some (Inr (), m')"
proof -
  obtain a s c where a: "acquire (Suc n) (se_store X) (se_time X) p (instance_id m) (lock_lease (config X))
      (lock_timeout (config X)) (m_store m) (m_clk m) = Some (Inr a, s, c)" "calm s"
    using acquire_free [OF assms(1,2)] by blast
  define m0 where "m0 = m\<lparr>m_store := s, m_clk := c\<rparr>"
  have nl: "\<not> is_locked m0 p" using assms(5) by (simp add: m0_def is_locked_def)
  have "filter (\<lambda>op. op \<noteq> Upload p) (outbound_queue m) = outbound_queue m" using assms(6) by (auto simp: filter_id_conv)
  then have t: "take_queued_upload p m0 = (False, m0)" by (simp add: take_queued_upload_def m0_def Let_def)
  obtain h m1 where h: "on_store (\<lambda>s. head_file (se_store X) s p) m0 = (h, m1)" by fastforce
  have "view s (file_key p) = None" using acquire_view [OF a(1), of "file_key p"] assms(3) by simp
  then have "h = Inr None" using head_request [OF h] a(2) by (cases h) (auto simp: m0_def)
  then have "adopt_base X p a m0 = (Inr None, m1)" using t h by (simp add: adopt_base_def head_and_refresh_def)
  then show ?thesis
    using a assms(4,5) nl by (simp add: on_open_write_def is_locked_get m0_def Let_def)
qed

text \<open>The last close of a dirty lease.\<close>

lemma close_dirty:
  assumes run: "on_close X p m = (r, m')" and l: "lt_get (leases m) p = Some l" "refcount l \<le> 1"
  obtains m1 m2 where "m_store m1 = m_store m" "m_fs m1 = m_fs m"
    "flush_lease X p (l\<lparr>releasing := True\<rparr>) m1 = (r, m2)" "m_fs m' = m_fs m2"
    "m_store m' = m_store (release_lock X p (wl_lock_etag l) m2)" "\<not> is_locked m' p"
proof -
  define m1 where "m1 = modify_lease p (\<lambda>l. l\<lparr>releasing := True\<rparr>) m"
  obtain q m2 where f: "flush_lease X p (l\<lparr>releasing := True\<rparr>) m1 = (q, m2)" by fastforce
  have "q = r" "m' = (release_lock X p (wl_lock_etag l) m2)\<lparr>leases := lt_remove (leases m2) p\<rparr>"
    using run l f by (auto simp: on_close_def drop_lease_def m1_def Let_def sync_frame)
  then show ?thesis
    using that [of m1 m2] f by (simp add: m1_def sync_frame is_locked_get lease_table_simps release_lock_def)
qed

end

interpretation sw: sync_world "mem_env h E C" mem_view mem_calm file_at roomy same_file for h E C
  by (simp add: sync_world_def mem_env_def rs.reliable_store_axioms hf.whole_files_axioms)

section \<open>Closing a file\<close>

text \<open>A guarded replacement of one key followed by a guarded removal of another.\<close>

lemma replace_then_remove:
  assumes "v2 = v \<or> ok \<and> guard \<and> (\<exists>d e. R d \<and> v2 = v(k \<mapsto> (d, e)))"
    and "v3 = v2 \<or> v3 = v2(j := None) \<and> map_option snd (v2 j) = Some t" and "k \<noteq> j"
  shows "(\<forall>i. i \<noteq> k \<and> i \<noteq> j \<longrightarrow> v3 i = v i) \<and> (v3 j = v j \<or> v3 j = None \<and> map_option snd (v j) = Some t)
    \<and> (v3 k = v k \<or> ok \<and> guard \<and> (\<exists>d e. R d \<and> v3 k = Some (d, e)))"
  using assms by (elim disjE conjE exE) auto

text \<open>
  C9. The last close of a dirty file is fenced, even when requests fail. Of all objects only the
  file's and its lock can change. The file's object is left alone, or it is replaced by some
  content (what was read from the local file), and then it was gone or still carried the tag
  pinned when the lease was taken; if the close fails it is left alone. The lock disappears only
  while it carries the tag this instance holds. The path is not leased afterwards.
\<close>

theorem close_is_fenced:
  assumes "on_close (mem_env h E C) p m = (r, m')" and "lt_get (leases m) p = Some l" and "refcount l \<le> 1"
    and "dirty l" and "\<not> pending_delete l" and "roomy (length p + 2) (m_fs m)"
  shows "\<not> is_locked m' p
    \<and> (\<forall>k. k \<noteq> file_key p \<and> k \<noteq> lock_key p \<longrightarrow> mem_view (m_store m') k = mem_view (m_store m) k)
    \<and> (mem_view (m_store m') (lock_key p) = mem_view (m_store m) (lock_key p) \<or>
       mem_view (m_store m') (lock_key p) = None \<and>
       map_option snd (mem_view (m_store m) (lock_key p)) = Some (wl_lock_etag l))
    \<and> (mem_view (m_store m') (file_key p) = mem_view (m_store m) (file_key p) \<or>
       is_ok r \<and>
       (mem_view (m_store m) (file_key p) = None \<or> map_option snd (mem_view (m_store m) (file_key p)) = base_etag l) \<and>
       (\<exists>data e. fst (read_file_content host_fs (m_fs m) p) = Inr data \<and>
          mem_view (m_store m') (file_key p) = Some (data, e)))"
proof -
  obtain m1 m2 where c: "m_store m1 = m_store m" "m_fs m1 = m_fs m"
    "flush_lease (mem_env h E C) p (l\<lparr>releasing := True\<rparr>) m1 = (r, m2)"
    "m_store m' = m_store (release_lock (mem_env h E C) p (wl_lock_etag l) m2)" "\<not> is_locked m' p"
    using sw.close_dirty [OF assms(1-3)] by metis
  have rm: "roomy (Suc (Suc 0) + length p) (m_fs m1)" using assms(6) c(2) by simp
  have fl: "mem_view (m_store m2) = mem_view (m_store m) \<or>
      is_ok r \<and> (mem_view (m_store m) (file_key p) = None \<or> map_option snd (mem_view (m_store m) (file_key p)) = base_etag l) \<and>
      (\<exists>data e. fst (read_file_content host_fs (m_fs m) p) = Inr data \<and>
         mem_view (m_store m2) = (mem_view (m_store m))(file_key p \<mapsto> (data, e)))"
    using sw.flush_dirty [OF c(3) _ _ rm] assms(4,5) c(1,2)
    by (auto simp: upload_effect_def sw.cond_holds_base mem_env_def split: sum.splits)
  show ?thesis
    using replace_then_remove [OF fl sw.release_effect [of h E C p "wl_lock_etag l" m2, folded c(4)] keys_apart(1)] c(5)
    by blast
qed

text \<open>
  C10. When requests do not fail, the close of a dirty file succeeds exactly when the object is gone
  or still is the pinned version, and then the object holds the local bytes. Otherwise it reports a
  conflict, the remote version stays, and if the local copy was refreshed it equals it.
\<close>

theorem close_outcome:
  assumes "on_close (mem_env h E C) p m = (r, m')" and "lt_get (leases m) p = Some l" and "refcount l \<le> 1"
    and "dirty l" and "\<not> pending_delete l" and "mem_calm (m_store m)" and "roomy (length p + 2) (m_fs m)"
    and "file_at (m_fs m) p = Some data" and "length data < 2 ^ 64"
  shows "if mem_view (m_store m) (file_key p) = None \<or> map_option snd (mem_view (m_store m) (file_key p)) = base_etag l
    then r = Inr () \<and> map_option fst (mem_view (m_store m') (file_key p)) = Some data
    else \<exists>b. r = Inl (Conflict p b) \<and> mem_view (m_store m') (file_key p) = mem_view (m_store m) (file_key p) \<and>
      (b \<longrightarrow> file_at (m_fs m') p = map_option fst (mem_view (m_store m) (file_key p)))"
proof -
  obtain m1 m2 where c: "m_store m1 = m_store m" "m_fs m1 = m_fs m"
    "flush_lease (mem_env h E C) p (l\<lparr>releasing := True\<rparr>) m1 = (r, m2)" "m_fs m' = m_fs m2"
    "m_store m' = m_store (release_lock (mem_env h E C) p (wl_lock_etag l) m2)"
    using sw.close_dirty [OF assms(1-3)] by metis
  have rm: "roomy (Suc (Suc 0) + length p) (m_fs m1)" using assms(7) c(2) by simp
  have e: "mem_view (m_store m') (file_key p) = mem_view (m_store m2) (file_key p)"
    using sw.release_effect [of h E C p "wl_lock_etag l" m2] c(5) by auto
  have "dirty (l\<lparr>releasing := True\<rparr>)" "\<not> pending_delete (l\<lparr>releasing := True\<rparr>)" "mem_calm (m_store m1)"
    "file_at (m_fs m1) p = Some data" using assms(4-8) c(1,2) by simp_all
  note fl = sw.flush_dirty_calm [OF c(3) this(1-3) rm this(4) assms(9)]
  show ?thesis
  proof (cases "mem_view (m_store m) (file_key p) = None \<or> map_option snd (mem_view (m_store m) (file_key p)) = base_etag l")
    case True
    with fl have "r = Inr ()" "\<exists>t. mem_view (m_store m2) = (mem_view (m_store m))(file_key p \<mapsto> (data, t))"
      by (simp_all add: c(1))
    with True e show ?thesis by (metis fun_upd_same option.map(2) fst_conv)
  next
    case False
    with fl have "\<exists>b. r = Inl (Conflict p b) \<and> mem_view (m_store m2) = mem_view (m_store m) \<and>
        (b \<longrightarrow> file_at (m_fs m2) p = map_option fst (mem_view (m_store m) (file_key p)))"
      by (simp add: c(1))
    with False e c(4) show ?thesis by metis
  qed
qed

section \<open>Opening for writing\<close>

text \<open>
  C15. A lease is taken on the current remote version. When \<open>on_open_write\<close> succeeds on a path that
  was neither leased nor queued for upload, no object but the lock has changed; the new lease is
  clean, is held once, and pins the tag of the remote object; and either the cache already knew
  that version, or the local file now holds the remote bytes.
\<close>

theorem open_pins_remote:
  assumes "on_open_write n (mem_env h E C) p m = Some (Inr (), m')" and "file_lock C"
    and "\<not> is_locked m p" and "Upload p \<notin> set (outbound_queue m)" and "roomy (length p + 1) (m_fs m)"
  shows "(\<forall>k. k \<noteq> lock_key p \<longrightarrow> mem_view (m_store m') k = mem_view (m_store m) k) \<and>
    (\<exists>l. lt_get (leases m') p = Some l \<and> refcount l = 1 \<and> \<not> dirty l \<and>
       base_etag l = map_option snd (mem_view (m_store m') (file_key p))) \<and>
    (case mem_view (m_store m) (file_key p) of
       None \<Rightarrow> file_at (m_fs m') p = file_at (m_fs m) p
     | Some (d, e) \<Rightarrow> map_option sm_etag (mc_get (m_cache m) p) = Some e \<and> file_at (m_fs m') p = file_at (m_fs m) p
         \<or> file_at (m_fs m') p = Some d)"
proof -
  have lock: "file_lock (config (mem_env h E C))" using assms(2) by (simp add: mem_env_def)
  obtain a m1 m2 base rf where o: "m_fs m1 = m_fs m" "m_cache m1 = m_cache m"
    "\<And>k. k \<noteq> lock_key p \<Longrightarrow> mem_view (m_store m1) k = mem_view (m_store m) k"
    "head_and_refresh (mem_env h E C) p m1 = (Inr (base, rf), m2)"
    "m' = m2\<lparr>leases := lt_insert (leases m2) p (fresh_lease base a)\<rparr>"
    using sw.open_fresh [OF assms(1) lock assms(3,4)] by metis
  have rm: "roomy (Suc 0 + length p) (m_fs m1)" using assms(5) o(1) by simp
  note hr = sw.head_refresh_outcome [OF o(4) rm]
  have k: "mem_view (m_store m1) (file_key p) = mem_view (m_store m) (file_key p)" using o(3) by simp
  show ?thesis
    using hr o k by (auto simp: lease_table_simps fresh_lease_def split: option.splits)
qed

section \<open>A stale delete\<close>

text \<open>
  A queued delete outlives a later lease on its path: opening for write removes queued uploads
  only, the writes go to the lease, and the upload at close leaves the queue alone. A delete whose
  tag is unknown is then sent without a precondition and removes the object just written.
\<close>

theorem stale_delete_survives:
  assumes "Delete p etag \<in> set (outbound_queue m)" and "file_lock C"
    and "on_open_write n (mem_env h E C) p m = Some (Inr (), m1)"
    and "on_close (mem_env h E C) p (enqueue_upload p (m1\<lparr>m_fs := f\<rparr>)) = (r, m2)"
  shows "Delete p etag \<in> set (outbound_queue m2) \<and>
    (mem_calm (m_store m2) \<longrightarrow> mem_view (m_store (flush_delete (mem_env h E C) p None m2)) (file_key p) = None)"
proof -
  have lock: "file_lock (config (mem_env h E C))" using assms(2) by (simp add: mem_env_def)
  have q: "Delete p etag \<in> set (outbound_queue m1)" "is_locked m1 p"
    using open_write_queue [OF assms(3) lock] assms(1) by auto
  have "outbound_queue (enqueue_upload p (m1\<lparr>m_fs := f\<rparr>)) = outbound_queue m1"
    using q(2) by (simp add: enqueue_upload_def is_locked_def sync_frame)
  with q(1) on_close_queue [OF assms(4)] have "Delete p etag \<in> set (outbound_queue m2)" by simp
  moreover have "mem_view (m_store (flush_delete (mem_env h E C) p None m2)) (file_key p) = None" if "mem_calm (m_store m2)"
  proof -
    obtain d s' where d: "mem_delete (m_store m2) (file_key p) NoCond = (d, s')" by fastforce
    then have "is_ok d" using rs.calm_delete [OF that, of h "file_key p" NoCond d s'] by (simp add: mem_store_def)
    then show ?thesis
      using mem_delete_cases [OF d] d
      by (cases d) (simp_all add: flush_delete_def on_store_def delete_file_def mem_env_def mem_store_def)
  qed
  ultimately show ?thesis by blast
qed

section \<open>Uploading now\<close>

text \<open>
  \<open>sync_file_now\<close> without a lease and without failures: when the object is missing, or is the
  version the cache knows, or locks are disabled, the object becomes the local file and the cache
  learns its tag; otherwise a conflict is reported, the remote version stays, and if the local copy
  was refreshed it equals it.
\<close>

theorem sync_now_outcome:
  assumes "sync_file_now (mem_env h E C) p m = (r, m')" and "\<not> is_locked m p" and "mem_calm (m_store m)"
    and "roomy (length p + 3) (m_fs m)" and "file_at (m_fs m) p = Some data" and "length data < 2 ^ 64"
  shows "if mem_view (m_store m) (file_key p) = None \<or> \<not> file_lock C \<or>
      map_option snd (mem_view (m_store m) (file_key p)) = map_option sm_etag (mc_get (m_cache m) p)
    then r = Inr () \<and> (\<exists>e. mem_view (m_store m') = (mem_view (m_store m))(file_key p \<mapsto> (data, e)) \<and>
      map_option sm_etag (mc_get (m_cache m') p) = Some e)
    else \<exists>b. r = Inl (Conflict p b) \<and> mem_view (m_store m') = mem_view (m_store m) \<and>
      (b \<longrightarrow> file_at (m_fs m') p = map_option fst (mem_view (m_store m) (file_key p)))"
proof -
  let ?X = "mem_env h E C" and ?v = "mem_view (m_store m)" and ?k = "file_key p"
  let ?known = "map_option sm_etag (mc_get (m_cache m) p)"
  have cond: "cond_for_upload m p = base_cond ?known"
    using assms(2) by (auto simp: cond_for_upload_def is_locked_get base_cond_def split: option.splits)
  obtain q m1 where u: "upload_with_cond ?X p (base_cond ?known) m = (q, m1)" by fastforce
  have rm: "roomy (Suc (Suc (Suc 0) + length p)) (m_fs m)" using assms(4) by (simp add: numeral_3_eq_3)
  note o = sw.upload_outcome [OF u rm] and c = sw.upload_calm [OF u rm assms(3,5,6), unfolded sw.cond_holds_base]
  show ?thesis
  proof (cases q)
    case (Inr e)
    then have "r = Inr ()" "m' = m1" using assms(1) u cond by (simp_all add: sync_file_now_def)
    then show ?thesis using c o Inr by (auto split: if_splits)
  next
    case (Inl e)
    have nb: "rejected e" "mem_view (m_store m1) = ?v" "mem_calm (m_store m1)" "?v ?k \<noteq> None" "map_option snd (?v ?k) \<noteq> ?known"
      using c Inl by (auto split: if_splits)
    have hc: "handle_upload_conflict ?X p m1 = (r, m')"
      using assms(1) u cond Inl nb(1) by (simp add: sync_file_now_def)
    have rm1: "roomy (Suc (Suc 0) + length p) (m_fs m1)" and f1: "file_at (m_fs m1) = file_at (m_fs m)"
      using o by simp_all
    show ?thesis
    proof (cases "file_lock C")
      case True
      obtain b where b: "refresh_local_from_remote ?X p m1 = (b, m')" "r = Inl (Conflict p b)"
        using hc True by (auto simp: handle_upload_conflict_def mem_env_def split: prod.splits)
      have rm2: "roomy (Suc 0 + length p) (m_fs m1)" using roomy_le [OF rm1] by simp
      show ?thesis using sw.refresh_outcome [OF b(1), of 0] rm2 b(2) nb True by auto
    next
      case False
      obtain q2 where u2: "upload_with_cond ?X p NoCond m1 = (q2, m')" "r = (case q2 of Inl e \<Rightarrow> Inl e | Inr _ \<Rightarrow> Inr ())"
        using hc False by (auto simp: handle_upload_conflict_def mem_env_def split: prod.splits sum.splits)
      have rm3: "roomy (Suc 0) (m_fs m1)" using roomy_le [OF rm1] by simp
      have d1: "file_at (m_fs m1) p = Some data" using f1 assms(5) by simp
      obtain e where e: "q2 = Inr e" "mem_view (m_store m') = ?v(?k \<mapsto> (data, e))"
        using sw.upload_calm [OF u2(1) rm3 nb(3) d1 assms(6)] nb(2) by auto
      have "map_option sm_etag (mc_get (m_cache m') p) = Some e"
        using sw.upload_outcome [OF u2(1) rm3] e(1) by simp
      with e(2) have "\<exists>e. mem_view (m_store m') = ?v(?k \<mapsto> (data, e)) \<and>
          map_option sm_etag (mc_get (m_cache m') p) = Some e" by blast
      moreover have "r = Inr ()" using e(1) u2(2) by simp
      ultimately show ?thesis using False by (simp del: map_option_eq_Some)
    qed
  qed
qed

section \<open>Examples\<close>

text \<open>The manager with a clean or dirty lease on the file \<open>/f\<close>, which the store does not have.\<close>

definition demo_lease :: write_lease where
  "demo_lease = \<lparr>base_etag = None, wl_lock_etag = ''t'', wl_epoch = 1, wl_expires_at = 0, refcount = 1,
     dirty = True, pending_delete = False, lost = False, releasing = False\<rparr>"

definition demo_leased :: "(mem_inner, fs) sync_manager" where
  "demo_leased = demo_start\<lparr>leases := [(''/f'', demo_lease)]\<rparr>"

lemma demo_leased_facts:
  "lt_get (leases demo_leased) ''/f'' = Some demo_lease" "refcount demo_lease \<le> 1" "dirty demo_lease"
  "\<not> pending_delete demo_lease" "base_etag demo_lease = None"
  by (simp_all add: demo_leased_def demo_lease_def lt_get_def)

lemma demo_start_facts:
  "m_store demo_start = mem_new" "m_fs demo_start = demo_file" "leases demo_start = []" "outbound_queue demo_start = []"
  "m_cache demo_start = mc_new" "instance_id demo_start = ''i''"
  by (simp_all add: demo_start_def sm_new_def split: prod.split)

lemma demo_roomy: "n < 2 ^ 31 \<Longrightarrow> roomy n demo_file"
  using fs_reachable_inv [OF demo_file_reachable] by (simp add: roomy_def demo_file_eq)

lemma demo_calm: "mem_calm mem_new" "mem_view mem_new k = None"
  by (simp_all add: mem_calm_def mem_new_def mem_view_def)

lemma demo_file_at: "file_at demo_file ''/f'' = Some []"
  by (simp add: file_at_def file_in_def demo_file_eq fs_eval child_def abs_fs_def node_of_def contents_def)

lemma demo_fields:
  "m_fs demo_leased = demo_file" "m_store demo_leased = mem_new" "\<not> is_locked demo_start p"
  by (simp_all add: demo_leased_def demo_start_facts is_locked_def lt_contains_def)

lemma demo_rooms:
  "roomy (length ''/f'' + 2) (m_fs demo_leased)" "roomy (length ''/f'' + 3) (m_fs demo_start)"
  "roomy (length ''/f'' + 1) (m_fs demo_start)"
  unfolding demo_fields demo_start_facts by (rule demo_roomy, simp)+

lemma demo_contents:
  "file_at (m_fs demo_leased) ''/f'' = Some []" "file_at (m_fs demo_start) ''/f'' = Some []"
  "mem_calm (m_store demo_leased)" "mem_calm (m_store demo_start)"
  by (simp_all add: demo_fields demo_start_facts demo_file_at demo_calm)

theorem close_is_fenced_witness:
  "\<not> is_locked (snd (on_close demo_env ''/f'' demo_leased)) ''/f''"
  using close_is_fenced [where h = demo_tag and E = demo_time and C = "from_lookup (\<lambda>_. None)",
      OF prod.collapse [symmetric] demo_leased_facts(1-4) demo_rooms(1)]
  unfolding demo_env_def by blast

theorem close_outcome_witness:
  "fst (on_close demo_env ''/f'' demo_leased) = Inr ()"
  using close_outcome [where h = demo_tag and E = demo_time and C = "from_lookup (\<lambda>_. None)",
      OF prod.collapse [symmetric] demo_leased_facts(1-4) demo_contents(3) demo_rooms(1) demo_contents(1)]
  unfolding demo_env_def demo_fields demo_calm by simp

theorem sync_now_outcome_witness:
  "fst (sync_file_now demo_env ''/f'' demo_start) = Inr ()"
  using sync_now_outcome [where h = demo_tag and E = demo_time and C = "from_lookup (\<lambda>_. None)",
      OF prod.collapse [symmetric] demo_fields(3) demo_contents(4) demo_rooms(2) demo_contents(2)]
  unfolding demo_env_def demo_start_facts demo_calm by simp

lemma demo_opens:
  "\<exists>m'. on_open_write 1 demo_env ''/f'' demo_start = Some (Inr (), m')"
  "\<exists>m'. on_open_write 1 demo_env ''/f'' (demo_start\<lparr>outbound_queue := [Delete ''/f'' None]\<rparr>) = Some (Inr (), m')"
  using sw.open_free [of demo_start "''/f''" demo_tag demo_time "from_lookup (\<lambda>_. None)" 0]
    sw.open_free [of "demo_start\<lparr>outbound_queue := [Delete ''/f'' None]\<rparr>" "''/f''" demo_tag demo_time "from_lookup (\<lambda>_. None)" 0]
    demo_config(2)
  by (simp_all add: demo_env_def [symmetric] demo_start_facts demo_calm is_locked_def lt_contains_def)

lemma demo_file_lock: "file_lock (from_lookup (\<lambda>_. None))"
  using demo_config(2) by (simp add: demo_env_def mem_env_def)

theorem open_pins_remote_witness:
  "\<exists>m'. on_open_write 1 demo_env ''/f'' demo_start = Some (Inr (), m') \<and>
    (\<exists>l. lt_get (leases m') ''/f'' = Some l \<and> refcount l = 1)"
proof -
  obtain m' where m': "on_open_write 1 (mem_env demo_tag demo_time (from_lookup (\<lambda>_. None))) ''/f'' demo_start = Some (Inr (), m')"
    using demo_opens(1) unfolding demo_env_def by blast
  have "Upload ''/f'' \<notin> set (outbound_queue demo_start)" by (simp add: demo_start_facts)
  from open_pins_remote [OF m' demo_file_lock demo_fields(3) this demo_rooms(3)] m'
  show ?thesis unfolding demo_env_def by blast
qed

theorem stale_delete_survives_witness:
  "\<exists>m1. on_open_write 1 demo_env ''/f'' (demo_start\<lparr>outbound_queue := [Delete ''/f'' None]\<rparr>) = Some (Inr (), m1) \<and>
    Delete ''/f'' None \<in> set (outbound_queue (snd (on_close demo_env ''/f'' (enqueue_upload ''/f'' (m1\<lparr>m_fs := demo_file\<rparr>)))))"
proof -
  obtain m1 where m1: "on_open_write 1 (mem_env demo_tag demo_time (from_lookup (\<lambda>_. None))) ''/f''
      (demo_start\<lparr>outbound_queue := [Delete ''/f'' None]\<rparr>) = Some (Inr (), m1)"
    using demo_opens(2) unfolding demo_env_def by blast
  have "Delete ''/f'' None \<in> set (outbound_queue (demo_start\<lparr>outbound_queue := [Delete ''/f'' None]\<rparr>))" by simp
  from stale_delete_survives [OF this demo_file_lock m1 prod.collapse [symmetric]] m1
  show ?thesis unfolding demo_env_def by blast
qed

end
