(* ===== verification/Poll_Props.thy ===== *)
theory Poll_Props
  imports Sync_Props
begin

text \<open>
  What polling may do to local files: the laws of the local file system and of the store, joined in
  \<open>poll_world\<close>, give that local work in progress survives a poll.
\<close>

section \<open>Polling\<close>

text \<open>A path on which local work is in progress.\<close>

definition held :: "('s, 'f) sync_manager \<Rightarrow> string \<Rightarrow> bool" where
  "held m q \<longleftrightarrow> is_locked m q \<or> has_pending_op m q"

lemma held_book: "same_book m m' \<Longrightarrow> held m' q = held m q"
  by (simp add: held_def same_book_def is_locked_def has_pending_op_def)

locale poll_world = sync_world X view calm lfile room same + local_files "se_fs X" lfile room same
  for X :: "('s, 'f) sync_env" and view calm lfile room same
begin

lemma paths_cached:
  "set (mc_paths (update_after_download c p e t z)) = insert p (set (mc_paths c))"
  "set (mc_paths (mc_remove c p)) \<subseteq> set (mc_paths c)"
  "mc_paths (add_dir c p e) = mc_paths c" "mc_paths (remove_dir c p) = mc_paths c"
  by (auto simp: mc_paths_def update_after_download_def mc_remove_def add_dir_def remove_dir_def
      dom_update image_iff delete_keys update_keys)

lemma poll_object_keeps:
  assumes run: "poll_object X ob (st, m) = (st', m')" and rm: "room (Suc n + length (oi_path ob)) (m_fs m)"
    and h: "held m q" and na: "oi_path ob \<noteq> q \<Longrightarrow> \<not> same q (oi_path ob)"
  shows "room n (m_fs m') \<and> lfile (m_fs m') q = lfile (m_fs m) q \<and>
    set (mc_paths (m_cache m')) \<subseteq> insert (oi_path ob) (set (mc_paths (m_cache m)))"
proof -
  have low: "room n (m_fs m)" by (rule room_le [OF rm]) simp
  show ?thesis
  proof (cases "m' = m")
    case False
    note changed = this
    show ?thesis
    proof (cases "oi_is_dir ob")
      case True
      then have "m' = m\<lparr>m_fs := fb_mkdir_p (se_fs X) (m_fs m) (oi_path ob), m_cache := add_dir (m_cache m) (oi_path ob) (oi_etag ob)\<rparr>"
        using run changed by (auto simp: poll_object_def split: if_splits)
      then show ?thesis using mkdir_law [OF rm] by (simp add: paths_cached subset_insertI)
    next
      case nd: False
      have ne: "oi_path ob \<noteq> q"
        using run changed nd h by (auto simp: poll_object_def held_def Let_def split: if_splits)
      obtain w where d: "download_file X ob m = (w, m')"
        using run changed nd by (auto simp: poll_object_def Let_def split: if_splits prod.splits sum.splits)
      obtain g m1 where 1: "on_store (\<lambda>s. get_file (se_store X) s (oi_path ob)) m = (g, m1)" by fastforce
      note f1 = on_storeD [OF 1]
      have rm1: "room (Suc n + length (oi_path ob)) (m_fs m1)" using rm f1 by simp
      have wr: "room n f \<and> lfile f q = lfile (m_fs m) q"
        if "write_file_content (se_fs X) (m_fs m1) (oi_path ob) b = (x, f)" for b x f
        using write_law [OF rm1 that] na [OF ne] f1 by simp
      show ?thesis
        using d 1 low wr f1
        by (auto simp: download_file_def on_fs_def sync_frame cache_downloaded_def paths_cached
            split: sum.splits option.splits prod.splits)
    qed
  qed (use low in auto)
qed

lemma poll_objects_keep:
  "fold (poll_object X) objs (st, m) = (st', m') \<Longrightarrow>
    room (n + sum_list (map (\<lambda>ob. Suc (length (oi_path ob))) objs)) (m_fs m) \<Longrightarrow> held m q \<Longrightarrow>
    \<forall>ob \<in> set objs. oi_path ob \<noteq> q \<longrightarrow> \<not> same q (oi_path ob) \<Longrightarrow>
    room n (m_fs m') \<and> lfile (m_fs m') q = lfile (m_fs m) q \<and> held m' q \<and>
    set (mc_paths (m_cache m')) \<subseteq> oi_path ` set objs \<union> set (mc_paths (m_cache m))"
proof (induction objs arbitrary: st m)
  case (Cons ob objs)
  obtain st1 m1 where 1: "poll_object X ob (st, m) = (st1, m1)" by fastforce
  have rm: "room (Suc (n + sum_list (map (\<lambda>ob. Suc (length (oi_path ob))) objs)) + length (oi_path ob)) (m_fs m)"
    using Cons.prems(2) by (simp add: ac_simps)
  note k = poll_object_keeps [OF 1 rm Cons.prems(3)]
  have "held m1 q" using held_book [OF same_book_poll_object [OF 1]] Cons.prems(3) by simp
  with Cons.IH [of st1 m1] k Cons.prems 1 show ?case by auto
qed simp

lemma poll_gone_files_keep:
  "fold (poll_gone_file X F) ps (st, m) = (st', m') \<Longrightarrow> room n (m_fs m) \<Longrightarrow> held m q \<Longrightarrow>
    \<forall>p \<in> set ps. p \<noteq> q \<longrightarrow> \<not> same q p \<Longrightarrow> room n (m_fs m') \<and> lfile (m_fs m') q = lfile (m_fs m) q"
proof (induction ps arbitrary: st m)
  case (Cons p ps)
  obtain st1 m1 where 1: "poll_gone_file X F p (st, m) = (st1, m1)" by fastforce
  have "room n (m_fs m1) \<and> lfile (m_fs m1) q = lfile (m_fs m) q"
  proof (cases "m1 = m")
    case False
    have ne: "p \<noteq> q" using 1 False Cons.prems(3) by (auto simp: poll_gone_file_def held_def split: if_splits)
    obtain u where d: "delete_local_file X p m = (u, m1)"
      using 1 False by (auto simp: poll_gone_file_def split: if_splits prod.splits sum.splits)
    obtain u' f where "fb_unlink (se_fs X) (m_fs m) p = (u', f)" by fastforce
    with unlink_law [OF Cons.prems(2) this] d ne Cons.prems(4) show ?thesis
      by (auto simp: delete_local_file_def on_fs_def split: sum.splits)
  qed (use Cons.prems in simp)
  moreover have "held m1 q" using held_book [OF same_book_gone_file [OF 1]] Cons.prems(3) by simp
  ultimately show ?case using Cons.IH [of st1 m1] Cons.prems 1 by auto
qed simp

lemma poll_gone_dirs_keep:
  "room n (m_fs m) \<Longrightarrow> lfile (m_fs (fold (poll_gone_dir X D) ps m)) = lfile (m_fs m)"
proof (induction ps arbitrary: m)
  case (Cons p ps)
  obtain u f where r: "fb_rmdir (se_fs X) (m_fs m) p = (u, f)" by fastforce
  have "room n (m_fs (poll_gone_dir X D p m)) \<and> lfile (m_fs (poll_gone_dir X D p m)) = lfile (m_fs m)"
    using rmdir_law [OF Cons.prems r] r Cons.prems by (simp add: poll_gone_dir_def on_fs_def)
  with Cons.IH [of "poll_gone_dir X D p m"] show ?case by simp
qed simp

lemma poll_keeps:
  assumes run: "poll_inbound X m = (r, m')" and ls: "fst (list_files (se_store X) (m_store m)) = Inr objs"
    and rm: "room (sum_list (map (\<lambda>ob. Suc (length (oi_path ob))) objs)) (m_fs m)" and h: "held m q"
    and na: "\<forall>p \<in> oi_path ` set objs \<union> set (mc_paths (m_cache m)). p \<noteq> q \<longrightarrow> \<not> same q p"
  shows "lfile (m_fs m') q = lfile (m_fs m) q"
proof -
  obtain m1 where 1: "on_store (list_files (se_store X)) m = (Inr objs, m1)"
    using ls by (cases "list_files (se_store X) (m_store m)") (auto simp: on_store_def)
  note f1 = on_storeD [OF 1]
  define F where "F = oi_path ` set (filter (\<lambda>ob. \<not> oi_is_dir ob) objs)"
  define D where "D = oi_path ` set (filter oi_is_dir objs)"
  obtain st2 m2 where 2: "fold (poll_object X) objs (\<lparr>downloaded = 0, deleted = 0\<rparr>, m1) = (st2, m2)" by fastforce
  obtain st3 m3 where 3: "fold (poll_gone_file X F) (mc_paths (m_cache m2)) (st2, m2) = (st3, m3)" by fastforce
  have m': "m' = fold (poll_gone_dir X D) (mc_dir_paths (m_cache m3)) m3"
    using run 1 2 3 by (simp add: poll_inbound_def F_def D_def)
  have h1: "held m1 q" using h f1 by (simp add: held_def is_locked_def has_pending_op_def)
  have a: "room 0 (m_fs m2)" "lfile (m_fs m2) q = lfile (m_fs m) q" "held m2 q"
    "set (mc_paths (m_cache m2)) \<subseteq> oi_path ` set objs \<union> set (mc_paths (m_cache m))"
    using poll_objects_keep [OF 2, of 0 q] rm h1 f1 na by auto
  have "room 0 (m_fs m3) \<and> lfile (m_fs m3) q = lfile (m_fs m2) q"
    by (rule poll_gone_files_keep [OF 3 a(1,3)]) (use a(4) na in blast)
  then show ?thesis using poll_gone_dirs_keep [of 0 m3 D "mc_dir_paths (m_cache m3)"] a(2) m' by simp
qed

end

interpretation pw: poll_world "mem_env h E C" mem_view mem_calm file_at roomy same_file for h E C
  using sw.sync_world_axioms [of h E C] lf.local_files_axioms unfolding poll_world_def by (simp add: mem_env_def)

text \<open>
  C16. Polling respects local work in progress: a file that is leased, or has an operation in the
  queue, keeps its local bytes whatever the store lists, provided no other listed or cached name
  denotes the same local file. The budget is what the downloads may allocate.
\<close>

theorem poll_respects_local_work:
  assumes "poll_inbound (mem_env h E C) m = (r, m')"
    and "fst (list_files (mem_store h) (m_store m)) = Inr objs"
    and "is_locked m q \<or> has_pending_op m q"
    and "\<forall>p \<in> oi_path ` set objs \<union> set (mc_paths (m_cache m)). p \<noteq> q \<longrightarrow> \<not> same_file q p"
    and "roomy (sum_list (map (\<lambda>ob. Suc (length (oi_path ob))) objs)) (m_fs m)"
  shows "file_at (m_fs m') q = file_at (m_fs m) q"
  using pw.poll_keeps [OF assms(1), of objs q] assms(2-5)
  by (simp add: mem_env_def held_def)

definition demo_polled :: "(mem_inner, fs) sync_manager" where
  "demo_polled = demo_start\<lparr>m_store := mem_new\<lparr>objects := [(''files/f'', \<lparr>mo_data = [9], mo_etag = ''x'', mo_last_modified = 1\<rparr>)]\<rparr>,
     outbound_queue := [Upload ''/f'']\<rparr>"

lemma demo_listing:
  "fst (list_files (mem_store demo_tag) (m_store demo_polled)) =
    Inr [\<lparr>oi_path = ''/f'', oi_etag = ''x'', oi_last_modified = 1, oi_size = 1, oi_is_dir = False\<rparr>]"
  by (simp add: demo_polled_def list_files_def mem_store_def mem_list_def mem_new_def take_failure_def Let_def
      starts_with_def FILES_PREFIX_def path_from_file_key_def strip_prefix_def ends_with_def suffix_to_prefix meta_of_def
      trim_end_matches_def List.map_filter_def) blast

theorem poll_respects_local_work_witness:
  "file_at (m_fs (snd (poll_inbound demo_env demo_polled))) ''/f'' = file_at (m_fs demo_polled) ''/f''"
proof -
  have "is_locked demo_polled ''/f'' \<or> has_pending_op demo_polled ''/f''"
    by (simp add: demo_polled_def has_pending_op_def)
  moreover have "roomy 3 (m_fs demo_polled)"
    using demo_roomy [of 3] by (simp add: demo_polled_def demo_start_facts)
  moreover have "mc_paths (m_cache demo_polled) = []"
    by (simp add: demo_polled_def demo_start_facts mc_new_def mc_paths_def)
  ultimately show ?thesis
    using poll_respects_local_work [where E = demo_time and C = "from_lookup (\<lambda>_. None)" and q = "''/f''",
      OF prod.collapse [symmetric] demo_listing]
    unfolding demo_env_def by (simp add: numeral_3_eq_3)
qed

end
