(* ===== verification/Rpc_Protocol.thy ===== *)
theory Rpc_Protocol
  imports Inode Rust_Text "HOL-Library.Countable"
begin

text \<open>
  \<open>vfs-rpc-protocol\<close>: the messages of the file system RPC, their error codes, the version
  negotiation, and the conversions between the messages and the protocol buffer records of
  \<open>proto/vfs.proto\<close>. The byte encoding of those records is generated code and the \<open>prost\<close>
  library: it is a pair of parameters \<open>enc\<close> and \<open>dec\<close>. The width of \<open>usize\<close> is the parameter \<open>W\<close>
  (32 on the WASI server, 64 on the hosts).
\<close>

section \<open>Versions and error codes\<close>

definition PROTOCOL_VERSION :: u32 where "PROTOCOL_VERSION = 2"
definition MIN_PROTOCOL_VERSION :: u32 where "MIN_PROTOCOL_VERSION = 1"

definition negotiate_version :: "u32 \<Rightarrow> u32 option" where
  "negotiate_version client =
     (if MIN_PROTOCOL_VERSION \<le> client \<and> client \<le> PROTOCOL_VERSION then Some client else None)"

datatype error_code =
    EcNotFound | EcNotADirectory | EcIsADirectory | EcInvalidArgument | EcBadFileDescriptor
  | EcPermissionDenied | EcAlreadyExists | EcNotEmpty | EcNetworkError | EcProtocolError
  | EcSerializationError | EcIo | EcBusy | EcConflict

fun code_as_str :: "error_code \<Rightarrow> string" where
  "code_as_str EcNotFound = ''Not found''"
| "code_as_str EcNotADirectory = ''Not a directory''"
| "code_as_str EcIsADirectory = ''Is a directory''"
| "code_as_str EcInvalidArgument = ''Invalid argument''"
| "code_as_str EcBadFileDescriptor = ''Bad file descriptor''"
| "code_as_str EcPermissionDenied = ''Permission denied''"
| "code_as_str EcAlreadyExists = ''Already exists''"
| "code_as_str EcNotEmpty = ''Directory not empty''"
| "code_as_str EcNetworkError = ''Network error''"
| "code_as_str EcProtocolError = ''Protocol error''"
| "code_as_str EcSerializationError = ''Serialization error''"
| "code_as_str EcIo = ''I/O error''"
| "code_as_str EcBusy = ''Resource busy''"
| "code_as_str EcConflict = ''Conflict''"

text \<open>The discriminants (\<open>code as i32\<close>).\<close>

fun code_as_i32 :: "error_code \<Rightarrow> i32" where
  "code_as_i32 EcNotFound = 1"
| "code_as_i32 EcNotADirectory = 2"
| "code_as_i32 EcIsADirectory = 3"
| "code_as_i32 EcInvalidArgument = 4"
| "code_as_i32 EcBadFileDescriptor = 5"
| "code_as_i32 EcPermissionDenied = 6"
| "code_as_i32 EcAlreadyExists = 7"
| "code_as_i32 EcNotEmpty = 8"
| "code_as_i32 EcNetworkError = 9"
| "code_as_i32 EcProtocolError = 10"
| "code_as_i32 EcSerializationError = 11"
| "code_as_i32 EcIo = 12"
| "code_as_i32 EcBusy = 13"
| "code_as_i32 EcConflict = 14"

definition code_from_i32 :: "i32 \<Rightarrow> error_code option" where
  "code_from_i32 v =
     (if v = 1 then Some EcNotFound
      else if v = 2 then Some EcNotADirectory
      else if v = 3 then Some EcIsADirectory
      else if v = 4 then Some EcInvalidArgument
      else if v = 5 then Some EcBadFileDescriptor
      else if v = 6 then Some EcPermissionDenied
      else if v = 7 then Some EcAlreadyExists
      else if v = 8 then Some EcNotEmpty
      else if v = 9 then Some EcNetworkError
      else if v = 10 then Some EcProtocolError
      else if v = 11 then Some EcSerializationError
      else if v = 12 then Some EcIo
      else if v = 13 then Some EcBusy
      else if v = 14 then Some EcConflict
      else None)"

section \<open>Messages\<close>

datatype request =
    RqConnect u32
  | RqOpenPath string u32
  | RqOpenAt u32 string u32
  | RqRead u32 nat
  | RqWrite u32 bytes
  | RqClose u32
  | RqSeek u32 i64 i32
  | RqFtruncate u32 u64
  | RqStat string
  | RqFstat u32
  | RqMkdir string
  | RqMkdirP string
  | RqUnlink string
  | RqReaddir string
  | RqReaddirFd u32
  | RqRmdir string
  | RqAppendWrite u32 bytes
  | RqRename string string
  | RqFsync u32

record file_metadata =
  fm_size :: u64
  fm_created :: u64
  fm_modified :: u64
  fm_is_dir :: bool

record dir_entry =
  de_name :: string
  de_is_dir :: bool

datatype response =
    RsConnected string u32
  | RsOk
  | RsFd u32
  | RsData bytes
  | RsWritten nat
  | RsPosition u64
  | RsMetadata file_metadata
  | RsDirEntries "dir_entry list"
  | RsError error_code string

record rpc_request_message =
  rq_session :: "string option"
  rq_request :: request

section \<open>Protocol buffer records\<close>

text \<open>The messages of \<open>vfs.proto\<close>; a \<open>oneof\<close> that is not set is \<open>None\<close>.\<close>

datatype pb_request =
    PbConnect u32
  | PbOpenPath string u32
  | PbOpenAt u32 string u32
  | PbRead u32 u64
  | PbWrite u32 bytes
  | PbClose u32
  | PbSeek u32 i64 i32
  | PbFtruncate u32 u64
  | PbStat string
  | PbFstat u32
  | PbMkdir string
  | PbMkdirP string
  | PbUnlink string
  | PbReaddir string
  | PbReaddirFd u32
  | PbRmdir string
  | PbAppendWrite u32 bytes
  | PbRename string string
  | PbFsync u32

record pb_rpc_request =
  pb_session :: "string option"
  pb_request :: "pb_request option"

datatype pb_response =
    PbConnected string u32
  | PbOk
  | PbFd u32
  | PbData bytes
  | PbWritten u64
  | PbPosition u64
  | PbMetadata u64 u64 u64 bool
  | PbDirEntries "(string \<times> bool) list"
  | PbError i32 string

record pb_rpc_response =
  pb_response :: "pb_response option"

section \<open>Conversions\<close>

text \<open>\<open>x as usize\<close> and \<open>n as u64\<close>.\<close>

definition as_usize :: "nat \<Rightarrow> u64 \<Rightarrow> nat" where
  "as_usize W x = unat x mod 2 ^ W"

definition usize_as_u64 :: "nat \<Rightarrow> u64" where
  "usize_as_u64 n = of_nat n"

fun request_of_pb :: "nat \<Rightarrow> pb_request \<Rightarrow> request" where
  "request_of_pb W (PbConnect v) = RqConnect v"
| "request_of_pb W (PbOpenPath p fl) = RqOpenPath p fl"
| "request_of_pb W (PbOpenAt d p fl) = RqOpenAt d p fl"
| "request_of_pb W (PbRead d n) = RqRead d (as_usize W n)"
| "request_of_pb W (PbWrite d b) = RqWrite d b"
| "request_of_pb W (PbClose d) = RqClose d"
| "request_of_pb W (PbSeek d off wh) = RqSeek d off wh"
| "request_of_pb W (PbFtruncate d n) = RqFtruncate d n"
| "request_of_pb W (PbStat p) = RqStat p"
| "request_of_pb W (PbFstat d) = RqFstat d"
| "request_of_pb W (PbMkdir p) = RqMkdir p"
| "request_of_pb W (PbMkdirP p) = RqMkdirP p"
| "request_of_pb W (PbUnlink p) = RqUnlink p"
| "request_of_pb W (PbReaddir p) = RqReaddir p"
| "request_of_pb W (PbReaddirFd d) = RqReaddirFd d"
| "request_of_pb W (PbRmdir p) = RqRmdir p"
| "request_of_pb W (PbAppendWrite d b) = RqAppendWrite d b"
| "request_of_pb W (PbRename p q) = RqRename p q"
| "request_of_pb W (PbFsync d) = RqFsync d"

definition from_proto_request :: "nat \<Rightarrow> pb_rpc_request \<Rightarrow> string + rpc_request_message" where
  "from_proto_request W m =
     (case pb_request m of
        None \<Rightarrow> Inl ''Missing request''
      | Some r \<Rightarrow> Inr \<lparr>rq_session = pb_session m, rq_request = request_of_pb W r\<rparr>)"

fun pb_of_request :: "request \<Rightarrow> pb_request" where
  "pb_of_request (RqConnect v) = PbConnect v"
| "pb_of_request (RqOpenPath p fl) = PbOpenPath p fl"
| "pb_of_request (RqOpenAt d p fl) = PbOpenAt d p fl"
| "pb_of_request (RqRead d n) = PbRead d (usize_as_u64 n)"
| "pb_of_request (RqWrite d b) = PbWrite d b"
| "pb_of_request (RqClose d) = PbClose d"
| "pb_of_request (RqSeek d off wh) = PbSeek d off wh"
| "pb_of_request (RqFtruncate d n) = PbFtruncate d n"
| "pb_of_request (RqStat p) = PbStat p"
| "pb_of_request (RqFstat d) = PbFstat d"
| "pb_of_request (RqMkdir p) = PbMkdir p"
| "pb_of_request (RqMkdirP p) = PbMkdirP p"
| "pb_of_request (RqUnlink p) = PbUnlink p"
| "pb_of_request (RqReaddir p) = PbReaddir p"
| "pb_of_request (RqReaddirFd d) = PbReaddirFd d"
| "pb_of_request (RqRmdir p) = PbRmdir p"
| "pb_of_request (RqAppendWrite d b) = PbAppendWrite d b"
| "pb_of_request (RqRename p q) = PbRename p q"
| "pb_of_request (RqFsync d) = PbFsync d"

definition to_proto_request_bytes :: "(pb_rpc_request \<Rightarrow> bytes) \<Rightarrow> rpc_request_message \<Rightarrow> bytes" where
  "to_proto_request_bytes enc m =
     enc \<lparr>pb_session = rq_session m, pb_request = Some (pb_of_request (rq_request m))\<rparr>"

fun pb_of_response :: "response \<Rightarrow> pb_response" where
  "pb_of_response (RsConnected s v) = PbConnected s v"
| "pb_of_response RsOk = PbOk"
| "pb_of_response (RsFd d) = PbFd d"
| "pb_of_response (RsData b) = PbData b"
| "pb_of_response (RsWritten n) = PbWritten (usize_as_u64 n)"
| "pb_of_response (RsPosition p) = PbPosition p"
| "pb_of_response (RsMetadata m) = PbMetadata (fm_size m) (fm_created m) (fm_modified m) (fm_is_dir m)"
| "pb_of_response (RsDirEntries es) = PbDirEntries (map (\<lambda>e. (de_name e, de_is_dir e)) es)"
| "pb_of_response (RsError c msg) = PbError (code_as_i32 c) msg"

definition to_proto_response :: "response \<Rightarrow> pb_rpc_response" where
  "to_proto_response r = \<lparr>pb_response = Some (pb_of_response r)\<rparr>"

fun response_of_pb :: "nat \<Rightarrow> pb_response \<Rightarrow> response" where
  "response_of_pb W (PbConnected s v) = RsConnected s v"
| "response_of_pb W PbOk = RsOk"
| "response_of_pb W (PbFd d) = RsFd d"
| "response_of_pb W (PbData b) = RsData b"
| "response_of_pb W (PbWritten n) = RsWritten (as_usize W n)"
| "response_of_pb W (PbPosition p) = RsPosition p"
| "response_of_pb W (PbMetadata z c m d) =
     RsMetadata \<lparr>fm_size = z, fm_created = c, fm_modified = m, fm_is_dir = d\<rparr>"
| "response_of_pb W (PbDirEntries es) = RsDirEntries (map (\<lambda>(n, d). \<lparr>de_name = n, de_is_dir = d\<rparr>) es)"
| "response_of_pb W (PbError c msg) =
     RsError (case code_from_i32 c of Some ec \<Rightarrow> ec | None \<Rightarrow> EcIo) msg"

definition from_proto_response_bytes ::
  "nat \<Rightarrow> (bytes \<Rightarrow> pb_rpc_response option) \<Rightarrow> bytes \<Rightarrow> error_code + response" where
  "from_proto_response_bytes W dec b =
     (case dec b of
        None \<Rightarrow> Inl EcSerializationError
      | Some m \<Rightarrow>
          (case pb_response m of
             None \<Rightarrow> Inl EcSerializationError
           | Some r \<Rightarrow> Inr (response_of_pb W r)))"

section \<open>Round trips\<close>

lemma code_round_trip: "code_from_i32 (code_as_i32 c) = Some c"
  by (cases c) (simp_all add: code_from_i32_def)

lemma code_from_i32_iff: "code_from_i32 v = Some c \<longleftrightarrow> v = code_as_i32 c"
  by (cases c) (auto simp: code_from_i32_def)

text \<open>Every count fits the pointer width.\<close>

fun request_fits :: "nat \<Rightarrow> request \<Rightarrow> bool" where
  "request_fits W (RqRead d n) \<longleftrightarrow> n < 2 ^ min W 64"
| "request_fits W _ \<longleftrightarrow> True"

fun response_fits :: "nat \<Rightarrow> response \<Rightarrow> bool" where
  "response_fits W (RsWritten n) \<longleftrightarrow> n < 2 ^ min W 64"
| "response_fits W _ \<longleftrightarrow> True"

lemma as_usize_round: "n < 2 ^ min W 64 \<Longrightarrow> as_usize W (usize_as_u64 n) = n"
proof -
  assume n: "n < 2 ^ min W 64"
  have "(2 :: nat) ^ min W 64 \<le> 2 ^ W" "(2 :: nat) ^ min W 64 \<le> 2 ^ 64"
    by (rule power_increasing; simp)+
  with n have "n < 2 ^ W" "n < 2 ^ 64" by linarith+
  then show ?thesis by (simp add: as_usize_def usize_as_u64_def unsigned_of_nat take_bit_nat_eq_self)
qed

text \<open>
  No message is lost or changed on the wire: provided the protocol buffer library decodes what
  it encodes, a request sent by a client arrives as that request with its session, a response
  arrives as that response (counts have to fit the pointer width), and bytes that do not decode are
  reported as a serialization error.
\<close>

theorem messages_round_trip:
  assumes "\<And>m. decq (encq m) = Some m" and "\<And>m. decs (encs m) = Some m"
    and "request_fits W (rq_request q)" and "response_fits W r"
  shows "map_option (from_proto_request W) (decq (to_proto_request_bytes encq q)) = Some (Inr q)
    \<and> from_proto_response_bytes W decs (encs (to_proto_response r)) = Inr r
    \<and> (\<forall>b. decs b = None \<longrightarrow> from_proto_response_bytes W decs b = Inl EcSerializationError)"
proof -
  have "request_of_pb W (pb_of_request x) = x" if "request_fits W x" for x
    using that by (cases x) (simp_all add: as_usize_round)
  moreover have "response_of_pb W (pb_of_response r) = r"
    using assms(4) by (cases r) (simp_all add: as_usize_round code_round_trip comp_def map_idI)
  ultimately show ?thesis
    using assms by (simp add: to_proto_request_bytes_def from_proto_request_def
        from_proto_response_bytes_def to_proto_response_def)
qed

text \<open>A codec for the example: the number of the record in unary.\<close>

instance pb_request :: countable
  by countable_datatype

instance pb_response :: countable
  by countable_datatype

definition demo_encq :: "pb_rpc_request \<Rightarrow> bytes" where
  "demo_encq m = replicate (to_nat (pb_session m, pb_request m)) 0"

definition demo_decq :: "bytes \<Rightarrow> pb_rpc_request option" where
  "demo_decq b = (case from_nat (length b) of (s, r) \<Rightarrow> Some \<lparr>pb_session = s, pb_request = r\<rparr>)"

definition demo_encs :: "pb_rpc_response \<Rightarrow> bytes" where
  "demo_encs m = replicate (to_nat (pb_response m)) 0"

definition demo_decs :: "bytes \<Rightarrow> pb_rpc_response option" where
  "demo_decs b = Some \<lparr>pb_response = from_nat (length b)\<rparr>"

theorem messages_round_trip_witness:
  "from_proto_response_bytes 32 demo_decs (demo_encs (to_proto_response (RsWritten 7))) = Inr (RsWritten 7)
    \<and> map_option (from_proto_request 32) (demo_decq (to_proto_request_bytes demo_encq
        \<lparr>rq_session = Some ''s'', rq_request = RqRead 3 9\<rparr>)) = Some (Inr \<lparr>rq_session = Some ''s'', rq_request = RqRead 3 9\<rparr>)"
proof -
  have "demo_decq (demo_encq m) = Some m" for m by (simp add: demo_encq_def demo_decq_def)
  moreover have "demo_decs (demo_encs m) = Some m" for m by (simp add: demo_encs_def demo_decs_def)
  ultimately show ?thesis
    using messages_round_trip [of demo_decq demo_encq demo_decs demo_encs 32
        "\<lparr>rq_session = Some ''s'', rq_request = RqRead 3 9\<rparr>" "RsWritten 7"] by simp
qed

end
