(* ===== verification/Rpc_Server.thy ===== *)
theory Rpc_Server
  imports Sync_Inv Rpc_Protocol
begin

text \<open>
  \<open>vfs-rpc-server-core\<close> with its feature \<open>s3-sync\<close>, and the request loop of \<open>vfs-rpc-server\<close>: the
  server's state, the handler of every request, what a disconnect does, and one turn of the loop.

  The server runs one handler after the other on a single thread, so each handler is a function on
  the state. The file system is shared with the sync manager (\<open>Rc<RefCell<Fs>>\<close>): it lives in
  \<open>sc_fs\<close> and is lent to the manager for the length of a call. The only call that can wait is the
  acquisition of a lease in \<open>before_open\<close>; it takes fuel, and a handler that does not return is
  \<open>None\<close>. A session's descriptors are a \<open>HashSet\<close>: the list keeps them in the order of insertion and
  \<open>hash_order\<close> is the order in which the set is walked.
\<close>

section \<open>State\<close>

record 's server_context =
  sc_fs :: fs
  sc_sync :: "('s, fs) sync_manager option"
  fd_path_map :: "u32 \<rightharpoonup> string"
  fd_flags_map :: "u32 \<rightharpoonup> u32"
  session_fds :: "string \<rightharpoonup> u32 list"
  s3_refreshed_fds :: "u32 set"
  read_from_s3 :: bool
  metadata_sync :: bool

definition is_write_access :: "u32 \<Rightarrow> bool" where
  "is_write_access flags \<longleftrightarrow> flags AND 0x3 \<noteq> O_RDONLY"

definition join_dir :: "string \<Rightarrow> string \<Rightarrow> string" where
  "join_dir dir_path path =
     (if dir_path = ''/'' then CHR ''/'' # trim_start_matches CHR ''/'' path
      else trim_end_matches CHR ''/'' dir_path @ CHR ''/'' # trim_start_matches CHR ''/'' path)"

text \<open>A call of the manager on the shared file system.\<close>

definition lend :: "('s, fs) sync_manager \<Rightarrow> 's server_context \<Rightarrow> ('s, fs) sync_manager" where
  "lend m c = m\<lparr>m_fs := sc_fs c\<rparr>"

definition give_back :: "('s, fs) sync_manager \<Rightarrow> 's server_context \<Rightarrow> 's server_context" where
  "give_back m c = c\<lparr>sc_fs := m_fs m, sc_sync := Some m\<rparr>"

definition run_sync ::
  "(('s, fs) sync_manager \<Rightarrow> 'r \<times> ('s, fs) sync_manager) \<Rightarrow> ('s, fs) sync_manager \<Rightarrow> 's server_context \<Rightarrow>
   'r \<times> 's server_context" where
  "run_sync g m c = (case g (lend m c) of (r, m') \<Rightarrow> (r, give_back m' c))"

text \<open>A call of the local file system.\<close>

definition run_fs :: "(fs \<Rightarrow> 'r \<times> fs) \<Rightarrow> 's server_context \<Rightarrow> 'r \<times> 's server_context" where
  "run_fs g c = (case g (sc_fs c) of (r, f) \<Rightarrow> (r, c\<lparr>sc_fs := f\<rparr>))"

section \<open>Error responses\<close>

fun map_fs_error :: "fs_error \<Rightarrow> response" where
  "map_fs_error NotFound = RsError EcNotFound ''Not found''"
| "map_fs_error NotADirectory = RsError EcNotADirectory ''Not a directory''"
| "map_fs_error IsADirectory = RsError EcIsADirectory ''Is a directory''"
| "map_fs_error InvalidArgument = RsError EcInvalidArgument ''Invalid argument''"
| "map_fs_error BadFileDescriptor = RsError EcBadFileDescriptor ''Bad file descriptor''"
| "map_fs_error PermissionDenied = RsError EcPermissionDenied ''Permission denied''"
| "map_fs_error AlreadyExists = RsError EcAlreadyExists ''Already exists''"
| "map_fs_error NotEmpty = RsError EcNotEmpty ''Directory not empty''"

definition map_sync_error :: "sync_error \<Rightarrow> response" where
  "map_sync_error e =
     RsError
       (case e of Busy _ _ \<Rightarrow> EcBusy | Conflict _ _ \<Rightarrow> EcConflict | SyncFs _ _ \<Rightarrow> EcIo | SyncS3 _ \<Rightarrow> EcIo)
       (sync_error_display e)"

section \<open>Descriptors\<close>

definition add_session_fd :: "string option \<Rightarrow> u32 \<Rightarrow> (string \<rightharpoonup> u32 list) \<Rightarrow> (string \<rightharpoonup> u32 list)" where
  "add_session_fd session d t =
     (case session of
        None \<Rightarrow> t
      | Some sid \<Rightarrow> t(sid \<mapsto> List.insert d (case t sid of None \<Rightarrow> [] | Some ds \<Rightarrow> ds)))"

definition register_fd ::
  "u32 \<Rightarrow> string option \<Rightarrow> u32 \<Rightarrow> string option \<Rightarrow> 's server_context \<Rightarrow> 's server_context" where
  "register_fd d path flags session c =
     c\<lparr>fd_path_map := (case path of None \<Rightarrow> fd_path_map c | Some p \<Rightarrow> (fd_path_map c)(d \<mapsto> p)),
       fd_flags_map := (fd_flags_map c)(d \<mapsto> flags),
       session_fds := add_session_fd session d (session_fds c)\<rparr>"

definition unregister_fd :: "u32 \<Rightarrow> 's server_context \<Rightarrow> (string option \<times> u32) \<times> 's server_context" where
  "unregister_fd d c =
     ((fd_path_map c d, case fd_flags_map c d of None \<Rightarrow> 0 | Some fl \<Rightarrow> fl),
      c\<lparr>fd_path_map := (fd_path_map c)(d := None),
        fd_flags_map := (fd_flags_map c)(d := None),
        s3_refreshed_fds := s3_refreshed_fds c - {d},
        session_fds := map_option (removeAll d) \<circ> session_fds c\<rparr>)"

section \<open>Opening and closing\<close>

definition before_open ::
  "nat \<Rightarrow> ('s, fs) sync_env \<Rightarrow> string \<Rightarrow> u32 \<Rightarrow> 's server_context \<Rightarrow>
   (response option \<times> 's server_context) option" where
  "before_open fuel X path flags c =
     (case sc_sync c of
        None \<Rightarrow> Some (None, c)
      | Some m \<Rightarrow>
          if file_lock (config X) \<and> is_write_access flags then
            (case on_open_write fuel X path (lend m c) of
               None \<Rightarrow> None
             | Some (r, m) \<Rightarrow>
                 Some (case r of Inl e \<Rightarrow> Some (map_sync_error e) | Inr _ \<Rightarrow> None, give_back m c))
          else if metadata_sync c then Some (None, snd (run_sync (check_and_refresh_from_s3 X path) m c))
          else Some (None, c))"

definition close_fd ::
  "('s, fs) sync_env \<Rightarrow> u32 \<Rightarrow> 's server_context \<Rightarrow> response \<times> 's server_context" where
  "close_fd X d c =
     (case unregister_fd d c of
        ((path, flags), c) \<Rightarrow>
      case run_fs (\<lambda>f. fs_close f d) c of
        (local, c) \<Rightarrow>
          let answer = (case local of Inr _ \<Rightarrow> RsOk | Inl e \<Rightarrow> map_fs_error e) in
          (case (path, sc_sync c) of
             (Some path, Some m) \<Rightarrow>
               if is_write_access flags then
                 (case run_sync (on_close X path) m c of
                    (Inl e, c) \<Rightarrow> (map_sync_error e, c)
                  | (Inr _, c) \<Rightarrow> (answer, c))
               else (answer, c)
           | _ \<Rightarrow> (answer, c)))"

definition close_session ::
  "(u32 list \<Rightarrow> u32 list) \<Rightarrow> ('s, fs) sync_env \<Rightarrow> string \<Rightarrow> 's server_context \<Rightarrow> 's server_context" where
  "close_session hash_order X session c =
     fold (\<lambda>d c. snd (close_fd X d c))
       (case session_fds c session of None \<Rightarrow> [] | Some ds \<Rightarrow> hash_order ds)
       (c\<lparr>session_fds := (session_fds c)(session := None)\<rparr>)"

section \<open>Outbound sync after local changes\<close>

definition after_write :: "('s, fs) sync_env \<Rightarrow> u32 \<Rightarrow> 's server_context \<Rightarrow> 's server_context" where
  "after_write X d c =
     (case sc_sync c of
        None \<Rightarrow> c
      | Some m \<Rightarrow>
          (case fd_path_map c d of
             None \<Rightarrow> c
           | Some path \<Rightarrow>
               if is_realtime X then snd (run_sync (sync_file_now X path) m c)
               else give_back (enqueue_upload path (lend m c)) c))"

definition after_mkdir :: "('s, fs) sync_env \<Rightarrow> string \<Rightarrow> 's server_context \<Rightarrow> 's server_context" where
  "after_mkdir X path c =
     (case sc_sync c of None \<Rightarrow> c | Some m \<Rightarrow> snd (run_sync (on_mkdir X path) m c))"

definition after_rmdir :: "('s, fs) sync_env \<Rightarrow> string \<Rightarrow> 's server_context \<Rightarrow> 's server_context" where
  "after_rmdir X path c =
     (case sc_sync c of None \<Rightarrow> c | Some m \<Rightarrow> snd (run_sync (on_rmdir X path) m c))"

definition after_unlink :: "string \<Rightarrow> 's server_context \<Rightarrow> 's server_context" where
  "after_unlink path c =
     (case sc_sync c of None \<Rightarrow> c | Some m \<Rightarrow> give_back (enqueue_delete path (lend m c)) c)"

section \<open>Requests\<close>

definition connect_response :: "u32 \<Rightarrow> string \<Rightarrow> response" where
  "connect_response v new_session =
     (case negotiate_version v of
        Some negotiated \<Rightarrow> RsConnected new_session negotiated
      | None \<Rightarrow>
          RsError EcProtocolError
            (''Protocol version mismatch: client='' @ show_nat (unat v) @ '', server='' @ show_nat (unat PROTOCOL_VERSION)))"

text \<open>The local open and the registration of its descriptor, where \<open>OpenPath\<close> and \<open>OpenAt\<close> end.\<close>

definition finish_open ::
  "(fs \<Rightarrow> (fs_error + fd) \<times> fs) \<Rightarrow> string option \<Rightarrow> u32 \<Rightarrow> string option \<Rightarrow> 's server_context \<Rightarrow>
   response \<times> 's server_context" where
  "finish_open g path flags session c =
     (case run_fs g c of
        (Inr d, c) \<Rightarrow> (RsFd d, register_fd d path flags session c)
      | (Inl e, c) \<Rightarrow> (map_fs_error e, c))"

definition handle_open_path ::
  "nat \<Rightarrow> ('s, fs) sync_env \<Rightarrow> string \<Rightarrow> u32 \<Rightarrow> string option \<Rightarrow> 's server_context \<Rightarrow>
   (response \<times> 's server_context) option" where
  "handle_open_path fuel X path flags session c =
     (case before_open fuel X path flags c of
        None \<Rightarrow> None
      | Some (Some err, c) \<Rightarrow> Some (err, c)
      | Some (None, c) \<Rightarrow> Some (finish_open (\<lambda>f. open_path_with_flags f path flags) (Some path) flags session c))"

definition handle_open_at ::
  "nat \<Rightarrow> ('s, fs) sync_env \<Rightarrow> u32 \<Rightarrow> string \<Rightarrow> u32 \<Rightarrow> string option \<Rightarrow> 's server_context \<Rightarrow>
   (response \<times> 's server_context) option" where
  "handle_open_at fuel X dir_fd path flags session c =
     (let abs_path = map_option (\<lambda>dir. join_dir dir path) (fd_path_map c dir_fd) in
      case (case abs_path of None \<Rightarrow> Some (None, c) | Some p \<Rightarrow> before_open fuel X p flags c) of
        None \<Rightarrow> None
      | Some (Some err, c) \<Rightarrow> Some (err, c)
      | Some (None, c) \<Rightarrow> Some (finish_open (\<lambda>f. open_at f dir_fd path flags) abs_path flags session c))"

text \<open>The refresh in front of a read, once per descriptor.\<close>

definition before_read :: "('s, fs) sync_env \<Rightarrow> u32 \<Rightarrow> 's server_context \<Rightarrow> 's server_context" where
  "before_read X d c =
     (if read_from_s3 c \<and> d \<notin> s3_refreshed_fds c then
        let c =
          (case (fd_path_map c d, sc_sync c) of
             (Some path, Some m) \<Rightarrow> snd (run_sync (refresh_file_from_s3 X path) m c)
           | _ \<Rightarrow> c) in
        c\<lparr>s3_refreshed_fds := insert d (s3_refreshed_fds c)\<rparr>
      else c)"

definition handle_read ::
  "('s, fs) sync_env \<Rightarrow> u32 \<Rightarrow> nat \<Rightarrow> 's server_context \<Rightarrow> response \<times> 's server_context" where
  "handle_read X d len c =
     (case run_fs (\<lambda>f. fs_read f d (replicate len 0)) (before_read X d c) of
        (Inr (n, buf), c) \<Rightarrow> (RsData (take n buf), c)
      | (Inl e, c) \<Rightarrow> (map_fs_error e, c))"

text \<open>A local change, then what follows it when it succeeded.\<close>

definition change_then ::
  "(fs \<Rightarrow> (fs_error + 'r) \<times> fs) \<Rightarrow> ('r \<Rightarrow> response) \<Rightarrow> ('s server_context \<Rightarrow> 's server_context) \<Rightarrow>
   's server_context \<Rightarrow> response \<times> 's server_context" where
  "change_then g answer follow c =
     (case run_fs g c of
        (Inr r, c) \<Rightarrow> (answer r, follow c)
      | (Inl e, c) \<Rightarrow> (map_fs_error e, c))"

definition handle_fsync ::
  "('s, fs) sync_env \<Rightarrow> u32 \<Rightarrow> 's server_context \<Rightarrow> response \<times> 's server_context" where
  "handle_fsync X d c =
     (case fd_flags_map c d of
        None \<Rightarrow> (map_fs_error BadFileDescriptor, c)
      | Some flags \<Rightarrow>
          (case (fd_path_map c d, sc_sync c) of
             (Some path, Some m) \<Rightarrow>
               if is_write_access flags then
                 (case run_sync (on_fsync X path) m c of
                    (Inl e, c) \<Rightarrow> (map_sync_error e, c)
                  | (Inr _, c) \<Rightarrow> (RsOk, c))
               else (RsOk, c)
           | _ \<Rightarrow> (RsOk, c)))"

definition metadata_response :: "fs_error + metadata \<Rightarrow> response" where
  "metadata_response r =
     (case r of
        Inl e \<Rightarrow> map_fs_error e
      | Inr md \<Rightarrow> RsMetadata \<lparr>fm_size = md_size md, fm_created = created md, fm_modified = modified md, fm_is_dir = is_dir md\<rparr>)"

definition readdir_entry :: "fs \<Rightarrow> string \<Rightarrow> string \<Rightarrow> dir_entry" where
  "readdir_entry f path name =
     (let full = (if path = ''/'' then CHR ''/'' # name else path @ CHR ''/'' # name) in
      \<lparr>de_name = name, de_is_dir = (case stat f full of Inl _ \<Rightarrow> False | Inr md \<Rightarrow> is_dir md)\<rparr>)"

definition readdir_response :: "fs \<Rightarrow> string \<Rightarrow> response" where
  "readdir_response f path =
     (case readdir f path of
        Inl e \<Rightarrow> map_fs_error e
      | Inr names \<Rightarrow> RsDirEntries (map (readdir_entry f path) names))"

definition readdir_fd_response :: "fs \<Rightarrow> u32 \<Rightarrow> response" where
  "readdir_fd_response f d =
     (case readdir_fd f d of
        Inl e \<Rightarrow> map_fs_error e
      | Inr es \<Rightarrow> RsDirEntries (map (\<lambda>(n, b). \<lparr>de_name = n, de_is_dir = b\<rparr>) es))"

fun handle_request ::
  "nat \<Rightarrow> ('s, fs) sync_env \<Rightarrow> request \<Rightarrow> string option \<Rightarrow> string \<Rightarrow> 's server_context \<Rightarrow>
   (response \<times> 's server_context) option" where
  "handle_request fuel X (RqConnect v) session new_session c = Some (connect_response v new_session, c)"
| "handle_request fuel X (RqOpenPath path flags) session new_session c = handle_open_path fuel X path flags session c"
| "handle_request fuel X (RqOpenAt d path flags) session new_session c = handle_open_at fuel X d path flags session c"
| "handle_request fuel X (RqRead d len) session new_session c = Some (handle_read X d len c)"
| "handle_request fuel X (RqWrite d data) session new_session c =
     Some (change_then (\<lambda>f. fs_write f d data) RsWritten (after_write X d) c)"
| "handle_request fuel X (RqAppendWrite d data) session new_session c =
     Some (change_then (\<lambda>f. append_write f d data) RsWritten (after_write X d) c)"
| "handle_request fuel X (RqFtruncate d sz) session new_session c =
     Some (change_then (\<lambda>f. ftruncate f d sz) (\<lambda>_. RsOk) (after_write X d) c)"
| "handle_request fuel X (RqClose d) session new_session c = Some (close_fd X d c)"
| "handle_request fuel X (RqFsync d) session new_session c = Some (handle_fsync X d c)"
| "handle_request fuel X (RqSeek d off wh) session new_session c =
     Some (change_then (\<lambda>f. seek f d off wh) RsPosition id c)"
| "handle_request fuel X (RqFstat d) session new_session c = Some (metadata_response (fstat (sc_fs c) d), c)"
| "handle_request fuel X (RqStat path) session new_session c = Some (metadata_response (stat (sc_fs c) path), c)"
| "handle_request fuel X (RqMkdir path) session new_session c =
     Some (change_then (\<lambda>f. mkdir f path) (\<lambda>_. RsOk) (after_mkdir X path) c)"
| "handle_request fuel X (RqMkdirP path) session new_session c =
     Some (change_then (\<lambda>f. mkdir_p f path) (\<lambda>_. RsOk) (after_mkdir X path) c)"
| "handle_request fuel X (RqUnlink path) session new_session c =
     Some (change_then (\<lambda>f. unlink f path) (\<lambda>_. RsOk) (after_unlink path) c)"
| "handle_request fuel X (RqReaddir path) session new_session c = Some (readdir_response (sc_fs c) path, c)"
| "handle_request fuel X (RqReaddirFd d) session new_session c = Some (readdir_fd_response (sc_fs c) d, c)"
| "handle_request fuel X (RqRmdir path) session new_session c =
     Some (change_then (\<lambda>f. rmdir f path) (\<lambda>_. RsOk) (after_rmdir X path) c)"
| "handle_request fuel X (RqRename old_path new_path) session new_session c =
     Some (change_then (\<lambda>f. rename f old_path new_path) (\<lambda>_. RsOk) id c)"

section \<open>Starting up\<close>

text \<open>\<open>String::to_lowercase\<close>, compared with an ASCII word, is decided by the ASCII letters and by the
  Kelvin sign, which is no letter of \<open>s3\<close>.\<close>

definition env_is_s3 :: "(string \<Rightarrow> string option) \<Rightarrow> string \<Rightarrow> bool" where
  "env_is_s3 get key = (case get key of None \<Rightarrow> False | Some v \<Rightarrow> to_ascii_lowercase v = ''s3'')"

definition server_config :: "(string \<Rightarrow> string option) \<Rightarrow> sync_config" where
  "server_config get = (from_lookup get)\<lparr>lock_timeout := 0\<rparr>"

text \<open>\<open>store\<close> and \<open>s\<close> are the client that \<open>new_s3_storage\<close> returns for the bucket and the prefix, \<open>inst\<close>
  the random identifier of the manager.\<close>

definition server_env ::
  "(string \<Rightarrow> string \<Rightarrow> 's object_store) \<Rightarrow> time_env \<Rightarrow> (string \<Rightarrow> string option) \<Rightarrow> ('s, fs) sync_env" where
  "server_env store E get =
     \<lparr>se_store =
        store (case get ''VFS_S3_BUCKET'' of None \<Rightarrow> [] | Some b \<Rightarrow> b)
          (case get ''VFS_S3_PREFIX'' of None \<Rightarrow> ''vfs/'' | Some p \<Rightarrow> p),
      se_fs = adapter_fs, se_time = E, config = server_config get\<rparr>"

definition init_server ::
  "('s, fs) sync_env \<Rightarrow> (string \<Rightarrow> string option) \<Rightarrow> string \<Rightarrow> 's \<Rightarrow> clk \<Rightarrow> 's server_context" where
  "init_server X get inst s k =
     (case (case get ''VFS_S3_BUCKET'' of
              None \<Rightarrow> (fs_new, None)
            | Some bucket \<Rightarrow>
                (case init_from_s3 (se_store X) s of
                   (r, s) \<Rightarrow>
                     (case (case r of Inr (f, cache) \<Rightarrow> (f, cache) | Inl _ \<Rightarrow> (fs_new, mc_new)) of
                        (f, cache) \<Rightarrow> (f, Some (sm_new X s f cache inst k))))) of
        (f, sync) \<Rightarrow>
          \<lparr>sc_fs = f, sc_sync = sync, fd_path_map = Map.empty, fd_flags_map = Map.empty,
           session_fds = Map.empty, s3_refreshed_fds = {},
           read_from_s3 = env_is_s3 get ''VFS_READ_MODE'', metadata_sync = env_is_s3 get ''VFS_METADATA_MODE''\<rparr>)"

section \<open>The request loop\<close>

definition sync_tick :: "('s, fs) sync_env \<Rightarrow> 's server_context \<Rightarrow> 's server_context" where
  "sync_tick X c = (case sc_sync c of None \<Rightarrow> c | Some m \<Rightarrow> snd (run_sync (maybe_sync X) m c))"

definition undecodable :: "string \<Rightarrow> response" where
  "undecodable msg = RsError EcSerializationError msg"

text \<open>What \<open>handle_one_request\<close> does with the bytes of one message: the response, the session of the
  client afterwards, and the new state. \<open>W\<close> is the pointer width and \<open>dec\<close> the decoder of the protocol
  buffer library.\<close>

definition serve_message ::
  "nat \<Rightarrow> (bytes \<Rightarrow> pb_rpc_request option) \<Rightarrow> nat \<Rightarrow> ('s, fs) sync_env \<Rightarrow> bytes \<Rightarrow> string \<Rightarrow>
   string option \<Rightarrow> 's server_context \<Rightarrow> (response \<times> string option \<times> 's server_context) option" where
  "serve_message W dec fuel X msg new_session session c =
     (case dec msg of
        None \<Rightarrow> Some (undecodable ''Failed to decode protobuf request'', session, c)
      | Some pb \<Rightarrow>
          (case from_proto_request W pb of
             Inl e \<Rightarrow> Some (undecodable e, session, c)
           | Inr rq \<Rightarrow>
               (case handle_request fuel X (rq_request rq) session new_session c of
                  None \<Rightarrow> None
                | Some (r, c) \<Rightarrow>
                    Some (r, case r of RsConnected sid _ \<Rightarrow> Some sid | _ \<Rightarrow> session, c))))"

text \<open>A client that is gone: its descriptors are closed and the queue is flushed.\<close>

definition client_gone ::
  "(u32 list \<Rightarrow> u32 list) \<Rightarrow> nat \<Rightarrow> ('s, fs) sync_env \<Rightarrow> string option \<Rightarrow> 's server_context \<Rightarrow>
   's server_context option" where
  "client_gone hash_order fuel X session c =
     (let c = (case session of None \<Rightarrow> c | Some sid \<Rightarrow> close_session hash_order X sid c) in
      case sc_sync c of
        None \<Rightarrow> Some c
      | Some m \<Rightarrow>
          if pending_count m > 0 then map_option (\<lambda>(r, m). give_back m c) (force_flush fuel X (lend m c))
          else Some c)"

end
