(* ===== verification/Rpc_Inv.thy ===== *)
theory Rpc_Inv
  imports Rpc_Server
begin

text \<open>
  The RPC server over the sync manager: the invariant of its tables in every reachable state, the
  contract between open write descriptors and leases (\<open>lease_holds\<close>), and the calls that do not wait.
\<close>

section \<open>Counting the holders of a lease\<close>

definition hold_count :: "('s, 'f) sync_manager \<Rightarrow> string \<Rightarrow> nat" where
  "hold_count m p = (case lt_get (leases m) p of None \<Rightarrow> 0 | Some l \<Rightarrow> refcount l)"

definition same_holds :: "('s, 'f) sync_manager \<Rightarrow> ('s, 'f) sync_manager \<Rightarrow> bool" where
  "same_holds m m' \<longleftrightarrow> hold_count m' = hold_count m"

lemma hold_count_updates [simp]:
  "hold_count (m\<lparr>m_store := s\<rparr>) = hold_count m" "hold_count (m\<lparr>m_fs := f\<rparr>) = hold_count m"
  "hold_count (m\<lparr>m_clk := c\<rparr>) = hold_count m" "hold_count (m\<lparr>outbound_queue := q\<rparr>) = hold_count m"
  "hold_count (m\<lparr>last_poll := t\<rparr>) = hold_count m" "hold_count (m\<lparr>last_flush := t\<rparr>) = hold_count m"
  by (simp_all add: hold_count_def fun_eq_iff)

lemma same_holds_trans [trans]: "same_holds m1 m2 \<Longrightarrow> same_holds m2 m3 \<Longrightarrow> same_holds m1 m3"
  by (simp add: same_holds_def)

lemma same_holds_leases: "leases m' = leases m \<Longrightarrow> same_holds m m'"
  by (simp add: same_holds_def hold_count_def fun_eq_iff)

lemma same_holds_kept: "holds_kept m m' \<Longrightarrow> same_holds m m'"
proof -
  assume k: "holds_kept m m'"
  have "hold_count m' p = hold_count m p" for p
  proof -
    have "rel_option same_hold (lt_get (leases m) p) (lt_get (leases m') p)" using k by (simp add: holds_kept_def)
    then show ?thesis by (cases "lt_get (leases m) p"; cases "lt_get (leases m') p") (auto simp: hold_count_def same_hold_def)
  qed
  then show ?thesis by (simp add: same_holds_def fun_eq_iff)
qed

lemma same_holds_book: "same_book m m' \<Longrightarrow> same_holds m m'"
  by (intro same_holds_kept same_book_kept)

lemma hold_count_modify:
  "(\<And>l. refcount (g l) = refcount l) \<Longrightarrow> same_holds m (modify_lease p g m)"
  by (auto simp: same_holds_def hold_count_def sync_frame lease_table_simps fun_eq_iff split: option.split)

lemma same_holds_renew_one: "same_holds m (renew_one X p m)"
  by (auto simp: renew_one_def Let_def same_holds_leases split: option.splits prod.splits sum.splits if_splits
      intro!: same_holds_trans [OF same_holds_leases hold_count_modify])

lemma same_holds_renew: "same_holds m (renew_leases X m)"
proof -
  have "same_holds m1 (fold (renew_one X) ps m1)" for ps m1
    by (induction ps arbitrary: m1) (auto intro: same_holds_trans same_holds_renew_one same_holds_leases)
  moreover have "same_holds m (snd (read_instant X m))"
    by (auto simp: read_instant_def intro: same_holds_leases split: prod.split)
  ultimately show ?thesis by (auto simp: renew_leases_def split: prod.splits intro: same_holds_trans)
qed

lemma same_holds_flush_upload: "flush_upload X p m = (r, m') \<Longrightarrow> same_holds m m'"
  using flush_upload_queue [of X p m r m'] same_holds_kept [of m]
  by (auto split: if_splits simp: push_back_def same_holds_def)

lemma same_holds_flush_loop: "flush_loop X n k m = (r, m') \<Longrightarrow> same_holds m m'"
proof (induction n arbitrary: k m)
  case (Suc n)
  show ?case
  proof (cases "outbound_queue m")
    case (Cons op rest)
    define m1 where "m1 = m\<lparr>outbound_queue := rest\<rparr>"
    have s1: "same_holds m m1" by (simp add: m1_def same_holds_leases)
    show ?thesis
      using Suc.prems Cons s1 same_holds_kept [OF holds_kept_flush_delete, of m1 X] same_holds_flush_upload [of X _ m1]
      by (auto simp: m1_def [symmetric] Let_def same_holds_def split: sync_operation.splits if_splits prod.splits sum.splits
          dest!: Suc.IH)
  qed (use Suc.prems in \<open>simp add: same_holds_leases\<close>)
qed (simp add: same_holds_leases)

lemma same_holds_instant: "read_instant X m = (t, m') \<Longrightarrow> same_holds m m'"
  by (auto dest: read_instantD intro: same_holds_leases)

lemma same_holds_flush: "flush_outbound X m = (r, m') \<Longrightarrow> same_holds m m'"
  by (auto simp: flush_outbound_def split: prod.splits sum.splits
      dest!: same_holds_flush_loop same_holds_instant simp: same_holds_def)

lemma same_holds_force_flush: "force_flush_loop n X acc m = Some (r, m') \<Longrightarrow> same_holds m m'"
proof (induction n arbitrary: acc m)
  case (Suc n)
  then show ?case
    by (auto split: if_splits prod.splits sum.splits dest!: same_holds_flush intro: same_holds_trans simp: same_holds_leases)
qed simp

lemma same_holds_poll: "poll_inbound X m = (r, m') \<Longrightarrow> same_holds m m'"
  by (intro same_holds_book same_book_poll)

lemma same_holds_tick: "maybe_sync X m = (r, m') \<Longrightarrow> same_holds m m'"
proof -
  assume run: "maybe_sync X m = (r, m')"
  define m1 where "m1 = (if file_lock (config X) then renew_leases X m else m)"
  obtain t m2 where 2: "read_instant X m1 = (t, m2)" by fastforce
  obtain b m3 where 3: "(if should_flush X (t - last_flush m2) (outbound_queue m2) then
      case flush_outbound X m2 of (Inr k, m) \<Rightarrow> (k > 0, m) | (Inl _, m) \<Rightarrow> (False, m) else (False, m2)) = (b, m3)" by fastforce
  obtain t' m4 where 4: "read_instant X m3 = (t', m4)" by fastforce
  obtain b' m5 where 5: "(case poll_inbound X m4 of (Inr st, m) \<Rightarrow> (downloaded st > 0 \<or> deleted st > 0, m) | (Inl _, m) \<Rightarrow> (False, m))
      = (b', m5)" by fastforce
  obtain t'' m6 where 6: "read_instant X m5 = (t'', m6)" by fastforce
  have "same_holds m m1" by (simp add: m1_def same_holds_renew same_holds_leases)
  also have "same_holds m1 m2" by (rule same_holds_instant [OF 2])
  also have "same_holds m2 m3"
    using 3 same_holds_flush [of X m2] by (auto simp: same_holds_leases split: if_splits prod.splits sum.splits)
  also have "same_holds m3 m4" by (rule same_holds_instant [OF 4])
  finally have h4: "same_holds m m4" .
  also have "same_holds m4 m5" using 5 same_holds_poll [of X m4] by (auto split: prod.splits sum.splits)
  also have "same_holds m5 m6" by (rule same_holds_instant [OF 6])
  finally have "same_holds m (m6\<lparr>last_poll := t''\<rparr>)" by (simp add: same_holds_def hold_count_def fun_eq_iff)
  moreover have "m' = m \<or> m' = m6\<lparr>last_poll := t''\<rparr> \<or> m' = m4"
    using run 2 3 4 5 6 by (auto simp: maybe_sync_def m1_def [symmetric] Let_def split: if_splits)
  ultimately show ?thesis using h4 by (auto simp: same_holds_leases)
qed

text \<open>Opening adds a holder when it succeeds, closing takes one away.\<close>

lemma hold_count_join:
  "join_lease n p m = Some (b, m') \<Longrightarrow>
    (if b then hold_count m' q = hold_count m q + (if q = p then 1 else 0) else leases m' = leases m)"
proof (induction n arbitrary: m)
  case (Suc n)
  show ?case
  proof (cases "\<exists>l. lt_get (leases m) p = Some l \<and> releasing l")
    case True
    then have "join_lease n p (m\<lparr>m_clk := clk_sleep (from_millis 10) (m_clk m)\<rparr>) = Some (b, m')"
      using Suc.prems by auto
    from Suc.IH [OF this] show ?thesis by (simp split: if_splits)
  next
    case False
    then show ?thesis using Suc.prems
      by (auto simp: hold_count_def sync_frame lease_table_simps split: option.splits)
  qed
qed simp

lemma leases_take_queued: "take_queued_upload p m = (b, m') \<Longrightarrow> leases m' = leases m"
  by (auto simp: take_queued_upload_def Let_def)

lemma same_holds_adopt: "adopt_base X p a m = (r, m') \<Longrightarrow> same_holds m m'"
proof -
  assume run: "adopt_base X p a m = (r, m')"
  obtain b m1 where t: "take_queued_upload p m = (b, m1)" by fastforce
  show ?thesis
    using same_holds_kept [OF adopt_kept [OF t run]] same_holds_leases [OF leases_take_queued [OF t]] same_holds_trans by blast
qed

lemma hold_count_open:
  assumes run: "on_open_write n X p m = Some (r, m')"
  shows "hold_count m' q = hold_count m q + (if is_ok r \<and> file_lock (config X) \<and> q = p then 1 else 0)"
proof (cases "file_lock (config X)")
  case lock: True
  obtain b m1 where j: "join_lease n p m = Some (b, m1)"
    using run lock by (auto simp: on_open_write_def split: option.splits)
  note jc = hold_count_join [OF j, of q]
  show ?thesis
  proof (cases b)
    case True
    then show ?thesis using run lock j jc by (auto simp: on_open_write_def)
  next
    case False
    obtain ra s c where a: "acquire n (se_store X) (se_time X) p (instance_id m1) (lock_lease (config X))
        (lock_timeout (config X)) (m_store m1) (m_clk m1) = Some (ra, s, c)"
      using run j lock False by (auto simp: on_open_write_def split: option.splits)
    define m2 where "m2 = m1\<lparr>m_store := s, m_clk := c\<rparr>"
    have m2: "leases m2 = leases m" using jc False by (simp add: m2_def)
    show ?thesis
    proof (cases "\<exists>aq. ra = Inr aq \<and> \<not> is_locked m2 p")
      case True
      then obtain aq where aq: "ra = Inr aq" "\<not> is_locked m2 p" by blast
      obtain rb m3 where ab: "adopt_base X p aq m2 = (rb, m3)" by fastforce
      have h3: "hold_count m3 = hold_count m" "hold_count m p = 0"
        using same_holds_trans [OF same_holds_leases [OF m2] same_holds_adopt [OF ab]] m2 aq(2)
        by (simp_all add: same_holds_def hold_count_def [of m p] is_locked_get)
      have "case rb of Inl e \<Rightarrow> r = Inl e \<and> m' = m3
        | Inr base \<Rightarrow> r = Inr () \<and> m' = m3\<lparr>leases := lt_insert (leases m3) p (fresh_lease base aq)\<rparr>"
        using run j a lock False aq ab by (cases rb) (auto simp: on_open_write_def m2_def Let_def)
      moreover have "hold_count (m3\<lparr>leases := lt_insert (leases m3) p (fresh_lease base aq)\<rparr>) q =
          hold_count m3 q + (if q = p then 1 else 0)" for base
        using fun_cong [OF h3(1), of q] h3(2) by (auto simp: hold_count_def lease_table_simps fresh_lease_def)
      ultimately show ?thesis using h3 lock by (cases rb) auto
    next
      case nt: False
      then show ?thesis
        using run j a lock False m2
        by (cases ra) (auto simp: on_open_write_def m2_def Let_def sync_frame is_locked_get lease_table_simps hold_count_def)
    qed
  qed
qed (use run in \<open>simp add: on_open_write_def\<close>)

lemma hold_count_drop:
  assumes "drop_lease X p l m = (r, m')"
  shows "hold_count m' q = (if q = p then 0 else hold_count m q)"
proof -
  obtain m1 where f: "flush_lease X p l m = (r, m1)" and m': "leases m' = lt_remove (leases m1) p"
    using assms by (auto simp: drop_lease_def Let_def sync_frame split: prod.splits)
  have "hold_count m1 = hold_count m" using same_holds_kept [OF holds_kept_flush_lease [OF f]] by (simp add: same_holds_def)
  then have "hold_count m1 q = hold_count m q" by simp
  with m' show ?thesis by (simp add: hold_count_def lease_table_simps)
qed

lemma hold_count_close:
  assumes run: "on_close X p m = (r, m')"
  shows "hold_count m' q = hold_count m q - (if q = p then 1 else 0)"
proof (cases "lt_get (leases m) p")
  case None
  then show ?thesis using run by (auto simp: on_close_def hold_count_def)
next
  case (Some l)
  show ?thesis
  proof (cases "refcount l > 1")
    case True
    then show ?thesis using run Some by (auto simp: on_close_def hold_count_def sync_frame lease_table_simps split: option.split)
  next
    case False
    then have d: "drop_lease X p (l\<lparr>releasing := True\<rparr>) (modify_lease p (\<lambda>l. l\<lparr>releasing := True\<rparr>) m) = (r, m')"
      using run Some by (simp add: on_close_def)
    show ?thesis
      using hold_count_drop [OF d, of q] False Some
      by (auto simp: hold_count_def sync_frame lease_table_simps split: option.split)
  qed
qed

lemma same_holds_enqueue: "same_holds m (enqueue_upload p m)" "same_holds m (enqueue_delete p m)"
  by (auto simp: enqueue_upload_def enqueue_delete_def Let_def same_holds_leases hold_count_modify)

lemma same_holds_fsync: "on_fsync X p m = (r, m') \<Longrightarrow> same_holds m m'"
  by (auto simp: on_fsync_def same_holds_leases split: option.splits if_splits
      dest: holds_kept_flush_lease holds_kept_sync_now intro: same_holds_kept)

section \<open>The contract between descriptors and leases\<close>

text \<open>
  A lease is a counted hold on a path: \<open>opens\<close> may take one (\<open>None\<close> if it does not return, \<open>False\<close> if
  it takes none), \<open>closes\<close> gives one back, and no other call changes a count. The client keeps a set
  \<open>D p\<close> of descriptors for every path \<open>p\<close>.
\<close>

locale lease_holds =
  fixes holds :: "'m \<Rightarrow> string \<Rightarrow> nat"
    and opens :: "string \<Rightarrow> 'm \<Rightarrow> (bool \<times> 'm) option"
    and closes :: "string \<Rightarrow> 'm \<Rightarrow> 'm"
    and others :: "'m \<Rightarrow> 'm \<Rightarrow> bool"
  assumes opens_law: "opens p m = Some (taken, m') \<Longrightarrow> holds m' q = holds m q + (if taken \<and> q = p then 1 else 0)"
    and closes_law: "holds (closes p m) q = holds m q - (if q = p then 1 else 0)"
    and others_law: "others m m' \<Longrightarrow> holds m' q = holds m q"
begin

definition covered :: "'m \<Rightarrow> (string \<Rightarrow> 'd set) \<Rightarrow> bool" where
  "covered m D \<longleftrightarrow> (\<forall>p. finite (D p) \<and> card (D p) \<le> holds m p)"

lemma covered_held: "covered m D \<Longrightarrow> d \<in> D p \<Longrightarrow> 1 \<le> holds m p"
  by (metis One_nat_def Suc_leI card_gt_0_iff covered_def empty_iff le_trans)

lemma covered_mono: "covered m D \<Longrightarrow> (\<And>p. D' p \<subseteq> D p) \<Longrightarrow> covered m D'"
  unfolding covered_def by (meson card_mono finite_subset le_trans)

lemma covered_others: "covered m D \<Longrightarrow> others m m' \<Longrightarrow> covered m' D"
  by (simp add: covered_def others_law)

lemma covered_opens: "covered m D \<Longrightarrow> opens p m = Some (taken, m') \<Longrightarrow> covered m' D"
  by (auto simp: covered_def opens_law intro: le_trans)

text \<open>The hold that was taken covers one more descriptor.\<close>

lemma covered_opened:
  assumes "covered m D" and "opens p m = Some (True, m')"
    and "\<And>q. q \<noteq> p \<Longrightarrow> D' q \<subseteq> D q" and "D' p \<subseteq> insert d (D p)"
  shows "covered m' D'"
proof -
  have "finite (D' q) \<and> card (D' q) \<le> holds m' q" for q
  proof (cases "q = p")
    case True
    have f: "finite (D p)" "card (D p) \<le> holds m p" using assms(1) by (simp_all add: covered_def)
    have "card (D' p) \<le> card (insert d (D p))" using assms(4) f(1) by (intro card_mono) auto
    also have "\<dots> \<le> card (D p) + 1" using f(1) by (simp add: card_insert_if)
    finally show ?thesis using True f assms(4) opens_law [OF assms(2), of p] by (auto intro: finite_subset)
  next
    case False
    then show ?thesis
      using assms(1,3) opens_law [OF assms(2), of q] unfolding covered_def by simp (meson card_mono finite_subset le_trans)
  qed
  then show ?thesis by (simp add: covered_def)
qed

text \<open>The hold that is given back covered the descriptor that was closed.\<close>

lemma covered_closed:
  assumes "covered m D" and "d \<in> D p" and "\<And>q. D' q \<subseteq> D q" and "d \<notin> D' p"
  shows "covered (closes p m) D'"
proof -
  have "finite (D' q) \<and> card (D' q) \<le> holds (closes p m) q" for q
  proof -
    have f: "finite (D q)" "card (D q) \<le> holds m q" using assms(1) by (simp_all add: covered_def)
    have "card (D' q) \<le> card (D q - (if q = p then {d} else {}))"
      using f(1) assms(3,4) by (intro card_mono) auto
    also have "\<dots> = card (D q) - (if q = p then 1 else 0)" using f(1) assms(2) by (auto simp: card_Diff_singleton)
    finally show ?thesis using f assms(3) [of q] by (auto simp: closes_law intro: finite_subset split: if_splits)
  qed
  then show ?thesis by (simp add: covered_def)
qed

end

text \<open>The sync manager keeps the contract; a hold is taken only when file locks are enabled.\<close>

definition lease_open ::
  "nat \<Rightarrow> ('s, 'f) sync_env \<Rightarrow> string \<Rightarrow> ('s, 'f) sync_manager \<Rightarrow> (bool \<times> ('s, 'f) sync_manager) option" where
  "lease_open n X p m = map_option (\<lambda>(r, m). (is_ok r \<and> file_lock (config X), m)) (on_open_write n X p m)"

interpretation lh: lease_holds hold_count "lease_open n X" "\<lambda>p m. snd (on_close X p m)" same_holds for n X
proof unfold_locales
  fix p m taken m' q assume "lease_open n X p m = Some (taken, m')"
  then show "hold_count m' q = hold_count m q + (if taken \<and> q = p then 1 else 0)"
    using hold_count_open [of n X p m _ m' q] by (auto simp: lease_open_def)
next
  fix p m q show "hold_count (snd (on_close X p m)) q = hold_count m q - (if q = p then 1 else 0)"
    by (rule hold_count_close [OF prod.collapse [symmetric]])
qed (simp add: same_holds_def)

section \<open>The invariant of the server\<close>

definition writers :: "'s server_context \<Rightarrow> string \<Rightarrow> u32 set" where
  "writers c p = {d. fd_path_map c d = Some p \<and> (\<exists>fl. fd_flags_map c d = Some fl \<and> is_write_access fl)}"

definition maps_ok :: "'s server_context \<Rightarrow> bool" where
  "maps_ok c \<longleftrightarrow> dom (fd_path_map c) \<subseteq> dom (fd_flags_map c) \<and> finite (dom (fd_flags_map c)) \<and>
     (\<forall>sid ds. session_fds c sid = Some ds \<longrightarrow> distinct ds \<and> set ds \<subseteq> dom (fd_flags_map c))"

definition manager_ok :: "('s, fs) sync_env \<Rightarrow> (string \<Rightarrow> u32 set) \<Rightarrow> ('s, fs) sync_manager option \<Rightarrow> bool" where
  "manager_ok X D s \<longleftrightarrow> (\<forall>m. s = Some m \<longrightarrow> sm_inv m \<and> (file_lock (config X) \<longrightarrow> lh.covered m D))"

definition server_inv :: "('s, fs) sync_env \<Rightarrow> 's server_context \<Rightarrow> bool" where
  "server_inv X c \<longleftrightarrow> maps_ok c \<and> manager_ok X (writers c) (sc_sync c)"

definition numbered :: "'s server_context \<Rightarrow> bool" where
  "numbered c \<longleftrightarrow> 0 < next_fd (sc_fs c) \<and> (\<forall>d \<in> dom (fd_flags_map c). d < next_fd (sc_fs c))"

definition same_maps :: "'s server_context \<Rightarrow> 's server_context \<Rightarrow> bool" where
  "same_maps c c' \<longleftrightarrow> fd_path_map c' = fd_path_map c \<and> fd_flags_map c' = fd_flags_map c \<and> session_fds c' = session_fds c"

lemma same_maps_refl [simp]: "same_maps c c"
  by (simp add: same_maps_def)

lemma same_maps_trans: "same_maps c1 c2 \<Longrightarrow> same_maps c2 c3 \<Longrightarrow> same_maps c1 c3"
  by (simp add: same_maps_def)

lemma same_maps_ok: "same_maps c c' \<Longrightarrow> maps_ok c' = maps_ok c \<and> writers c' = writers c"
  by (simp add: same_maps_def maps_ok_def writers_def [abs_def])

lemma same_maps_steps [simp]:
  "same_maps c (snd (run_fs g c)) " "same_maps c (snd (run_sync k m c))" "same_maps c (give_back m c)"
  "same_maps c (c\<lparr>s3_refreshed_fds := R\<rparr>)"
  by (simp_all add: same_maps_def run_fs_def run_sync_def give_back_def split: prod.split)

text \<open>A call that is neither an open nor a close.\<close>

definition quiet :: "'s server_context \<Rightarrow> 's server_context \<Rightarrow> bool" where
  "quiet c c' \<longleftrightarrow> same_maps c c' \<and>
     rel_option (\<lambda>m m'. (sm_inv m \<longrightarrow> sm_inv m') \<and> same_holds m m') (sc_sync c) (sc_sync c')"

lemma quiet_refl [simp]: "quiet c c"
  by (auto simp: quiet_def same_holds_def intro: option.rel_refl)

lemma quiet_trans: "quiet c1 c2 \<Longrightarrow> quiet c2 c3 \<Longrightarrow> quiet c1 c3"
  by (cases "sc_sync c1"; cases "sc_sync c2"; cases "sc_sync c3")
    (auto simp: quiet_def intro: same_maps_trans same_holds_trans)

lemma quiet_inv: "server_inv X c \<Longrightarrow> quiet c c' \<Longrightarrow> server_inv X c'"
  using same_maps_ok [of c c'] lh.covered_others [of _ "writers c"]
  by (cases "sc_sync c"; cases "sc_sync c'") (auto simp: server_inv_def manager_ok_def quiet_def)

lemma quiet_run_fs [simp]: "quiet c (snd (run_fs g c))"
  using option.rel_refl [of "\<lambda>m m'. (sm_inv m \<longrightarrow> sm_inv m') \<and> same_holds m m'" "sc_sync c"]
  by (auto simp: quiet_def run_fs_def same_maps_def same_holds_def split: prod.split)

lemma sm_inv_lend: "sm_inv m \<Longrightarrow> sm_inv (lend m c)"
  using sm_inv_book [of m "lend m c"] by (simp add: lend_def)

lemma same_holds_lend: "same_holds (lend m c) m' = same_holds m m'"
  by (simp add: same_holds_def lend_def)

lemma quiet_give_back:
  "sc_sync c = Some m \<Longrightarrow> (sm_inv (lend m c) \<Longrightarrow> sm_inv m') \<Longrightarrow> same_holds (lend m c) m' \<Longrightarrow> quiet c (give_back m' c)"
  using sm_inv_lend [of m c] by (simp add: quiet_def same_holds_lend) (simp add: give_back_def)

lemma quiet_run_sync:
  assumes "sc_sync c = Some m"
    and "\<And>r m'. g (lend m c) = (r, m') \<Longrightarrow> sm_inv (lend m c) \<Longrightarrow> sm_inv m'"
    and "\<And>r m'. g (lend m c) = (r, m') \<Longrightarrow> same_holds (lend m c) m'"
  shows "quiet c (snd (run_sync g m c))"
  using assms quiet_give_back [OF assms(1)] by (auto simp: run_sync_def split: prod.split)

lemma quiet_run_kept:
  "sc_sync c = Some m \<Longrightarrow> (\<And>r m'. g (lend m c) = (r, m') \<Longrightarrow> holds_kept (lend m c) m') \<Longrightarrow> quiet c (snd (run_sync g m c))"
  by (rule quiet_run_sync) (auto dest: sm_inv_kept same_holds_kept)

lemma quiet_run_book:
  "sc_sync c = Some m \<Longrightarrow> (\<And>r m'. g (lend m c) = (r, m') \<Longrightarrow> same_book (lend m c) m') \<Longrightarrow> quiet c (snd (run_sync g m c))"
  by (rule quiet_run_kept) (auto dest: same_book_kept)

lemma quiet_after_write: "quiet c (after_write X d c)"
  by (auto simp: after_write_def split: option.split intro!: quiet_run_kept holds_kept_sync_now quiet_give_back
      sm_inv_enqueue_upload same_holds_enqueue)

lemma quiet_after_mkdir: "quiet c (after_mkdir X p c)"
  by (auto simp: after_mkdir_def split: option.split intro!: quiet_run_book same_book_mkdir)

lemma quiet_after_rmdir: "quiet c (after_rmdir X p c)"
  by (auto simp: after_rmdir_def split: option.split intro!: quiet_run_book same_book_rmdir)

lemma quiet_after_unlink: "quiet c (after_unlink p c)"
  by (auto simp: after_unlink_def split: option.split intro!: quiet_give_back sm_inv_enqueue_delete same_holds_enqueue)

lemma quiet_tick: "quiet c (sync_tick X c)"
proof -
  have "quiet c (snd (run_sync (maybe_sync X) m c))" if "sc_sync c = Some m" for m
    using that by (intro quiet_run_sync) (auto dest: sm_inv_tick same_holds_tick)
  then show ?thesis by (simp add: sync_tick_def split: option.split)
qed

lemma quiet_change:
  assumes "change_then g answer follow c = (r, c')" and "\<And>c. quiet c (follow c)"
  shows "quiet c c'"
proof -
  obtain q c1 where f: "run_fs g c = (q, c1)" by fastforce
  have q: "quiet c c1" using quiet_run_fs [of c g] f by simp
  show ?thesis
    using assms(1) f q quiet_trans [OF q assms(2)] by (cases q) (auto simp: change_then_def)
qed

lemma quiet_before_read: "quiet c (before_read X d c)"
proof -
  define c1 where "c1 = (case (fd_path_map c d, sc_sync c) of
      (Some path, Some m) \<Rightarrow> snd (run_sync (refresh_file_from_s3 X path) m c) | _ \<Rightarrow> c)"
  have "quiet c c1"
    by (auto simp: c1_def split: option.split intro!: quiet_run_book same_book_refresh_file)
  then have "quiet c (c1\<lparr>s3_refreshed_fds := insert d (s3_refreshed_fds c1)\<rparr>)"
    by (simp add: quiet_def same_maps_def)
  moreover have "before_read X d c = (if read_from_s3 c \<and> d \<notin> s3_refreshed_fds c
      then c1\<lparr>s3_refreshed_fds := insert d (s3_refreshed_fds c1)\<rparr> else c)"
    unfolding before_read_def c1_def by (simp only: Let_def)
  ultimately show ?thesis by simp
qed

lemma quiet_read: "handle_read X d n c = (r, c') \<Longrightarrow> quiet c c'"
proof -
  assume run: "handle_read X d n c = (r, c')"
  obtain q c1 where f: "run_fs (\<lambda>f. fs_read f d (replicate n 0)) (before_read X d c) = (q, c1)" by fastforce
  have "quiet c c1"
    using quiet_trans [OF quiet_before_read quiet_run_fs] f by (metis snd_conv)
  then show ?thesis using run f by (auto simp: handle_read_def split: sum.splits)
qed

lemma quiet_fsync: "handle_fsync X d c = (r, c') \<Longrightarrow> quiet c c'"
proof -
  assume run: "handle_fsync X d c = (r, c')"
  have "quiet c (snd (run_sync (on_fsync X p) m c))" if "sc_sync c = Some m" for p m
    using that by (intro quiet_run_sync) (auto dest: sm_inv_fsync same_holds_fsync)
  then show ?thesis using run
    by (auto simp: handle_fsync_def split: option.splits if_splits prod.splits sum.splits) (metis snd_conv)+
qed

section \<open>Opening\<close>

lemma writers_register:
  "writers (register_fd d p fl s c) q \<subseteq>
     (if p = Some q \<and> is_write_access fl then insert d (writers c q)
      else if p = None \<and> fd_path_map c d = Some q then insert d (writers c q) else writers c q)"
  by (auto simp: writers_def register_fd_def split: option.splits if_splits)

lemma maps_ok_register: "maps_ok c \<Longrightarrow> maps_ok (register_fd d p fl s c)"
  by (fastforce simp: maps_ok_def register_fd_def add_session_fd_def split: option.splits if_splits)

text \<open>What is known after \<open>before_open\<close> returned without an error.\<close>

definition opened_for ::
  "('s, fs) sync_env \<Rightarrow> string \<Rightarrow> u32 \<Rightarrow> 's server_context \<Rightarrow> bool" where
  "opened_for X p fl c \<longleftrightarrow>
     (\<forall>m. sc_sync c = Some m \<longrightarrow> file_lock (config X) \<longrightarrow> is_write_access fl \<longrightarrow>
        (\<forall>D' d. (\<forall>q. q \<noteq> p \<longrightarrow> D' q \<subseteq> writers c q) \<longrightarrow> D' p \<subseteq> insert d (writers c p) \<longrightarrow> lh.covered m D'))"

lemma before_open_inv:
  assumes inv: "server_inv X c" and run: "before_open n X p fl c = Some (e, c')"
  shows "same_maps c c' \<and> server_inv X c' \<and> (e = None \<longrightarrow> opened_for X p fl c')"
proof (cases "sc_sync c")
  case None
  then show ?thesis using run inv by (auto simp: before_open_def opened_for_def)
next
  case (Some m)
  show ?thesis
  proof (cases "file_lock (config X) \<and> is_write_access fl")
    case True
    obtain r m' where o: "on_open_write n X p (lend m c) = Some (r, m')" "c' = give_back m' c"
        "e = (case r of Inl e \<Rightarrow> Some (map_sync_error e) | Inr _ \<Rightarrow> None)"
      using run Some True by (auto simp: before_open_def split: option.splits)
    have i: "sm_inv m'" using sm_inv_open_write [OF _ o(1)] sm_inv_lend [of m c] inv Some
      by (simp add: server_inv_def manager_ok_def)
    have l: "lease_open n X p (lend m c) = Some (is_ok r, m')" using o(1) True by (simp add: lease_open_def)
    have s: "same_maps c c'" using o(2) by simp
    have cov: "lh.covered (lend m c) (writers c)"
      using inv Some True by (simp add: server_inv_def manager_ok_def lh.covered_def lend_def)
    have "server_inv X c'"
      using inv i lh.covered_opens [OF cov l] same_maps_ok [OF s] o(2)
      by (simp add: server_inv_def manager_ok_def give_back_def)
    moreover have "opened_for X p fl c'" if "e = None"
    proof -
      have "is_ok r" using that o(3) by (cases r) auto
      with l have "lease_open n X p (lend m c) = Some (True, m')" by simp
      from lh.covered_opened [OF cov this] show ?thesis
        using o(2) same_maps_ok [OF s] by (auto simp: opened_for_def give_back_def)
    qed
    ultimately show ?thesis using s by blast
  next
    case False
    have "quiet c (snd (run_sync (check_and_refresh_from_s3 X p) m c))"
      using Some by (intro quiet_run_book) (auto dest: same_book_check)
    then have "quiet c c'" using run Some False by (auto simp: before_open_def split: if_splits)
    then show ?thesis using quiet_inv [OF inv] False by (auto simp: quiet_def opened_for_def)
  qed
qed

text \<open>A local open allocates the next descriptor number.\<close>

lemma open_inode_number: "open_inode f i fl = (Inr d, f') \<Longrightarrow> d = next_fd f \<and> next_fd f' = d + 1"
  by (auto simp: open_inode_def install_handle_def allocate_fd_def fd_insert_def truncate_inode_def time_now_eq
      inode_insert_def Let_def split: if_splits file_content.splits)

lemma open_number:
  "open_path_with_flags f p fl = (Inr d, f') \<Longrightarrow> d = next_fd f \<and> next_fd f' = d + 1"
  "open_at f dd p fl = (Inr d, f') \<Longrightarrow> d = next_fd f \<and> next_fd f' = d + 1"
proof -
  have *: "d = next_fd f \<and> next_fd f' = d + 1" if "open_lookup f i n fl = (Inr j, f1)" "open_inode f1 j fl = (Inr d, f')" for i n j f1
    using open_inode_number [OF that(2)] open_lookup_next_fd [of f i n fl] that(1) by simp
  show "open_path_with_flags f p fl = (Inr d, f') \<Longrightarrow> d = next_fd f \<and> next_fd f' = d + 1"
    using * by (auto simp: open_path_with_flags_def Let_def install_handle_def allocate_fd_def fd_insert_def
        split: if_splits sum.splits prod.splits)
  show "open_at f dd p fl = (Inr d, f') \<Longrightarrow> d = next_fd f \<and> next_fd f' = d + 1"
    using * by (auto simp: open_at_def Let_def split: if_splits sum.splits prod.splits option.splits)
qed

lemma finish_open_inv:
  assumes inv: "server_inv X c" and o: "\<And>q. p = Some q \<Longrightarrow> opened_for X q fl c"
    and fresh: "\<And>d f'. p = None \<Longrightarrow> g (sc_fs c) = (Inr d, f') \<Longrightarrow> fd_path_map c d = None"
    and run: "finish_open g p fl s c = (r, c')"
  shows "server_inv X c'"
proof -
  obtain q c1 where f: "run_fs g c = (q, c1)" by fastforce
  have qc: "quiet c c1" using quiet_run_fs [of c g] f by simp
  note i1 = quiet_inv [OF inv qc]
  have c1: "fd_path_map c1 = fd_path_map c" "fd_flags_map c1 = fd_flags_map c" "sc_sync c1 = sc_sync c" "writers c1 = writers c"
    using f by (auto simp: run_fs_def writers_def [abs_def] split: prod.splits)
  show ?thesis
  proof (cases q)
    case (Inl e)
    then show ?thesis using run f i1 by (simp add: finish_open_def)
  next
    case (Inr d)
    have c': "c' = register_fd d p fl s c1" using run f Inr by (simp add: finish_open_def)
    have w: "writers c' x \<subseteq> (if p = Some x \<and> is_write_access fl then insert d (writers c x) else writers c x)" for x
      using writers_register [of d p fl s c1 x] fresh [of d] f Inr c1 c'
      by (auto simp: run_fs_def split: if_splits prod.splits)
    have "lh.covered m (writers c')" if m: "sc_sync c = Some m" and lk: "file_lock (config X)" for m
    proof (cases "p \<noteq> None \<and> is_write_access fl")
      case True
      then obtain x where x: "p = Some x" by blast
      have "writers c' q \<subseteq> writers c q" if "q \<noteq> x" for q using w [of q] x that by simp
      moreover have "writers c' x \<subseteq> insert d (writers c x)" using w [of x] x by (auto split: if_splits)
      ultimately have "\<forall>q. q \<noteq> x \<longrightarrow> writers c' q \<subseteq> writers c q" "writers c' x \<subseteq> insert d (writers c x)" by blast+
      then show ?thesis using o [OF x] m lk True unfolding opened_for_def by blast
    next
      case False
      have "lh.covered m (writers c)" using inv m lk by (simp add: server_inv_def manager_ok_def)
      moreover have "writers c' x \<subseteq> writers c x" for x using w [of x] False by (auto split: if_splits)
      ultimately show ?thesis by (rule lh.covered_mono)
    qed
    then show ?thesis
      using i1 c1 maps_ok_register [of c1 d p fl s] unfolding c'
      by (auto simp: server_inv_def manager_ok_def register_fd_def)
  qed
qed

lemma open_path_inv:
  assumes inv: "server_inv X c" and run: "handle_open_path n X p fl s c = Some (r, c')"
  shows "server_inv X c'"
proof -
  obtain e c1 where b: "before_open n X p fl c = Some (e, c1)"
    using run by (auto simp: handle_open_path_def split: option.splits)
  note i1 = before_open_inv [OF inv b]
  show ?thesis
  proof (cases e)
    case None
    then have "finish_open (\<lambda>f. open_path_with_flags f p fl) (Some p) fl s c1 = (r, c')"
      using run b by (simp add: handle_open_path_def)
    with i1 None show ?thesis using finish_open_inv [of X c1 "Some p" fl] by blast
  qed (use run b i1 in \<open>simp add: handle_open_path_def\<close>)
qed

lemma open_at_inv:
  assumes inv: "server_inv X c" and num: "numbered c" and run: "handle_open_at n X dd p fl s c = Some (r, c')"
  shows "server_inv X c'"
proof (cases "fd_path_map c dd")
  case None
  have "finish_open (\<lambda>f. open_at f dd p fl) None fl s c = (r, c')" using run None by (simp add: handle_open_at_def)
  moreover have "fd_path_map c d = None" if "open_at (sc_fs c) dd p fl = (Inr d, f')" for d f'
  proof -
    have "d \<notin> dom (fd_flags_map c)" using open_number(2) [OF that] num by (auto simp: numbered_def)
    then show ?thesis using inv by (auto simp: server_inv_def maps_ok_def)
  qed
  ultimately show ?thesis using finish_open_inv [OF inv, of None fl "\<lambda>f. open_at f dd p fl" s r c'] by simp
next
  case (Some dir)
  obtain e c1 where b: "before_open n X (join_dir dir p) fl c = Some (e, c1)"
    using run Some by (auto simp: handle_open_at_def split: option.splits)
  note i1 = before_open_inv [OF inv b]
  show ?thesis
  proof (cases e)
    case None
    then have "finish_open (\<lambda>f. open_at f dd p fl) (Some (join_dir dir p)) fl s c1 = (r, c')"
      using run Some b by (simp add: handle_open_at_def)
    with i1 None show ?thesis using finish_open_inv [of X c1 "Some (join_dir dir p)" fl] by blast
  qed (use run Some b i1 in \<open>simp add: handle_open_at_def\<close>)
qed

section \<open>Closing\<close>

lemma unregister_facts:
  assumes "unregister_fd d c = (x, c1)"
  shows "sc_sync c1 = sc_sync c" "maps_ok c \<Longrightarrow> maps_ok c1" "writers c1 q = writers c q - {d}"
    "x = (fd_path_map c d, case fd_flags_map c d of None \<Rightarrow> 0 | Some fl \<Rightarrow> fl)" "sc_fs c1 = sc_fs c"
    "fd_path_map c1 = (fd_path_map c)(d := None)" "fd_flags_map c1 = (fd_flags_map c)(d := None)"
    "session_fds c1 = map_option (removeAll d) \<circ> session_fds c" "s3_refreshed_fds c1 = s3_refreshed_fds c - {d}"
  using assms by (auto simp: unregister_fd_def writers_def split: if_splits)
    (fastforce simp: maps_ok_def distinct_removeAll)

lemma close_fd_maps:
  "same_maps (snd (unregister_fd d c)) (snd (close_fd X d c)) \<and> s3_refreshed_fds (snd (close_fd X d c)) = s3_refreshed_fds c - {d}"
  by (auto simp: close_fd_def unregister_fd_def run_fs_def run_sync_def give_back_def same_maps_def Let_def
      split: prod.splits option.splits sum.splits)

lemma close_fd_inv:
  assumes inv: "server_inv X c" shows "server_inv X (snd (close_fd X d c))"
proof -
  obtain x c1 where u: "unregister_fd d c = (x, c1)" by fastforce
  note uf = unregister_facts [OF u]
  obtain local c2 where l: "run_fs (\<lambda>f. fs_close f d) c1 = (local, c2)" by fastforce
  have c2: "same_maps c1 c2" "sc_sync c2 = sc_sync c"
    using same_maps_steps(1) [of c1 "\<lambda>f. fs_close f d"] l uf(1) by (auto simp: run_fs_def split: prod.splits)
  have w2: "maps_ok c2" "writers c2 q = writers c q - {d}" for q
    using same_maps_ok [OF c2(1)] uf(2,3) inv by (simp_all add: server_inv_def)
  define c3 where "c3 = snd (close_fd X d c)"
  show ?thesis
  proof (cases "\<exists>p m. fst x = Some p \<and> sc_sync c = Some m \<and> is_write_access (snd x)")
    case True
    then obtain p m where pm: "fst x = Some p" "sc_sync c = Some m" "is_write_access (snd x)" by blast
    obtain rc m' where oc: "on_close X p (lend m c2) = (rc, m')" by fastforce
    have c3: "c3 = give_back m' c2"
      using u l pm c2(2) oc by (cases x; cases rc) (auto simp: c3_def close_fd_def run_sync_def)
    have i: "sm_inv m'" using sm_inv_close [OF sm_inv_lend oc] inv pm(2) by (simp add: server_inv_def manager_ok_def)
    have "lh.covered m' (writers c3)" if lk: "file_lock (config X)"
    proof -
      have cov: "lh.covered (lend m c2) (writers c)"
        using inv pm(2) lk by (simp add: server_inv_def manager_ok_def lh.covered_def lend_def)
      have d: "d \<in> writers c p"
        using pm uf(4) inv
        by (auto simp: writers_def server_inv_def maps_ok_def is_write_access_def O_RDONLY_def split: option.splits)
      have "writers c3 = writers c2" using same_maps_ok [of c2 c3] by (simp add: c3)
      then have "lh.covered (snd (on_close X p (lend m c2))) (writers c3)"
        using w2(2) by (intro lh.covered_closed [OF cov d]) auto
      then show ?thesis by (simp add: oc)
    qed
    then show ?thesis
      using w2(1) i same_maps_ok [of c2 c3] unfolding c3_def [symmetric]
      by (auto simp: server_inv_def manager_ok_def c3) (simp add: give_back_def)+
  next
    case False
    have "c3 = c2"
      using u l False c2(2) by (cases x) (auto simp: c3_def close_fd_def Let_def split: option.splits)
    moreover have "lh.covered m (writers c2)" if "lh.covered m (writers c)" for m :: "('s, fs) sync_manager"
      using that by (rule lh.covered_mono) (auto simp: w2(2))
    ultimately show ?thesis using w2(1) c2(2) inv by (auto simp: server_inv_def manager_ok_def c3_def)
  qed
qed

text \<open>A session is closed descriptor by descriptor.\<close>

lemma close_all_inv: "server_inv X c \<Longrightarrow> server_inv X (fold (\<lambda>d c. snd (close_fd X d c)) ds c)"
  by (induction ds arbitrary: c) (auto intro: close_fd_inv)

lemma forget_session_inv: "server_inv X c \<Longrightarrow> server_inv X (c\<lparr>session_fds := (session_fds c)(sid := None)\<rparr>)"
  by (auto simp: server_inv_def maps_ok_def writers_def [abs_def] split: if_splits)

lemma close_session_inv: "server_inv X c \<Longrightarrow> server_inv X (close_session ord X sid c)"
  unfolding close_session_def by (rule close_all_inv [OF forget_session_inv])

lemma client_gone_inv:
  assumes inv: "server_inv X c" and run: "client_gone ord n X s c = Some c'" shows "server_inv X c'"
proof -
  define c1 where "c1 = (case s of None \<Rightarrow> c | Some sid \<Rightarrow> close_session ord X sid c)"
  have i1: "server_inv X c1" using inv close_session_inv by (auto simp: c1_def split: option.split)
  have "quiet c1 (give_back m' c1)" if m: "sc_sync c1 = Some m" and ff: "force_flush n X (lend m c1) = Some (r, m')" for m r m'
    using quiet_give_back [OF m] force_flush_inv [of "lend m c1" n X 0] same_holds_force_flush [of n X 0 "lend m c1"] ff
    by (auto simp: force_flush_def)
  then have "quiet c1 c'" using run
    by (auto simp: client_gone_def c1_def [symmetric] Let_def split: option.splits if_splits)
  then show ?thesis by (rule quiet_inv [OF i1])
qed

section \<open>Requests\<close>

lemma handle_request_inv:
  assumes inv: "server_inv X c" and num: "numbered c" and run: "handle_request n X rq s new c = Some (r, c')"
  shows "server_inv X c'"
proof (cases rq)
  case (RqOpenPath p fl)
  then show ?thesis using open_path_inv [OF inv] run by auto
next
  case (RqOpenAt d p fl)
  then show ?thesis using open_at_inv [OF inv num] run by auto
next
  case (RqClose d)
  then show ?thesis using close_fd_inv [OF inv, of d] run by (metis handle_request.simps(8) option.inject snd_conv)
qed (use run in \<open>auto intro: quiet_inv [OF inv] inv quiet_after_write quiet_after_mkdir quiet_after_rmdir quiet_after_unlink
      dest!: quiet_change quiet_read quiet_fsync\<close>)

text \<open>The registered descriptors stay below the next descriptor number as long as it does not wrap.\<close>

lemma finish_open_flags:
  assumes "finish_open g p fl s c = (r, c')"
    and "\<And>d f'. g (sc_fs c) = (Inr d, f') \<Longrightarrow> next_fd f' = d + 1"
  shows "dom (fd_flags_map c') \<subseteq> insert (next_fd (sc_fs c') - 1) (dom (fd_flags_map c))"
  using assms by (auto simp: finish_open_def run_fs_def register_fd_def split: prod.splits sum.splits if_splits)

lemma close_fd_flags: "dom (fd_flags_map (snd (close_fd X d c))) \<subseteq> dom (fd_flags_map c)"
proof -
  obtain x c1 where u: "unregister_fd d c = (x, c1)" by fastforce
  show ?thesis using close_fd_maps [of d c X] unregister_facts(7) [OF u] u by (auto simp: same_maps_def)
qed

lemma handle_request_flags:
  assumes inv: "server_inv X c" and run: "handle_request n X rq s new c = Some (r, c')"
  shows "dom (fd_flags_map c') \<subseteq> insert (next_fd (sc_fs c') - 1) (dom (fd_flags_map c))"
proof -
  have bo: "dom (fd_flags_map c1) = dom (fd_flags_map c)" if "before_open n X p fl c = Some (e, c1)" for p fl e c1
    using before_open_inv [OF inv that] by (simp add: same_maps_def)
  have q: "dom (fd_flags_map c') \<subseteq> insert (next_fd (sc_fs c') - 1) (dom (fd_flags_map c))" if "quiet c c'"
    using that by (auto simp: quiet_def same_maps_def)
  show ?thesis
  proof (cases rq)
    case (RqOpenPath p fl)
    obtain e c1 where b: "before_open n X p fl c = Some (e, c1)"
      using run RqOpenPath by (auto simp: handle_open_path_def split: option.splits)
    show ?thesis
      using run RqOpenPath b bo [OF b] finish_open_flags [of "\<lambda>f. open_path_with_flags f p fl" "Some p" fl s c1 r c'] open_number(1)
      by (cases e) (auto simp: handle_open_path_def)
  next
    case (RqOpenAt dd p fl)
    define ap where "ap = map_option (\<lambda>dir. join_dir dir p) (fd_path_map c dd)"
    obtain e c1 where b: "(case ap of None \<Rightarrow> Some (None, c) | Some q \<Rightarrow> before_open n X q fl c) = Some (e, c1)"
      using run RqOpenAt by (auto simp: handle_open_at_def ap_def Let_def split: option.splits)
    have d: "dom (fd_flags_map c1) = dom (fd_flags_map c)" using b bo by (auto split: option.splits)
    show ?thesis
      using run RqOpenAt b d finish_open_flags [of "\<lambda>f. open_at f dd p fl" ap fl s c1 r c'] open_number(2)
      by (cases e) (auto simp: handle_open_at_def ap_def [symmetric] Let_def)
  next
    case (RqClose d)
    then have "c' = snd (close_fd X d c)" using run by (metis handle_request.simps(8) option.inject snd_conv)
    then show ?thesis using close_fd_flags [of X d c] by blast
  qed (use run in \<open>auto intro!: q quiet_after_write quiet_after_mkdir quiet_after_rmdir quiet_after_unlink
        dest!: quiet_change quiet_read quiet_fsync simp del: subset_insert_iff\<close>)
qed

section \<open>Reachable states\<close>

text \<open>What happens to a server: requests, clients that are gone, the periodic synchronisation, and
  other clients of the store, which are arbitrary.\<close>

datatype 's server_event =
    Request nat request "string option" string
  | ClientGone "u32 list \<Rightarrow> u32 list" nat "string option"
  | SyncTick
  | OtherInstances "'s \<Rightarrow> 's"

fun server_exec :: "('s, fs) sync_env \<Rightarrow> 's server_event \<Rightarrow> 's server_context \<Rightarrow> 's server_context option" where
  "server_exec X (Request fuel rq session new) c = map_option snd (handle_request fuel X rq session new c)"
| "server_exec X (ClientGone ord fuel session) c = client_gone ord fuel X session c"
| "server_exec X SyncTick c = Some (sync_tick X c)"
| "server_exec X (OtherInstances g) c =
     Some (c\<lparr>sc_sync := map_option (\<lambda>m. m\<lparr>m_store := g (m_store m)\<rparr>) (sc_sync c)\<rparr>)"

text \<open>The descriptor numbers are 32 bits wide; a run is followed as long as they do not wrap.\<close>

inductive server_reachable :: "('s, fs) sync_env \<Rightarrow> 's server_context \<Rightarrow> bool" for X where
  server_start: "0 < next_fd (sc_fs (init_server X get inst s k)) \<Longrightarrow> server_reachable X (init_server X get inst s k)"
| server_step: "server_reachable X c \<Longrightarrow> server_exec X ev c = Some c' \<Longrightarrow> next_fd (sc_fs c) \<le> next_fd (sc_fs c') \<Longrightarrow>
    server_reachable X c'"

lemma init_server_inv: "server_inv X (init_server X get inst s k)"
proof -
  have "lh.covered m (\<lambda>p. {} :: u32 set)" for m :: "('s, fs) sync_manager" by (simp add: lh.covered_def)
  moreover have "writers (init_server X get inst s k) = (\<lambda>p. {})"
    by (auto simp: writers_def [abs_def] init_server_def split: option.splits prod.splits)
  moreover have "maps_ok (init_server X get inst s k)"
    by (simp add: maps_ok_def init_server_def split: option.splits prod.splits)
  moreover have "sm_inv m" if "sc_sync (init_server X get inst s k) = Some m" for m
    using that sm_inv_new by (auto simp: init_server_def split: option.splits prod.splits)
  ultimately show ?thesis by (auto simp: server_inv_def manager_ok_def)
qed

lemma server_exec_inv:
  assumes inv: "server_inv X c" and num: "numbered c" and run: "server_exec X ev c = Some c'"
    and le: "next_fd (sc_fs c) \<le> next_fd (sc_fs c')"
  shows "server_inv X c' \<and> numbered c'"
proof -
  have pos: "0 < next_fd (sc_fs c')" using num le by (auto simp: numbered_def)
  then have "next_fd (sc_fs c') \<noteq> 0" by auto
  then have lt: "next_fd (sc_fs c') - 1 < next_fd (sc_fs c')"
    using measure_unat by (simp add: word_less_nat_alt)
  have ok: "numbered c'" if "dom (fd_flags_map c') \<subseteq> insert (next_fd (sc_fs c') - 1) (dom (fd_flags_map c))"
    using that num le pos lt by (auto simp: numbered_def subset_iff intro: less_le_trans)
  have q: "server_inv X c' \<and> numbered c'" if "quiet c c'"
    using quiet_inv [OF inv that] ok that by (auto simp: quiet_def same_maps_def)
  show ?thesis
  proof (cases ev)
    case (Request n rq s new)
    then obtain r where r: "handle_request n X rq s new c = Some (r, c')" using run by auto
    show ?thesis using handle_request_inv [OF inv num r] ok [OF handle_request_flags [OF inv r]] by blast
  next
    case (ClientGone ord n s)
    have all: "dom (fd_flags_map (fold (\<lambda>d c. snd (close_fd X d c)) ds c0)) \<subseteq> dom (fd_flags_map c0)" for ds c0
    proof (induction ds arbitrary: c0)
      case (Cons d ds)
      then show ?case using close_fd_flags [of X d c0] by fastforce
    qed simp
    have "dom (fd_flags_map (case s of None \<Rightarrow> c | Some sid \<Rightarrow> close_session ord X sid c)) \<subseteq> dom (fd_flags_map c)"
      using all by (force simp: close_session_def split: option.splits)
    then have "dom (fd_flags_map c') \<subseteq> dom (fd_flags_map c)"
      using run ClientGone by (fastforce simp: client_gone_def Let_def give_back_def split: option.splits if_splits)
    then show ?thesis using client_gone_inv [OF inv] run ClientGone ok by auto
  next
    case SyncTick
    then show ?thesis using q quiet_tick [of c X] run by simp
  next
    case (OtherInstances g)
    have "same_book m (m\<lparr>m_store := g (m_store m)\<rparr>)" for m :: "('a, fs) sync_manager" by simp
    then have "(sm_inv m \<longrightarrow> sm_inv (m\<lparr>m_store := g (m_store m)\<rparr>)) \<and> same_holds m (m\<lparr>m_store := g (m_store m)\<rparr>)"
      for m :: "('a, fs) sync_manager" using sm_inv_book same_holds_book by blast
    then have "quiet c c'" using run OtherInstances
      by (auto simp: quiet_def same_maps_def option.rel_map intro!: option.rel_refl_strong)
    then show ?thesis by (rule q)
  qed
qed

lemma server_reachable_inv: "server_reachable X c \<Longrightarrow> server_inv X c \<and> numbered c"
proof (induction rule: server_reachable.induct)
  case (server_start get inst s k)
  have "fd_flags_map (init_server X get inst s k) = Map.empty"
    by (simp add: init_server_def split: option.splits prod.splits)
  then show ?case using init_server_inv server_start by (simp add: numbered_def)
qed (use server_exec_inv in blast)

section \<open>No request waits\<close>

definition awake :: "('s, 'f) sync_manager \<Rightarrow> ('s, 'f) sync_manager \<Rightarrow> bool" where
  "awake m m' \<longleftrightarrow> slept (m_clk m') = slept (m_clk m)"

lemma awake_trans: "awake m1 m2 \<Longrightarrow> awake m2 m3 \<Longrightarrow> awake m1 m3"
  by (simp add: awake_def)

lemma awake_steps [simp]:
  "awake m m" "awake m (m'\<lparr>m_store := s\<rparr>) = awake m m'" "awake m (m'\<lparr>m_fs := f\<rparr>) = awake m m'"
  "awake m (m'\<lparr>m_cache := k\<rparr>) = awake m m'" "awake m (m'\<lparr>leases := t\<rparr>) = awake m m'"
  "awake m (m'\<lparr>outbound_queue := q\<rparr>) = awake m m'"
  "awake m (modify_lease p g m') = awake m m'" "awake m (cache_uploaded X p e z u m') = awake m m'"
  "awake m (cache_downloaded p e u b m') = awake m m'" "awake m (release_lock X p e m') = awake m m'"
  by (simp_all add: awake_def modify_lease_def cache_uploaded_def cache_downloaded_def release_lock_def
      current_timestamp_def split: prod.split)

lemma awake_on_store: "on_store g m1 = (r, m2) \<Longrightarrow> awake m m2 = awake m m1"
  by (auto simp: on_store_def split: prod.splits)

lemma awake_on_fs: "on_fs g m1 = (r, m2) \<Longrightarrow> awake m m2 = awake m m1"
  by (auto simp: on_fs_def split: prod.splits)

lemmas awakeD = awake_on_store awake_on_fs

lemma awake_passthrough: "passthrough_checks X p m1 = (r, m2) \<Longrightarrow> awake m m2 = awake m m1"
  by (auto simp: passthrough_checks_def split: prod.splits if_splits dest!: awakeD [of _ _ _ _ m])

lemma awake_verify: "verify_upload_landed X p c m1 = (r, m2) \<Longrightarrow> awake m m2 = awake m m1"
  by (auto simp: verify_upload_landed_def split: prod.splits sum.splits option.splits dest!: awakeD [of _ _ _ _ m])

lemma awake_put: "put_upload X p b c m1 = (r, m2) \<Longrightarrow> awake m m2 = awake m m1"
  by (auto simp: put_upload_def split: prod.splits sum.splits option.splits if_splits
      dest!: awakeD [of _ _ _ _ m] awake_verify [of _ _ _ _ _ _ m])

lemma awake_upload: "upload_with_cond X p c m1 = (r, m2) \<Longrightarrow> awake m m2 = awake m m1"
  by (auto simp: upload_with_cond_def Let_def split: prod.splits sum.splits
      dest!: awakeD [of _ _ _ _ m] awake_passthrough [of _ _ _ _ _ m] awake_put [of _ _ _ _ _ _ _ m])

lemma awake_refresh: "refresh_local_from_remote X p m1 = (r, m2) \<Longrightarrow> awake m m2 = awake m m1"
  by (auto simp: refresh_local_from_remote_def split: prod.splits sum.splits option.splits dest!: awakeD [of _ _ _ _ m])

lemma awake_head_refresh: "head_and_refresh X p m1 = (r, m2) \<Longrightarrow> awake m m2 = awake m m1"
  by (auto simp: head_and_refresh_def Let_def split: if_splits prod.splits sum.splits option.splits
      dest!: awakeD [of _ _ _ _ m])

lemma awake_adopt: "adopt_base X p a m1 = (r, m2) \<Longrightarrow> awake m m2 = awake m m1"
proof -
  assume run: "adopt_base X p a m1 = (r, m2)"
  obtain b m3 where t: "take_queued_upload p m1 = (b, m3)" by fastforce
  then have "awake m m3 = awake m m1" by (auto simp: take_queued_upload_def Let_def)
  then show ?thesis using run t
    by (cases b) (auto simp: adopt_base_def split: prod.splits sum.splits if_splits
      dest!: awake_upload [where m = m] awake_refresh [where m = m] awake_head_refresh [where m = m])
qed

text \<open>With a timeout of zero one turn of the loop is enough, and it ends without a pause.\<close>

lemma acquire_at_once:
  assumes "mono (te_instant E)"
  shows "\<exists>r s' c'. acquire (Suc n) S E p inst lease 0 s c = Some (r, s', c') \<and> slept c' = slept c"
proof -
  let ?c = "c\<lparr>readings := readings c + 1\<rparr>"
  obtain a s1 c1 where t: "acquire_try S E p inst lease None s ?c = (a, s1, c1)" by (metis prod_cases3)
  note k = acquire_try_clk [OF t]
  have "te_instant E (readings c) + slept c \<le> te_instant E (readings c1) + slept c1"
    using k monoD [OF assms, of "readings c" "readings c1"] by simp
  then show ?thesis using t k by (cases a) (simp_all add: acquire_def instant_now_def)
qed

lemma open_write_at_once:
  assumes inv: "sm_inv m" and t: "mono (te_instant (se_time X))" "lock_timeout (config X) = 0"
  shows "\<exists>r m'. on_open_write (Suc n) X p m = Some (r, m') \<and> awake m m'"
proof (cases "file_lock (config X)")
  case lock: True
  have "\<exists>b m1. join_lease (Suc n) p m = Some (b, m1) \<and> awake m m1"
    using inv by (auto simp: sm_inv_def lease_ok_def split: option.split)
  then obtain b m1 where j: "join_lease (Suc n) p m = Some (b, m1)" "awake m m1" by blast
  obtain ra s c where a: "acquire (Suc n) (se_store X) (se_time X) p (instance_id m1) (lock_lease (config X)) 0
      (m_store m1) (m_clk m1) = Some (ra, s, c)" "slept c = slept (m_clk m1)"
    using acquire_at_once [OF t(1), of n "se_store X" p "instance_id m1" "lock_lease (config X)" "m_store m1" "m_clk m1"]
    by blast
  define m2 where "m2 = m1\<lparr>m_store := s, m_clk := c\<rparr>"
  have m2: "awake m m2" using j(2) a(2) by (simp add: m2_def awake_def)
  show ?thesis
  proof (cases "b \<or> (\<exists>e. ra = Inl e) \<or> is_locked m2 p")
    case True
    then show ?thesis using j a m2 lock t(2)
      by (cases b; cases ra) (auto simp: on_open_write_def m2_def Let_def simp del: join_lease.simps)
  next
    case False
    then obtain aq where aq: "ra = Inr aq" "\<not> is_locked m2 p" "\<not> b" by (cases ra) auto
    obtain rb m3 where ab: "adopt_base X p aq m2 = (rb, m3)" by fastforce
    have "awake m m3" using awake_adopt [OF ab, of m] m2 by simp
    then show ?thesis using j a aq ab lock t(2)
      by (cases rb) (auto simp: on_open_write_def m2_def Let_def simp del: join_lease.simps)
  qed
qed (simp add: on_open_write_def)

lemma before_open_at_once:
  assumes inv: "server_inv X c" and t: "mono (te_instant (se_time X))" "lock_timeout (config X) = 0"
    and w: "file_lock (config X) \<and> is_write_access fl"
  shows "\<exists>e c'. before_open (Suc n) X p fl c = Some (e, c') \<and>
    rel_option awake (sc_sync c) (sc_sync c') \<and> fd_path_map c' = fd_path_map c"
proof (cases "sc_sync c")
  case (Some m)
  then have "sm_inv (lend m c)" using inv sm_inv_lend by (auto simp: server_inv_def manager_ok_def)
  from open_write_at_once [OF this t, of n p] obtain r m' where
    "on_open_write (Suc n) X p (lend m c) = Some (r, m')" "awake (lend m c) m'" by blast
  then show ?thesis using Some w by (simp add: before_open_def give_back_def awake_def lend_def)
qed (simp add: before_open_def)

end
