(* ===== verification/Rpc_Props.thy ===== *)
theory Rpc_Props
  imports Rpc_Inv Sync_Props
begin

text \<open>
  What the RPC server guarantees: consistent tables, leases behind every open write descriptor,
  requests that are answered without waiting, disconnects, and the way of a client's bytes through
  the local file system and the sync manager into the bucket.
\<close>

section \<open>The theorems\<close>

text \<open>The server over the in-memory store.\<close>

definition demo_lookup :: "string \<Rightarrow> string option" where
  "demo_lookup key = (if key = ''VFS_S3_BUCKET'' then Some ''b'' else None)"

definition server_demo_env :: "(mem_inner, fs) sync_env" where
  "server_demo_env = server_env (\<lambda>_ _. mem_store demo_tag) demo_time demo_lookup"

definition server_demo :: "mem_inner server_context" where
  "server_demo = init_server server_demo_env demo_lookup ''i'' mem_new \<lparr>readings = 0, slept = 0\<rparr>"

text \<open>
  C17. The server's tables stay consistent in every reachable state, whatever the clients, the
  bucket and other instances do: a descriptor with a path has flags, finitely many descriptors are
  registered, all of them with numbers that were handed out, every session refers to registered
  descriptors, each once, and the sync manager's own bookkeeping is in order.
\<close>

theorem server_tables:
  assumes "server_reachable X c"
  shows "dom (fd_path_map c) \<subseteq> dom (fd_flags_map c) \<and> finite (dom (fd_flags_map c)) \<and>
    (\<forall>d \<in> dom (fd_flags_map c). d < next_fd (sc_fs c)) \<and>
    (\<forall>sid ds. session_fds c sid = Some ds \<longrightarrow> distinct ds \<and> set ds \<subseteq> dom (fd_flags_map c)) \<and>
    (\<forall>m. sc_sync c = Some m \<longrightarrow> sm_inv m)"
  using server_reachable_inv [OF assms] by (simp add: server_inv_def maps_ok_def numbered_def manager_ok_def)

text \<open>
  C12. While file locks are enabled, no client ever writes without the lease. In every reachable
  state the lease of a path has at least as many holders as there are open write descriptors of
  that path, over all sessions; so the lease of an open write descriptor is not released, whatever
  is opened, closed, disconnected, renewed or flushed in between.
\<close>

theorem writers_hold_leases:
  assumes "server_reachable X c" and "sc_sync c = Some m" and "file_lock (config X)"
  shows "card (writers c p) \<le> hold_count m p \<and> (d \<in> writers c p \<longrightarrow> is_locked m p)"
proof -
  have cov: "lh.covered m (writers c)"
    using server_reachable_inv [OF assms(1)] assms(2,3) by (simp add: server_inv_def manager_ok_def)
  have "is_locked m p" if "d \<in> writers c p"
    using lh.covered_held [OF cov that] by (auto simp: hold_count_def is_locked_get split: option.splits)
  with cov show ?thesis by (simp add: lh.covered_def)
qed

text \<open>
  C23. The server never waits. In a reachable state, with a clock that does not go back and the zero
  lock timeout that \<open>init_server\<close> forces, every request is answered within one turn of the
  acquisition loop, and an open that has to take a lease answers without any pause.
\<close>

theorem requests_answered:
  assumes "server_reachable X c" and "mono (te_instant (se_time X))" and "lock_timeout (config X) = 0"
  shows "(\<exists>r c'. handle_request 1 X rq session new c = Some (r, c')) \<and>
    (file_lock (config X) \<and> is_write_access fl \<longrightarrow>
       (\<exists>e c'. before_open 1 X p fl c = Some (e, c') \<and>
          rel_option (\<lambda>m m'. slept (m_clk m') = slept (m_clk m)) (sc_sync c) (sc_sync c')))"
proof -
  note inv = server_reachable_inv [OF assms(1), THEN conjunct1]
  have bo: "\<exists>e c'. before_open 1 X p fl c = Some (e, c')" for p fl
    using before_open_at_once [OF inv assms(2,3), where n = 0]
    by (cases "file_lock (config X) \<and> is_write_access fl") (fastforce, auto simp: before_open_def split: option.split)
  have "\<exists>r c'. handle_request 1 X rq session new c = Some (r, c')"
  proof (cases rq)
    case (RqOpenPath p fl)
    obtain e c1 where "before_open 1 X p fl c = Some (e, c1)" using bo by blast
    then show ?thesis using RqOpenPath by (cases e) (auto simp: handle_open_path_def)
  next
    case (RqOpenAt d p fl)
    show ?thesis
    proof (cases "fd_path_map c d")
      case (Some dir)
      obtain e c1 where "before_open 1 X (join_dir dir p) fl c = Some (e, c1)" using bo by blast
      then show ?thesis using RqOpenAt Some by (cases e) (auto simp: handle_open_at_def)
    qed (use RqOpenAt in \<open>auto simp: handle_open_at_def\<close>)
  qed (auto intro: prod.collapse [symmetric])
  then show ?thesis
    using before_open_at_once [OF inv assms(2,3), where n = 0] unfolding awake_def by fastforce
qed

text \<open>
  An open for writing that fails locally keeps the lease it took. When the lease was granted and
  the local file system then refuses the open, the client gets that error and no descriptor is
  registered, but the lease has one holder more than before: no later close gives it back.
\<close>

theorem failed_open_keeps_lease:
  assumes "sc_sync c = Some m" and "file_lock (config X)" and "is_write_access fl"
    and "before_open n X p fl c = Some (None, c1)" and "fst (open_path_with_flags (sc_fs c1) p fl) = Inl e"
  shows "\<exists>c' m'. handle_request n X (RqOpenPath p fl) session new c = Some (map_fs_error e, c') \<and>
    fd_path_map c' = fd_path_map c \<and> fd_flags_map c' = fd_flags_map c \<and> session_fds c' = session_fds c \<and>
    sc_sync c' = Some m' \<and> hold_count m' p = hold_count m p + 1"
proof -
  obtain m1 where o: "on_open_write n X p (lend m c) = Some (Inr (), m1)" "c1 = give_back m1 c"
    using assms by (auto simp: before_open_def split: option.splits sum.splits)
  have "hold_count m1 p = hold_count m p + 1"
    using hold_count_open [OF o(1), of p] assms(2) by (simp add: lend_def)
  moreover obtain f' where "open_path_with_flags (sc_fs c1) p fl = (Inl e, f')"
    using assms(5) by (cases "open_path_with_flags (sc_fs c1) p fl") auto
  ultimately show ?thesis
    using assms(4) o(2)
    by (auto simp: handle_open_path_def finish_open_def run_fs_def give_back_def)
qed

text \<open>
  A disconnect forgets the session and exactly its descriptors, in whatever order the hash set
  yields them: afterwards none of them has a path, flags or a refresh mark or belongs to a session,
  and every other descriptor is registered as before.
\<close>

theorem disconnect_forgets:
  assumes "session_fds c sid = Some ds" and "\<And>xs. set (ord xs) = set xs"
  shows "let c' = close_session ord X sid c in
    session_fds c' sid = None \<and>
    (\<forall>d. fd_path_map c' d = (if d \<in> set ds then None else fd_path_map c d) \<and>
         fd_flags_map c' d = (if d \<in> set ds then None else fd_flags_map c d)) \<and>
    s3_refreshed_fds c' = s3_refreshed_fds c - set ds \<and>
    (\<forall>s es. s \<noteq> sid \<longrightarrow> session_fds c s = Some es \<longrightarrow>
       session_fds c' s = Some (filter (\<lambda>d. d \<notin> set ds) es))"
proof -
  define step where "step = (\<lambda>d c. snd (close_fd X d c))"
  have one: "fd_path_map (step d c) = (fd_path_map c)(d := None)" "fd_flags_map (step d c) = (fd_flags_map c)(d := None)"
    "s3_refreshed_fds (step d c) = s3_refreshed_fds c - {d}" "session_fds (step d c) = map_option (removeAll d) \<circ> session_fds c"
    for d and c :: "'a server_context"
    using close_fd_maps [of d c X] by (auto simp: step_def same_maps_def unregister_fd_def)
  have all: "fd_path_map (fold step xs c) d = (if d \<in> set xs then None else fd_path_map c d) \<and>
      fd_flags_map (fold step xs c) d = (if d \<in> set xs then None else fd_flags_map c d) \<and>
      s3_refreshed_fds (fold step xs c) = s3_refreshed_fds c - set xs \<and>
      session_fds (fold step xs c) s = map_option (filter (\<lambda>d. d \<notin> set xs)) (session_fds c s)"
    for xs d s and c :: "'a server_context"
  proof (induction xs arbitrary: c)
    case (Cons x xs)
    show ?case
      using Cons.IH [of "step x c"]
      by (auto simp: one option.map_comp comp_def removeAll_filter_not_eq intro!: option.map_cong filter_cong)
  next
    case Nil
    then show ?case by (cases "session_fds c s") auto
  qed
  have "close_session ord X sid c = fold step (ord ds) (c\<lparr>session_fds := (session_fds c)(sid := None)\<rparr>)"
    using assms(1) by (simp add: close_session_def step_def)
  then show ?thesis using all [of "ord ds"] assms(2) by (simp add: Let_def)
qed

section \<open>From a client to the bucket\<close>

text \<open>Opening for writing with \<open>O_CREAT\<close> and \<open>O_TRUNC\<close> a path that is neither leased nor queued.\<close>

lemma map_fs_error_not_fd: "map_fs_error e \<noteq> RsFd d"
  by (cases e) simp_all

lemma fs_write_table: "fs_write f d b = (r, f') \<Longrightarrow> dom (fd_table f') = dom (fd_table f)"
  by (auto simp: fs_write_def write_with_def write_through_def Let_def time_now_eq fd_table_set_position
      split: option.splits prod.splits file_content.splits if_splits)

lemma truncating_open:
  assumes m: "sc_sync c = Some m" and lock: "file_lock C" and free: "\<not> is_locked m p"
    and q: "Upload p \<notin> set (outbound_queue m)" and rm: "roomy (length p + n + 2) (sc_fs c)" and ne: "path_comps p \<noteq> []"
    and run: "handle_request k (mem_env h E C) (RqOpenPath p replace_flags) session new c = Some (RsFd d, c1)"
  obtains m1 a f1 where "sc_sync c1 = Some m1" "fd_path_map c1 d = Some p" "fd_flags_map c1 d = Some replace_flags"
    "lt_get (leases m1) p = Some (fresh_lease (map_option snd (mem_view (m_store m) (file_key p))) a)"
    "mem_view (m_store m1) (file_key p) = mem_view (m_store m) (file_key p)"
    "mem_calm (m_store m) \<longrightarrow> mem_calm (m_store m1)" "outbound_queue m1 = outbound_queue m"
    "roomy (Suc n) f1" "open_path_with_flags f1 p replace_flags = (Inr d, sc_fs c1)"
proof -
  have w: "is_write_access replace_flags" by (simp add: is_write_access_def flag_defs)
  have lk: "file_lock (config (mem_env h E C))" using lock by (simp add: mem_env_def)
  obtain e cb where b: "before_open k (mem_env h E C) p replace_flags c = Some (e, cb)"
    using run by (auto simp: handle_open_path_def split: option.splits)
  have e: "e = None"
    using run b m by (cases e) (auto simp: handle_open_path_def before_open_def map_sync_error_def w lk split: option.splits sum.splits)
  obtain m1 where o: "on_open_write k (mem_env h E C) p (lend m c) = Some (Inr (), m1)" "cb = give_back m1 c"
    using b e m w lk by (auto simp: before_open_def split: option.splits sum.splits)
  have "\<not> is_locked (lend m c) p" "Upload p \<notin> set (outbound_queue (lend m c))" "roomy (Suc (Suc n) + length p) (m_fs (lend m c))"
    using free q rm by (simp_all add: lend_def is_locked_def add.commute)
  note oc = sw.open_clean [OF o(1) lk this]
  have fin: "finish_open (\<lambda>f. open_path_with_flags f p replace_flags) (Some p) replace_flags session cb = (RsFd d, c1)"
    using run b e by (simp add: handle_open_path_def)
  obtain q f2 where f2: "open_path_with_flags (m_fs m1) p replace_flags = (q, f2)" by fastforce
  have q: "q = Inr d" "c1 = register_fd d (Some p) replace_flags session (cb\<lparr>sc_fs := f2\<rparr>)"
    using fin f2 o(2) map_fs_error_not_fd by (cases q; simp add: finish_open_def run_fs_def give_back_def)+
  note f = f2 [unfolded q(1)] q(2)
  obtain a where "lt_get (leases m1) p = Some (fresh_lease (map_option snd (mem_view (m_store m) (file_key p))) a)"
    using oc by (auto simp: lend_def)
  then show ?thesis
    using that [of m1 a "m_fs m1"] oc f o(2) by (simp add: register_fd_def give_back_def lend_def)
qed

text \<open>What the last close of a write descriptor does.\<close>

lemma server_close:
  assumes "sc_sync c = Some m" and "fd_path_map c d = Some p" and "fd_flags_map c d = Some fl" and "is_write_access fl"
    and "fd_table (sc_fs c) d \<noteq> None"
  shows "handle_request k X (RqClose d) session new c =
    (case on_close X p (m\<lparr>m_fs := snd (fs_close (sc_fs c) d)\<rparr>) of
       (r, m') \<Rightarrow> Some (case r of Inl e \<Rightarrow> map_sync_error e | Inr _ \<Rightarrow> RsOk,
                   give_back m' (snd (unregister_fd d c)\<lparr>sc_fs := snd (fs_close (sc_fs c) d)\<rparr>)))"
  using assms
  by (cases "fs_close (sc_fs c) d")
     (auto simp: close_fd_def unregister_fd_def run_fs_def run_sync_def lend_def fs_close_def fd_remove_def give_back_def Let_def
       split: prod.split sum.split option.splits)

text \<open>
  A client's bytes reach the bucket. With file locks in batch mode, when requests to the bucket do not
  fail: a client that opens a path with \<open>O_CREAT\<close> and \<open>O_TRUNC\<close>, writes once and closes gets the byte
  count and \<open>Ok\<close>, and then the object of the path holds exactly these bytes, the lease is released,
  and the descriptor is forgotten.
\<close>

theorem written_file_is_stored:
  assumes "sc_sync c = Some m" and "file_lock C" and "cfg_mode C = Batch" and "mem_calm (m_store m)"
    and "\<not> is_locked m p" and "Upload p \<notin> set (outbound_queue m)" and "roomy (2 * length p + 4) (sc_fs c)"
    and "path_comps p \<noteq> []" and "length data < 2 ^ 64"
    and "handle_request k (mem_env h E C) (RqOpenPath p replace_flags) session new c = Some (RsFd d, c1)"
    and "handle_request k (mem_env h E C) (RqWrite d data) session new c1 = Some (w, c2)"
    and "handle_request k (mem_env h E C) (RqClose d) session new c2 = Some (r, c3)"
  shows "w = RsWritten (length data) \<and> r = RsOk \<and> fd_flags_map c3 d = None \<and>
    (\<exists>m3. sc_sync c3 = Some m3 \<and> \<not> is_locked m3 p \<and>
       map_option fst (mem_view (m_store m3) (file_key p)) = Some data)"
proof -
  let ?X = "mem_env h E C" and ?base = "map_option snd (mem_view (m_store m) (file_key p))"
  have rm: "roomy (length p + (length p + 2) + 2) (sc_fs c)" by (rule roomy_le [OF assms(7)]) simp
  obtain m1 a f1 where o: "sc_sync c1 = Some m1" "fd_path_map c1 d = Some p" "fd_flags_map c1 d = Some replace_flags"
    "lt_get (leases m1) p = Some (fresh_lease ?base a)"
    "mem_view (m_store m1) (file_key p) = mem_view (m_store m) (file_key p)" "mem_calm (m_store m) \<longrightarrow> mem_calm (m_store m1)"
    "outbound_queue m1 = outbound_queue m"
    "roomy (Suc (length p + 2)) f1" "open_path_with_flags f1 p replace_flags = (Inr d, sc_fs c1)"
    by (rule truncating_open [OF assms(1,2,5,6) rm assms(8,10)])
  obtain f2 where f2: "fs_write (sc_fs c1) d data = (Inr (length data), f2)" "roomy (length p + 2) f2"
      "abs_fs f2 = (abs_fs f1)(path_comps p \<mapsto> FileN data)"
    using host_replace [OF o(8) assms(8) o(9), of data] by blast
  obtain i where i: "fd_table (sc_fs c1) d = Some (new_handle i 0 replace_flags)"
    using open_path_ok [OF o(8) assms(8) o(9)] by blast
  have tab: "fd_table f2 d \<noteq> None"
    using fs_write_table [OF f2(1)] i by (auto simp: dom_def)
  have wr: "is_write_access replace_flags" by (simp add: is_write_access_def flag_defs)
  define m2 where "m2 = enqueue_upload p (m1\<lparr>m_fs := f2\<rparr>)"
  have c2: "w = RsWritten (length data)" "c2 = give_back m2 (c1\<lparr>sc_fs := f2\<rparr>)"
    using assms(3,11) f2(1) o(1,2)
    by (auto simp: change_then_def run_fs_def after_write_def is_realtime_def mem_env_def lend_def m2_def)
  have m2: "m_store m2 = m_store m1" "m_fs m2 = f2"
    "lt_get (leases m2) p = Some ((fresh_lease ?base a)\<lparr>dirty := True, pending_delete := False\<rparr>)"
    using o(4) by (simp_all add: m2_def enqueue_upload_def is_locked_get sync_frame lease_table_simps)
  define m3 where "m3 = m2\<lparr>m_fs := snd (fs_close f2 d)\<rparr>"
  obtain q m4 where cl: "on_close ?X p m3 = (q, m4)" by fastforce
  have c3: "r = (case q of Inl e \<Rightarrow> map_sync_error e | Inr _ \<Rightarrow> RsOk)"
      "c3 = give_back m4 (snd (unregister_fd d c2)\<lparr>sc_fs := snd (fs_close f2 d)\<rparr>)"
    using assms(12) server_close [of c2 m2 d p replace_flags k ?X session new] c2 m2 o(2,3) wr tab cl
    by (auto simp: give_back_def m3_def)
  have l3: "lt_get (leases m3) p = Some ((fresh_lease ?base a)\<lparr>dirty := True, pending_delete := False\<rparr>)"
    "refcount ((fresh_lease ?base a)\<lparr>dirty := True, pending_delete := False\<rparr>) \<le> 1"
    using m2 by (simp_all add: m3_def fresh_lease_def)
  obtain m5 m6 where fl: "m_store m5 = m_store m3" "m_fs m5 = m_fs m3"
    "flush_lease ?X p ((fresh_lease ?base a)\<lparr>dirty := True, pending_delete := False, releasing := True\<rparr>) m5 = (q, m6)"
    "m_store m4 = m_store (release_lock ?X p (wl_lock_etag ((fresh_lease ?base a)\<lparr>dirty := True, pending_delete := False\<rparr>)) m6)"
    "\<not> is_locked m4 p"
    using sw.close_dirty [OF cl l3] by metis
  have "roomy (Suc (Suc 0) + length p) (m_fs m5)" using roomy_close [OF f2(2)] fl(2) by (simp add: m3_def)
  moreover have "file_at (m_fs m5) p = Some data"
    using fl(2) f2(3) assms(8) by (simp add: m3_def file_at_def fs_close_abs file_in_upd)
  moreover have "mem_calm (m_store m5)" "mem_view (m_store m5) (file_key p) = mem_view (m_store m) (file_key p)"
    using fl(1) m2(1) o(5) o(6) assms(4) by (simp_all add: m3_def)
  ultimately have "q = Inr () \<and> (\<exists>e. mem_view (m_store m6) = (mem_view (m_store m5))(file_key p \<mapsto> (data, e)))"
    using sw.flush_dirty_calm [OF fl(3) _ _ _ _ _ assms(9), where n = 0] by (simp add: fresh_lease_def)
  then have "q = Inr ()" "map_option fst (mem_view (m_store m4) (file_key p)) = Some data"
    using sw.release_effect [of h E C p "wl_lock_etag ((fresh_lease ?base a)\<lparr>dirty := True, pending_delete := False\<rparr>)" m6] fl(4)
    by auto
  then show ?thesis using c2(1) c3 fl(5) by (simp add: give_back_def unregister_fd_def)
qed

text \<open>
  An open that truncates is not synchronised by itself. A client that opens a path with
  \<open>O_CREAT\<close> and \<open>O_TRUNC\<close> and closes it without a write is told \<open>Ok\<close>, and the local file is empty;
  but the object in the bucket is the one from before and no upload is queued, so no other
  instance ever sees the truncation (or the new empty file).
\<close>

theorem truncation_is_not_synced:
  assumes "sc_sync c = Some m" and "file_lock C"
    and "\<not> is_locked m p" and "Upload p \<notin> set (outbound_queue m)" and "roomy (length p + 4) (sc_fs c)"
    and "path_comps p \<noteq> []"
    and "handle_request k (mem_env h E C) (RqOpenPath p replace_flags) session new c = Some (RsFd d, c1)"
    and "handle_request k (mem_env h E C) (RqClose d) session new c1 = Some (r, c2)"
  shows "r = RsOk \<and> file_at (sc_fs c2) p = Some [] \<and>
    (\<exists>m2. sc_sync c2 = Some m2 \<and> \<not> is_locked m2 p \<and> outbound_queue m2 = outbound_queue m \<and>
       mem_view (m_store m2) (file_key p) = mem_view (m_store m) (file_key p))"
proof -
  let ?X = "mem_env h E C" and ?base = "map_option snd (mem_view (m_store m) (file_key p))"
  have rm: "roomy (length p + 2 + 2) (sc_fs c)" by (rule roomy_le [OF assms(5)]) simp
  obtain m1 a f1 where o: "sc_sync c1 = Some m1" "fd_path_map c1 d = Some p" "fd_flags_map c1 d = Some replace_flags"
    "lt_get (leases m1) p = Some (fresh_lease ?base a)"
    "mem_view (m_store m1) (file_key p) = mem_view (m_store m) (file_key p)" "mem_calm (m_store m) \<longrightarrow> mem_calm (m_store m1)"
    "outbound_queue m1 = outbound_queue m" "roomy (Suc 2) f1" "open_path_with_flags f1 p replace_flags = (Inr d, sc_fs c1)"
    by (rule truncating_open [OF assms(1-4) rm assms(6,7)])
  obtain i where i: "fd_table (sc_fs c1) d = Some (new_handle i 0 replace_flags)"
      "abs_fs (sc_fs c1) = snd (spec_open (abs_fs f1) p replace_flags)"
    using open_path_ok [OF o(8) assms(6) o(9)] by blast
  have "fst (spec_open (abs_fs f1) p replace_flags) = Inr ()"
    using open_path_spec [of f1 p replace_flags] roomy_Suc [OF o(8)] o(9) by (metis forget_simps(2) fst_conv)
  then have loc: "file_at (sc_fs c1) p = Some []"
    using i(2) assms(6) by (simp add: spec_open_replace_result file_at_def file_in_upd)
  have wr: "is_write_access replace_flags" by (simp add: is_write_access_def flag_defs)
  define m3 where "m3 = m1\<lparr>m_fs := snd (fs_close (sc_fs c1) d)\<rparr>"
  obtain q m4 where cl: "on_close ?X p m3 = (q, m4)" by fastforce
  have c2: "r = (case q of Inl e \<Rightarrow> map_sync_error e | Inr _ \<Rightarrow> RsOk)" "c2 = give_back m4 (snd (unregister_fd d c1)\<lparr>sc_fs := snd (fs_close (sc_fs c1) d)\<rparr>)"
    using assms(8) server_close [of c1 m1 d p replace_flags k ?X session new] o(1-3) wr i(1) cl
    by (auto simp: m3_def)
  have l3: "lt_get (leases m3) p = Some (fresh_lease ?base a)" "refcount (fresh_lease ?base a) \<le> 1"
    using o(4) by (simp_all add: m3_def fresh_lease_def)
  obtain m5 m6 where fl: "m_store m5 = m_store m3" "m_fs m5 = m_fs m3"
    "flush_lease ?X p ((fresh_lease ?base a)\<lparr>releasing := True\<rparr>) m5 = (q, m6)" "m_fs m4 = m_fs m6"
    "m_store m4 = m_store (release_lock ?X p (wl_lock_etag (fresh_lease ?base a)) m6)" "\<not> is_locked m4 p"
    using sw.close_dirty [OF cl l3] by metis
  have "q = Inr ()" "m6 = m5" using fl(3) by (simp_all add: flush_lease_def fresh_lease_def)
  moreover have "mem_view (m_store m4) (file_key p) = mem_view (m_store m6) (file_key p)"
    using sw.release_effect [of h E C p "wl_lock_etag (fresh_lease ?base a)" m6] fl(5) by auto
  moreover have "file_at (m_fs m4) p = Some []"
    using fl(2,4) loc \<open>m6 = m5\<close> by (simp add: m3_def file_at_def fs_close_abs)
  moreover have "outbound_queue m4 = outbound_queue m" using on_close_queue [OF cl] o(7) by (simp add: m3_def)
  ultimately show ?thesis using c2 fl(1,6) o(5) by (simp add: give_back_def m3_def)
qed

section \<open>Examples\<close>

text \<open>A server over an empty bucket, and one without a bucket on which \<open>/f\<close> has been opened.\<close>

lemma server_demo_env_eq: "server_demo_env = mem_env demo_tag demo_time (server_config demo_lookup)"
  by (simp add: server_demo_env_def server_env_def mem_env_def adapter_fs_def)

lemma server_demo_facts:
  "sc_fs server_demo = fs_new" "fd_flags_map server_demo = Map.empty"
  "\<exists>m. sc_sync server_demo = Some m \<and> mem_calm (m_store m) \<and> mem_view (m_store m) = Map.empty \<and> leases m = [] \<and>
     outbound_queue m = []"
  by (simp_all add: mem_calm_def mem_view_def fun_eq_iff server_demo_def init_server_def server_demo_env_eq mem_env_def demo_lookup_def init_from_s3_def
      populate_from_s3_def list_files_def mem_store_def mem_list_def mem_new_def take_failure_def keys_under_def sm_new_def
      instant_now_def)

definition plain_server :: "mem_inner server_context" where
  "plain_server = init_server server_demo_env (\<lambda>_. None) ''i'' mem_new \<lparr>readings = 0, slept = 0\<rparr>"

definition plain_open :: "mem_inner server_context" where
  "plain_open = snd (the (handle_request 0 server_demo_env (RqOpenPath ''/f'' (O_RDWR OR O_CREAT)) (Some ''s'') [] plain_server))"

lemma plain_open_run:
  "handle_request 0 server_demo_env (RqOpenPath ''/f'' (O_RDWR OR O_CREAT)) (Some ''s'') [] plain_server = Some (RsFd 3, plain_open)"
  "sc_fs plain_open = demo_file" "sc_fs plain_server = fs_new" "fd_path_map plain_open = [3 \<mapsto> ''/f'']"
  "session_fds plain_open = [''s'' \<mapsto> [3]]"
  by (simp_all add: plain_open_def plain_server_def init_server_def handle_open_path_def before_open_def finish_open_def
      run_fs_def register_fd_def add_session_fd_def demo_file_eq fs_eval)

lemma server_demo_config:
  "file_lock (server_config demo_lookup)" "file_lock (config server_demo_env)" "lock_timeout (config server_demo_env) = 0"
  "cfg_mode (server_config demo_lookup) = Batch"
  by (simp_all add: server_demo_env_eq mem_env_def server_config_def from_lookup_def demo_lookup_def parse_enabled_def
      parse_sync_mode_def)

lemma server_demo_reachable: "server_reachable server_demo_env server_demo"
  unfolding server_demo_def
  by (rule server_start) (simp add: server_demo_def [symmetric] server_demo_facts fs_eval)

lemma plain_open_reachable: "server_reachable server_demo_env plain_open"
proof (rule server_step)
  show "server_reachable server_demo_env plain_server"
    unfolding plain_server_def
    by (rule server_start) (simp add: plain_server_def [symmetric] plain_open_run fs_eval)
  show "server_exec server_demo_env (Request 0 (RqOpenPath ''/f'' (O_RDWR OR O_CREAT)) (Some ''s'') []) plain_server = Some plain_open"
    using plain_open_run(1) by simp
  show "next_fd (sc_fs plain_server) \<le> next_fd (sc_fs plain_open)"
    by (simp add: plain_open_run demo_file_eq fs_eval)
qed

lemma server_demo_before_open:
  assumes "is_write_access fl"
  shows "\<exists>c1 m1. before_open 1 server_demo_env ''/f'' fl server_demo = Some (None, c1) \<and> sc_fs c1 = fs_new
    \<and> sc_sync c1 = Some m1"
proof -
  obtain m where m: "sc_sync server_demo = Some m" "mem_calm (m_store m)" "mem_view (m_store m) = Map.empty" "leases m = []" "outbound_queue m = []"
    using server_demo_facts(3) by blast
  define l where "l = lend m server_demo"
  have l: "mem_calm (m_store l)" "mem_view (m_store l) = Map.empty" "m_fs l = fs_new" "\<not> is_locked l ''/f''" "Upload ''/f'' \<notin> set (outbound_queue l)"
    using m by (simp_all add: l_def lend_def server_demo_facts is_locked_get lt_get_def)
  have fl: "file_lock (config (mem_env demo_tag demo_time (server_config demo_lookup)))"
    using server_demo_config(2) by (simp add: server_demo_env_eq)
  obtain m1 where o: "on_open_write (Suc 0) server_demo_env ''/f'' l = Some (Inr (), m1)"
    using sw.open_free [OF _ _ _ fl l(4,5)] l(1,2) by (auto simp: server_demo_env_eq)
  have "roomy (Suc 0 + length ''/f'') (m_fs l)"
    using fs_reachable_inv [OF fs_init] by (simp add: l roomy_def fs_eval)
  then have "m_fs m1 = fs_new"
    using sw.open_clean [OF o [unfolded server_demo_env_eq] fl l(4,5)] l(1-3) by simp
  then show ?thesis
    using o m(1) assms server_demo_config(2) by (simp add: before_open_def l_def [symmetric] give_back_def)
qed

lemma demo_open_results:
  "\<exists>f. open_path_with_flags fs_new ''/f'' replace_flags = (Inr 3, f) \<and> next_fd f = 4"
  "fst (open_path_with_flags fs_new ''/f'' O_WRONLY) = Inl NotFound"
  "is_write_access replace_flags" "is_write_access O_WRONLY"
  by (simp_all add: fs_eval truncate_inode_def bs_truncate_def is_write_access_def)

lemma server_demo_session:
  "\<exists>c1. handle_request 1 server_demo_env (RqOpenPath ''/f'' replace_flags) (Some ''s'') [] server_demo = Some (RsFd 3, c1)
    \<and> next_fd (sc_fs c1) = 4 \<and> (\<exists>m1. sc_sync c1 = Some m1) \<and> 3 \<in> writers c1 ''/f''"
proof -
  obtain c1 m1 where "before_open 1 server_demo_env ''/f'' replace_flags server_demo = Some (None, c1)"
      "sc_fs c1 = fs_new" "sc_sync c1 = Some m1"
    using server_demo_before_open demo_open_results(3) by blast
  moreover obtain f where "open_path_with_flags fs_new ''/f'' replace_flags = (Inr 3, f)" "next_fd f = 4"
    using demo_open_results(1) by blast
  ultimately show ?thesis
    using demo_open_results(3)
    by (simp add: handle_open_path_def finish_open_def run_fs_def register_fd_def writers_def)
qed

theorem server_tables_witness:
  "finite (dom (fd_flags_map plain_open)) \<and> (3 :: u32) < next_fd (sc_fs plain_open)"
  using server_tables [OF plain_open_reachable] plain_open_run(4) by (auto simp: dom_def)

theorem writers_hold_leases_witness:
  "\<exists>(c :: mem_inner server_context) m. sc_sync c = Some m \<and> 3 \<in> writers c ''/f'' \<and> is_locked m ''/f''"
proof -
  obtain c1 m1 where o: "handle_request 1 server_demo_env (RqOpenPath ''/f'' replace_flags) (Some ''s'') [] server_demo = Some (RsFd 3, c1)"
    "next_fd (sc_fs c1) = 4" "sc_sync c1 = Some m1" "3 \<in> writers c1 ''/f''"
    using server_demo_session by blast
  have "server_reachable server_demo_env c1"
  proof (rule server_step [OF server_demo_reachable])
    show "server_exec server_demo_env (Request 1 (RqOpenPath ''/f'' replace_flags) (Some ''s'') []) server_demo = Some c1"
      using o(1) by simp
    show "next_fd (sc_fs server_demo) \<le> next_fd (sc_fs c1)" by (simp add: o(2) server_demo_facts fs_eval)
  qed
  from writers_hold_leases [OF this o(3) server_demo_config(2), of "''/f''" 3] o(3,4) show ?thesis by blast
qed

theorem requests_answered_witness:
  "\<exists>r c'. handle_request 1 server_demo_env (RqOpenPath ''/f'' O_RDWR) None [] server_demo = Some (r, c')"
proof -
  have "mono (te_instant (se_time server_demo_env))" by (simp add: server_demo_env_eq mem_env_def demo_time_def mono_def)
  from requests_answered [OF server_demo_reachable this server_demo_config(3)] show ?thesis by blast
qed

theorem failed_open_keeps_lease_witness:
  "\<exists>c' m'. handle_request 1 server_demo_env (RqOpenPath ''/f'' O_WRONLY) None [] server_demo = Some (RsError EcNotFound ''Not found'', c') \<and>
    fd_flags_map c' = Map.empty \<and> sc_sync c' = Some m' \<and> hold_count m' ''/f'' = 1"
proof -
  obtain m where m: "sc_sync server_demo = Some m" "leases m = []" using server_demo_facts(3) by blast
  obtain c1 where b: "before_open 1 server_demo_env ''/f'' O_WRONLY server_demo = Some (None, c1)" "sc_fs c1 = fs_new"
    using server_demo_before_open demo_open_results(4) by blast
  have "fst (open_path_with_flags (sc_fs c1) ''/f'' O_WRONLY) = Inl NotFound" by (simp add: b(2) demo_open_results(2))
  from failed_open_keeps_lease [OF m(1) server_demo_config(2) demo_open_results(4) b(1) this]
  show ?thesis using m(2) by (fastforce simp: hold_count_def [of m] lt_get_def server_demo_facts)
qed

theorem disconnect_forgets_witness:
  "fd_flags_map (close_session rev server_demo_env ''s'' plain_open) 3 = None"
proof -
  have "session_fds plain_open ''s'' = Some [3]" by (simp add: plain_open_run)
  from disconnect_forgets [OF this, of rev server_demo_env] show ?thesis by (simp add: Let_def)
qed

theorem written_file_is_stored_witness:
  "\<exists>c1 c2 c3 m3. handle_request 1 server_demo_env (RqOpenPath ''/f'' replace_flags) (Some ''s'') [] server_demo = Some (RsFd 3, c1) \<and>
    handle_request 1 server_demo_env (RqWrite 3 [1, 2]) (Some ''s'') [] c1 = Some (RsWritten 2, c2) \<and>
    handle_request 1 server_demo_env (RqClose 3) (Some ''s'') [] c2 = Some (RsOk, c3) \<and>
    sc_sync c3 = Some m3 \<and> map_option fst (mem_view (m_store m3) (file_key ''/f'')) = Some [1, 2]"
proof -
  obtain m where m: "sc_sync server_demo = Some m" "mem_calm (m_store m)" "leases m = []" "outbound_queue m = []"
    using server_demo_facts(3) by blast
  have f: "mem_calm (m_store m)" "\<not> is_locked m ''/f''" "Upload ''/f'' \<notin> set (outbound_queue m)"
    "roomy (2 * length ''/f'' + 4) (sc_fs server_demo)" "path_comps ''/f'' \<noteq> []" "length [1, 2 :: u8] < 2 ^ 64"
    using m fs_reachable_inv [OF fs_init]
    by (simp_all add: is_locked_get lt_get_def server_demo_facts roomy_def fs_eval)
  obtain c1 where c1: "handle_request 1 server_demo_env (RqOpenPath ''/f'' replace_flags) (Some ''s'') [] server_demo = Some (RsFd 3, c1)"
    using server_demo_session by blast
  obtain w c2 where c2: "handle_request 1 server_demo_env (RqWrite 3 [1, 2]) (Some ''s'') [] c1 = Some (w, c2)"
    by (cases "change_then (\<lambda>f. fs_write f 3 [1, 2]) RsWritten (after_write server_demo_env 3) c1") auto
  obtain r c3 where c3: "handle_request 1 server_demo_env (RqClose 3) (Some ''s'') [] c2 = Some (r, c3)"
    by (cases "close_fd server_demo_env 3 c2") auto
  from written_file_is_stored [OF m(1) server_demo_config(1,4) f(1-5) f(6) c1 [unfolded server_demo_env_eq]
      c2 [unfolded server_demo_env_eq] c3 [unfolded server_demo_env_eq]] c1 c2 c3
  show ?thesis by auto
qed

theorem truncation_is_not_synced_witness:
  "\<exists>c1 c2. handle_request 1 server_demo_env (RqOpenPath ''/f'' replace_flags) (Some ''s'') [] server_demo = Some (RsFd 3, c1) \<and>
    handle_request 1 server_demo_env (RqClose 3) (Some ''s'') [] c1 = Some (RsOk, c2) \<and> file_at (sc_fs c2) ''/f'' = Some []"
proof -
  obtain m where m: "sc_sync server_demo = Some m" "leases m = []" "outbound_queue m = []"
    using server_demo_facts(3) by blast
  have f: "\<not> is_locked m ''/f''" "Upload ''/f'' \<notin> set (outbound_queue m)" "roomy (length ''/f'' + 4) (sc_fs server_demo)"
    "path_comps ''/f'' \<noteq> []"
    using m fs_reachable_inv [OF fs_init] by (simp_all add: is_locked_get lt_get_def server_demo_facts roomy_def fs_eval)
  obtain c1 where c1: "handle_request 1 server_demo_env (RqOpenPath ''/f'' replace_flags) (Some ''s'') [] server_demo = Some (RsFd 3, c1)"
    using server_demo_session by blast
  obtain r c2 where c2: "handle_request 1 server_demo_env (RqClose 3) (Some ''s'') [] c1 = Some (r, c2)"
    by (cases "close_fd server_demo_env 3 c1") auto
  from truncation_is_not_synced [OF m(1) server_demo_config(1) f c1 [unfolded server_demo_env_eq] c2 [unfolded server_demo_env_eq]] c1 c2
  show ?thesis by auto
qed

end
