(* ===== verification/S3_Client.thy ===== *)
theory S3_Client
  imports Memory_Store
begin

text \<open>
  \<open>s3_client.rs\<close>: the object store over the AWS SDK. The SDK's client is a parameter: the record
  \<open>sdk\<close> has one function per request that the code sends, on a client state \<open>'c\<close>, with the fields
  of the answers that the code reads. What the theorems need of S3 is the predicate \<open>s3_laws\<close>.

  The parts of a multipart upload are sent together (\<open>join_all\<close>): the model sends them in the order
  of the parts, and like the code it sends all of them before it looks at the first error. The
  pages of a listing are followed with fuel. Logging is left out.
\<close>

section \<open>The SDK\<close>

text \<open>Of an error: the HTTP status of the raw response, the error code, the text of the modelled
  service error, and the text of the whole cause chain.\<close>

record sdk_error =
  er_status :: "u16 option"
  er_code :: "string option"
  er_service :: "string option"
  er_context :: string

text \<open>A timestamp is read through \<open>secs() as u64\<close>, an \<open>i64\<close> length through \<open>as u64\<close>; the body of a
  \<open>GetObject\<close> is read afterwards, which can fail.\<close>

record head_output =
  ho_e_tag :: "string option"
  ho_last_modified :: "u64 option"
  ho_content_length :: "u64 option"

record get_output =
  go_e_tag :: "string option"
  go_last_modified :: "u64 option"
  go_body :: "string + bytes"

record list_object =
  lo_key :: "string option"
  lo_e_tag :: "string option"
  lo_last_modified :: "u64 option"
  lo_size :: "u64 option"

record list_output =
  lv_contents :: "list_object list option"
  lv_is_truncated :: "bool option"
  lv_next_token :: "string option"

record completed_part =
  cp_part_number :: i32
  cp_e_tag :: string

text \<open>The arguments are the bucket, the key (or prefix) and what the request carries; the two
  optional strings of a write are the headers \<open>If-Match\<close> and \<open>If-None-Match\<close>.\<close>

record 'c sdk =
  put_object :: "'c \<Rightarrow> string \<Rightarrow> string \<Rightarrow> bytes \<Rightarrow> string option \<Rightarrow> string option \<Rightarrow> (sdk_error + string option) \<times> 'c"
  create_multipart_upload :: "'c \<Rightarrow> string \<Rightarrow> string \<Rightarrow> (sdk_error + string option) \<times> 'c"
  upload_part :: "'c \<Rightarrow> string \<Rightarrow> string \<Rightarrow> string \<Rightarrow> i32 \<Rightarrow> bytes \<Rightarrow> (sdk_error + string option) \<times> 'c"
  complete_multipart_upload ::
    "'c \<Rightarrow> string \<Rightarrow> string \<Rightarrow> string \<Rightarrow> completed_part list \<Rightarrow> string option \<Rightarrow> string option \<Rightarrow>
     (sdk_error + string option) \<times> 'c"
  abort_multipart_upload :: "'c \<Rightarrow> string \<Rightarrow> string \<Rightarrow> string \<Rightarrow> (sdk_error + unit) \<times> 'c"
  delete_object :: "'c \<Rightarrow> string \<Rightarrow> string \<Rightarrow> string option \<Rightarrow> (sdk_error + unit) \<times> 'c"
  head_object :: "'c \<Rightarrow> string \<Rightarrow> string \<Rightarrow> (sdk_error + head_output) \<times> 'c"
  get_object :: "'c \<Rightarrow> string \<Rightarrow> string \<Rightarrow> (sdk_error + get_output) \<times> 'c"
  list_objects_v2 :: "'c \<Rightarrow> string \<Rightarrow> string \<Rightarrow> i32 option \<Rightarrow> string option \<Rightarrow> (sdk_error + list_output) \<times> 'c"

section \<open>Tags, keys, errors\<close>

record 'c s3_storage =
  s3_client :: 'c
  s3_bucket :: string
  s3_prefix :: string
  conditional_delete_supported :: bool

definition MULTIPART_THRESHOLD :: nat where "MULTIPART_THRESHOLD = 10 * 1024 * 1024"
definition PART_SIZE :: nat where "PART_SIZE = 10 * 1024 * 1024"

datatype kind = KRead | KWrite | KDelete

definition quote_etag :: "string \<Rightarrow> string" where
  "quote_etag etag = CHR 0x22 # trim_matches CHR 0x22 etag @ [CHR 0x22]"

definition unquote :: "string option \<Rightarrow> string" where
  "unquote etag = trim_matches CHR 0x22 (case etag of None \<Rightarrow> [] | Some e \<Rightarrow> e)"

definition classify :: "string \<Rightarrow> sdk_error \<Rightarrow> kind \<Rightarrow> s3_error" where
  "classify key e k =
     (let status = er_status e;
          code = (case er_code e of None \<Rightarrow> [] | Some c \<Rightarrow> c);
          message = (case er_service e of Some se \<Rightarrow> se @ '' ('' @ code @ '')'' | None \<Rightarrow> er_context e) in
      if status = Some 412 \<or> status = Some 409 \<or> code = ''PreconditionFailed'' \<or> code = ''ConditionalRequestConflict''
      then PreconditionFailed key (case status of None \<Rightarrow> 0 | Some s \<Rightarrow> s) code
      else if status = Some 404 \<or> code = ''NotFound'' \<or> code = ''NoSuchKey'' then S3NotFound key
      else if status = Some 501 \<or> code = ''NotImplemented'' then NotImplemented key message
      else (case k of KRead \<Rightarrow> S3Read key message | KWrite \<Rightarrow> S3Write key message | KDelete \<Rightarrow> S3Delete key message))"

definition from_sdk_config :: "'c \<Rightarrow> string \<Rightarrow> string \<Rightarrow> 'c s3_storage" where
  "from_sdk_config client bucket pre =
     \<lparr>s3_client = client, s3_bucket = bucket, s3_prefix = pre, conditional_delete_supported = True\<rparr>"

definition s3_key :: "'c s3_storage \<Rightarrow> string \<Rightarrow> string" where
  "s3_key s rel = s3_prefix s @ trim_start_matches CHR ''/'' rel"

definition s3_rel :: "'c s3_storage \<Rightarrow> string \<Rightarrow> string" where
  "s3_rel s full = (case strip_prefix (s3_prefix s) full of None \<Rightarrow> full | Some r \<Rightarrow> r)"

text \<open>One request of the client.\<close>

definition send ::
  "('c \<Rightarrow> string \<Rightarrow> 'r \<times> 'c) \<Rightarrow> 'c s3_storage \<Rightarrow> 'r \<times> 'c s3_storage" where
  "send request s = (case request (s3_client s) (s3_bucket s) of (r, c) \<Rightarrow> (r, s\<lparr>s3_client := c\<rparr>))"

definition if_match_header :: "precondition \<Rightarrow> string option" where
  "if_match_header cond = (case cond of IfMatch etag \<Rightarrow> Some (quote_etag etag) | _ \<Rightarrow> None)"

definition if_none_match_header :: "precondition \<Rightarrow> string option" where
  "if_none_match_header cond = (case cond of IfNoneMatchAny \<Rightarrow> Some ''*'' | _ \<Rightarrow> None)"

section \<open>Uploads\<close>

definition simple_upload ::
  "'c sdk \<Rightarrow> 'c s3_storage \<Rightarrow> string \<Rightarrow> bytes \<Rightarrow> precondition \<Rightarrow> (s3_error + string) \<times> 'c s3_storage" where
  "simple_upload K s key data cond =
     (case send (\<lambda>c b. put_object K c b key data (if_match_header cond) (if_none_match_header cond)) s of
        (Inl e, s) \<Rightarrow> (Inl (classify key e KWrite), s)
      | (Inr etag, s) \<Rightarrow> (Inr (unquote etag), s))"

text \<open>\<open>[T]::chunks\<close>.\<close>

function chunks :: "nat \<Rightarrow> 'a list \<Rightarrow> 'a list list" where
  "chunks n xs = (if xs = [] \<or> n = 0 then [] else take n xs # chunks n (drop n xs))"
  by auto
termination by (relation "measure (length \<circ> snd)") auto

declare chunks.simps [simp del]

text \<open>Sending the parts from number \<open>i\<close> on.\<close>

fun upload_parts ::
  "'c sdk \<Rightarrow> string \<Rightarrow> string \<Rightarrow> nat \<Rightarrow> bytes list \<Rightarrow> 'c s3_storage \<Rightarrow>
   (s3_error + completed_part) list \<times> 'c s3_storage" where
  "upload_parts K key upload_id i [] s = ([], s)"
| "upload_parts K key upload_id i (chunk # rest) s =
     (let part_number = of_nat (i + 1) in
      case send (\<lambda>c b. upload_part K c b key upload_id part_number chunk) s of
        (r, s) \<Rightarrow>
          let r' = (case r of
                      Inl e \<Rightarrow> Inl (classify key e KWrite)
                    | Inr etag \<Rightarrow>
                        Inr \<lparr>cp_part_number = part_number, cp_e_tag = (case etag of None \<Rightarrow> [] | Some e \<Rightarrow> e)\<rparr>) in
          (case upload_parts K key upload_id (i + 1) rest s of (rs, s) \<Rightarrow> (r' # rs, s)))"

text \<open>The loop over the results: the first error ends it.\<close>

fun collect_results :: "('e + 'a) list \<Rightarrow> 'e + 'a list" where
  "collect_results [] = Inr []"
| "collect_results (Inl e # rs) = Inl e"
| "collect_results (Inr a # rs) = (case collect_results rs of Inl e \<Rightarrow> Inl e | Inr as \<Rightarrow> Inr (a # as))"

definition multipart_upload_inner ::
  "'c sdk \<Rightarrow> 'c s3_storage \<Rightarrow> string \<Rightarrow> bytes \<Rightarrow> string \<Rightarrow> precondition \<Rightarrow> (s3_error + string) \<times> 'c s3_storage" where
  "multipart_upload_inner K s key data upload_id cond =
     (case upload_parts K key upload_id 0 (chunks PART_SIZE data) s of
        (results, s) \<Rightarrow>
          (case collect_results results of
             Inl e \<Rightarrow> (Inl e, s)
           | Inr parts \<Rightarrow>
               let parts = sort_key (\<lambda>p. sint (cp_part_number p)) parts in
               (case send (\<lambda>c b. complete_multipart_upload K c b key upload_id parts
                       (if_match_header cond) (if_none_match_header cond)) s of
                  (Inl e, s) \<Rightarrow> (Inl (classify key e KWrite), s)
                | (Inr etag, s) \<Rightarrow> (Inr (unquote etag), s))))"

definition multipart_upload ::
  "'c sdk \<Rightarrow> 'c s3_storage \<Rightarrow> string \<Rightarrow> bytes \<Rightarrow> precondition \<Rightarrow> (s3_error + string) \<times> 'c s3_storage" where
  "multipart_upload K s key data cond =
     (case send (\<lambda>c b. create_multipart_upload K c b key) s of
        (Inl e, s) \<Rightarrow> (Inl (classify key e KWrite), s)
      | (Inr None, s) \<Rightarrow> (Inl (S3Write key ''No upload_id returned''), s)
      | (Inr (Some upload_id), s) \<Rightarrow>
          (case multipart_upload_inner K s key data upload_id cond of
             (Inr etag, s) \<Rightarrow> (Inr etag, s)
           | (Inl e, s) \<Rightarrow> (Inl e, snd (send (\<lambda>c b. abort_multipart_upload K c b key upload_id) s))))"

section \<open>The store operations\<close>

definition meta_of_head :: "string \<Rightarrow> head_output \<Rightarrow> object_meta" where
  "meta_of_head key out =
     \<lparr>om_key = key, om_etag = unquote (ho_e_tag out),
      om_last_modified = (case ho_last_modified out of None \<Rightarrow> 0 | Some t \<Rightarrow> t),
      om_size = (case ho_content_length out of None \<Rightarrow> 0 | Some n \<Rightarrow> n)\<rparr>"

definition s3_head ::
  "'c sdk \<Rightarrow> 'c s3_storage \<Rightarrow> string \<Rightarrow> (s3_error + object_meta option) \<times> 'c s3_storage" where
  "s3_head K s key =
     (let full = s3_key s key in
      case send (\<lambda>c b. head_object K c b full) s of
        (Inr out, s) \<Rightarrow> (Inr (Some (meta_of_head key out)), s)
      | (Inl e, s) \<Rightarrow>
          (case classify full e KRead of S3NotFound _ \<Rightarrow> (Inr None, s) | other \<Rightarrow> (Inl other, s)))"

definition s3_get ::
  "'c sdk \<Rightarrow> 'c s3_storage \<Rightarrow> string \<Rightarrow> (s3_error + (bytes \<times> object_meta) option) \<times> 'c s3_storage" where
  "s3_get K s key =
     (let full = s3_key s key in
      case send (\<lambda>c b. get_object K c b full) s of
        (Inr out, s) \<Rightarrow>
          (case go_body out of
             Inl msg \<Rightarrow> (Inl (S3Read full msg), s)
           | Inr body \<Rightarrow>
               (Inr (Some (body,
                  \<lparr>om_key = key, om_etag = unquote (go_e_tag out),
                   om_last_modified = (case go_last_modified out of None \<Rightarrow> 0 | Some t \<Rightarrow> t),
                   om_size = of_nat (length body)\<rparr>)), s))
      | (Inl e, s) \<Rightarrow>
          (case classify full e KRead of S3NotFound _ \<Rightarrow> (Inr None, s) | other \<Rightarrow> (Inl other, s)))"

definition s3_put ::
  "'c sdk \<Rightarrow> 'c s3_storage \<Rightarrow> string \<Rightarrow> bytes \<Rightarrow> precondition \<Rightarrow> (s3_error + string) \<times> 'c s3_storage" where
  "s3_put K s key body cond =
     (let full = s3_key s key in
      if length body \<ge> MULTIPART_THRESHOLD then multipart_upload K s full body cond
      else simple_upload K s full body cond)"

definition delete_with_head_check ::
  "'c sdk \<Rightarrow> 'c s3_storage \<Rightarrow> string \<Rightarrow> string \<Rightarrow> (s3_error + unit) \<times> 'c s3_storage" where
  "delete_with_head_check K s key expected =
     (case s3_head K s (s3_rel s key) of
        (Inl e, s) \<Rightarrow> (Inl e, s)
      | (Inr None, s) \<Rightarrow> (Inr (), s)
      | (Inr (Some m), s) \<Rightarrow>
          if om_etag m = expected then
            (case send (\<lambda>c b. delete_object K c b key None) s of
               (Inl e, s) \<Rightarrow> (Inl (classify key e KDelete), s)
             | (Inr _, s) \<Rightarrow> (Inr (), s))
          else (Inl (PreconditionFailed key 412 ''PreconditionFailed''), s))"

definition s3_delete ::
  "'c sdk \<Rightarrow> 'c s3_storage \<Rightarrow> string \<Rightarrow> precondition \<Rightarrow> (s3_error + unit) \<times> 'c s3_storage" where
  "s3_delete K s key cond =
     (let full = s3_key s key in
      case (cond, conditional_delete_supported s) of
        (IfMatch expected, False) \<Rightarrow> delete_with_head_check K s full expected
      | _ \<Rightarrow>
          (case send (\<lambda>c b. delete_object K c b full (if_match_header cond)) s of
             (Inr _, s) \<Rightarrow> (Inr (), s)
           | (Inl e, s) \<Rightarrow>
               (case (classify full e KDelete, cond) of
                  (S3NotFound _, _) \<Rightarrow> (Inr (), s)
                | (NotImplemented _ _, IfMatch expected) \<Rightarrow>
                    delete_with_head_check K (s\<lparr>conditional_delete_supported := False\<rparr>) full expected
                | (other, _) \<Rightarrow> (Inl other, s))))"

definition meta_of_listed :: "'c s3_storage \<Rightarrow> list_object \<Rightarrow> object_meta option" where
  "meta_of_listed s ob =
     (case (lo_key ob, lo_e_tag ob) of
        (Some key, Some etag) \<Rightarrow>
          Some \<lparr>om_key = s3_rel s key, om_etag = trim_matches CHR 0x22 etag,
            om_last_modified = (case lo_last_modified ob of None \<Rightarrow> 0 | Some t \<Rightarrow> t),
            om_size = (case lo_size ob of None \<Rightarrow> 0 | Some n \<Rightarrow> n)\<rparr>
      | _ \<Rightarrow> None)"

definition page_metas :: "'c s3_storage \<Rightarrow> list_output \<Rightarrow> object_meta list" where
  "page_metas s out = List.map_filter (meta_of_listed s) (case lv_contents out of None \<Rightarrow> [] | Some obs \<Rightarrow> obs)"

fun list_pages ::
  "nat \<Rightarrow> 'c sdk \<Rightarrow> string \<Rightarrow> nat option \<Rightarrow> object_meta list \<Rightarrow> string option \<Rightarrow> 'c s3_storage \<Rightarrow>
   ((s3_error + object_meta list) \<times> 'c s3_storage) option" where
  "list_pages 0 K full max_keys found token s = None"
| "list_pages (Suc n) K full max_keys found token s =
     (case send (\<lambda>c b. list_objects_v2 K c b full (map_option of_nat max_keys) token) s of
        (Inl e, s) \<Rightarrow> Some (Inl (classify full e KRead), s)
      | (Inr out, s) \<Rightarrow>
          let found = found @ page_metas s out in
          (case max_keys of
             Some k \<Rightarrow> Some (Inr (take k found), s)
           | None \<Rightarrow>
               if lv_is_truncated out = Some True then list_pages n K full max_keys found (lv_next_token out) s
               else Some (Inr found, s)))"

definition s3_list ::
  "nat \<Rightarrow> 'c sdk \<Rightarrow> 'c s3_storage \<Rightarrow> string \<Rightarrow> nat option \<Rightarrow> ((s3_error + object_meta list) \<times> 'c s3_storage) option" where
  "s3_list fuel K s q max_keys = list_pages fuel K (s3_key s q) max_keys [] None s"

end
