(* ===== verification/S3_Laws.thy ===== *)
theory S3_Laws
  imports S3_Client
begin

text \<open>
  The S3 client as a compare-and-swap store. \<open>s3_laws\<close> states what S3 documents about the requests the
  client sends; under it a put or a delete of the client acts on exactly one object, only when its
  precondition holds, and a refusal means that nothing happened, also when the body is sent in parts
  and when the backend does not support conditional deletes.
\<close>

section \<open>What S3 promises\<close>

text \<open>\<open>v c b k\<close> is the object of bucket \<open>b\<close> at key \<open>k\<close>, with its tag in quotes, and \<open>parts c id\<close> are the
  parts of an upload. An error with one of these statuses or codes is an answer of the service that
  refuses the request; other errors (a timeout, a lost connection) leave open whether it was done.\<close>

type_synonym 'c bucket_view = "'c \<Rightarrow> string \<Rightarrow> string \<Rightarrow> (bytes \<times> string) option"
type_synonym 'c part_view = "'c \<Rightarrow> string \<Rightarrow> i32 \<Rightarrow> (bytes \<times> string) option"

definition not_found_answer :: "sdk_error \<Rightarrow> bool" where
  "not_found_answer e \<longleftrightarrow> er_status e = Some 404 \<or> er_code e = Some ''NotFound'' \<or> er_code e = Some ''NoSuchKey''"

definition refusal :: "sdk_error \<Rightarrow> bool" where
  "refusal e \<longleftrightarrow> not_found_answer e \<or> er_status e = Some 412 \<or> er_status e = Some 409 \<or> er_status e = Some 501 \<or>
     er_code e = Some ''PreconditionFailed'' \<or> er_code e = Some ''ConditionalRequestConflict'' \<or>
     er_code e = Some ''NotImplemented''"

definition headers_hold :: "(bytes \<times> string) option \<Rightarrow> string option \<Rightarrow> string option \<Rightarrow> bool" where
  "headers_hold cur im inm \<longleftrightarrow>
     (case im of None \<Rightarrow> True | Some q \<Rightarrow> map_option snd cur = Some q) \<and> (inm \<noteq> None \<longrightarrow> cur = None)"

definition put_effect ::
  "'c bucket_view \<Rightarrow> 'c \<Rightarrow> string \<Rightarrow> string \<Rightarrow> bytes \<Rightarrow> string option \<Rightarrow> string option \<Rightarrow> sdk_error + string option \<Rightarrow> 'c \<Rightarrow> bool" where
  "put_effect v c b k body im inm r c' \<longleftrightarrow>
     (case r of
        Inr e \<Rightarrow> headers_hold (v c b k) im inm \<and> (\<exists>t. e = Some (quote_etag t) \<and> v c' b = (v c b)(k \<mapsto> (body, quote_etag t)))
      | Inl e \<Rightarrow> v c' b = v c b \<or>
          \<not> refusal e \<and> headers_hold (v c b k) im inm \<and> (\<exists>t. v c' b = (v c b)(k \<mapsto> (body, quote_etag t))))"

definition delete_effect ::
  "'c bucket_view \<Rightarrow> 'c \<Rightarrow> string \<Rightarrow> string \<Rightarrow> string option \<Rightarrow> sdk_error + unit \<Rightarrow> 'c \<Rightarrow> bool" where
  "delete_effect v c b k im r c' \<longleftrightarrow>
     (case r of
        Inr _ \<Rightarrow> (v c b k = None \<or> headers_hold (v c b k) im None) \<and> v c' b = (v c b)(k := None)
      | Inl e \<Rightarrow> v c' b = v c b \<and> (not_found_answer e \<longrightarrow> v c b k = None) \<or>
          \<not> refusal e \<and> headers_hold (v c b k) im None \<and> v c' b = (v c b)(k := None))"

text \<open>The parts of a list that were uploaded with these numbers and tags, in ascending order.\<close>

definition uploaded :: "(i32 \<Rightarrow> (bytes \<times> string) option) \<Rightarrow> completed_part list \<Rightarrow> bool" where
  "uploaded P ps \<longleftrightarrow> sorted_wrt (\<lambda>p q. sint (cp_part_number p) < sint (cp_part_number q)) ps \<and>
     (\<forall>p \<in> set ps. map_option snd (P (cp_part_number p)) = Some (cp_e_tag p))"

definition assembled :: "(i32 \<Rightarrow> (bytes \<times> string) option) \<Rightarrow> completed_part list \<Rightarrow> bytes" where
  "assembled P ps = concat (map (\<lambda>p. case P (cp_part_number p) of None \<Rightarrow> [] | Some (d, _) \<Rightarrow> d) ps)"

definition quoted_view :: "'c bucket_view \<Rightarrow> bool" where
  "quoted_view v \<longleftrightarrow> (\<forall>c b k body raw. v c b k = Some (body, raw) \<longrightarrow> quote_etag raw = raw)"

definition put_law :: "'c sdk \<Rightarrow> 'c bucket_view \<Rightarrow> bool" where
  "put_law K v \<longleftrightarrow> (\<forall>c b k body im inm r c'.
     put_object K c b k body im inm = (r, c') \<longrightarrow> put_effect v c b k body im inm r c')"

definition part_law :: "'c sdk \<Rightarrow> 'c bucket_view \<Rightarrow> 'c part_view \<Rightarrow> bool" where
  "part_law K v parts \<longleftrightarrow> (\<forall>c b k i n body r c'. upload_part K c b k i n body = (r, c') \<longrightarrow> v c' b = v c b \<and>
     (\<forall>e. r = Inr e \<longrightarrow> parts c' i = (parts c i)(n \<mapsto> (body, case e of None \<Rightarrow> [] | Some t \<Rightarrow> t))))"

definition complete_law :: "'c sdk \<Rightarrow> 'c bucket_view \<Rightarrow> 'c part_view \<Rightarrow> bool" where
  "complete_law K v parts \<longleftrightarrow> (\<forall>c b k i ps im inm r c'.
     complete_multipart_upload K c b k i ps im inm = (r, c') \<longrightarrow> uploaded (parts c i) ps \<longrightarrow>
     put_effect v c b k (assembled (parts c i) ps) im inm r c')"

definition session_law :: "'c sdk \<Rightarrow> 'c bucket_view \<Rightarrow> bool" where
  "session_law K v \<longleftrightarrow>
     (\<forall>c b k r c'. create_multipart_upload K c b k = (r, c') \<longrightarrow> v c' b = v c b) \<and>
     (\<forall>c b k i r c'. abort_multipart_upload K c b k i = (r, c') \<longrightarrow> v c' b = v c b)"

definition delete_law :: "'c sdk \<Rightarrow> 'c bucket_view \<Rightarrow> bool" where
  "delete_law K v \<longleftrightarrow> (\<forall>c b k im r c'. delete_object K c b k im = (r, c') \<longrightarrow> delete_effect v c b k im r c')"

definition head_law :: "'c sdk \<Rightarrow> 'c bucket_view \<Rightarrow> bool" where
  "head_law K v \<longleftrightarrow> (\<forall>c b k r c'. head_object K c b k = (r, c') \<longrightarrow> v c' b = v c b \<and>
     (case r of Inr out \<Rightarrow> ho_e_tag out \<noteq> None \<and> map_option snd (v c b k) = ho_e_tag out
      | Inl e \<Rightarrow> not_found_answer e \<longrightarrow> v c b k = None))"

definition get_law :: "'c sdk \<Rightarrow> 'c bucket_view \<Rightarrow> bool" where
  "get_law K v \<longleftrightarrow> (\<forall>c b k r c'. get_object K c b k = (r, c') \<longrightarrow> v c' b = v c b \<and>
     (case r of
        Inr out \<Rightarrow> go_e_tag out \<noteq> None \<and> map_option snd (v c b k) = go_e_tag out \<and>
          (\<forall>body. go_body out = Inr body \<longrightarrow> map_option fst (v c b k) = Some body)
      | Inl e \<Rightarrow> not_found_answer e \<longrightarrow> v c b k = None))"

definition list_law :: "'c sdk \<Rightarrow> 'c bucket_view \<Rightarrow> bool" where
  "list_law K v \<longleftrightarrow> (\<forall>c b q n t r c'. list_objects_v2 K c b q n t = (r, c') \<longrightarrow> v c' b = v c b)"

definition s3_laws :: "'c sdk \<Rightarrow> 'c bucket_view \<Rightarrow> 'c part_view \<Rightarrow> bool" where
  "s3_laws K v parts \<longleftrightarrow> quoted_view v \<and> put_law K v \<and> part_law K v parts \<and> complete_law K v parts \<and>
     session_law K v \<and> delete_law K v \<and> head_law K v \<and> get_law K v \<and> list_law K v"

section \<open>Tags\<close>

lemma trim_matches_idem: "trim_matches c (trim_matches c s) = trim_matches c s"
proof -
  define t where "t = trim_matches c s"
  have "t = [] \<or> last t \<noteq> c"
    using hd_dropWhile [of "\<lambda>x. x = c" "rev (trim_start_matches c s)"]
    by (auto simp: t_def trim_matches_def trim_end_matches_def last_rev)
  moreover have "t = [] \<or> hd t \<noteq> c"
  proof (cases "t = []")
    case False
    define u where "u = trim_start_matches c s"
    have "u \<noteq> []" using False by (auto simp: t_def trim_matches_def trim_end_matches_def u_def)
    then have "hd u \<noteq> c" using hd_dropWhile [of "\<lambda>x. x = c" s] by (auto simp: u_def trim_start_matches_def)
    moreover have "rev u = takeWhile (\<lambda>x. x = c) (rev u) @ dropWhile (\<lambda>x. x = c) (rev u)" by simp
    then have "u = t @ rev (takeWhile (\<lambda>x. x = c) (rev u))"
      by (metis rev_append rev_rev_ident t_def trim_end_matches_def trim_matches_def u_def)
    ultimately show ?thesis using False by (metis hd_append2)
  qed simp
  ultimately have "dropWhile (\<lambda>x. x = c) t = t" "dropWhile (\<lambda>x. x = c) (rev t) = rev t"
    by (auto simp: dropWhile_eq_self_iff hd_rev)
  then have "trim_matches c t = t" by (simp add: trim_matches_def trim_end_matches_def trim_start_matches_def)
  then show ?thesis by (simp add: t_def)
qed


lemma trim_quote: "trim_matches CHR 0x22 (quote_etag e) = trim_matches CHR 0x22 e"
proof -
  define t where "t = trim_matches CHR 0x22 e"
  have "trim_matches CHR 0x22 (CHR 0x22 # t @ [CHR 0x22]) = trim_matches CHR 0x22 t"
  proof (cases "dropWhile (\<lambda>x. x = CHR 0x22) t = []")
    case True
    then have "\<forall>x \<in> set t. x = CHR 0x22" by (simp add: dropWhile_eq_Nil_conv)
    then have "dropWhile (\<lambda>x. x = CHR 0x22) (t @ [CHR 0x22]) = []" by (simp add: dropWhile_append2)
    with True show ?thesis
      by (simp add: trim_matches_def trim_end_matches_def trim_start_matches_def del: dropWhile_eq_Nil_conv)
  next
    case False
    then have "dropWhile (\<lambda>x. x = CHR 0x22) (t @ [CHR 0x22]) = dropWhile (\<lambda>x. x = CHR 0x22) t @ [CHR 0x22]"
      by (auto simp: dropWhile_eq_Nil_conv dropWhile_append1)
    then show ?thesis by (simp add: trim_matches_def trim_end_matches_def trim_start_matches_def)
  qed
  also have "\<dots> = t" by (simp add: t_def trim_matches_idem)
  finally show ?thesis by (simp add: quote_etag_def t_def)
qed

lemma quote_trim: "quote_etag (trim_matches CHR 0x22 e) = quote_etag e"
  by (simp add: quote_etag_def trim_matches_idem)

lemma unquote_quote: "unquote (Some (quote_etag t)) = trim_matches CHR 0x22 t"
  by (simp add: unquote_def trim_quote)

text \<open>A tag without quotes at its ends, as the client returns them.\<close>

definition bare :: "string \<Rightarrow> bool" where
  "bare t \<longleftrightarrow> trim_matches CHR 0x22 t = t"

definition cond_bare :: "precondition \<Rightarrow> bool" where
  "cond_bare c \<longleftrightarrow> (case c of IfMatch e \<Rightarrow> bare e | _ \<Rightarrow> True)"

section \<open>The bucket as the client sees it\<close>

definition s3_view :: "'c bucket_view \<Rightarrow> 'c s3_storage \<Rightarrow> store_view" where
  "s3_view v s k = map_option (apsnd (trim_matches CHR 0x22)) (v (s3_client s) (s3_bucket s) (s3_key s k))"

text \<open>The names of an object: keys that differ in leading slashes only are one object.\<close>

definition update_at :: "(string \<Rightarrow> string) \<Rightarrow> string \<Rightarrow> (bytes \<times> string) option \<Rightarrow> store_view \<Rightarrow> store_view" where
  "update_at full k x w = (\<lambda>j. if full j = full k then x else w j)"

definition same_storage :: "'c s3_storage \<Rightarrow> 'c s3_storage \<Rightarrow> bool" where
  "same_storage s s' \<longleftrightarrow> s3_bucket s' = s3_bucket s \<and> s3_prefix s' = s3_prefix s"

lemma s3_key_same: "same_storage s s' \<Longrightarrow> s3_key s' = s3_key s"
  by (simp add: same_storage_def s3_key_def fun_eq_iff)

lemma s3_view_same:
  "same_storage s s' \<Longrightarrow> v (s3_client s') (s3_bucket s) = v (s3_client s) (s3_bucket s) \<Longrightarrow> s3_view v s' = s3_view v s"
  by (simp add: s3_view_def same_storage_def s3_key_def fun_eq_iff)

lemma s3_view_put:
  "same_storage s s' \<Longrightarrow> v (s3_client s') (s3_bucket s) = (v (s3_client s) (s3_bucket s))(s3_key s k \<mapsto> (body, quote_etag t)) \<Longrightarrow>
    s3_view v s' = update_at (s3_key s) k (Some (body, trim_matches CHR 0x22 t)) (s3_view v s)"
  by (auto simp: s3_view_def same_storage_def s3_key_def update_at_def fun_eq_iff trim_quote)

lemma s3_view_delete:
  "same_storage s s' \<Longrightarrow> v (s3_client s') (s3_bucket s) = (v (s3_client s) (s3_bucket s))(s3_key s k := None) \<Longrightarrow>
    s3_view v s' = update_at (s3_key s) k None (s3_view v s)"
  by (auto simp: s3_view_def same_storage_def s3_key_def update_at_def fun_eq_iff)

lemma send_same: "send g s = (r, s') \<Longrightarrow> same_storage s s' \<and> g (s3_client s) (s3_bucket s) = (r, s3_client s')
    \<and> conditional_delete_supported s' = conditional_delete_supported s"
  by (auto simp: send_def same_storage_def split: prod.splits)

text \<open>The headers state the precondition.\<close>

lemma headers_cond:
  assumes "quoted_view v" and "cond_bare c"
  shows "headers_hold (v (s3_client s) (s3_bucket s) (s3_key s k)) (if_match_header c) (if_none_match_header c)
    = cond_holds (s3_view v s k) c"
proof (cases c)
  case (IfMatch e)
  have "raw = quote_etag e \<longleftrightarrow> trim_matches CHR 0x22 raw = e" if "v (s3_client s) (s3_bucket s) (s3_key s k) = Some (body, raw)" for body raw
  proof -
    have "quote_etag raw = raw" "trim_matches CHR 0x22 e = e"
      using that assms IfMatch by (auto simp: quoted_view_def cond_bare_def bare_def)
    then show ?thesis using trim_quote [of e] quote_trim [of raw] by auto
  qed
  then show ?thesis using IfMatch
    by (cases "v (s3_client s) (s3_bucket s) (s3_key s k)")
       (auto simp: headers_hold_def if_match_header_def if_none_match_header_def s3_view_def)
qed (auto simp: headers_hold_def if_match_header_def if_none_match_header_def s3_view_def split: option.split)

text \<open>How errors are classified.\<close>

lemma classify_refused:
  "is_precondition_failed (classify k e kd) \<Longrightarrow> refusal e"
  "is_not_found (classify k e kd) \<Longrightarrow> not_found_answer e"
  "is_not_implemented (classify k e kd) \<Longrightarrow> refusal e"
  by (auto simp: classify_def Let_def is_precondition_failed_def is_not_found_def is_not_implemented_def refusal_def
      not_found_answer_def split: if_splits kind.splits option.splits)


section \<open>Parts\<close>

lemma concat_chunks: "0 < n \<Longrightarrow> concat (chunks n xs) = xs"
proof (induction n xs rule: chunks.induct)
  case (1 n xs)
  then show ?case by (subst chunks.simps) auto
qed

lemma chunks_size: "c \<in> set (chunks n xs) \<Longrightarrow> c \<noteq> [] \<and> length c \<le> n"
proof (induction n xs rule: chunks.induct)
  case (1 n xs)
  from 1(2) have ne: "xs \<noteq> []" "n \<noteq> 0" and c: "c = take n xs \<or> c \<in> set (chunks n (drop n xs))"
    by (subst (asm) chunks.simps, simp split: if_splits)+
  from c show ?case using 1(1) ne by auto
qed

text \<open>\<open>usize::div_ceil\<close>: the number of parts.\<close>

lemma div_ceil_step: "0 < n \<Longrightarrow> 0 < k \<Longrightarrow> Suc ((k - n + n - 1) div n) = (k + n - 1) div n" for n k :: nat
proof (cases "n \<le> k")
  case True
  assume "0 < n" "0 < k"
  then have "k + n - 1 = (k - 1) + n" "k - n + n - 1 = k - 1" using True by simp_all
  then show ?thesis using \<open>0 < n\<close> by (simp only: div_add_self2 Suc_eq_plus1)
next
  case False
  assume "0 < n" "0 < k"
  then have "(k + n - 1) div n = 1" using False by (intro div_nat_eqI) simp_all
  then show ?thesis using False \<open>0 < n\<close> by simp
qed

lemma length_chunks: "0 < n \<Longrightarrow> length (chunks n xs) = (length xs + n - 1) div n"
proof (induction n xs rule: chunks.induct)
  case (1 n xs)
  show ?case
  proof (cases "xs = []")
    case False
    then have "length (chunks n xs) = Suc ((length xs - n + n - 1) div n)"
      using 1 by (subst chunks.simps) simp
    also have "\<dots> = (length xs + n - 1) div n" using 1(2) False by (intro div_ceil_step) simp_all
    finally show ?thesis .
  qed (use 1(2) in \<open>subst chunks.simps, simp\<close>)
qed

lemma collect_results_map: "collect_results (map Inr ps) = Inr ps"
  by (induction ps) auto

lemma collect_results_ok: "collect_results rs = Inr ps \<Longrightarrow> rs = map Inr ps"
  by (induction rs arbitrary: ps rule: collect_results.induct) (auto split: sum.splits)

text \<open>Part numbers that fit a positive \<open>i32\<close> keep the order of the chunks.\<close>

lemma part_number_sint: "n < 2 ^ 31 \<Longrightarrow> sint (of_nat n :: i32) = int n"
proof -
  assume n: "n < 2 ^ 31"
  have "int n < 2 ^ 31" using n by (simp add: nat_less_numeral_power_cancel_iff)
  then have "signed_take_bit 31 (int n) = int n" by (intro signed_take_bit_int_eq_self) linarith+
  then show ?thesis by (simp add: signed_of_nat)
qed

lemma upload_parts_ok:
  assumes law: "part_law K v parts"
  shows "upload_parts K key uid i cs s = (map Inr ps, s') \<Longrightarrow> i + length cs < 2 ^ 31 \<Longrightarrow>
    same_storage s s' \<and> conditional_delete_supported s' = conditional_delete_supported s \<and>
    v (s3_client s') (s3_bucket s) = v (s3_client s) (s3_bucket s) \<and>
    map (\<lambda>p. sint (cp_part_number p)) ps = map int [i + 1 ..< i + 1 + length cs] \<and>
    (\<forall>p \<in> set ps. map_option snd (parts (s3_client s') uid (cp_part_number p)) = Some (cp_e_tag p)) \<and>
    map (\<lambda>p. case parts (s3_client s') uid (cp_part_number p) of None \<Rightarrow> [] | Some (d, _) \<Rightarrow> d) ps = cs \<and>
    (\<forall>n. sint n \<le> int i \<longrightarrow> parts (s3_client s') uid n = parts (s3_client s) uid n)"
proof (induction cs arbitrary: i s ps)
  case (Cons ch cs)
  define pn :: i32 where "pn = of_nat (i + 1)"
  obtain r s1 where u: "send (\<lambda>c b. upload_part K c b key uid pn ch) s = (r, s1)" by fastforce
  obtain rs s2 where rest: "upload_parts K key uid (i + 1) cs s1 = (rs, s2)" by fastforce
  note su = send_same [OF u]
  have pr: "upload_part K (s3_client s) (s3_bucket s) key uid pn ch = (r, s3_client s1)" using su by simp
  obtain e where r: "r = Inr e"
    using Cons.prems(1) u rest by (cases r) (auto simp: pn_def Let_def)
  define t where "t = (case e of None \<Rightarrow> [] | Some t \<Rightarrow> t)"
  obtain ps' where ps: "ps = \<lparr>cp_part_number = pn, cp_e_tag = t\<rparr> # ps'" "rs = map Inr ps'" "s2 = s'"
    using Cons.prems(1) u rest r by (auto simp: pn_def Let_def t_def)
  have law1: "v (s3_client s1) (s3_bucket s) = v (s3_client s) (s3_bucket s)"
      "parts (s3_client s1) uid = (parts (s3_client s) uid)(pn \<mapsto> (ch, t))"
    using law pr r unfolding part_law_def t_def by blast+
  have sp: "sint pn = int (i + 1)" using part_number_sint [of "i + 1"] Cons.prems(2) by (simp add: pn_def)
  have b: "s3_bucket s1 = s3_bucket s" using su by (simp add: same_storage_def)
  have IH: "same_storage s1 s'" "conditional_delete_supported s' = conditional_delete_supported s1"
      "v (s3_client s') (s3_bucket s) = v (s3_client s1) (s3_bucket s)"
      "map (\<lambda>p. sint (cp_part_number p)) ps' = map int [i + 1 + 1 ..< i + 1 + 1 + length cs]"
      "\<forall>p \<in> set ps'. map_option snd (parts (s3_client s') uid (cp_part_number p)) = Some (cp_e_tag p)"
      "map (\<lambda>p. case parts (s3_client s') uid (cp_part_number p) of None \<Rightarrow> [] | Some (d, _) \<Rightarrow> d) ps' = cs"
      "\<forall>n. sint n \<le> int (i + 1) \<longrightarrow> parts (s3_client s') uid n = parts (s3_client s1) uid n"
    using Cons.IH [of "i + 1" s1 ps'] rest ps Cons.prems(2) b by auto
  have own: "parts (s3_client s') uid pn = Some (ch, t)" using IH(7) sp law1(2) by simp
  have old: "parts (s3_client s') uid n = parts (s3_client s) uid n" if "sint n \<le> int i" for n
    using IH(7) law1(2) sp that by auto
  have "same_storage s s'" using su IH(1) by (simp add: same_storage_def)
  moreover have "map int [i + 1 ..< i + 1 + length (ch # cs)] = int (i + 1) # map int [i + 1 + 1 ..< i + 1 + 1 + length cs]"
    using upt_conv_Cons [of "i + 1" "i + 1 + length (ch # cs)"] by simp
  ultimately show ?case
    using IH(2-6) su law1(1) own old sp unfolding ps(1) by simp
qed (simp add: same_storage_def)


lemma upload_parts_view:
  assumes law: "part_law K v parts"
  shows "upload_parts K key uid i cs s = (rs, s') \<Longrightarrow> same_storage s s' \<and>
    conditional_delete_supported s' = conditional_delete_supported s \<and>
    v (s3_client s') (s3_bucket s) = v (s3_client s) (s3_bucket s)"
proof (induction cs arbitrary: i s rs)
  case (Cons ch cs)
  obtain r s1 where u: "send (\<lambda>c b. upload_part K c b key uid (of_nat (i + 1)) ch) s = (r, s1)" by fastforce
  obtain rs2 where rest: "upload_parts K key uid (i + 1) cs s1 = (rs2, s')"
    using Cons.prems u by (auto simp: Let_def split: prod.splits)
  have "v (s3_client s1) (s3_bucket s) = v (s3_client s) (s3_bucket s)"
    using law send_same [OF u] unfolding part_law_def by blast
  then show ?case using Cons.IH [OF rest] send_same [OF u] by (simp add: same_storage_def)
qed (simp add: same_storage_def)

section \<open>Writing an object\<close>

text \<open>What a put with bare tags does, seen through the client.\<close>

definition stored_as :: "'c bucket_view \<Rightarrow> 'c s3_storage \<Rightarrow> string \<Rightarrow> bytes \<Rightarrow> string \<Rightarrow> 'c s3_storage \<Rightarrow> bool" where
  "stored_as v s k body t s' \<longleftrightarrow> bare t \<and> s3_view v s' = update_at (s3_key s) k (Some (body, t)) (s3_view v s)"

definition put_outcome ::
  "'c bucket_view \<Rightarrow> 'c s3_storage \<Rightarrow> string \<Rightarrow> bytes \<Rightarrow> precondition \<Rightarrow> s3_error + string \<Rightarrow> 'c s3_storage \<Rightarrow> bool" where
  "put_outcome v s k body cond r s' \<longleftrightarrow>
     (case r of
        Inr t \<Rightarrow> cond_holds (s3_view v s k) cond \<and> stored_as v s k body t s'
      | Inl e \<Rightarrow> s3_view v s' = s3_view v s \<or>
          \<not> is_precondition_failed e \<and> \<not> is_not_found e \<and> cond_holds (s3_view v s k) cond \<and>
          (\<exists>t. stored_as v s k body t s'))"

lemma put_effect_outcome:
  assumes q: "quoted_view v" "cond_bare cond" and same: "same_storage s s'"
    and eff: "put_effect v (s3_client s) (s3_bucket s) (s3_key s k) body (if_match_header cond) (if_none_match_header cond) r (s3_client s')"
  shows "put_outcome v s k body cond (case r of Inl e \<Rightarrow> Inl (classify (s3_key s k) e KWrite) | Inr t \<Rightarrow> Inr (unquote t)) s'"
proof -
  note h = headers_cond [OF q, of s k]
  have st: "stored_as v s k body (trim_matches CHR 0x22 t) s'"
    if "v (s3_client s') (s3_bucket s) = (v (s3_client s) (s3_bucket s))(s3_key s k \<mapsto> (body, quote_etag t))" for t
    using s3_view_put [where v = v and k = k and body = body and t = t, OF same that]
    by (simp add: stored_as_def bare_def trim_matches_idem)
  show ?thesis
  proof (cases r)
    case (Inr e)
    then show ?thesis using eff h st by (auto simp: put_effect_def put_outcome_def unquote_quote)
  next
    case (Inl e)
    then consider "v (s3_client s') (s3_bucket s) = v (s3_client s) (s3_bucket s)"
      | t where "\<not> refusal e" "cond_holds (s3_view v s k) cond"
          "v (s3_client s') (s3_bucket s) = (v (s3_client s) (s3_bucket s))(s3_key s k \<mapsto> (body, quote_etag t))"
      using eff h by (auto simp: put_effect_def)
    then show ?thesis
    proof cases
      case 1
      then show ?thesis using s3_view_same [OF same] Inl by (simp add: put_outcome_def)
    next
      case 2
      have "\<not> is_precondition_failed (classify (s3_key s k) e KWrite)" "\<not> is_not_found (classify (s3_key s k) e KWrite)"
        using classify_refused [of "s3_key s k" e KWrite] 2(1) by (auto simp: refusal_def)
      then show ?thesis using 2(2) st [OF 2(3)] Inl by (auto simp: put_outcome_def)
    qed
  qed
qed

lemma put_outcome_after:
  assumes "same_storage s s1" and "s3_view v s1 = s3_view v s" and "put_outcome v s1 k body cond r s'"
  shows "put_outcome v s k body cond r s'"
  using assms by (simp add: put_outcome_def stored_as_def s3_key_same split: sum.splits)

lemma put_outcome_unchanged: "s3_view v s' = s3_view v s \<Longrightarrow> put_outcome v s k body cond (Inl e) s'"
  by (simp add: put_outcome_def)

lemma simple_upload_outcome:
  assumes law: "s3_laws K v parts" "cond_bare cond" and run: "simple_upload K s (s3_key s k) body cond = (r, s')"
  shows "put_outcome v s k body cond r s' \<and> same_storage s s'"
proof -
  obtain q s1 where u: "send (\<lambda>c b. put_object K c b (s3_key s k) body (if_match_header cond) (if_none_match_header cond)) s = (q, s1)"
    by fastforce
  note su = send_same [OF u]
  have "put_effect v (s3_client s) (s3_bucket s) (s3_key s k) body (if_match_header cond) (if_none_match_header cond) q (s3_client s1)"
    using law(1) su unfolding s3_laws_def put_law_def by blast
  from put_effect_outcome [OF _ law(2) _ this] show ?thesis
    using run u su law(1) by (cases q) (auto simp: simple_upload_def s3_laws_def)
qed

lemma multipart_inner_outcome:
  assumes law: "s3_laws K v parts" "cond_bare cond" and size: "length body < 2 ^ 31 * PART_SIZE - PART_SIZE"
    and run: "multipart_upload_inner K s (s3_key s k) body uid cond = (r, s')"
  shows "put_outcome v s k body cond r s' \<and> same_storage s s'"
proof -
  obtain rs s1 where u: "upload_parts K (s3_key s k) uid 0 (chunks PART_SIZE body) s = (rs, s1)" by fastforce
  have pl: "part_law K v parts" "complete_law K v parts" "quoted_view v" using law(1) by (simp_all add: s3_laws_def)
  note uv = upload_parts_view [OF pl(1) u]
  have v1: "s3_view v s1 = s3_view v s" using s3_view_same [of s s1 v] uv by simp
  show ?thesis
  proof (cases "collect_results rs")
    case (Inl e)
    then show ?thesis using run u uv v1 by (auto simp: multipart_upload_inner_def intro: put_outcome_unchanged)
  next
    case (Inr ps)
    have ps: "rs = map Inr ps" by (rule collect_results_ok [OF Inr])
    have pos: "0 < PART_SIZE" by (simp add: PART_SIZE_def)
    have "length (chunks PART_SIZE body) < 2 ^ 31"
      using size pos by (simp add: length_chunks less_mult_imp_div_less)
    then have "0 + length (chunks PART_SIZE body) < 2 ^ 31" by simp
    note up = upload_parts_ok [OF pl(1) u [unfolded ps] this]
    define n where "n = length (chunks PART_SIZE body)"
    have sint: "map (\<lambda>p. sint (cp_part_number p)) ps = map int [1 ..< 1 + n]" using up by (simp add: n_def)
    have "sorted_wrt (<) (map int [1 ..< 1 + n])" unfolding sorted_wrt_map using sorted_wrt_upt [of 1 "1 + n"] by simp
    then have sorted: "sorted_wrt (\<lambda>p q. sint (cp_part_number p) < sint (cp_part_number q)) ps"
      unfolding sint [symmetric] sorted_wrt_map .
    have sk: "sort_key (\<lambda>p. sint (cp_part_number p)) ps = ps"
    proof (rule sort_key_id_if_sorted)
      have "sorted (map int [1 ..< 1 + n])" unfolding sorted_map by (simp del: upt_Suc)
      then show "sorted (map (\<lambda>p. sint (cp_part_number p)) ps)" unfolding sint .
    qed
    have up_ok: "uploaded (parts (s3_client s1) uid) ps" using up sorted by (simp add: uploaded_def)
    have body: "assembled (parts (s3_client s1) uid) ps = body"
      using up concat_chunks [OF pos, of body] by (simp add: assembled_def)
    obtain q s2 where c: "send (\<lambda>c b. complete_multipart_upload K c b (s3_key s k) uid ps (if_match_header cond)
        (if_none_match_header cond)) s1 = (q, s2)" by fastforce
    note sc = send_same [OF c]
    have kk: "s3_key s k = s3_key s1 k" using uv s3_key_same by metis
    have "put_effect v (s3_client s1) (s3_bucket s1) (s3_key s1 k) body (if_match_header cond) (if_none_match_header cond) q (s3_client s2)"
      using pl(2) sc up_ok body unfolding complete_law_def kk by metis
    from put_effect_outcome [OF pl(3) law(2) _ this]
    have "put_outcome v s1 k body cond r s'" "same_storage s1 s'"
      using run u Inr sk c sc kk by (cases q; auto simp: multipart_upload_inner_def Let_def)+
    then show ?thesis
      using put_outcome_after [OF _ v1] uv by (auto simp: same_storage_def)
  qed
qed

lemma s3_put_outcome:
  assumes law: "s3_laws K v parts" "cond_bare cond" and size: "length body < 2 ^ 31 * PART_SIZE - PART_SIZE"
    and run: "s3_put K s k body cond = (r, s')"
  shows "put_outcome v s k body cond r s' \<and> same_storage s s'"
proof (cases "length body \<ge> MULTIPART_THRESHOLD")
  case False
  then show ?thesis using simple_upload_outcome [OF law] run by (simp add: s3_put_def Let_def)
next
  case True
  then have run': "multipart_upload K s (s3_key s k) body cond = (r, s')" using run by (simp add: s3_put_def Let_def)
  obtain q s1 where c: "send (\<lambda>c b. create_multipart_upload K c b (s3_key s k)) s = (q, s1)" by fastforce
  note sc = send_same [OF c]
  have "v (s3_client s1) (s3_bucket s) = v (s3_client s) (s3_bucket s)"
    using law(1) sc unfolding s3_laws_def session_law_def by blast
  then have v1: "s3_view v s1 = s3_view v s" using s3_view_same [of s s1 v] sc by simp
  show ?thesis
  proof (cases "\<exists>uid. q = Inr (Some uid)")
    case False
    then show ?thesis using run' c v1 sc
      by (cases q; cases "projr q") (auto simp: multipart_upload_def intro: put_outcome_unchanged)
  next
    case True
    then obtain uid where q: "q = Inr (Some uid)" by blast
    obtain r2 s2 where i: "multipart_upload_inner K s1 (s3_key s k) body uid cond = (r2, s2)" by fastforce
    have kk: "s3_key s k = s3_key s1 k" using sc s3_key_same by metis
    have o: "put_outcome v s1 k body cond r2 s2" "same_storage s1 s2"
      using multipart_inner_outcome [OF law size i [unfolded kk]] by simp_all
    obtain a s3 where ab: "send (\<lambda>c b. abort_multipart_upload K c b (s3_key s k) uid) s2 = (a, s3)" by fastforce
    note sa = send_same [OF ab]
    have "v (s3_client s3) (s3_bucket s2) = v (s3_client s2) (s3_bucket s2)"
      using law(1) sa unfolding s3_laws_def session_law_def by blast
    then have v3: "s3_view v s3 = s3_view v s2" using s3_view_same [of s2 s3 v] sa by simp
    have "put_outcome v s1 k body cond r s'" "same_storage s1 s'"
    proof -
      have "r = r2 \<and> s' = (case r2 of Inr _ \<Rightarrow> s2 | Inl _ \<Rightarrow> s3)"
        using run' c q i ab by (cases r2) (auto simp: multipart_upload_def)
      then show "put_outcome v s1 k body cond r s'" "same_storage s1 s'"
        using o v3 sa by (cases r2; simp add: put_outcome_def stored_as_def same_storage_def)+
    qed
    then show ?thesis using put_outcome_after [OF _ v1] sc by (auto simp: same_storage_def)
  qed
qed

section \<open>Reading an object\<close>

lemma s3_rel_key: "s3_key s (s3_rel s (s3_key s k)) = s3_key s k"
proof -
  have "dropWhile P (dropWhile P xs) = dropWhile P xs" for P and xs :: string
    by (induction xs) auto
  then show ?thesis by (simp add: s3_key_def s3_rel_def strip_prefix_def trim_start_matches_def)
qed

lemma s3_head_outcome:
  assumes law: "head_law K v" and run: "s3_head K s k = (r, s')"
  shows "s3_view v s' = s3_view v s \<and> same_storage s s' \<and>
    conditional_delete_supported s' = conditional_delete_supported s \<and>
    (case r of
       Inr None \<Rightarrow> s3_view v s k = None
     | Inr (Some m) \<Rightarrow> om_key m = k \<and> map_option snd (s3_view v s k) = Some (om_etag m)
     | Inl e \<Rightarrow> \<not> is_not_found e)"
proof -
  obtain q s1 where u: "send (\<lambda>c b. head_object K c b (s3_key s k)) s = (q, s1)" by fastforce
  note su = send_same [OF u]
  have l: "v (s3_client s1) (s3_bucket s) = v (s3_client s) (s3_bucket s)"
      "case q of Inr out \<Rightarrow> ho_e_tag out \<noteq> None \<and> map_option snd (v (s3_client s) (s3_bucket s) (s3_key s k)) = ho_e_tag out
       | Inl e \<Rightarrow> not_found_answer e \<longrightarrow> v (s3_client s) (s3_bucket s) (s3_key s k) = None"
    using law su unfolding head_law_def by blast+
  note v1 = s3_view_same [of s s1 v, OF _ l(1)]
  show ?thesis
  proof (cases q)
    case (Inr out)
    then obtain body t where "v (s3_client s) (s3_bucket s) (s3_key s k) = Some (body, t)" "ho_e_tag out = Some t"
      using l(2) by (cases "v (s3_client s) (s3_bucket s) (s3_key s k)") auto
    then show ?thesis using run u Inr su v1
      by (auto simp: s3_head_def meta_of_head_def s3_view_def unquote_def)
  next
    case (Inl e)
    show ?thesis
    proof (cases "\<exists>x. classify (s3_key s k) e KRead = S3NotFound x")
      case True
      then have "s3_view v s k = None"
        using l(2) Inl classify_refused(2) [of "s3_key s k" e KRead] by (auto simp: s3_view_def is_not_found_def)
      then show ?thesis using True run u Inl su v1 by (auto simp: s3_head_def)
    next
      case False
      then have "r = Inl (classify (s3_key s k) e KRead) \<and> s' = s1"
        using run u Inl by (auto simp: s3_head_def split: s3_error.splits)
      then show ?thesis using False su v1 by (auto simp: is_not_found_def split: s3_error.splits)
    qed
  qed
qed

lemma s3_get_outcome:
  assumes law: "get_law K v" and run: "s3_get K s k = (r, s')"
  shows "s3_view v s' = s3_view v s \<and> same_storage s s' \<and>
    (case r of
       Inr None \<Rightarrow> s3_view v s k = None
     | Inr (Some (body, m)) \<Rightarrow> om_key m = k \<and> s3_view v s k = Some (body, om_etag m) \<and> om_size m = of_nat (length body)
     | Inl e \<Rightarrow> \<not> is_not_found e)"
proof -
  obtain q s1 where u: "send (\<lambda>c b. get_object K c b (s3_key s k)) s = (q, s1)" by fastforce
  note su = send_same [OF u]
  have l: "v (s3_client s1) (s3_bucket s) = v (s3_client s) (s3_bucket s)"
      "case q of Inr out \<Rightarrow> go_e_tag out \<noteq> None \<and> map_option snd (v (s3_client s) (s3_bucket s) (s3_key s k)) = go_e_tag out \<and>
         (\<forall>body. go_body out = Inr body \<longrightarrow> map_option fst (v (s3_client s) (s3_bucket s) (s3_key s k)) = Some body)
       | Inl e \<Rightarrow> not_found_answer e \<longrightarrow> v (s3_client s) (s3_bucket s) (s3_key s k) = None"
    using law su unfolding get_law_def by blast+
  note v1 = s3_view_same [of s s1 v, OF _ l(1)]
  show ?thesis
  proof (cases q)
    case (Inr out)
    then obtain body t where o: "v (s3_client s) (s3_bucket s) (s3_key s k) = Some (body, t)" "go_e_tag out = Some t"
      using l(2) by (cases "v (s3_client s) (s3_bucket s) (s3_key s k)") auto
    show ?thesis
    proof (cases "go_body out")
      case (Inr b)
      then have "b = body" using l(2) \<open>q = Inr out\<close> o by auto
      then show ?thesis using Inr run u \<open>q = Inr out\<close> su v1 o
        by (auto simp: s3_get_def Let_def s3_view_def unquote_def)
    qed (use run u Inr su v1 in \<open>auto simp: s3_get_def Let_def is_not_found_def\<close>)
  next
    case (Inl e)
    show ?thesis
    proof (cases "\<exists>x. classify (s3_key s k) e KRead = S3NotFound x")
      case True
      then have "s3_view v s k = None"
        using l(2) Inl classify_refused(2) [of "s3_key s k" e KRead] by (auto simp: s3_view_def is_not_found_def)
      then show ?thesis using True run u Inl su v1 by (auto simp: s3_get_def Let_def)
    next
      case False
      then have "r = Inl (classify (s3_key s k) e KRead) \<and> s' = s1"
        using run u Inl by (auto simp: s3_get_def Let_def split: s3_error.splits)
      then show ?thesis using False su v1 by (auto simp: is_not_found_def split: s3_error.splits)
    qed
  qed
qed

section \<open>Deleting an object\<close>

definition delete_outcome ::
  "'c bucket_view \<Rightarrow> 'c s3_storage \<Rightarrow> string \<Rightarrow> precondition \<Rightarrow> s3_error + unit \<Rightarrow> 'c s3_storage \<Rightarrow> bool" where
  "delete_outcome v s k cond r s' \<longleftrightarrow>
     (case r of
        Inr _ \<Rightarrow> (s3_view v s k = None \<or> cond_holds (s3_view v s k) cond) \<and>
          s3_view v s' = update_at (s3_key s) k None (s3_view v s)
      | Inl e \<Rightarrow> s3_view v s' = s3_view v s \<or>
          \<not> is_precondition_failed e \<and> \<not> is_not_found e \<and> cond_holds (s3_view v s k) cond \<and>
          s3_view v s' = update_at (s3_key s) k None (s3_view v s))"

lemma view_none_update: "s3_view v s k = None \<Longrightarrow> update_at (s3_key s) k None (s3_view v s) = s3_view v s"
  by (auto simp: update_at_def s3_view_def fun_eq_iff)

lemma delete_outcome_after:
  assumes "same_storage s s1" and "s3_view v s1 = s3_view v s" and "delete_outcome v s1 k cond r s'"
  shows "delete_outcome v s k cond r s'"
  using assms by (simp add: delete_outcome_def s3_key_same split: sum.splits)

lemma delete_effect_outcome:
  assumes q: "quoted_view v" "cond_bare cond" "cond \<noteq> IfNoneMatchAny" and same: "same_storage s s'"
    and eff: "delete_effect v (s3_client s) (s3_bucket s) (s3_key s k) (if_match_header cond) r (s3_client s')"
  shows "delete_outcome v s k cond (case r of Inl e \<Rightarrow> Inl (classify (s3_key s k) e KDelete) | Inr u \<Rightarrow> Inr u) s'"
proof -
  have "if_none_match_header cond = None" using q(3) by (simp add: if_none_match_header_def split: precondition.split)
  then have h: "headers_hold (v (s3_client s) (s3_bucket s) (s3_key s k)) (if_match_header cond) None = cond_holds (s3_view v s k) cond"
    using headers_cond [OF q(1,2), of s k] by simp
  have n: "s3_view v s k = None \<longleftrightarrow> v (s3_client s) (s3_bucket s) (s3_key s k) = None" by (simp add: s3_view_def)
  show ?thesis
  proof (cases r)
    case (Inr u)
    then show ?thesis using eff h n s3_view_delete [OF same, of v k] by (simp add: delete_effect_def delete_outcome_def)
  next
    case (Inl e)
    have "\<not> refusal e \<Longrightarrow> \<not> is_precondition_failed (classify (s3_key s k) e KDelete) \<and> \<not> is_not_found (classify (s3_key s k) e KDelete)"
      using classify_refused [of "s3_key s k" e KDelete] by (auto simp: refusal_def)
    then show ?thesis using Inl eff h s3_view_delete [OF same, of v k] s3_view_same [OF same, of v]
      by (auto simp: delete_effect_def delete_outcome_def)
  qed
qed

lemma delete_with_head_check_outcome:
  assumes law: "s3_laws K v parts" "bare expected" and run: "delete_with_head_check K s (s3_key s k) expected = (r, s')"
  shows "delete_outcome v s k (IfMatch expected) r s' \<and> same_storage s s'"
proof -
  have ls: "head_law K v" "delete_law K v" "quoted_view v" using law(1) by (simp_all add: s3_laws_def)
  define j where "j = s3_rel s (s3_key s k)"
  have j: "s3_key s j = s3_key s k" by (simp add: j_def s3_rel_key)
  then have vj: "s3_view v s j = s3_view v s k" by (simp add: s3_view_def)
  obtain q s1 where hd: "s3_head K s j = (q, s1)" by fastforce
  note o = s3_head_outcome [OF ls(1) hd]
  note run1 = run [unfolded delete_with_head_check_def j_def [symmetric] hd]
  consider e where "q = Inl e" | "q = Inr None" | m where "q = Inr (Some m)" "om_etag m \<noteq> expected"
    | m where "q = Inr (Some m)" "om_etag m = expected"
    by (cases q) auto
  then show ?thesis
  proof cases
    case 1
    then show ?thesis using run1 o by (auto simp: delete_outcome_def)
  next
    case 2
    then show ?thesis using run1 o vj view_none_update [of v s k] by (auto simp: delete_outcome_def)
  next
    case 3
    then show ?thesis using run1 o by (auto simp: delete_outcome_def)
  next
    case 4
    obtain d s2 where u: "send (\<lambda>c b. delete_object K c b (s3_key s k) None) s1 = (d, s2)" by fastforce
    note su = send_same [OF u]
    have k1: "s3_key s1 k = s3_key s k" using o s3_key_same by metis
    have "delete_effect v (s3_client s1) (s3_bucket s1) (s3_key s1 k) (if_match_header NoCond) d (s3_client s2)"
      using ls(2) su unfolding delete_law_def k1 by (simp add: if_match_header_def)
    from delete_effect_outcome [OF ls(3) _ _ _ this] su
    have "delete_outcome v s1 k NoCond (case d of Inl e \<Rightarrow> Inl (classify (s3_key s1 k) e KDelete) | Inr u \<Rightarrow> Inr u) s2"
      by (simp add: cond_bare_def)
    moreover have "r = (case d of Inl e \<Rightarrow> Inl (classify (s3_key s1 k) e KDelete) | Inr u \<Rightarrow> Inr u)" "s' = s2"
      using run1 4 u k1 by (cases d; simp)+
    moreover have "cond_holds (s3_view v s k) (IfMatch expected)" using o 4 vj by auto
    ultimately have "delete_outcome v s1 k (IfMatch expected) r s'"
      using o by (auto simp: delete_outcome_def split: sum.splits)
    then show ?thesis using delete_outcome_after [of s s1 v k] o su \<open>s' = s2\<close> by (auto simp: same_storage_def)
  qed
qed

lemma s3_delete_outcome:
  assumes law: "s3_laws K v parts" "cond_bare cond" "cond \<noteq> IfNoneMatchAny" and run: "s3_delete K s k cond = (r, s')"
  shows "delete_outcome v s k cond r s' \<and> same_storage s s'"
proof (cases "\<exists>e. cond = IfMatch e \<and> \<not> conditional_delete_supported s")
  case True
  then show ?thesis using delete_with_head_check_outcome [OF law(1)] run law(2)
    by (auto simp: s3_delete_def Let_def cond_bare_def)
next
  case False
  obtain q s1 where u: "send (\<lambda>c b. delete_object K c b (s3_key s k) (if_match_header cond)) s = (q, s1)" by fastforce
  note su = send_same [OF u]
  define d where "d = (case q of Inl e \<Rightarrow> Inl (classify (s3_key s k) e KDelete) | Inr u \<Rightarrow> Inr (u :: unit))"
  have eff: "delete_effect v (s3_client s) (s3_bucket s) (s3_key s k) (if_match_header cond) q (s3_client s1)"
    using law(1) su unfolding s3_laws_def delete_law_def by blast
  have o: "delete_outcome v s k cond d s1"
    using delete_effect_outcome [OF _ law(2,3) _ eff] su law(1) by (simp add: s3_laws_def d_def)
  have run1: "(case d of
        Inr _ \<Rightarrow> (Inr (), s1)
      | Inl e \<Rightarrow>
          (case (e, cond) of
             (S3NotFound _, _) \<Rightarrow> (Inr (), s1)
           | (NotImplemented _ _, IfMatch expected) \<Rightarrow>
               delete_with_head_check K (s1\<lparr>conditional_delete_supported := False\<rparr>) (s3_key s k) expected
           | (other, _) \<Rightarrow> (Inl other, s1))) = (r, s')"
    using run u False by (cases cond; cases q; auto simp: s3_delete_def Let_def d_def)
  consider "d = Inr ()" | e where "d = Inl e" "is_not_found e" | e t where "d = Inl e" "is_not_implemented e" "cond = IfMatch t"
    | e where "d = Inl e" "r = Inl e" "s' = s1"
    using run1 by (cases d; cases "projl d"; cases cond; simp add: is_not_found_def is_not_implemented_def)
  then show ?thesis
  proof cases
    case 1
    then show ?thesis using run1 o su by simp
  next
    case 2
    then obtain q' where q: "q = Inl q'" "e = classify (s3_key s k) q' KDelete" by (cases q) (auto simp: d_def)
    then have "not_found_answer q'" using 2 classify_refused(2) by blast
    then have "s3_view v s k = None" "s3_view v s1 = s3_view v s"
      using eff q su s3_view_same [of s s1 v] by (auto simp: delete_effect_def refusal_def s3_view_def)
    moreover have "r = Inr () \<and> s' = s1" using 2 run1 by (auto simp: is_not_found_def split: s3_error.splits)
    ultimately show ?thesis using su view_none_update [of v s k] by (simp add: delete_outcome_def)
  next
    case 3
    then obtain q' where q: "q = Inl q'" "e = classify (s3_key s k) q' KDelete" by (cases q) (auto simp: d_def)
    then have "refusal q'" using 3 classify_refused(3) by blast
    then have v1: "s3_view v s1 = s3_view v s"
      using eff q su s3_view_same [of s s1 v] by (auto simp: delete_effect_def)
    define s2 where "s2 = s1\<lparr>conditional_delete_supported := False\<rparr>"
    have s2: "same_storage s s2" "s3_view v s2 = s3_view v s"
      using su by (simp_all add: s2_def same_storage_def v1 [symmetric]) (simp add: s3_view_def s3_key_def fun_eq_iff)
    have "delete_with_head_check K s2 (s3_key s2 k) t = (r, s')"
      using 3 run1 s3_key_same [OF s2(1)] by (auto simp: is_not_implemented_def s2_def split: s3_error.splits)
    from delete_with_head_check_outcome [OF law(1) _ this] law(2) 3(3)
    have "delete_outcome v s2 k (IfMatch t) r s'" "same_storage s2 s'" by (simp_all add: cond_bare_def)
    then show ?thesis using delete_outcome_after [OF s2] s2 3(3) by (auto simp: same_storage_def)
  next
    case 4
    then show ?thesis using o su by simp
  qed
qed

section \<open>Listing\<close>

text \<open>The pages that the service hands out for a listing, each asked for with the token of the last.\<close>

inductive listing ::
  "'c sdk \<Rightarrow> string \<Rightarrow> string option \<Rightarrow> 'c s3_storage \<Rightarrow> list_output list \<Rightarrow> 'c s3_storage \<Rightarrow> bool"
  for K :: "'c sdk" and full :: string where
  last_page: "send (\<lambda>c b. list_objects_v2 K c b full None token) s = (Inr out, s') \<Longrightarrow>
    lv_is_truncated out \<noteq> Some True \<Longrightarrow> listing K full token s [out] s'"
| more_pages: "send (\<lambda>c b. list_objects_v2 K c b full None token) s = (Inr out, s1) \<Longrightarrow>
    lv_is_truncated out = Some True \<Longrightarrow> listing K full (lv_next_token out) s1 outs s' \<Longrightarrow>
    listing K full token s (out # outs) s'"

definition listed_objects :: "list_output list \<Rightarrow> list_object list" where
  "listed_objects outs = concat (map (\<lambda>out. case lv_contents out of None \<Rightarrow> [] | Some obs \<Rightarrow> obs) outs)"

lemma page_metas_same: "same_storage s s' \<Longrightarrow> page_metas s' = page_metas s"
proof -
  assume "same_storage s s'"
  then have "meta_of_listed s' = meta_of_listed s"
    by (intro ext) (simp add: meta_of_listed_def s3_rel_def same_storage_def split: option.split)
  then show ?thesis by (intro ext) (simp only: page_metas_def)
qed

lemma list_pages_run:
  "listing K full token s outs s' \<Longrightarrow> length outs \<le> n \<Longrightarrow> same_storage s s' \<and>
    list_pages n K full None found token s = Some (Inr (found @ concat (map (page_metas s) outs)), s')"
proof (induction arbitrary: n found rule: listing.induct)
  case (last_page token s out s')
  then obtain m where "n = Suc m" by (cases n) auto
  moreover note su = send_same [OF last_page(1)]
  moreover have "page_metas s' = page_metas s" using su by (intro page_metas_same) simp
  ultimately show ?case using last_page by simp
next
  case (more_pages token s out s1 outs s')
  then obtain m where n: "n = Suc m" by (cases n) auto
  note su = send_same [OF more_pages(1)]
  have IH: "same_storage s1 s'"
      "list_pages m K full None (found @ page_metas s out) (lv_next_token out) s1
        = Some (Inr ((found @ page_metas s out) @ concat (map (page_metas s1) outs)), s')"
    using more_pages.IH [of m "found @ page_metas s out"] more_pages.prems n by auto
  moreover have "page_metas s1 = page_metas s" using su by (intro page_metas_same) simp
  ultimately show ?case using more_pages(1,2) n su by (simp add: same_storage_def)
qed

text \<open>A listing is complete when its objects are, once each and with their tags, those whose keys
  start with the prefix that was asked for.\<close>

definition complete_listing :: "(string \<rightharpoonup> bytes \<times> string) \<Rightarrow> string \<Rightarrow> list_object list \<Rightarrow> bool" where
  "complete_listing w full obs \<longleftrightarrow>
     (\<forall>ob \<in> set obs. lo_key ob \<noteq> None \<and> lo_e_tag ob \<noteq> None) \<and> distinct (map lo_key obs) \<and>
     (\<forall>k t. (Some k, Some t) \<in> (\<lambda>ob. (lo_key ob, lo_e_tag ob)) ` set obs \<longleftrightarrow> prefix full k \<and> (\<exists>body. w k = Some (body, t)))"

lemma page_metas_listed:
  assumes "\<forall>ob \<in> set (listed_objects outs). lo_key ob \<noteq> None \<and> lo_e_tag ob \<noteq> None"
  shows "concat (map (page_metas s) outs) = map (the \<circ> meta_of_listed s) (listed_objects outs)"
  using assms
proof (induction outs)
  case (Cons out outs)
  have "List.map_filter (meta_of_listed s) obs = map (the \<circ> meta_of_listed s) obs"
    if "\<forall>ob \<in> set obs. lo_key ob \<noteq> None \<and> lo_e_tag ob \<noteq> None" for obs
    using that by (induction obs) (auto simp: List.map_filter_simps meta_of_listed_def)
  then show ?case using Cons by (auto simp: listed_objects_def page_metas_def split: option.splits)
qed (simp add: listed_objects_def)

lemma s3_rel_inj: "prefix (s3_prefix s) k \<Longrightarrow> prefix (s3_prefix s) j \<Longrightarrow> s3_rel s k = s3_rel s j \<Longrightarrow> k = j"
  by (auto simp: s3_rel_def strip_prefix_def prefix_def)

lemma listed_metas:
  assumes c: "complete_listing w (s3_key s q) obs"
  shows "distinct (map om_key (map (the \<circ> meta_of_listed s) obs))"
    and "(\<lambda>m. (om_key m, om_etag m)) ` set (map (the \<circ> meta_of_listed s) obs)
      = {(s3_rel s k, trim_matches CHR 0x22 t) | k t body. prefix (s3_key s q) k \<and> w k = Some (body, t)}"
proof -
  have ne: "\<exists>k t. lo_key ob = Some k \<and> lo_e_tag ob = Some t" if "ob \<in> set obs" for ob
    using c that by (auto simp: complete_listing_def)
  have key: "om_key (the (meta_of_listed s ob)) = s3_rel s (the (lo_key ob))"
    and tag: "om_etag (the (meta_of_listed s ob)) = trim_matches CHR 0x22 (the (lo_e_tag ob))" if "ob \<in> set obs" for ob
    using ne [OF that] by (auto simp: meta_of_listed_def)
  have pre: "prefix (s3_prefix s) (the (lo_key ob))" if "ob \<in> set obs" for ob
  proof -
    from ne [OF that] obtain k t where ob: "lo_key ob = Some k" "lo_e_tag ob = Some t" by blast
    then have "(Some k, Some t) \<in> (\<lambda>ob. (lo_key ob, lo_e_tag ob)) ` set obs" using that by force
    then have "prefix (s3_key s q) k" using c by (auto simp: complete_listing_def)
    then show ?thesis using ob by (auto simp: s3_key_def prefix_def)
  qed
  have "inj_on (\<lambda>ob. om_key (the (meta_of_listed s ob))) (set obs)"
  proof (rule inj_onI)
    fix a b assume ab: "a \<in> set obs" "b \<in> set obs" "om_key (the (meta_of_listed s a)) = om_key (the (meta_of_listed s b))"
    then have "the (lo_key a) = the (lo_key b)" using s3_rel_inj [OF pre [OF ab(1)] pre [OF ab(2)]] key by simp
    then have "lo_key a = lo_key b" using ne [OF ab(1)] ne [OF ab(2)] by auto
    moreover have "inj_on lo_key (set obs)" using c by (simp add: complete_listing_def distinct_map)
    ultimately show "a = b" using ab by (simp add: inj_on_def)
  qed
  moreover have "distinct obs" using c by (simp add: complete_listing_def distinct_map)
  ultimately show "distinct (map om_key (map (the \<circ> meta_of_listed s) obs))" by (simp add: distinct_map comp_def)
  have "(\<lambda>m. (om_key m, om_etag m)) ` set (map (the \<circ> meta_of_listed s) obs)
      = (\<lambda>ob. (s3_rel s (the (lo_key ob)), trim_matches CHR 0x22 (the (lo_e_tag ob)))) ` set obs"
    using key tag by (auto simp: image_iff)
  also have "\<dots> = {(s3_rel s k, trim_matches CHR 0x22 t) | k t. (Some k, Some t) \<in> (\<lambda>ob. (lo_key ob, lo_e_tag ob)) ` set obs}"
  proof (intro set_eqI iffI)
    fix x assume "x \<in> (\<lambda>ob. (s3_rel s (the (lo_key ob)), trim_matches CHR 0x22 (the (lo_e_tag ob)))) ` set obs"
    then obtain ob where ob: "ob \<in> set obs" "x = (s3_rel s (the (lo_key ob)), trim_matches CHR 0x22 (the (lo_e_tag ob)))" by blast
    obtain k t where "lo_key ob = Some k" "lo_e_tag ob = Some t" using ne [OF ob(1)] by blast
    with ob show "x \<in> {(s3_rel s k, trim_matches CHR 0x22 t) | k t. (Some k, Some t) \<in> (\<lambda>ob. (lo_key ob, lo_e_tag ob)) ` set obs}"
      by force
  next
    fix x assume "x \<in> {(s3_rel s k, trim_matches CHR 0x22 t) | k t. (Some k, Some t) \<in> (\<lambda>ob. (lo_key ob, lo_e_tag ob)) ` set obs}"
    then obtain k t where x: "x = (s3_rel s k, trim_matches CHR 0x22 t)" and "(Some k, Some t) \<in> (\<lambda>ob. (lo_key ob, lo_e_tag ob)) ` set obs"
      by blast
    then obtain ob where "ob \<in> set obs" "lo_key ob = Some k" "lo_e_tag ob = Some t" by (metis (lifting) Pair_inject imageE)
    then show "x \<in> (\<lambda>ob. (s3_rel s (the (lo_key ob)), trim_matches CHR 0x22 (the (lo_e_tag ob)))) ` set obs"
      using x by (intro image_eqI [of _ _ ob]) simp_all
  qed
  also have "\<dots> = {(s3_rel s k, trim_matches CHR 0x22 t) | k t body. prefix (s3_key s q) k \<and> w k = Some (body, t)}"
    using c unfolding complete_listing_def by auto
  finally show "(\<lambda>m. (om_key m, om_etag m)) ` set (map (the \<circ> meta_of_listed s) obs)
      = {(s3_rel s k, trim_matches CHR 0x22 t) | k t body. prefix (s3_key s q) k \<and> w k = Some (body, t)}" .
qed

end
