(* ===== verification/S3_Props.thy ===== *)
theory S3_Props
  imports S3_Laws "HOL-Library.AList"
begin

text \<open>
  The properties of the S3 client, and a small service that keeps the laws of \<open>s3_laws\<close>, on which the
  properties are exercised.
\<close>

section \<open>A service that keeps the laws\<close>

text \<open>Tags are versions; a conditional delete is answered with \<open>NotImplemented\<close>, as LocalStack does, and
  a listing has one object per page. The tag of an object is kept without its quotes.\<close>

record service =
  sv_objects :: "((string \<times> string) \<times> (bytes \<times> string)) list"
  sv_parts :: "((string \<times> i32) \<times> (bytes \<times> string)) list"

definition service_view :: "service bucket_view" where
  "service_view c b k = map_option (apsnd quote_etag) (map_of (sv_objects c) (b, k))"

definition service_parts :: "service part_view" where
  "service_parts c i n = map_of (sv_parts c) (i, n)"

definition answer :: "nat \<Rightarrow> string \<Rightarrow> sdk_error" where
  "answer status code = \<lparr>er_status = Some (of_nat status), er_code = Some code, er_service = None, er_context = []\<rparr>"

definition service_put :: "service \<Rightarrow> string \<Rightarrow> string \<Rightarrow> bytes \<Rightarrow> string option \<Rightarrow> string option \<Rightarrow> (sdk_error + string option) \<times> service" where
  "service_put c b k body im inm =
     (let t = replicate (length (sv_objects c)) CHR ''v'' in
      if headers_hold (service_view c b k) im inm
      then (Inr (Some (quote_etag t)), c\<lparr>sv_objects := ((b, k), (body, t)) # sv_objects c\<rparr>)
      else (Inl (answer 412 ''PreconditionFailed''), c))"

definition matching :: "service \<Rightarrow> string \<Rightarrow> string \<Rightarrow> string list" where
  "matching c b q = filter (\<lambda>k. prefix q k) (remdups (map snd (filter (\<lambda>k. fst k = b) (map fst (sv_objects c)))))"

definition service_page :: "service \<Rightarrow> string \<Rightarrow> string \<Rightarrow> nat \<Rightarrow> list_output" where
  "service_page c b q i =
     \<lparr>lv_contents = Some (map (\<lambda>k. \<lparr>lo_key = Some k, lo_e_tag = map_option snd (service_view c b k),
         lo_last_modified = None, lo_size = None\<rparr>) (take 1 (drop i (matching c b q)))),
      lv_is_truncated = Some (i + 1 < length (matching c b q)),
      lv_next_token = Some (replicate (i + 1) CHR ''x'')\<rparr>"

definition service_sdk :: "service sdk" where
  "service_sdk = \<lparr>
     put_object = service_put,
     create_multipart_upload = (\<lambda>c b k. (Inr (Some ''u''), c)),
     upload_part = (\<lambda>c b k i n body. (Inr (Some ''p''), c\<lparr>sv_parts := ((i, n), (body, ''p'')) # sv_parts c\<rparr>)),
     complete_multipart_upload = (\<lambda>c b k i ps im inm. service_put c b k (assembled (service_parts c i) ps) im inm),
     abort_multipart_upload = (\<lambda>c b k i. (Inr (), c)),
     delete_object = (\<lambda>c b k im.
       if im \<noteq> None then (Inl (answer 501 ''NotImplemented''), c)
       else (Inr (), c\<lparr>sv_objects := AList.delete (b, k) (sv_objects c)\<rparr>)),
     head_object = (\<lambda>c b k.
       case service_view c b k of
         None \<Rightarrow> (Inl (answer 404 ''NotFound''), c)
       | Some (body, t) \<Rightarrow>
           (Inr \<lparr>ho_e_tag = Some t, ho_last_modified = None, ho_content_length = Some (of_nat (length body))\<rparr>, c)),
     get_object = (\<lambda>c b k.
       case service_view c b k of
         None \<Rightarrow> (Inl (answer 404 ''NoSuchKey''), c)
       | Some (body, t) \<Rightarrow> (Inr \<lparr>go_e_tag = Some t, go_last_modified = None, go_body = Inr body\<rparr>, c)),
     list_objects_v2 = (\<lambda>c b q n token. (Inr (service_page c b q (case token of None \<Rightarrow> 0 | Some t \<Rightarrow> length t)), c))\<rparr>"

lemma service_put_effect:
  "service_put c b k body im inm = (r, c') \<Longrightarrow> put_effect service_view c b k body im inm r c'"
  by (auto simp: service_put_def Let_def put_effect_def service_view_def fun_eq_iff split: if_splits)

lemma service_laws: "s3_laws service_sdk service_view service_parts"
proof -
  have "quoted_view service_view" by (auto simp: quoted_view_def service_view_def quote_etag_def [of "quote_etag _"] trim_quote)
      (simp add: quote_etag_def)
  moreover have "put_law service_sdk service_view"
    by (auto simp: put_law_def service_sdk_def service_put_effect)
  moreover have "part_law service_sdk service_view service_parts"
    by (auto simp: part_law_def service_sdk_def service_view_def service_parts_def fun_eq_iff)
  moreover have "complete_law service_sdk service_view service_parts"
    by (auto simp: complete_law_def service_sdk_def service_put_effect)
  moreover have "session_law service_sdk service_view" by (simp add: session_law_def service_sdk_def)
  moreover have "delete_law service_sdk service_view"
    by (auto simp: delete_law_def service_sdk_def delete_effect_def service_view_def headers_hold_def answer_def
        refusal_def not_found_answer_def AList.delete_conv fun_eq_iff split: if_splits option.splits)
  moreover have "head_law service_sdk service_view"
    by (auto simp: head_law_def service_sdk_def split: option.splits)
  moreover have "get_law service_sdk service_view"
    by (auto simp: get_law_def service_sdk_def split: option.splits)
  moreover have "list_law service_sdk service_view" by (simp add: list_law_def service_sdk_def)
  ultimately show ?thesis by (simp add: s3_laws_def)
qed

text \<open>Concrete runs: a store with one object, below a prefix.\<close>

definition witness_storage :: "service s3_storage" where
  "witness_storage = from_sdk_config
     \<lparr>sv_objects = [((''b'', ''p/files/x''), ([1], ''t'')), ((''b'', ''p/files/y''), ([2], ''u'')), ((''b'', ''q''), ([3], ''w''))],
      sv_parts = []\<rparr> ''b'' ''p/''"

lemmas run_simps = witness_storage_def from_sdk_config_def service_sdk_def service_put_def service_view_def service_parts_def
  s3_key_def s3_rel_def send_def trim_start_matches_def trim_matches_def trim_end_matches_def quote_etag_def unquote_def
  headers_hold_def if_match_header_def if_none_match_header_def answer_def classify_def Let_def strip_prefix_def

section \<open>Properties\<close>

text \<open>
  C20. \<open>put\<close> of the S3 client is a compare-and-swap, for a body sent in one request or in parts:
  success means that the precondition held and that the object now has exactly this body and the tag
  that is returned, and nothing else changed; a \<open>PreconditionFailed\<close> or \<open>NotFound\<close> means that nothing
  changed; after any other error the write either did not happen or happened with its precondition.
\<close>

theorem s3_put_cas:
  assumes "s3_laws K v parts" and "cond_bare cond" and "length body < 2 ^ 31 * PART_SIZE - PART_SIZE"
    and "s3_put K s k body cond = (r, s')"
  shows "case r of
      Inr t \<Rightarrow> bare t \<and> cond_holds (s3_view v s k) cond \<and>
        s3_view v s' = update_at (s3_key s) k (Some (body, t)) (s3_view v s)
    | Inl e \<Rightarrow> s3_view v s' = s3_view v s \<or>
        \<not> is_precondition_failed e \<and> \<not> is_not_found e \<and> cond_holds (s3_view v s k) cond \<and>
        (\<exists>t. bare t \<and> s3_view v s' = update_at (s3_key s) k (Some (body, t)) (s3_view v s))"
  using s3_put_outcome [OF assms] by (auto simp: put_outcome_def stored_as_def split: sum.splits)

theorem s3_put_cas_witness:
  "cond_holds (s3_view service_view witness_storage ''files/x'') (IfMatch ''t'') \<and>
   s3_view service_view (snd (s3_put service_sdk witness_storage ''files/x'' [7, 8] (IfMatch ''t''))) ''files/x'' = Some ([7, 8], ''vvv'')"
proof -
  have small: "\<not> MULTIPART_THRESHOLD \<le> Suc (Suc 0)" by (simp add: MULTIPART_THRESHOLD_def)
  have run: "s3_put service_sdk witness_storage ''files/x'' [7, 8] (IfMatch ''t'')
      = (Inr ''vvv'', snd (s3_put service_sdk witness_storage ''files/x'' [7, 8] (IfMatch ''t'')))"
    using small by (simp add: s3_put_def simple_upload_def run_simps)
  have "cond_bare (IfMatch ''t'')" by (simp add: cond_bare_def bare_def run_simps)
  from s3_put_cas [OF service_laws this _ run] show ?thesis by (simp add: PART_SIZE_def update_at_def)
qed



text \<open>
  C22. Listing terminates once the service has no more pages and returns every object under the prefix
  exactly once, with its key relative to the prefix of the store and its tag without quotes.
\<close>

theorem s3_list_complete:
  assumes "listing K (s3_key s q) None s outs s'" and "length outs \<le> fuel"
    and "complete_listing (v (s3_client s) (s3_bucket s)) (s3_key s q) (listed_objects outs)"
  shows "\<exists>metas. s3_list fuel K s q None = Some (Inr metas, s') \<and> distinct (map om_key metas) \<and>
    (\<lambda>m. (om_key m, om_etag m)) ` set metas =
      {(s3_rel s k, trim_matches CHR 0x22 t) | k t body.
        prefix (s3_key s q) k \<and> v (s3_client s) (s3_bucket s) k = Some (body, t)}"
proof -
  have "concat (map (page_metas s) outs) = map (the \<circ> meta_of_listed s) (listed_objects outs)"
    using assms(3) by (intro page_metas_listed) (simp add: complete_listing_def)
  then have "s3_list fuel K s q None = Some (Inr (map (the \<circ> meta_of_listed s) (listed_objects outs)), s')"
    using list_pages_run [OF assms(1,2), of "[]"] by (simp add: s3_list_def)
  then show ?thesis using listed_metas [OF assms(3)] by blast
qed

theorem s3_list_complete_witness:
  "\<exists>metas s'. s3_list 3 service_sdk witness_storage ''files/'' None = Some (Inr metas, s') \<and> distinct (map om_key metas) \<and>
    (\<lambda>m. (om_key m, om_etag m)) ` set metas =
      {(s3_rel witness_storage k, trim_matches CHR 0x22 t) | k t body.
        prefix (s3_key witness_storage ''files/'') k \<and> service_view (s3_client witness_storage) (s3_bucket witness_storage) k = Some (body, t)}"
proof -
  define c where "c = s3_client witness_storage"
  define outs where "outs = [service_page c ''b'' ''p/files/'' 0, service_page c ''b'' ''p/files/'' 1]"
  have m: "matching c ''b'' ''p/files/'' = [''p/files/x'', ''p/files/y'']"
    by (simp add: matching_def c_def witness_storage_def from_sdk_config_def)
  have key: "s3_key witness_storage ''files/'' = ''p/files/''" by (simp add: run_simps)
  have call: "send (\<lambda>c b. list_objects_v2 service_sdk c b ''p/files/'' None token) witness_storage
      = (Inr (service_page c ''b'' ''p/files/'' (case token of None \<Rightarrow> 0 | Some t \<Rightarrow> length t)), witness_storage)" for token
    by (simp add: send_def service_sdk_def c_def witness_storage_def from_sdk_config_def)
  have last: "listing service_sdk ''p/files/'' (Some ''x'') witness_storage [service_page c ''b'' ''p/files/'' 1] witness_storage"
    by (rule last_page) (simp_all add: call, simp add: service_page_def m)
  have first: "lv_is_truncated (service_page c ''b'' ''p/files/'' 0) = Some True"
      "lv_next_token (service_page c ''b'' ''p/files/'' 0) = Some ''x''"
    by (simp_all add: service_page_def m)
  have run: "listing service_sdk (s3_key witness_storage ''files/'') None witness_storage outs witness_storage"
    unfolding outs_def key using call [of None] last by (intro more_pages [OF _ first(1)]) (simp_all add: first(2))
  define w where "w = service_view c ''b''"
  have view: "w j
      = (if j = ''p/files/x'' then Some ([1], quote_etag ''t'') else if j = ''p/files/y'' then Some ([2], quote_etag ''u'')
         else if j = ''q'' then Some ([3], quote_etag ''w'') else None)" for j
    by (simp add: w_def service_view_def c_def witness_storage_def from_sdk_config_def)
  have obs: "map (\<lambda>ob. (lo_key ob, lo_e_tag ob)) (listed_objects outs)
      = [(Some ''p/files/x'', Some (quote_etag ''t'')), (Some ''p/files/y'', Some (quote_etag ''u''))]"
    by (simp add: listed_objects_def outs_def service_page_def m view flip: w_def)
  have pairs: "(\<lambda>ob. (lo_key ob, lo_e_tag ob)) ` set (listed_objects outs)
      = {(Some ''p/files/x'', Some (quote_etag ''t'')), (Some ''p/files/y'', Some (quote_etag ''u''))}"
    using arg_cong [OF obs, of set] by simp
  have "distinct (map lo_key (listed_objects outs))"
    using arg_cong [OF obs, of "distinct \<circ> map fst"] by (simp add: comp_def)
  moreover have "\<forall>ob \<in> set (listed_objects outs). lo_key ob \<noteq> None \<and> lo_e_tag ob \<noteq> None"
  proof
    fix ob assume "ob \<in> set (listed_objects outs)"
    then have "(lo_key ob, lo_e_tag ob) \<in> (\<lambda>ob. (lo_key ob, lo_e_tag ob)) ` set (listed_objects outs)" by (rule imageI)
    then show "lo_key ob \<noteq> None \<and> lo_e_tag ob \<noteq> None" unfolding pairs by auto
  qed
  moreover have "(Some k, Some t) \<in> {(Some ''p/files/x'', Some (quote_etag ''t'')), (Some ''p/files/y'', Some (quote_etag ''u''))}
      \<longleftrightarrow> prefix ''p/files/'' k \<and> (\<exists>body. w k = Some (body, t))" for k t
    by (auto simp: view split: if_splits)
  ultimately have "complete_listing w (s3_key witness_storage ''files/'') (listed_objects outs)"
    unfolding complete_listing_def pairs key by blast
  then have "complete_listing (service_view (s3_client witness_storage) (s3_bucket witness_storage))
      (s3_key witness_storage ''files/'') (listed_objects outs)"
    by (simp add: w_def c_def witness_storage_def from_sdk_config_def)
  from s3_list_complete [where v = service_view, OF run _ this, of 3] show ?thesis by (auto simp: outs_def)
qed

end
