(* ===== verification/Rpc_Framing.thy ===== *)
theory Rpc_Framing
  imports Rpc_Protocol
begin

text \<open>
  The messages on the TCP stream: four bytes of length in big-endian order, then the encoded record.
  Both ends are modelled: \<open>write_message\<close> and \<open>read_message_blocking\<close> of \<open>vfs-rpc-server\<close>, \<open>send_raw\<close>
  and \<open>receive_raw\<close> of \<open>rpc-adapter\<close>. The WASI streams are parameters: a read and its stream error, the
  number of bytes a stream takes (\<open>check-write\<close>), a write, a flush. The loops retry after an
  empty read, and on the server after an error, so they run on fuel; waiting in \<open>poll\<close> is left out.
\<close>

section \<open>Streams and frames\<close>

datatype stream_error = LastOperationFailed | Closed

record ('i, 'o) sock =
  blocking_read :: "nat \<Rightarrow> 'i \<Rightarrow> (stream_error + bytes) \<times> 'i"
  check_write :: "'o \<Rightarrow> (stream_error + nat) \<times> 'o"
  stream_write :: "bytes \<Rightarrow> 'o \<Rightarrow> (stream_error + unit) \<times> 'o"
  blocking_flush :: "'o \<Rightarrow> (stream_error + unit) \<times> 'o"

definition to_be_bytes :: "u32 \<Rightarrow> bytes" where
  "to_be_bytes n = [ucast (drop_bit 24 n), ucast (drop_bit 16 n), ucast (drop_bit 8 n), ucast n]"

definition from_be_bytes :: "bytes \<Rightarrow> u32" where
  "from_be_bytes b =
     push_bit 24 (ucast (b ! 0)) OR push_bit 16 (ucast (b ! 1)) OR push_bit 8 (ucast (b ! 2)) OR ucast (b ! 3)"

definition frame :: "bytes \<Rightarrow> bytes" where
  "frame data = to_be_bytes (of_nat (length data)) @ data"

section \<open>The server\<close>

datatype read_result = RrMessage bytes | RrDisconnected

text \<open>Both loops of \<open>read_message_blocking\<close>: until \<open>buf\<close> has \<open>n\<close> bytes; only a closed stream ends them
  early.\<close>

fun server_fill :: "nat \<Rightarrow> ('i, 'o) sock \<Rightarrow> nat \<Rightarrow> bytes \<Rightarrow> 'i \<Rightarrow> (bytes option \<times> 'i) option" where
  "server_fill 0 K n buf i = None"
| "server_fill (Suc fuel) K n buf i =
     (if length buf < n then
        (case blocking_read K (n - length buf) i of
           (Inr b, i) \<Rightarrow> if b = [] then server_fill fuel K n buf i else server_fill fuel K n (buf @ b) i
         | (Inl Closed, i) \<Rightarrow> Some (None, i)
         | (Inl LastOperationFailed, i) \<Rightarrow> server_fill fuel K n buf i)
      else Some (Some buf, i))"

definition read_message_blocking :: "nat \<Rightarrow> ('i, 'o) sock \<Rightarrow> bytes \<Rightarrow> 'i \<Rightarrow> (read_result \<times> 'i) option" where
  "read_message_blocking fuel K first_bytes i =
     (case server_fill fuel K 4 first_bytes i of
        None \<Rightarrow> None
      | Some (None, i) \<Rightarrow> Some (RrDisconnected, i)
      | Some (Some len_buf, i) \<Rightarrow>
          (case server_fill fuel K (unat (from_be_bytes len_buf)) [] i of
             None \<Rightarrow> None
           | Some (None, i) \<Rightarrow> Some (RrDisconnected, i)
           | Some (Some data, i) \<Rightarrow> Some (RrMessage data, i)))"

text \<open>What \<open>handle_one_request\<close> reads: the first byte, then the rest.\<close>

definition read_request :: "nat \<Rightarrow> ('i, 'o) sock \<Rightarrow> 'i \<Rightarrow> (read_result \<times> 'i) option" where
  "read_request fuel K i =
     (case blocking_read K 1 i of
        (Inr b, i) \<Rightarrow> if b = [] then Some (RrDisconnected, i) else read_message_blocking fuel K b i
      | (Inl _, i) \<Rightarrow> Some (RrDisconnected, i))"

fun server_push :: "nat \<Rightarrow> ('i, 'o) sock \<Rightarrow> bytes \<Rightarrow> 'o \<Rightarrow> (bool \<times> 'o) option" where
  "server_push 0 K payload s = None"
| "server_push (Suc fuel) K payload s =
     (if payload = [] then Some (True, s)
      else
        (case check_write K s of
           (Inl _, s) \<Rightarrow> server_push fuel K payload s
         | (Inr available, s) \<Rightarrow>
             if available = 0 then server_push fuel K payload s
             else
               (case stream_write K (take available payload) s of
                  (Inl _, s) \<Rightarrow> Some (False, s)
                | (Inr _, s) \<Rightarrow> server_push fuel K (drop available payload) s)))"

fun server_flush :: "nat \<Rightarrow> ('i, 'o) sock \<Rightarrow> 'o \<Rightarrow> 'o option" where
  "server_flush 0 K s = None"
| "server_flush (Suc fuel) K s =
     (case blocking_flush K s of (Inr _, s) \<Rightarrow> Some s | (Inl _, s) \<Rightarrow> server_flush fuel K s)"

definition write_message :: "nat \<Rightarrow> ('i, 'o) sock \<Rightarrow> bytes \<Rightarrow> 'o \<Rightarrow> (bool \<times> 'o) option" where
  "write_message fuel K data s =
     (case server_push fuel K (frame data) s of
        None \<Rightarrow> None
      | Some (False, s) \<Rightarrow> Some (False, s)
      | Some (True, s) \<Rightarrow> map_option (Pair True) (server_flush fuel K s))"

section \<open>The client\<close>

text \<open>WASI error codes, those that the adapters use.\<close>

datatype wasi_error =
    WAccess | WBadDescriptor | WBusy | WExist | WInvalid | WIo | WIsDirectory | WNoEntry
  | WNotDirectory | WNotEmpty | WNotRecoverable | WUnsupported

fun rpc_error_to_wasi :: "error_code \<Rightarrow> wasi_error" where
  "rpc_error_to_wasi EcNotFound = WNoEntry"
| "rpc_error_to_wasi EcNotADirectory = WNotDirectory"
| "rpc_error_to_wasi EcIsADirectory = WIsDirectory"
| "rpc_error_to_wasi EcInvalidArgument = WInvalid"
| "rpc_error_to_wasi EcBadFileDescriptor = WBadDescriptor"
| "rpc_error_to_wasi EcPermissionDenied = WAccess"
| "rpc_error_to_wasi EcAlreadyExists = WExist"
| "rpc_error_to_wasi EcNotEmpty = WNotEmpty"
| "rpc_error_to_wasi EcBusy = WBusy"
| "rpc_error_to_wasi EcConflict = WNotRecoverable"
| "rpc_error_to_wasi _ = WIo"

fun client_push :: "nat \<Rightarrow> ('i, 'o) sock \<Rightarrow> bytes \<Rightarrow> 'o \<Rightarrow> ((wasi_error + unit) \<times> 'o) option" where
  "client_push 0 K payload s = None"
| "client_push (Suc fuel) K payload s =
     (if payload = [] then Some (Inr (), s)
      else
        (case check_write K s of
           (Inl _, s) \<Rightarrow> Some (Inl WIo, s)
         | (Inr available, s) \<Rightarrow>
             if available = 0 then client_push fuel K payload s
             else
               (case stream_write K (take available payload) s of
                  (Inl _, s) \<Rightarrow> Some (Inl WIo, s)
                | (Inr _, s) \<Rightarrow> client_push fuel K (drop available payload) s)))"

definition send_raw ::
  "nat \<Rightarrow> (pb_rpc_request \<Rightarrow> bytes) \<Rightarrow> ('i, 'o) sock \<Rightarrow> string option \<Rightarrow> request \<Rightarrow> 'o \<Rightarrow>
   ((wasi_error + unit) \<times> 'o) option" where
  "send_raw fuel enc K session q s =
     (let data = to_proto_request_bytes enc \<lparr>rq_session = session, rq_request = q\<rparr> in
      case client_push fuel K (frame data) s of
        None \<Rightarrow> None
      | Some (Inl e, s) \<Rightarrow> Some (Inl e, s)
      | Some (Inr _, s) \<Rightarrow>
          (case blocking_flush K s of
             (Inl _, s) \<Rightarrow> Some (Inl WIo, s)
           | (Inr _, s) \<Rightarrow> Some (Inr (), s)))"

fun client_fill :: "nat \<Rightarrow> ('i, 'o) sock \<Rightarrow> nat \<Rightarrow> bytes \<Rightarrow> 'i \<Rightarrow> ((wasi_error + bytes) \<times> 'i) option" where
  "client_fill 0 K n buf i = None"
| "client_fill (Suc fuel) K n buf i =
     (if length buf < n then
        (case blocking_read K (n - length buf) i of
           (Inr b, i) \<Rightarrow> if b = [] then client_fill fuel K n buf i else client_fill fuel K n (buf @ b) i
         | (Inl _, i) \<Rightarrow> Some (Inl WIo, i))
      else Some (Inr buf, i))"

definition receive_raw ::
  "nat \<Rightarrow> nat \<Rightarrow> (bytes \<Rightarrow> pb_rpc_response option) \<Rightarrow> ('i, 'o) sock \<Rightarrow> 'i \<Rightarrow>
   ((wasi_error + response) \<times> 'i) option" where
  "receive_raw fuel W dec K i =
     (case client_fill fuel K 4 [] i of
        None \<Rightarrow> None
      | Some (Inl e, i) \<Rightarrow> Some (Inl e, i)
      | Some (Inr len_buf, i) \<Rightarrow>
          (case client_fill fuel K (unat (from_be_bytes len_buf)) [] i of
             None \<Rightarrow> None
           | Some (Inl e, i) \<Rightarrow> Some (Inl e, i)
           | Some (Inr data, i) \<Rightarrow>
               Some (case from_proto_response_bytes W dec data of
                       Inl c \<Rightarrow> Inl (rpc_error_to_wasi c)
                     | Inr r \<Rightarrow> Inr r, i)))"

section \<open>Frames arrive whole\<close>

text \<open>\<open>carries i b\<close> says that \<open>b\<close> is what is still to be read, \<open>stalls i\<close> bounds the reads that return
  nothing before the next byte comes; dually \<open>taken s\<close> is what a stream took, and \<open>full s\<close> bounds the
  times it has no room.\<close>

definition read_law :: "('i, 'o) sock \<Rightarrow> ('i \<Rightarrow> bytes) \<Rightarrow> ('i \<Rightarrow> nat) \<Rightarrow> bool" where
  "read_law K carries stalls \<longleftrightarrow> (\<forall>n i r i'. 0 < n \<longrightarrow> carries i \<noteq> [] \<longrightarrow> blocking_read K n i = (r, i') \<longrightarrow>
     (\<exists>k. r = Inr (take k (carries i)) \<and> carries i' = drop k (carries i) \<and> k \<le> n \<and>
       (k = 0 \<longrightarrow> stalls i' < stalls i) \<and> (0 < k \<longrightarrow> stalls i' \<le> stalls i)))"

definition write_law :: "('i, 'o) sock \<Rightarrow> ('o \<Rightarrow> bytes) \<Rightarrow> ('o \<Rightarrow> nat) \<Rightarrow> bool" where
  "write_law K taken full \<longleftrightarrow>
     (\<forall>s r s'. check_write K s = (r, s') \<longrightarrow> taken s' = taken s \<and>
       (\<exists>n. r = Inr n \<and> (n = 0 \<longrightarrow> full s' < full s) \<and> (0 < n \<longrightarrow> full s' \<le> full s))) \<and>
     (\<forall>b s r s'. stream_write K b s = (r, s') \<longrightarrow> r = Inr () \<and> taken s' = taken s @ b \<and> full s' \<le> full s) \<and>
     (\<forall>s r s'. blocking_flush K s = (r, s') \<longrightarrow> r = Inr () \<and> taken s' = taken s)"

lemma length_be [simp]: "length (to_be_bytes n) = 4"
  by (simp add: to_be_bytes_def)

lemma be_round_trip: "from_be_bytes (to_be_bytes n) = n"
proof (rule bit_word_eqI)
  fix k assume k: "k < LENGTH(32)"
  show "bit (from_be_bytes (to_be_bytes n)) k = bit n k"
    using k by (cases "k < 8"; cases "k < 16"; cases "k < 24") (auto simp: from_be_bytes_def to_be_bytes_def bit_simps)
qed

text \<open>One read of either loop.\<close>

lemma fill_step:
  assumes law: "read_law K carries stalls" and lt: "length buf < n" and avail: "n - length buf \<le> length (carries i)"
    and rd: "blocking_read K (n - length buf) i = (r, j)"
  obtains b where "r = Inr b" "length (buf @ b) \<le> n" "n - length (buf @ b) \<le> length (carries j)"
    "b @ take (n - length (buf @ b)) (carries j) = take (n - length buf) (carries i)"
    "drop (n - length (buf @ b)) (carries j) = drop (n - length buf) (carries i)"
    "stalls j \<le> stalls i" "n - length (buf @ b) + stalls j < n - length buf + stalls i"
proof -
  have ne: "carries i \<noteq> []" using lt avail by auto
  with law lt rd obtain k where k: "r = Inr (take k (carries i))" "carries j = drop k (carries i)" "k \<le> n - length buf"
      "k = 0 \<longrightarrow> stalls j < stalls i" "0 < k \<longrightarrow> stalls j \<le> stalls i"
    unfolding read_law_def by (metis zero_less_diff)
  define b where "b = take k (carries i)"
  have lb: "length b = k" using k(3) avail by (simp add: b_def)
  have eq: "k + (n - (length buf + k)) = n - length buf" using k(3) lt by simp
  have "b @ take (n - length (buf @ b)) (carries j) = take (n - length buf) (carries i)"
    using lb k(2,3) take_add [of k "n - length buf - k" "carries i"] by (simp add: b_def flip: diff_diff_left)
  moreover have "drop (n - length (buf @ b)) (carries j) = drop (n - length buf) (carries i)"
    using lb k(2,3) eq by (simp add: add.commute)
  moreover have "stalls j \<le> stalls i" using k(4,5) by (cases "k = 0") auto
  moreover have "n - length (buf @ b) + stalls j < n - length buf + stalls i"
    using lb k(3-5) lt by (cases "k = 0") auto
  ultimately show thesis using k(1) lb k(2,3) lt avail by (intro that [of b]) (simp_all add: b_def)
qed

lemma server_fill_reads:
  assumes law: "read_law K carries stalls"
  shows "length buf \<le> n \<Longrightarrow> n - length buf \<le> length (carries i) \<Longrightarrow> n - length buf + stalls i < fuel \<Longrightarrow>
    \<exists>i'. server_fill fuel K n buf i = Some (Some (buf @ take (n - length buf) (carries i)), i') \<and>
      carries i' = drop (n - length buf) (carries i) \<and> stalls i' \<le> stalls i"
proof (induction fuel arbitrary: buf i)
  case (Suc fuel)
  show ?case
  proof (cases "length buf < n")
    case True
    obtain r j where rd: "blocking_read K (n - length buf) i = (r, j)" by fastforce
    obtain b where b: "r = Inr b" "length (buf @ b) \<le> n" "n - length (buf @ b) \<le> length (carries j)"
        "b @ take (n - length (buf @ b)) (carries j) = take (n - length buf) (carries i)"
        "drop (n - length (buf @ b)) (carries j) = drop (n - length buf) (carries i)"
        "stalls j \<le> stalls i" "n - length (buf @ b) + stalls j < n - length buf + stalls i"
      using fill_step [OF law True Suc.prems(2) rd] by blast
    have "server_fill (Suc fuel) K n buf i = server_fill fuel K n (buf @ b) j" using True rd b(1) by simp
    moreover have "n - length (buf @ b) + stalls j < fuel" using b(7) Suc.prems(3) by linarith
    from Suc.IH [OF b(2,3) this] b(4-6) show ?thesis unfolding calculation by (metis append.assoc le_trans)
  qed (use Suc.prems in auto)
qed simp

lemma client_fill_reads:
  assumes law: "read_law K carries stalls"
  shows "length buf \<le> n \<Longrightarrow> n - length buf \<le> length (carries i) \<Longrightarrow> n - length buf + stalls i < fuel \<Longrightarrow>
    \<exists>i'. client_fill fuel K n buf i = Some (Inr (buf @ take (n - length buf) (carries i)), i') \<and>
      carries i' = drop (n - length buf) (carries i) \<and> stalls i' \<le> stalls i"
proof (induction fuel arbitrary: buf i)
  case (Suc fuel)
  show ?case
  proof (cases "length buf < n")
    case True
    obtain r j where rd: "blocking_read K (n - length buf) i = (r, j)" by fastforce
    obtain b where b: "r = Inr b" "length (buf @ b) \<le> n" "n - length (buf @ b) \<le> length (carries j)"
        "b @ take (n - length (buf @ b)) (carries j) = take (n - length buf) (carries i)"
        "drop (n - length (buf @ b)) (carries j) = drop (n - length buf) (carries i)"
        "stalls j \<le> stalls i" "n - length (buf @ b) + stalls j < n - length buf + stalls i"
      using fill_step [OF law True Suc.prems(2) rd] by blast
    have "client_fill (Suc fuel) K n buf i = client_fill fuel K n (buf @ b) j" using True rd b(1) by simp
    moreover have "n - length (buf @ b) + stalls j < fuel" using b(7) Suc.prems(3) by linarith
    from Suc.IH [OF b(2,3) this] b(4-6) show ?thesis unfolding calculation by (metis append.assoc le_trans)
  qed (use Suc.prems in auto)
qed simp

text \<open>Both writers hand the whole payload to the stream, in order.\<close>

lemma client_push_writes:
  assumes law: "write_law K taken full"
  shows "length payload + full s < fuel \<Longrightarrow>
    \<exists>s'. client_push fuel K payload s = Some (Inr (), s') \<and> taken s' = taken s @ payload"
proof (induction fuel arbitrary: payload s)
  case (Suc fuel)
  show ?case
  proof (cases "payload = []")
    case False
    obtain r s1 where c: "check_write K s = (r, s1)" by fastforce
    with law obtain n where n: "r = Inr n" "taken s1 = taken s" "n = 0 \<longrightarrow> full s1 < full s" "0 < n \<longrightarrow> full s1 \<le> full s"
      unfolding write_law_def by metis
    show ?thesis
    proof (cases "n = 0")
      case True
      then show ?thesis using Suc.IH [of payload s1] Suc.prems c n False by auto
    next
      case pos: False
      obtain r2 s2 where w: "stream_write K (take n payload) s1 = (r2, s2)" by fastforce
      with law have w2: "r2 = Inr ()" "taken s2 = taken s1 @ take n payload" "full s2 \<le> full s1"
        unfolding write_law_def by metis+
      have "length (drop n payload) + full s2 < fuel" using Suc.prems n(4) w2(3) pos False by (cases payload) auto
      from Suc.IH [OF this] show ?thesis using c n w w2 pos False by auto
    qed
  qed simp
qed simp

lemma server_push_writes:
  assumes law: "write_law K taken full"
  shows "length payload + full s < fuel \<Longrightarrow>
    \<exists>s'. server_push fuel K payload s = Some (True, s') \<and> taken s' = taken s @ payload"
proof (induction fuel arbitrary: payload s)
  case (Suc fuel)
  show ?case
  proof (cases "payload = []")
    case False
    obtain r s1 where c: "check_write K s = (r, s1)" by fastforce
    with law obtain n where n: "r = Inr n" "taken s1 = taken s" "n = 0 \<longrightarrow> full s1 < full s" "0 < n \<longrightarrow> full s1 \<le> full s"
      unfolding write_law_def by metis
    show ?thesis
    proof (cases "n = 0")
      case True
      then show ?thesis using Suc.IH [of payload s1] Suc.prems c n False by auto
    next
      case pos: False
      obtain r2 s2 where w: "stream_write K (take n payload) s1 = (r2, s2)" by fastforce
      with law have w2: "r2 = Inr ()" "taken s2 = taken s1 @ take n payload" "full s2 \<le> full s1"
        unfolding write_law_def by metis+
      have "length (drop n payload) + full s2 < fuel" using Suc.prems n(4) w2(3) pos False by (cases payload) auto
      from Suc.IH [OF this] show ?thesis using c n w w2 pos False by auto
    qed
  qed simp
qed simp

lemma frame_length: "length data < 2 ^ 32 \<Longrightarrow> unat (from_be_bytes (to_be_bytes (of_nat (length data)))) = length data"
  by (simp add: be_round_trip unsigned_of_nat take_bit_nat_eq_self)

lemma read_request_frame:
  assumes law: "read_law K carries stalls" and c: "carries i = frame data @ rest" and len: "length data < 2 ^ 32"
    and fuel: "length data + 4 + stalls i < fuel" and first: "fst (blocking_read K 1 i) \<noteq> Inr []"
  shows "\<exists>i'. read_request fuel K i = Some (RrMessage data, i') \<and> carries i' = rest"
proof -
  obtain r j where rd: "blocking_read K 1 i = (r, j)" by fastforce
  have "carries i \<noteq> []" using c by (simp add: frame_def to_be_bytes_def)
  with law rd obtain k where k: "r = Inr (take k (carries i))" "carries j = drop k (carries i)" "k \<le> 1"
      "k = 0 \<longrightarrow> stalls j < stalls i" "0 < k \<longrightarrow> stalls j \<le> stalls i"
    unfolding read_law_def by (metis less_one)
  have "k \<noteq> 0" using first rd k(1) by auto
  then have k1: "k = 1" using k(3) by simp
  define h where "h = to_be_bytes (of_nat (length data))"
  have h4: "length h = 4" by (simp add: h_def)
  have ci: "carries i = h @ data @ rest" using c by (simp add: frame_def h_def)
  have b: "take 1 (carries i) = take 1 h" "length (take 1 h) = 1" using ci h4 by simp_all
  have cj: "carries j = drop 1 h @ data @ rest" using k(2) k1 ci h4 by simp
  obtain j2 where f1: "server_fill fuel K 4 (take 1 h) j = Some (Some (take 1 h @ take 3 (carries j)), j2)"
      "carries j2 = drop 3 (carries j)" "stalls j2 \<le> stalls j"
    using server_fill_reads [OF law, of "take 1 h" 4 j fuel] b(2) cj h4 fuel k(5) k1 by auto
  have "take 3 (drop 1 h) = drop 1 h" using h4 by simp
  then have h: "take 1 h @ take 3 (carries j) = h" using cj h4 by simp
  have cj2: "carries j2 = data @ rest" using f1(2) cj h4 by simp
  obtain j3 where f2: "server_fill fuel K (length data) [] j2 = Some (Some (take (length data) (carries j2)), j3)"
      "carries j3 = drop (length data) (carries j2)"
    using server_fill_reads [OF law, of "[]" "length data" j2 fuel] cj2 fuel f1(3) k(5) k1 by auto
  have "read_request fuel K i = Some (RrMessage data, j3)"
    using \<open>carries i \<noteq> []\<close> rd k(1) k1 b f1(1) h f2(1) cj2 frame_length [OF len]
    by (auto simp: read_request_def read_message_blocking_def h_def)
  then show ?thesis using f2(2) cj2 by simp
qed

lemma receive_raw_frame:
  assumes law: "read_law K carries stalls" and c: "carries i = frame data @ rest" and len: "length data < 2 ^ 32"
    and fuel: "length data + 4 + stalls i < fuel"
  shows "\<exists>i'. receive_raw fuel W dec K i =
      Some (case from_proto_response_bytes W dec data of Inl e \<Rightarrow> Inl (rpc_error_to_wasi e) | Inr r \<Rightarrow> Inr r, i') \<and>
    carries i' = rest"
proof -
  define h where "h = to_be_bytes (of_nat (length data))"
  have h4: "length h = 4" by (simp add: h_def)
  have ci: "carries i = h @ data @ rest" using c by (simp add: frame_def h_def)
  obtain j where f1: "client_fill fuel K 4 [] i = Some (Inr (take 4 (carries i)), j)"
      "carries j = drop 4 (carries i)" "stalls j \<le> stalls i"
    using client_fill_reads [OF law, of "[]" 4 i fuel] ci h4 fuel by auto
  have cj: "carries j = data @ rest" using f1(2) ci h4 by simp
  obtain j2 where f2: "client_fill fuel K (length data) [] j = Some (Inr (take (length data) (carries j)), j2)"
      "carries j2 = drop (length data) (carries j)"
    using client_fill_reads [OF law, of "[]" "length data" j fuel] cj fuel f1(3) by auto
  show ?thesis
    using f1(1) ci h4 f2 cj frame_length [OF len] by (simp add: receive_raw_def h_def)
qed


text \<open>A stream that delivers up to three bytes at a time and takes two.\<close>

definition list_sock :: "(bytes, bytes) sock" where
  "list_sock =
     \<lparr>blocking_read = (\<lambda>n i. if i = [] then (Inl Closed, i) else (Inr (take (min n 3) i), drop (min n 3) i)),
      check_write = (\<lambda>s. (Inr 2, s)), stream_write = (\<lambda>b s. (Inr (), s @ b)), blocking_flush = (\<lambda>s. (Inr (), s))\<rparr>"

lemma list_sock_laws: "read_law list_sock id (\<lambda>_. 0)" "write_law list_sock id (\<lambda>_. 0)"
proof -
  show "read_law list_sock id (\<lambda>_. 0)"
    unfolding read_law_def
  proof (intro allI impI)
    fix n :: nat and i :: bytes and r i'
    assume "0 < n" "id i \<noteq> []" "blocking_read list_sock n i = (r, i')"
    then show "\<exists>k. r = Inr (take k (id i)) \<and> id i' = drop k (id i) \<and> k \<le> n \<and> (k = 0 \<longrightarrow> (0 :: nat) < 0) \<and> (0 < k \<longrightarrow> (0 :: nat) \<le> 0)"
      by (intro exI [of _ "min n 3"]) (auto simp: list_sock_def)
  qed
  show "write_law list_sock id (\<lambda>_. 0)" by (simp add: write_law_def list_sock_def)
qed

text \<open>A codec with a short code for one record.\<close>

definition short_enc :: "'m \<Rightarrow> ('m \<Rightarrow> bytes) \<Rightarrow> 'm \<Rightarrow> bytes" where
  "short_enc m0 enc m = (if m = m0 then [7] else 0 # enc m)"

definition short_dec :: "'m \<Rightarrow> (bytes \<Rightarrow> 'm option) \<Rightarrow> bytes \<Rightarrow> 'm option" where
  "short_dec m0 dec b = (if b = [7] then Some m0 else dec (tl b))"

lemma short_codec: "dec (enc m) = Some m \<Longrightarrow> short_dec m0 dec (short_enc m0 enc m) = Some m"
  by (simp add: short_enc_def short_dec_def)


end
