(* ===== verification/Rpc_Client.thy ===== *)
theory Rpc_Client
  imports Rpc_Framing
begin

text \<open>
  \<open>rpc-adapter\<close>: the component that exports the WASI file system to an application and turns its calls
  into requests to the server. The TCP connection is a parameter \<open>'n wire\<close>: opening it, sending a
  request and receiving a response on it (\<open>send_raw\<close> and \<open>receive_raw\<close> of theory \<open>Rpc_Framing\<close>),
  letting time pass, and the environment variables. \<open>W\<close> is the width of \<open>usize\<close>.

  An output stream is shared (\<open>Rc\<close>) between its owner and, weakly, the table of its descriptor: the
  streams that are alive are the domain of \<open>out_streams\<close>, so a weak reference is its number. Inputs
  that only pass through to the host (stdin, clocks, host pollables) are left out, but for \<open>poll\<close>.
\<close>

section \<open>Connection\<close>

record 'n wire =
  wi_open :: "'n \<Rightarrow> (wasi_error + unit) \<times> 'n"
  wi_send :: "string option \<Rightarrow> request \<Rightarrow> 'n \<Rightarrow> (wasi_error + unit) \<times> 'n"
  wi_receive :: "'n \<Rightarrow> (wasi_error + response) \<times> 'n"
  wi_sleep :: "nat \<Rightarrow> 'n \<Rightarrow> 'n"
  wi_env :: "string \<Rightarrow> string option"

record rpc_connection =
  cn_session :: string
  cn_version :: u32

record rpc_state =
  descriptor_to_fd :: "u32 \<rightharpoonup> u32"
  fd_to_descriptor :: "u32 \<rightharpoonup> u32"
  descriptor_flags :: "u32 \<rightharpoonup> u32"
  live_streams :: "u32 \<rightharpoonup> nat list"
  close_pending :: "u32 set"
  next_descriptor :: u32

record file_output_stream =
  fo_handle :: u32
  fo_offset :: u64
  fo_append :: bool
  fo_buffer :: bytes

record 'n rpc_adapter =
  wire_state :: 'n
  connection :: "rpc_connection option"
  rpc :: rpc_state
  out_streams :: "nat \<rightharpoonup> file_output_stream"
  next_stream :: nat

fun handshake :: "'n wire \<Rightarrow> u32 list \<Rightarrow> 'n \<Rightarrow> (wasi_error + rpc_connection) \<times> 'n" where
  "handshake K [] n = (Inl WIo, n)"
| "handshake K (version # versions) n =
     (case wi_send K None (RqConnect version) n of
        (Inl e, n) \<Rightarrow> (Inl e, n)
      | (Inr _, n) \<Rightarrow>
          (case wi_receive K n of
             (Inl e, n) \<Rightarrow> (Inl e, n)
           | (Inr r, n) \<Rightarrow>
               (case r of
                  RsConnected sid negotiated \<Rightarrow> (Inr \<lparr>cn_session = sid, cn_version = negotiated\<rparr>, n)
                | RsError c msg \<Rightarrow>
                    if c = EcProtocolError \<and> version \<noteq> MIN_PROTOCOL_VERSION then handshake K versions n
                    else (Inl WIo, n)
                | _ \<Rightarrow> (Inl WIo, n))))"

definition connect :: "'n wire \<Rightarrow> 'n \<Rightarrow> (wasi_error + rpc_connection) \<times> 'n" where
  "connect K n =
     (case wi_open K n of
        (Inl e, n) \<Rightarrow> (Inl e, n)
      | (Inr _, n) \<Rightarrow> handshake K [PROTOCOL_VERSION, MIN_PROTOCOL_VERSION] n)"

definition call :: "'n wire \<Rightarrow> rpc_connection \<Rightarrow> request \<Rightarrow> 'n \<Rightarrow> (wasi_error + response) \<times> 'n" where
  "call K c q n =
     (case wi_send K (Some (cn_session c)) q n of
        (Inl e, n) \<Rightarrow> (Inl e, n)
      | (Inr _, n) \<Rightarrow> wi_receive K n)"

definition with_connection ::
  "'n wire \<Rightarrow> (rpc_connection \<Rightarrow> 'n \<Rightarrow> (wasi_error + 'r) \<times> 'n) \<Rightarrow> 'n rpc_adapter \<Rightarrow>
   (wasi_error + 'r) \<times> 'n rpc_adapter" where
  "with_connection K g a =
     (let a = (case connection a of
                 Some _ \<Rightarrow> a
               | None \<Rightarrow>
                   (case connect K (wire_state a) of
                      (Inr c, n) \<Rightarrow> a\<lparr>wire_state := n, connection := Some c\<rparr>
                    | (Inl _, n) \<Rightarrow> a\<lparr>wire_state := n\<rparr>)) in
      case connection a of
        None \<Rightarrow> (Inl WIo, a)
      | Some c \<Rightarrow> (case g c (wire_state a) of (r, n) \<Rightarrow> (r, a\<lparr>wire_state := n\<rparr>)))"

definition rpc_call :: "'n wire \<Rightarrow> request \<Rightarrow> 'n rpc_adapter \<Rightarrow> (wasi_error + response) \<times> 'n rpc_adapter" where
  "rpc_call K q = with_connection K (\<lambda>c. call K c q)"

text \<open>How the operations read a response: an error response and an unexpected one are errors.\<close>

definition expect :: "(response \<Rightarrow> 'r option) \<Rightarrow> response \<Rightarrow> wasi_error + 'r" where
  "expect want r =
     (case want r of
        Some x \<Rightarrow> Inr x
      | None \<Rightarrow> (case r of RsError c _ \<Rightarrow> Inl (rpc_error_to_wasi c) | _ \<Rightarrow> Inl WIo))"

definition want_ok :: "response \<Rightarrow> unit option" where
  "want_ok r = (case r of RsOk \<Rightarrow> Some () | _ \<Rightarrow> None)"

definition want_position :: "response \<Rightarrow> unit option" where
  "want_position r = (case r of RsPosition _ \<Rightarrow> Some () | _ \<Rightarrow> None)"

definition want_data :: "response \<Rightarrow> bytes option" where
  "want_data r = (case r of RsData b \<Rightarrow> Some b | _ \<Rightarrow> None)"

definition want_written :: "response \<Rightarrow> nat option" where
  "want_written r = (case r of RsWritten n \<Rightarrow> Some n | _ \<Rightarrow> None)"

definition want_metadata :: "response \<Rightarrow> file_metadata option" where
  "want_metadata r = (case r of RsMetadata m \<Rightarrow> Some m | _ \<Rightarrow> None)"

definition want_entries :: "response \<Rightarrow> dir_entry list option" where
  "want_entries r = (case r of RsDirEntries es \<Rightarrow> Some es | _ \<Rightarrow> None)"

definition answered :: "(response \<Rightarrow> 'r option) \<Rightarrow> (wasi_error + response) \<times> 'a \<Rightarrow> (wasi_error + 'r) \<times> 'a" where
  "answered want p = apfst (\<lambda>r. case r of Inl e \<Rightarrow> Inl e | Inr x \<Rightarrow> expect want x) p"

definition seek_via_conn :: "'n wire \<Rightarrow> rpc_connection \<Rightarrow> u32 \<Rightarrow> u64 \<Rightarrow> 'n \<Rightarrow> (wasi_error + unit) \<times> 'n" where
  "seek_via_conn K c d off n = answered want_position (call K c (RqSeek d (ucast off) 0) n)"

text \<open>A seek, and a request when it worked.\<close>

definition seek_then ::
  "'n wire \<Rightarrow> u32 \<Rightarrow> u64 \<Rightarrow> request \<Rightarrow> (response \<Rightarrow> 'r option) \<Rightarrow> rpc_connection \<Rightarrow> 'n \<Rightarrow> (wasi_error + 'r) \<times> 'n" where
  "seek_then K d off q want c n =
     (case seek_via_conn K c d off n of
        (Inl e, n) \<Rightarrow> (Inl e, n)
      | (Inr _, n) \<Rightarrow> answered want (call K c q n))"

section \<open>Descriptors\<close>

definition rpc_new :: rpc_state where
  "rpc_new = \<lparr>descriptor_to_fd = [0 \<mapsto> 0], fd_to_descriptor = [0 \<mapsto> 0], descriptor_flags = Map.empty,
     live_streams = Map.empty, close_pending = {}, next_descriptor = 1\<rparr>"

definition adapter_new :: "'n \<Rightarrow> 'n rpc_adapter" where
  "adapter_new n = \<lparr>wire_state = n, connection = None, rpc = rpc_new, out_streams = Map.empty, next_stream = 0\<rparr>"

definition allocate_descriptor :: "u32 \<Rightarrow> u32 \<Rightarrow> rpc_state \<Rightarrow> u32 \<times> rpc_state" where
  "allocate_descriptor server_fd flags t =
     (let desc = next_descriptor t in
      (desc, t\<lparr>next_descriptor := desc + 1, descriptor_to_fd := (descriptor_to_fd t)(desc \<mapsto> server_fd),
        fd_to_descriptor := (fd_to_descriptor t)(server_fd \<mapsto> desc),
        descriptor_flags := (descriptor_flags t)(desc \<mapsto> flags)\<rparr>))"

definition release_descriptor :: "u32 \<Rightarrow> rpc_state \<Rightarrow> u32 option \<times> rpc_state" where
  "release_descriptor desc t =
     (case descriptor_to_fd t desc of
        None \<Rightarrow> (None, t)
      | Some d \<Rightarrow>
          (Some d, t\<lparr>descriptor_to_fd := (descriptor_to_fd t)(desc := None),
             fd_to_descriptor := (fd_to_descriptor t)(d := None),
             descriptor_flags := (descriptor_flags t)(desc := None),
             live_streams := (live_streams t)(desc := None), close_pending := close_pending t - {desc}\<rparr>))"

definition stream_opened :: "u32 \<Rightarrow> nat \<Rightarrow> rpc_state \<Rightarrow> rpc_state" where
  "stream_opened desc w t =
     t\<lparr>live_streams := (live_streams t)(desc \<mapsto> (case live_streams t desc of None \<Rightarrow> [] | Some ws \<Rightarrow> ws) @ [w])\<rparr>"

text \<open>\<open>alive\<close> holds of the streams with a strong reference.\<close>

definition live_streams_for :: "(nat \<Rightarrow> bool) \<Rightarrow> u32 \<Rightarrow> rpc_state \<Rightarrow> nat list" where
  "live_streams_for alive desc t = (case live_streams t desc of None \<Rightarrow> [] | Some ws \<Rightarrow> filter alive ws)"

definition live_stream_count :: "(nat \<Rightarrow> bool) \<Rightarrow> u32 \<Rightarrow> rpc_state \<Rightarrow> nat" where
  "live_stream_count alive desc t = length (live_streams_for alive desc t)"

definition stream_closed :: "(nat \<Rightarrow> bool) \<Rightarrow> u32 \<Rightarrow> rpc_state \<Rightarrow> u32 option \<times> rpc_state" where
  "stream_closed alive desc t =
     (let t = t\<lparr>live_streams :=
                 (case live_streams t desc of
                    None \<Rightarrow> live_streams t
                  | Some ws \<Rightarrow> (live_streams t)(desc \<mapsto> filter alive ws))\<rparr> in
      if live_stream_count alive desc t = 0 \<and> desc \<in> close_pending t then release_descriptor desc t
      else (None, t))"

definition descriptor_dropped :: "(nat \<Rightarrow> bool) \<Rightarrow> u32 \<Rightarrow> rpc_state \<Rightarrow> u32 option \<times> rpc_state" where
  "descriptor_dropped alive desc t =
     (if live_stream_count alive desc t > 0 then (None, t\<lparr>close_pending := insert desc (close_pending t)\<rparr>)
      else release_descriptor desc t)"

definition get_server_fd :: "u32 \<Rightarrow> rpc_state \<Rightarrow> wasi_error + u32" where
  "get_server_fd desc t = (case descriptor_to_fd t desc of None \<Rightarrow> Inl WBadDescriptor | Some d \<Rightarrow> Inr d)"

definition is_alive :: "'n rpc_adapter \<Rightarrow> nat \<Rightarrow> bool" where
  "is_alive a w \<longleftrightarrow> out_streams a w \<noteq> None"

definition send_close :: "'n wire \<Rightarrow> u32 \<Rightarrow> 'n rpc_adapter \<Rightarrow> 'n rpc_adapter" where
  "send_close K server_fd a =
     (case connection a of
        None \<Rightarrow> a
      | Some c \<Rightarrow> a\<lparr>wire_state := snd (call K c (RqClose server_fd) (wire_state a))\<rparr>)"

definition close_if :: "'n wire \<Rightarrow> u32 option \<times> rpc_state \<Rightarrow> 'n rpc_adapter \<Rightarrow> 'n rpc_adapter" where
  "close_if K p a =
     (let a = a\<lparr>rpc := snd p\<rparr> in case fst p of None \<Rightarrow> a | Some d \<Rightarrow> send_close K d a)"

record descriptor_impl =
  di_handle :: u32
  di_flags :: u32

definition is_write :: "descriptor_impl \<Rightarrow> bool" where
  "is_write self \<longleftrightarrow> di_flags self AND 0x3 \<noteq> 0"

text \<open>\<open>Drop for DescriptorImpl\<close>.\<close>

definition drop_descriptor :: "'n wire \<Rightarrow> descriptor_impl \<Rightarrow> 'n rpc_adapter \<Rightarrow> 'n rpc_adapter" where
  "drop_descriptor K self a =
     (if di_handle self = 0 then a
      else close_if K (descriptor_dropped (is_alive a) (di_handle self) (rpc a)) a)"

section \<open>Output streams\<close>

definition flush_buffer ::
  "'n wire \<Rightarrow> file_output_stream \<Rightarrow> 'n rpc_adapter \<Rightarrow> (wasi_error + unit) \<times> file_output_stream \<times> 'n rpc_adapter" where
  "flush_buffer K st a =
     (let data = fo_buffer st; st = st\<lparr>fo_buffer := []\<rparr> in
      if data = [] then (Inr (), st, a)
      else
        (case get_server_fd (fo_handle st) (rpc a) of
           Inl e \<Rightarrow> (Inl e, st, a)
         | Inr d \<Rightarrow>
             (case (if fo_append st
                    then with_connection K (\<lambda>c n. answered want_written (call K c (RqAppendWrite d data) n)) a
                    else with_connection K (seek_then K d (fo_offset st) (RqWrite d data) want_written) a) of
                (Inl e, a) \<Rightarrow> (Inl e, st, a)
              | (Inr _, a) \<Rightarrow>
                  (Inr (),
                   if fo_append st then st else st\<lparr>fo_offset := fo_offset st + of_nat (length data)\<rparr>, a))))"

text \<open>Flushing the live streams of a descriptor: the first error ends it.\<close>

fun flush_streams :: "'n wire \<Rightarrow> nat list \<Rightarrow> 'n rpc_adapter \<Rightarrow> (wasi_error + unit) \<times> 'n rpc_adapter" where
  "flush_streams K [] a = (Inr (), a)"
| "flush_streams K (w # ws) a =
     (case out_streams a w of
        None \<Rightarrow> flush_streams K ws a
      | Some st \<Rightarrow>
          (case flush_buffer K st a of
             (r, st, a) \<Rightarrow>
               let a = a\<lparr>out_streams := (out_streams a)(w \<mapsto> st)\<rparr> in
               (case r of Inl e \<Rightarrow> (Inl e, a) | Inr _ \<Rightarrow> flush_streams K ws a)))"

text \<open>\<open>Drop for FileOutputStream\<close>: the strong count is zero while it runs.\<close>

definition drop_stream :: "'n wire \<Rightarrow> nat \<Rightarrow> 'n rpc_adapter \<Rightarrow> 'n rpc_adapter" where
  "drop_stream K w a =
     (case out_streams a w of
        None \<Rightarrow> a
      | Some st \<Rightarrow>
          (case flush_buffer K st (a\<lparr>out_streams := (out_streams a)(w := None)\<rparr>) of
             (r, st', a) \<Rightarrow> close_if K (stream_closed (is_alive a) (fo_handle st) (rpc a)) a))"

text \<open>\<open>write\<close>, \<open>blocking-write-and-flush\<close> and the writes of zeros only fill the buffer; \<open>flush\<close> and
  \<open>blocking-flush\<close> do nothing.\<close>

definition stream_buffer :: "nat \<Rightarrow> bytes \<Rightarrow> 'n rpc_adapter \<Rightarrow> 'n rpc_adapter" where
  "stream_buffer w data a =
     (case out_streams a w of
        None \<Rightarrow> a
      | Some st \<Rightarrow> a\<lparr>out_streams := (out_streams a)(w \<mapsto> st\<lparr>fo_buffer := fo_buffer st @ data\<rparr>)\<rparr>)"

definition stream_write_zeroes :: "nat \<Rightarrow> nat \<Rightarrow> u64 \<Rightarrow> 'n rpc_adapter \<Rightarrow> 'n rpc_adapter" where
  "stream_write_zeroes W w len a = stream_buffer w (replicate (as_usize W len) 0) a"

definition stream_flush :: "nat \<Rightarrow> 'n rpc_adapter \<Rightarrow> (stream_error + unit) \<times> 'n rpc_adapter" where
  "stream_flush w a = (Inr (), a)"

definition output_stream :: "u64 \<Rightarrow> bool \<Rightarrow> descriptor_impl \<Rightarrow> 'n rpc_adapter \<Rightarrow> (wasi_error + nat) \<times> 'n rpc_adapter" where
  "output_stream off append_mode self a =
     (case get_server_fd (di_handle self) (rpc a) of
        Inl e \<Rightarrow> (Inl e, a)
      | Inr _ \<Rightarrow>
          let w = next_stream a in
          (Inr w, a\<lparr>next_stream := w + 1,
             out_streams := (out_streams a)(w \<mapsto>
               \<lparr>fo_handle = di_handle self, fo_offset = off, fo_append = append_mode, fo_buffer = []\<rparr>),
             rpc := stream_opened (di_handle self) w (rpc a)\<rparr>))"

definition write_via_stream :: "u64 \<Rightarrow> descriptor_impl \<Rightarrow> 'n rpc_adapter \<Rightarrow> (wasi_error + nat) \<times> 'n rpc_adapter" where
  "write_via_stream off = output_stream off False"

definition append_via_stream :: "descriptor_impl \<Rightarrow> 'n rpc_adapter \<Rightarrow> (wasi_error + nat) \<times> 'n rpc_adapter" where
  "append_via_stream = output_stream 0 True"

section \<open>Input streams\<close>

definition READ_AHEAD_SIZE :: nat where "READ_AHEAD_SIZE = 256 * 1024"

record file_input_stream =
  fi_handle :: u32
  fi_offset :: u64
  fi_buf :: bytes
  fi_buf_offset :: u64

definition read_via_stream :: "u64 \<Rightarrow> descriptor_impl \<Rightarrow> 'n rpc_adapter \<Rightarrow> wasi_error + file_input_stream" where
  "read_via_stream off self a =
     (case get_server_fd (di_handle self) (rpc a) of
        Inl e \<Rightarrow> Inl e
      | Inr _ \<Rightarrow> Inr \<lparr>fi_handle = di_handle self, fi_offset = off, fi_buf = [], fi_buf_offset = 0\<rparr>)"

definition input_read ::
  "nat \<Rightarrow> 'n wire \<Rightarrow> u64 \<Rightarrow> file_input_stream \<Rightarrow> 'n rpc_adapter \<Rightarrow>
   (stream_error + bytes) \<times> file_input_stream \<times> 'n rpc_adapter" where
  "input_read W K len64 st a =
     (let off = fi_offset st; len = as_usize W len64; start = fi_buf_offset st; buf = fi_buf st;
          buf_end = start + of_nat (length buf) in
      if start \<le> off \<and> off + of_nat len \<le> buf_end then
        let local = as_usize W (off - start); data = take len (drop local buf) in
        (Inr data, st\<lparr>fi_offset := off + of_nat (length data)\<rparr>, a)
      else
        (case get_server_fd (fi_handle st) (rpc a) of
           Inl _ \<Rightarrow> (Inl Closed, st, a)
         | Inr d \<Rightarrow>
             let is_sequential = (buf \<noteq> [] \<and> off = start + of_nat (length buf));
                 fetch_len = (if is_sequential then max len READ_AHEAD_SIZE else len) in
             (case with_connection K (seek_then K d off (RqRead d fetch_len) want_data) a of
                (Inl _, a) \<Rightarrow> (Inl Closed, st, a)
              | (Inr b, a) \<Rightarrow>
                  if b = [] then (Inl Closed, st, a)
                  else
                    let data = take len b in
                    (Inr data,
                     st\<lparr>fi_buf_offset := off, fi_buf := b, fi_offset := off + of_nat (length data)\<rparr>, a))))"

definition input_skip :: "u64 \<Rightarrow> file_input_stream \<Rightarrow> u64 \<times> file_input_stream" where
  "input_skip len st = (len, st\<lparr>fi_offset := fi_offset st + len\<rparr>)"

section \<open>Opening\<close>

datatype open_flag = OfCreate | OfDirectory | OfExclusive | OfTruncate
datatype descriptor_flag = DfRead | DfWrite | DfOther

definition convert_flags :: "open_flag set \<Rightarrow> descriptor_flag set \<Rightarrow> u32" where
  "convert_flags ofs dfs =
     (if DfRead \<in> dfs \<and> DfWrite \<in> dfs then 0x02 else if DfWrite \<in> dfs then 0x01 else 0)
     OR (if OfCreate \<in> ofs then 0x40 else 0) OR (if OfTruncate \<in> ofs then 0x200 else 0)"

definition normalize_path :: "string \<Rightarrow> string" where
  "normalize_path path = CHR ''/'' # trim_start_matches CHR ''/'' path"

text \<open>The path that every \<open>*-at\<close> operation sends.\<close>

definition full_path :: "descriptor_impl \<Rightarrow> string \<Rightarrow> string" where
  "full_path self path = (if di_handle self = 0 then normalize_path path else path)"

definition DEFAULT_LOCK_TIMEOUT_MS :: nat where "DEFAULT_LOCK_TIMEOUT_MS = 10000"

definition lock_timeout_budget_ms :: "(string \<Rightarrow> string option) \<Rightarrow> nat" where
  "lock_timeout_budget_ms env =
     (case Option.bind (env ''VFS_S3_FILE_LOCK_TIMEOUT_MS'') (\<lambda>v. parse_nat64 (str_trim v)) of
        Some n \<Rightarrow> n | None \<Rightarrow> DEFAULT_LOCK_TIMEOUT_MS)"

text \<open>The loop of \<open>busy_backoff_schedule\<close>; the step is never 0.\<close>

function backoff :: "nat \<Rightarrow> nat \<Rightarrow> nat \<Rightarrow> nat list" where
  "backoff budget spent step =
     (if spent < budget \<and> 0 < step then
        let d = min step (budget - spent) in d # backoff budget (spent + d) (min (step * 2) 500)
      else [])"
  by auto
termination by (relation "measure (\<lambda>(budget, spent, step). budget - spent)") auto

declare backoff.simps [simp del]

definition busy_backoff_schedule :: "nat \<Rightarrow> nat list" where
  "busy_backoff_schedule budget_ms = backoff budget_ms 0 20"

definition sleep_ms :: "'n wire \<Rightarrow> nat \<Rightarrow> 'n rpc_adapter \<Rightarrow> 'n rpc_adapter" where
  "sleep_ms K ms a = a\<lparr>wire_state := wi_sleep K ms (wire_state a)\<rparr>"

text \<open>What the answer to an open means: a descriptor, an error, or (\<open>None\<close>) to try again.\<close>

definition open_answer :: "response \<Rightarrow> (wasi_error + u32) option" where
  "open_answer r =
     (case r of
        RsFd d \<Rightarrow> Some (Inr d)
      | RsError c _ \<Rightarrow> if c = EcBusy then None else Some (Inl (rpc_error_to_wasi c))
      | _ \<Rightarrow> Some (Inl WIo))"

fun open_retry :: "'n wire \<Rightarrow> request \<Rightarrow> nat list \<Rightarrow> 'n rpc_adapter \<Rightarrow> (wasi_error + u32) \<times> 'n rpc_adapter" where
  "open_retry K q [] a =
     (case rpc_call K q a of
        (Inl e, a) \<Rightarrow> (Inl e, a)
      | (Inr r, a) \<Rightarrow> (case open_answer r of Some x \<Rightarrow> (x, a) | None \<Rightarrow> (Inl WBusy, a)))"
| "open_retry K q (ms # delays) a =
     (case rpc_call K q a of
        (Inl e, a) \<Rightarrow> (Inl e, a)
      | (Inr r, a) \<Rightarrow>
          (case open_answer r of
             Some x \<Rightarrow> (x, a)
           | None \<Rightarrow> open_retry K q delays (sleep_ms K ms a)))"

definition open_at_rpc ::
  "'n wire \<Rightarrow> descriptor_impl \<Rightarrow> string \<Rightarrow> open_flag set \<Rightarrow> descriptor_flag set \<Rightarrow> 'n rpc_adapter \<Rightarrow>
   (wasi_error + descriptor_impl) \<times> 'n rpc_adapter" where
  "open_at_rpc K self path ofs dfs a =
     (let flags = convert_flags ofs dfs in
      case open_retry K (RqOpenPath (full_path self path) flags)
             (busy_backoff_schedule (lock_timeout_budget_ms (wi_env K))) a of
        (Inl e, a) \<Rightarrow> (Inl e, a)
      | (Inr server_fd, a) \<Rightarrow>
          (case allocate_descriptor server_fd flags (rpc a) of
             (desc, t) \<Rightarrow> (Inr \<lparr>di_handle = desc, di_flags = flags\<rparr>, a\<lparr>rpc := t\<rparr>)))"

definition get_directories :: "'n rpc_adapter \<Rightarrow> (descriptor_impl \<times> string) list" where
  "get_directories a =
     (case descriptor_to_fd (rpc a) 0 of Some _ \<Rightarrow> [(\<lparr>di_handle = 0, di_flags = 0\<rparr>, ''/'')] | None \<Rightarrow> [])"

section \<open>The other operations\<close>

text \<open>A request on the server's descriptor.\<close>

definition fd_call ::
  "'n wire \<Rightarrow> descriptor_impl \<Rightarrow> (u32 \<Rightarrow> request) \<Rightarrow> (response \<Rightarrow> 'r option) \<Rightarrow> 'n rpc_adapter \<Rightarrow>
   (wasi_error + 'r) \<times> 'n rpc_adapter" where
  "fd_call K self q want a =
     (case get_server_fd (di_handle self) (rpc a) of
        Inl e \<Rightarrow> (Inl e, a)
      | Inr d \<Rightarrow> answered want (rpc_call K (q d) a))"

definition fsync_rpc :: "'n wire \<Rightarrow> descriptor_impl \<Rightarrow> 'n rpc_adapter \<Rightarrow> (wasi_error + unit) \<times> 'n rpc_adapter" where
  "fsync_rpc K self a =
     (if di_handle self = 0 \<or> \<not> is_write self then (Inr (), a)
      else
        (case flush_streams K (live_streams_for (is_alive a) (di_handle self) (rpc a)) a of
           (Inl e, a) \<Rightarrow> (Inl e, a)
         | (Inr _, a) \<Rightarrow>
             (case get_server_fd (di_handle self) (rpc a) of
                Inl e \<Rightarrow> (Inl e, a)
              | Inr d \<Rightarrow>
                  with_connection K
                    (\<lambda>c n. if cn_version c < 2 then (Inr (), n) else answered want_ok (call K c (RqFsync d) n)) a)))"

datatype descriptor_type = DtDirectory | DtRegularFile

definition type_of_dir :: "bool \<Rightarrow> descriptor_type" where
  "type_of_dir d = (if d then DtDirectory else DtRegularFile)"

record descriptor_stat =
  ds_type :: descriptor_type
  ds_link_count :: u64
  ds_size :: u64
  ds_access :: "u64 option"
  ds_modification :: "u64 option"
  ds_status_change :: "u64 option"

definition make_descriptor_stat :: "bool \<Rightarrow> u64 \<Rightarrow> descriptor_stat" where
  "make_descriptor_stat d sz = \<lparr>ds_type = type_of_dir d, ds_link_count = 1, ds_size = sz, ds_access = None,
     ds_modification = None, ds_status_change = None\<rparr>"

definition get_type_rpc :: "'n wire \<Rightarrow> descriptor_impl \<Rightarrow> 'n rpc_adapter \<Rightarrow> (wasi_error + descriptor_type) \<times> 'n rpc_adapter" where
  "get_type_rpc K self a =
     (if di_handle self = 0 then (Inr DtDirectory, a)
      else fd_call K self RqFstat (map_option (\<lambda>m. type_of_dir (fm_is_dir m)) \<circ> want_metadata) a)"

definition stat_rpc :: "'n wire \<Rightarrow> descriptor_impl \<Rightarrow> 'n rpc_adapter \<Rightarrow> (wasi_error + descriptor_stat) \<times> 'n rpc_adapter" where
  "stat_rpc K self a =
     (if di_handle self = 0 then (Inr (make_descriptor_stat True 0), a)
      else fd_call K self RqFstat (map_option (\<lambda>m. make_descriptor_stat (fm_is_dir m) (fm_size m)) \<circ> want_metadata) a)"

definition set_size_rpc :: "'n wire \<Rightarrow> u64 \<Rightarrow> descriptor_impl \<Rightarrow> 'n rpc_adapter \<Rightarrow> (wasi_error + unit) \<times> 'n rpc_adapter" where
  "set_size_rpc K sz self a = fd_call K self (\<lambda>d. RqFtruncate d sz) want_ok a"

definition read_rpc ::
  "nat \<Rightarrow> 'n wire \<Rightarrow> u64 \<Rightarrow> u64 \<Rightarrow> descriptor_impl \<Rightarrow> 'n rpc_adapter \<Rightarrow> (wasi_error + bytes \<times> bool) \<times> 'n rpc_adapter" where
  "read_rpc W K len off self a =
     (case get_server_fd (di_handle self) (rpc a) of
        Inl e \<Rightarrow> (Inl e, a)
      | Inr d \<Rightarrow>
          with_connection K
            (seek_then K d off (RqRead d (as_usize W len))
              (map_option (\<lambda>b. (b, length b < as_usize W len)) \<circ> want_data)) a)"

definition write_rpc ::
  "'n wire \<Rightarrow> bytes \<Rightarrow> u64 \<Rightarrow> descriptor_impl \<Rightarrow> 'n rpc_adapter \<Rightarrow> (wasi_error + u64) \<times> 'n rpc_adapter" where
  "write_rpc K data off self a =
     (case get_server_fd (di_handle self) (rpc a) of
        Inl e \<Rightarrow> (Inl e, a)
      | Inr d \<Rightarrow> with_connection K (seek_then K d off (RqWrite d data) (map_option usize_as_u64 \<circ> want_written)) a)"

record directory_entry_stream =
  ents :: "(descriptor_type \<times> string) list"
  ent_index :: nat

definition read_directory_rpc ::
  "'n wire \<Rightarrow> descriptor_impl \<Rightarrow> 'n rpc_adapter \<Rightarrow> (wasi_error + directory_entry_stream) \<times> 'n rpc_adapter" where
  "read_directory_rpc K self a =
     fd_call K self RqReaddirFd
       (map_option (\<lambda>es. \<lparr>ents = map (\<lambda>e. (type_of_dir (de_is_dir e), de_name e)) es, ent_index = 0\<rparr>) \<circ> want_entries) a"

definition read_directory_entry :: "directory_entry_stream \<Rightarrow> (descriptor_type \<times> string) option \<times> directory_entry_stream" where
  "read_directory_entry ds =
     (if ent_index ds \<ge> length (ents ds) then (None, ds)
      else (Some (ents ds ! ent_index ds), ds\<lparr>ent_index := ent_index ds + 1\<rparr>))"

definition create_directory_at_rpc :: "'n wire \<Rightarrow> string \<Rightarrow> descriptor_impl \<Rightarrow> 'n rpc_adapter \<Rightarrow> (wasi_error + unit) \<times> 'n rpc_adapter" where
  "create_directory_at_rpc K path self a = answered want_ok (rpc_call K (RqMkdir (full_path self path)) a)"

definition stat_at_rpc :: "'n wire \<Rightarrow> string \<Rightarrow> descriptor_impl \<Rightarrow> 'n rpc_adapter \<Rightarrow> (wasi_error + descriptor_stat) \<times> 'n rpc_adapter" where
  "stat_at_rpc K path self a =
     answered (map_option (\<lambda>m. make_descriptor_stat (fm_is_dir m) (fm_size m)) \<circ> want_metadata)
       (rpc_call K (RqStat (full_path self path)) a)"

definition remove_directory_at_rpc :: "'n wire \<Rightarrow> string \<Rightarrow> descriptor_impl \<Rightarrow> 'n rpc_adapter \<Rightarrow> (wasi_error + unit) \<times> 'n rpc_adapter" where
  "remove_directory_at_rpc K path self a = answered want_ok (rpc_call K (RqRmdir (full_path self path)) a)"

definition unlink_file_at_rpc :: "'n wire \<Rightarrow> string \<Rightarrow> descriptor_impl \<Rightarrow> 'n rpc_adapter \<Rightarrow> (wasi_error + unit) \<times> 'n rpc_adapter" where
  "unlink_file_at_rpc K path self a = answered want_ok (rpc_call K (RqUnlink (full_path self path)) a)"

text \<open>The descriptor of the new path is not looked at.\<close>

definition rename_at_rpc ::
  "'n wire \<Rightarrow> string \<Rightarrow> descriptor_impl \<Rightarrow> string \<Rightarrow> descriptor_impl \<Rightarrow> 'n rpc_adapter \<Rightarrow> (wasi_error + unit) \<times> 'n rpc_adapter" where
  "rename_at_rpc K old_path new_descriptor new_path self a =
     answered want_ok (rpc_call K (RqRename (full_path self old_path) (full_path self new_path)) a)"

definition is_same_object :: "descriptor_impl \<Rightarrow> descriptor_impl \<Rightarrow> bool" where
  "is_same_object self other \<longleftrightarrow> di_handle self = di_handle other"

text \<open>\<open>poll\<close>: pollables of files are always ready; when there are none of them the host waits.\<close>

datatype 'p pollable = AlwaysReady | Passthrough 'p

definition poll_rpc :: "('p list \<Rightarrow> nat list) \<Rightarrow> ('p \<Rightarrow> bool) \<Rightarrow> 'p pollable list \<Rightarrow> nat list" where
  "poll_rpc host_poll host_ready ps =
     (let numbered = zip [0 ..< length ps] ps;
          ready = map fst (filter (\<lambda>(i, p). case p of AlwaysReady \<Rightarrow> True | Passthrough _ \<Rightarrow> False) numbered);
          host = List.map_filter (\<lambda>(i, p). case p of AlwaysReady \<Rightarrow> None | Passthrough h \<Rightarrow> Some (i, h)) numbered in
      if ready = [] \<and> host \<noteq> [] then map (\<lambda>j. fst (host ! j)) (host_poll (map snd host))
      else ready @ map fst (filter (\<lambda>(i, h). host_ready h) host))"

end
