(* ===== verification/Rpc_Client_Inv.thy ===== *)
theory Rpc_Client_Inv
  imports Rpc_Client
begin

text \<open>
  The adapter by itself: how long an open waits, what every operation does to the tables of
  descriptors and streams, and the invariant of the tables in every state an application can bring
  about. \<open>client_run K n L a\<close> says that the adapter is in state \<open>a\<close> after \<open>n\<close> opens, with \<open>L\<close>
  the handles of the descriptors that the application still holds. What a request returns does not
  matter there.
\<close>

section \<open>Calls leave the tables alone\<close>

definition same_tables :: "'n rpc_adapter \<Rightarrow> 'n rpc_adapter \<Rightarrow> bool" where
  "same_tables a a' \<longleftrightarrow> rpc a' = rpc a \<and> out_streams a' = out_streams a \<and> next_stream a' = next_stream a"

lemma same_tables_refl [simp]: "same_tables a a"
  by (simp add: same_tables_def)

lemma same_tables_trans: "same_tables a b \<Longrightarrow> same_tables b c \<Longrightarrow> same_tables a c"
  by (simp add: same_tables_def)

lemma with_connection_tables: "with_connection K g a = (r, a') \<Longrightarrow> same_tables a a'"
  by (auto simp: with_connection_def same_tables_def Let_def split: option.splits prod.splits sum.splits)

lemma answered_tables: "answered want p = (r, a') \<Longrightarrow> snd p = a'"
  by (cases p) (auto simp: answered_def)

lemma rpc_call_tables: "rpc_call K q a = (r, a') \<Longrightarrow> same_tables a a'"
  unfolding rpc_call_def by (rule with_connection_tables)

lemma fd_call_tables: "fd_call K self q want a = (r, a') \<Longrightarrow> same_tables a a'"
  by (auto simp: fd_call_def dest!: answered_tables split: sum.splits) (metis prod.collapse rpc_call_tables)

lemma send_close_tables: "same_tables a (send_close K d a)"
  by (simp add: send_close_def same_tables_def split: option.split)

lemma sleep_ms_tables: "same_tables a (sleep_ms K ms a)"
  by (simp add: sleep_ms_def same_tables_def)

lemma open_retry_tables: "open_retry K q delays a = (r, a') \<Longrightarrow> same_tables a a'"
proof (induction delays arbitrary: a)
  case (Cons ms delays)
  obtain p a1 where c: "rpc_call K q a = (p, a1)" by fastforce
  note t = rpc_call_tables [OF c]
  show ?case
  proof (cases "\<exists>x. p = Inr x \<and> open_answer x = None")
    case True
    then have "open_retry K q delays (sleep_ms K ms a1) = (r, a')" using Cons.prems c by auto
    from Cons.IH [OF this] show ?thesis using t sleep_ms_tables same_tables_trans by blast
  next
    case False
    then show ?thesis using Cons.prems c t by (cases p) (auto split: option.splits)
  qed
qed (auto dest: rpc_call_tables split: prod.splits sum.splits option.splits)

lemma flush_buffer_tables:
  "flush_buffer K st a = (r, st', a') \<Longrightarrow> same_tables a a' \<and> fo_handle st' = fo_handle st \<and> fo_append st' = fo_append st"
  by (auto simp: flush_buffer_def Let_def dest: with_connection_tables split: if_splits sum.splits prod.splits)

lemma close_if_tables:
  "rpc (close_if K p a) = snd p \<and> out_streams (close_if K p a) = out_streams a \<and> next_stream (close_if K p a) = next_stream a"
proof (cases "fst p")
  case (Some d)
  show ?thesis using send_close_tables [of "a\<lparr>rpc := snd p\<rparr>" K d] Some
    by (simp add: close_if_def same_tables_def)
qed (simp add: close_if_def)

section \<open>Waiting\<close>

lemma backoff_sum: "0 < step \<Longrightarrow> sum_list (backoff budget spent step) = budget - spent"
proof (induction budget spent step rule: backoff.induct)
  case (1 budget spent step)
  then show ?case by (subst backoff.simps) (auto simp: Let_def)
qed

lemma backoff_range: "0 < step \<Longrightarrow> step \<le> 500 \<Longrightarrow> d \<in> set (backoff budget spent step) \<Longrightarrow> 0 < d \<and> d \<le> 500"
proof (induction budget spent step rule: backoff.induct)
  case (1 budget spent step)
  from 1(4) have g: "spent < budget" "d = min step (budget - spent) \<or> d \<in> set (backoff budget (spent + min step (budget - spent)) (min (step * 2) 500))"
    by (subst (asm) backoff.simps, auto simp: Let_def split: if_splits)+
  then show ?case using 1(1) [of "min step (budget - spent)"] 1(2,3) by auto
qed

text \<open>A connection on which the time that was slept is counted.\<close>

definition timed :: "'n wire \<Rightarrow> ('n \<times> nat) wire" where
  "timed K =
     \<lparr>wi_open = (\<lambda>(n, t). case wi_open K n of (r, n) \<Rightarrow> (r, (n, t))),
      wi_send = (\<lambda>s q (n, t). case wi_send K s q n of (r, n) \<Rightarrow> (r, (n, t))),
      wi_receive = (\<lambda>(n, t). case wi_receive K n of (r, n) \<Rightarrow> (r, (n, t))),
      wi_sleep = (\<lambda>ms (n, t). (wi_sleep K ms n, t + ms)), wi_env = wi_env K\<rparr>"

lemma timed_keeps:
  "wi_open (timed K) nt = (p, nt') \<Longrightarrow> snd nt' = snd nt"
  "wi_send (timed K) s q nt = (u, nt') \<Longrightarrow> snd nt' = snd nt"
  "wi_receive (timed K) nt = (r, nt') \<Longrightarrow> snd nt' = snd nt"
  "snd (wi_sleep (timed K) ms nt) = snd nt + ms"
  "wi_env (timed K) = wi_env K"
  by (cases nt; auto simp: timed_def split: prod.splits)+

lemma timed_handshake: "handshake (timed K) vs nt = (r, nt') \<Longrightarrow> snd nt' = snd nt"
proof (induction vs arbitrary: nt)
  case (Cons v vs)
  obtain u n1 where s: "wi_send (timed K) None (RqConnect v) nt = (u, n1)" by (cases "wi_send (timed K) None (RqConnect v) nt")
  obtain x n2 where x: "wi_receive (timed K) n1 = (x, n2)" by (cases "wi_receive (timed K) n1")
  have t: "snd n1 = snd nt" "snd n2 = snd nt" using timed_keeps(2) [OF s] timed_keeps(3) [OF x] by simp_all
  show ?case
    using Cons.prems s x t Cons.IH [of n2] by (auto split: sum.splits response.splits if_splits)
qed simp

lemma timed_connect: "connect (timed K) nt = (r, nt') \<Longrightarrow> snd nt' = snd nt"
  by (auto simp: connect_def simp del: handshake.simps dest!: timed_keeps(1) timed_handshake split: prod.splits sum.splits)

lemma timed_call: "call (timed K) c q nt = (r, nt') \<Longrightarrow> snd nt' = snd nt"
  by (auto simp: call_def dest!: timed_keeps(2,3) split: prod.splits sum.splits)

lemma timed_rpc_call:
  assumes "rpc_call (timed K) q a = (r, a')"
  shows "snd (wire_state a') = snd (wire_state a)"
proof -
  obtain r0 n0 where co: "connect (timed K) (wire_state a) = (r0, n0)" by (cases "connect (timed K) (wire_state a)")
  have "snd n0 = snd (wire_state a)" by (rule timed_connect [OF co])
  then show ?thesis
    using assms co unfolding rpc_call_def with_connection_def Let_def
    by (auto dest!: timed_call split: option.splits prod.splits sum.splits)
qed

text \<open>No error of the connection itself is \<open>Busy\<close>: \<open>send_raw\<close> and \<open>receive_raw\<close> report \<open>Io\<close>.\<close>

definition never_busy :: "'n wire \<Rightarrow> bool" where
  "never_busy K \<longleftrightarrow> (\<forall>s q n. fst (wi_send K s q n) \<noteq> Inl WBusy) \<and> (\<forall>n. fst (wi_receive K n) \<noteq> Inl WBusy)"

lemma never_busy_timed: "never_busy K \<Longrightarrow> never_busy (timed K)"
  by (auto simp: never_busy_def timed_def split: prod.splits) (metis fst_conv)+

lemma rpc_call_never_busy: "never_busy K \<Longrightarrow> rpc_call K q a = (r, a') \<Longrightarrow> r \<noteq> Inl WBusy"
proof -
  assume K: "never_busy K" and run: "rpc_call K q a = (r, a')"
  have "fst (call K c q n) \<noteq> Inl WBusy" for c n
    using K by (auto simp: never_busy_def call_def split: prod.splits sum.splits) (metis fst_conv)+
  then show ?thesis
    using run unfolding rpc_call_def with_connection_def Let_def
    by (auto split: option.splits prod.splits sum.splits) (metis fst_conv)+
qed

lemma open_answer_busy: "open_answer r = Some x \<Longrightarrow> x \<noteq> Inl WBusy"
proof -
  have "c \<noteq> EcBusy \<Longrightarrow> rpc_error_to_wasi c \<noteq> WBusy" for c by (cases c) auto
  then show "open_answer r = Some x \<Longrightarrow> x \<noteq> Inl WBusy"
    by (auto simp: open_answer_def split: response.splits if_splits)
qed

lemma open_retry_time:
  assumes K: "never_busy K"
  shows "open_retry (timed K) q delays a = (r, a') \<Longrightarrow>
    snd (wire_state a') \<le> snd (wire_state a) + sum_list delays \<and>
    (r = Inl WBusy \<longrightarrow> snd (wire_state a') = snd (wire_state a) + sum_list delays)"
proof (induction delays arbitrary: a)
  case Nil
  obtain p a1 where c: "rpc_call (timed K) q a = (p, a1)" by fastforce
  note t = timed_rpc_call [OF c] rpc_call_never_busy [OF never_busy_timed [OF K] c]
  show ?case using Nil c t by (auto split: sum.splits option.splits)
next
  case (Cons ms delays)
  obtain p a1 where c: "rpc_call (timed K) q a = (p, a1)" by fastforce
  note t = timed_rpc_call [OF c] rpc_call_never_busy [OF never_busy_timed [OF K] c]
  show ?case
  proof (cases "\<exists>x. p = Inr x \<and> open_answer x = None")
    case True
    then have "open_retry (timed K) q delays (sleep_ms (timed K) ms a1) = (r, a')" using Cons.prems c by auto
    from Cons.IH [OF this] show ?thesis using t by (auto simp: sleep_ms_def timed_keeps(4))
  next
    case False
    then show ?thesis using Cons.prems c t by (auto dest: open_answer_busy split: sum.splits option.splits)
  qed
qed

section \<open>The tables\<close>

text \<open>The streams alive of a handle.\<close>

definition streams_of :: "'n rpc_adapter \<Rightarrow> u32 \<Rightarrow> nat set" where
  "streams_of a h = {w. \<exists>st. out_streams a w = Some st \<and> fo_handle st = h}"

definition listed :: "rpc_state \<Rightarrow> u32 \<Rightarrow> nat set" where
  "listed t h = (case live_streams t h of None \<Rightarrow> {} | Some ws \<Rightarrow> set ws)"

text \<open>The table lists every live stream under its handle, and no number that will be given out again.\<close>

definition streams_ok :: "'n rpc_adapter \<Rightarrow> bool" where
  "streams_ok a \<longleftrightarrow>
     (\<forall>h. streams_of a h \<subseteq> listed (rpc a) h) \<and>
     (\<forall>h w. w \<in> listed (rpc a) h \<longrightarrow> w < next_stream a \<and> (\<forall>st. out_streams a w = Some st \<longrightarrow> fo_handle st = h))"

definition client_inv :: "nat \<Rightarrow> u32 set \<Rightarrow> 'n rpc_adapter \<Rightarrow> bool" where
  "client_inv n L a \<longleftrightarrow> streams_ok a \<and> next_descriptor (rpc a) = of_nat (n + 1) \<and>
     (\<forall>h \<in> L. h \<noteq> 0 \<and> unat h \<le> n) \<and> descriptor_to_fd (rpc a) 0 = Some 0 \<and>
     (\<forall>h. h \<noteq> 0 \<longrightarrow> descriptor_to_fd (rpc a) h \<noteq> None \<longrightarrow> unat h \<le> n) \<and>
     (\<forall>h. h \<noteq> 0 \<longrightarrow> (descriptor_to_fd (rpc a) h \<noteq> None \<longleftrightarrow> h \<in> L \<or> streams_of a h \<noteq> {})) \<and>
     (\<forall>h. h \<noteq> 0 \<longrightarrow> (h \<in> close_pending (rpc a) \<longleftrightarrow> h \<notin> L \<and> streams_of a h \<noteq> {})) \<and> 0 \<notin> close_pending (rpc a)"

inductive client_run :: "'n wire \<Rightarrow> nat \<Rightarrow> u32 set \<Rightarrow> 'n rpc_adapter \<Rightarrow> bool" for K where
  start: "client_run K 0 {} (adapter_new n)"
| open_ok: "client_run K n L a \<Longrightarrow> open_at_rpc K self path ofs dfs a = (Inr d, a') \<Longrightarrow>
    client_run K (n + 1) (insert (di_handle d) L) a'"
| open_failed: "client_run K n L a \<Longrightarrow> open_at_rpc K self path ofs dfs a = (Inl e, a') \<Longrightarrow> client_run K n L a'"
| dropped: "client_run K n L a \<Longrightarrow> di_handle self \<in> L \<Longrightarrow> client_run K n (L - {di_handle self}) (drop_descriptor K self a)"
| new_stream: "client_run K n L a \<Longrightarrow> di_handle self \<in> insert 0 L \<Longrightarrow> output_stream off ap self a = (r, a') \<Longrightarrow>
    client_run K n L a'"
| stream_write: "client_run K n L a \<Longrightarrow> client_run K n L (stream_buffer w data a)"
| stream_dropped: "client_run K n L a \<Longrightarrow> client_run K n L (drop_stream K w a)"
| synced: "client_run K n L a \<Longrightarrow> fsync_rpc K self a = (r, a') \<Longrightarrow> client_run K n L a'"
| request: "client_run K n L a \<Longrightarrow> with_connection K g a = (r :: wasi_error + unit, a') \<Longrightarrow> client_run K n L a'"

lemma client_inv_cong:
  assumes "client_inv n L a" and "rpc a' = rpc a" and "next_stream a' = next_stream a"
    and "\<And>w. map_option fo_handle (out_streams a' w) = map_option fo_handle (out_streams a w)"
  shows "client_inv n L a'"
proof -
  have "(\<exists>st. out_streams a' w = Some st \<and> fo_handle st = h) = (\<exists>st. out_streams a w = Some st \<and> fo_handle st = h)" for w h
    using assms(4) [of w] by (cases "out_streams a' w"; cases "out_streams a w") auto
  then have s: "streams_of a' = streams_of a" by (simp add: streams_of_def fun_eq_iff)
  have "(\<forall>st. out_streams a' w = Some st \<longrightarrow> fo_handle st = h) = (\<forall>st. out_streams a w = Some st \<longrightarrow> fo_handle st = h)" for w h
    using assms(4) [of w] by (cases "out_streams a' w"; cases "out_streams a w") auto
  with s have "streams_ok a' = streams_ok a" using assms(2,3) by (simp add: streams_ok_def)
  with s assms(1-3) show ?thesis by (simp add: client_inv_def)
qed

lemma client_inv_tables: "client_inv n L a \<Longrightarrow> same_tables a a' \<Longrightarrow> client_inv n L a'"
  by (erule client_inv_cong) (simp_all add: same_tables_def)

lemma live_set: "set (live_streams_for P h t) = {w \<in> listed t h. P w}"
  by (simp add: live_streams_for_def listed_def split: option.split)

lemma live_streams_alive: "streams_ok a \<Longrightarrow> set (live_streams_for (is_alive a) h (rpc a)) = streams_of a h"
  unfolding live_set streams_ok_def is_alive_def streams_of_def by blast

lemma live_count_iff: "streams_ok a \<Longrightarrow> live_stream_count (is_alive a) h (rpc a) > 0 \<longleftrightarrow> streams_of a h \<noteq> {}"
  using live_streams_alive [of a h] by (auto simp: live_stream_count_def)

lemma listed_simps:
  "listed (t\<lparr>close_pending := P\<rparr>) = listed t"
  "listed (t\<lparr>live_streams := (live_streams t)(h := None)\<rparr>) = (listed t)(h := {})"
  "listed (t\<lparr>live_streams := (live_streams t)(h \<mapsto> ws)\<rparr>) = (listed t)(h := set ws)"
  by (auto simp: listed_def fun_eq_iff)

lemma stream_opened_listed: "listed (stream_opened h w t) = (listed t)(h := insert w (listed t h))"
  by (auto simp: listed_def stream_opened_def fun_eq_iff split: option.splits)

lemma streams_of_update:
  "streams_of (a\<lparr>out_streams := (out_streams a)(w := None)\<rparr>) h = streams_of a h - {w}"
  "fo_handle st = k \<Longrightarrow> out_streams a w = None \<Longrightarrow>
    streams_of (a\<lparr>out_streams := (out_streams a)(w \<mapsto> st)\<rparr>) h = (if h = k then insert w (streams_of a h) else streams_of a h)"
  by (auto simp: streams_of_def)

lemma release_facts:
  assumes "descriptor_to_fd t h = Some d" and "release_descriptor h t = (r, t')"
  shows "r = Some d" and "descriptor_to_fd t' = (descriptor_to_fd t)(h := None)" and "listed t' = (listed t)(h := {})"
    and "close_pending t' = close_pending t - {h}" and "next_descriptor t' = next_descriptor t"
  using assms by (auto simp: release_descriptor_def listed_def fun_eq_iff)

text \<open>The step that every operation ends in: what the invariant needs of the new state.\<close>

lemma client_invI:
  assumes "\<And>h. streams_of a h \<subseteq> listed (rpc a) h"
    and "\<And>h w. w \<in> listed (rpc a) h \<Longrightarrow> w < next_stream a \<and> (\<forall>st. out_streams a w = Some st \<longrightarrow> fo_handle st = h)"
    and "next_descriptor (rpc a) = of_nat (n + 1)" and "\<And>h. h \<in> L \<Longrightarrow> h \<noteq> 0 \<and> unat h \<le> n"
    and "descriptor_to_fd (rpc a) 0 = Some 0"
    and "\<And>h. h \<noteq> 0 \<Longrightarrow> descriptor_to_fd (rpc a) h \<noteq> None \<Longrightarrow> unat h \<le> n"
    and "\<And>h. h \<noteq> 0 \<Longrightarrow> descriptor_to_fd (rpc a) h \<noteq> None \<longleftrightarrow> h \<in> L \<or> streams_of a h \<noteq> {}"
    and "\<And>h. h \<noteq> 0 \<Longrightarrow> h \<in> close_pending (rpc a) \<longleftrightarrow> h \<notin> L \<and> streams_of a h \<noteq> {}"
    and "0 \<notin> close_pending (rpc a)"
  shows "client_inv n L a"
  unfolding client_inv_def streams_ok_def using assms by blast

lemma client_invD:
  assumes "client_inv n L a"
  shows "streams_ok a" and "\<And>h. streams_of a h \<subseteq> listed (rpc a) h"
    and "\<And>h w. w \<in> listed (rpc a) h \<Longrightarrow> w < next_stream a"
    and "\<And>h w st. w \<in> listed (rpc a) h \<Longrightarrow> out_streams a w = Some st \<Longrightarrow> fo_handle st = h"
    and "next_descriptor (rpc a) = of_nat (n + 1)" and "\<And>h. h \<in> L \<Longrightarrow> h \<noteq> 0" and "\<And>h. h \<in> L \<Longrightarrow> unat h \<le> n"
    and "descriptor_to_fd (rpc a) 0 = Some 0"
    and "\<And>h. h \<noteq> 0 \<Longrightarrow> descriptor_to_fd (rpc a) h \<noteq> None \<Longrightarrow> unat h \<le> n"
    and "\<And>h. h \<noteq> 0 \<Longrightarrow> descriptor_to_fd (rpc a) h \<noteq> None \<longleftrightarrow> h \<in> L \<or> streams_of a h \<noteq> {}"
    and "\<And>h. h \<noteq> 0 \<Longrightarrow> h \<in> close_pending (rpc a) \<longleftrightarrow> h \<notin> L \<and> streams_of a h \<noteq> {}"
    and "0 \<notin> close_pending (rpc a)"
  using assms unfolding client_inv_def streams_ok_def by (elim conjE; metis subsetD subsetI)+

lemma client_inv_new: "client_inv 0 {} (adapter_new n)"
proof -
  have new: "streams_of (adapter_new n) h = {}" "listed (rpc (adapter_new n)) h = {}"
      "h \<noteq> 0 \<Longrightarrow> descriptor_to_fd (rpc (adapter_new n)) h = None" "close_pending (rpc (adapter_new n)) = {}" for h
    by (simp_all add: adapter_new_def rpc_new_def streams_of_def listed_def)
  show ?thesis
  proof (rule client_invI)
    show "next_descriptor (rpc (adapter_new n)) = of_nat (0 + 1)" "descriptor_to_fd (rpc (adapter_new n)) 0 = Some 0"
      by (simp_all add: adapter_new_def rpc_new_def)
  qed (simp_all add: new)
qed

lemma fresh_stream: "client_inv n L a \<Longrightarrow> out_streams a (next_stream a) = None"
proof (rule ccontr)
  assume inv: "client_inv n L a" and "out_streams a (next_stream a) \<noteq> None"
  then obtain st where "out_streams a (next_stream a) = Some st" by blast
  then have "next_stream a \<in> streams_of a (fo_handle st)" by (auto simp: streams_of_def)
  then show False using client_invD(2,3) [OF inv] by blast
qed

lemma unat_of_nat32: "m < 2 ^ 32 \<Longrightarrow> unat (of_nat m :: u32) = m"
  by (simp add: unsigned_of_nat take_bit_nat_eq_self)

lemma open_inv:
  assumes inv: "client_inv n L a" and n: "n + 1 < 2 ^ 32" and run: "open_at_rpc K self path ofs dfs a = (Inr d, a')"
  shows "client_inv (n + 1) (insert (di_handle d) L) a' \<and> di_handle d = of_nat (n + 1) \<and>
    out_streams a' = out_streams a \<and> next_stream a' = next_stream a"
proof -
  obtain r a1 where op: "open_retry K (RqOpenPath (full_path self path) (convert_flags ofs dfs))
      (busy_backoff_schedule (lock_timeout_budget_ms (wi_env K))) a = (r, a1)" by fastforce
  note inv1 = client_inv_tables [OF inv open_retry_tables [OF op]]
  note D = client_invD [OF inv1]
  obtain fd where r: "r = Inr fd" using run op by (cases r) (auto simp: open_at_rpc_def Let_def split: prod.splits)
  define h where "h = next_descriptor (rpc a1)"
  have hn: "h = of_nat (n + 1)" "unat h = n + 1" using D(5) unat_of_nat32 [OF n] by (simp_all add: h_def del: of_nat_add)
  have h0: "h \<noteq> 0" using hn(2) by auto
  have new: "descriptor_to_fd (rpc a1) h = None" using D(9) [of h] h0 hn(2) by fastforce
  then have ns: "streams_of a1 h = {}" "h \<notin> L" using D(10) [OF h0] by auto
  have a': "rpc a' = snd (allocate_descriptor fd (convert_flags ofs dfs) (rpc a1))" "di_handle d = h"
      "out_streams a' = out_streams a1" "next_stream a' = next_stream a1"
    using run op r by (auto simp: open_at_rpc_def Let_def allocate_descriptor_def h_def)
  have t: "descriptor_to_fd (rpc a') = (descriptor_to_fd (rpc a1))(h \<mapsto> fd)" "next_descriptor (rpc a') = h + 1"
      "listed (rpc a') = listed (rpc a1)" "close_pending (rpc a') = close_pending (rpc a1)" "streams_of a' = streams_of a1"
    using a' by (auto simp: allocate_descriptor_def Let_def h_def listed_def streams_of_def)
  have "client_inv (n + 1) (insert h L) a'"
  proof (rule client_invI)
    show "streams_of a' k \<subseteq> listed (rpc a') k" for k using D(2) t by simp
    show "w < next_stream a' \<and> (\<forall>st. out_streams a' w = Some st \<longrightarrow> fo_handle st = k)" if "w \<in> listed (rpc a') k" for k w
      using that D(3,4) t a' by auto
    show "next_descriptor (rpc a') = of_nat (n + 1 + 1)" using t hn by simp
    show "k \<noteq> 0 \<and> unat k \<le> n + 1" if "k \<in> insert h L" for k using that h0 hn D(6,7) by (auto simp: le_SucI)
    show "descriptor_to_fd (rpc a') 0 = Some 0" using t h0 D(8) by simp
    show "unat k \<le> n + 1" if "k \<noteq> 0" "descriptor_to_fd (rpc a') k \<noteq> None" for k
      using that t hn D(9) [of k] by (cases "k = h") (auto simp: le_SucI)
    show "descriptor_to_fd (rpc a') k \<noteq> None \<longleftrightarrow> k \<in> insert h L \<or> streams_of a' k \<noteq> {}" if "k \<noteq> 0" for k
      using D(10) [OF that] t by auto
    show "k \<in> close_pending (rpc a') \<longleftrightarrow> k \<notin> insert h L \<and> streams_of a' k \<noteq> {}" if "k \<noteq> 0" for k
      using D(11) [OF that] t ns by auto
    show "0 \<notin> close_pending (rpc a')" using t D(12) by simp
  qed
  then show ?thesis using a' hn open_retry_tables [OF op] by (simp add: same_tables_def)
qed

lemma open_failed_inv:
  assumes inv: "client_inv n L a" and run: "open_at_rpc K self path ofs dfs a = (Inl e, a')"
  shows "client_inv n L a'"
proof -
  obtain r a1 where op: "open_retry K (RqOpenPath (full_path self path) (convert_flags ofs dfs))
      (busy_backoff_schedule (lock_timeout_budget_ms (wi_env K))) a = (r, a1)" by fastforce
  then have "a' = a1" using run by (cases r) (auto simp: open_at_rpc_def Let_def split: prod.splits)
  then show ?thesis using client_inv_tables [OF inv open_retry_tables [OF op]] by simp
qed

text \<open>Unmapping a handle that nobody needs any more.\<close>

lemma release_inv:
  assumes inv: "client_inv n L a" and h: "h \<noteq> 0" "descriptor_to_fd (rpc a) h = Some d" "streams_of a h = {}"
    and rel: "release_descriptor h (rpc a) = (r, t')" and a': "rpc a' = t'" "out_streams a' = out_streams a" "next_stream a' = next_stream a"
  shows "client_inv n (L - {h}) a'"
proof -
  note D = client_invD [OF inv]
  note R = release_facts [OF h(2) rel]
  have s: "streams_of a' = streams_of a" using a' by (intro ext) (simp add: streams_of_def)
  show ?thesis
  proof (rule client_invI)
    show "streams_of a' k \<subseteq> listed (rpc a') k" for k using D(2) [of k] R(3) s a' h(3) by auto
    show "w < next_stream a' \<and> (\<forall>st. out_streams a' w = Some st \<longrightarrow> fo_handle st = k)" if "w \<in> listed (rpc a') k" for k w
      using that D(3,4) R(3) a' by (auto split: if_splits)
    show "k \<in> close_pending (rpc a') \<longleftrightarrow> k \<notin> L - {h} \<and> streams_of a' k \<noteq> {}" if "k \<noteq> 0" for k
      using D(11) [OF that] R(4) s a' h(3) by auto
    show "descriptor_to_fd (rpc a') k \<noteq> None \<longleftrightarrow> k \<in> L - {h} \<or> streams_of a' k \<noteq> {}" if "k \<noteq> 0" for k
      using D(10) [OF that] R(2) s a' h(3) by auto
  qed (use D R s a' h in \<open>auto split: if_splits\<close>)
qed

lemma drop_descriptor_inv:
  assumes inv: "client_inv n L a" and h: "di_handle self \<in> L"
  shows "client_inv n (L - {di_handle self}) (drop_descriptor K self a)"
proof -
  note D = client_invD [OF inv]
  define k where "k = di_handle self"
  have k: "k \<in> L" "k \<noteq> 0" using h D(6) by (auto simp: k_def)
  obtain d where d: "descriptor_to_fd (rpc a) k = Some d" using D(10) [OF k(2)] k by auto
  obtain r t where dd: "descriptor_dropped (is_alive a) k (rpc a) = (r, t)" by fastforce
  define a' where "a' = drop_descriptor K self a"
  have a': "rpc a' = t" "out_streams a' = out_streams a" "next_stream a' = next_stream a"
    using k dd close_if_tables [of K "(r, t)" a] by (simp_all add: a'_def drop_descriptor_def k_def)
  show ?thesis
  proof (cases "streams_of a k = {}")
    case True
    then have "release_descriptor k (rpc a) = (r, t)" using dd live_count_iff [OF D(1), of k] by (simp add: descriptor_dropped_def)
    from release_inv [OF inv k(2) d True this a'] show ?thesis by (simp add: a'_def k_def)
  next
    case False
    then have t: "t = (rpc a)\<lparr>close_pending := insert k (close_pending (rpc a))\<rparr>"
      using dd live_count_iff [OF D(1), of k] by (auto simp: descriptor_dropped_def)
    have s: "streams_of a' = streams_of a" using a' by (intro ext) (simp add: streams_of_def)
    have "client_inv n (L - {k}) a'"
    proof (rule client_invI)
      show "j \<in> close_pending (rpc a') \<longleftrightarrow> j \<notin> L - {k} \<and> streams_of a' j \<noteq> {}" if "j \<noteq> 0" for j
        using D(11) [OF that] a' t s False by auto
      show "descriptor_to_fd (rpc a') j \<noteq> None \<longleftrightarrow> j \<in> L - {k} \<or> streams_of a' j \<noteq> {}" if "j \<noteq> 0" for j
        using D(10) [OF that] a' t s False by auto
    qed (use D a' t s k in \<open>auto simp: listed_simps\<close>)
    then show ?thesis by (simp add: a'_def k_def)
  qed
qed

lemma output_stream_inv:
  assumes inv: "client_inv n L a" and h: "di_handle self \<in> insert 0 L" and run: "output_stream off ap self a = (r, a')"
  shows "client_inv n L a'"
proof (cases "get_server_fd (di_handle self) (rpc a)")
  case (Inl e)
  then show ?thesis using run inv by (simp add: output_stream_def)
next
  case (Inr d)
  note D = client_invD [OF inv]
  define k w where "k = di_handle self" and "w = next_stream a"
  define st where "st = \<lparr>fo_handle = k, fo_offset = off, fo_append = ap, fo_buffer = []\<rparr>"
  have a': "a' = a\<lparr>next_stream := w + 1, out_streams := (out_streams a)(w \<mapsto> st), rpc := stream_opened k w (rpc a)\<rparr>"
    using run Inr by (simp add: output_stream_def k_def w_def st_def Let_def)
  have s: "streams_of a' = (streams_of a)(k := insert w (streams_of a k))"
    using streams_of_update(2) [of st k a w] fresh_stream [OF inv]
    by (auto simp: a' st_def w_def streams_of_def fun_eq_iff)
  have l: "listed (rpc a') = (listed (rpc a))(k := insert w (listed (rpc a) k))" by (simp add: a' stream_opened_listed)
  have t: "descriptor_to_fd (rpc a') = descriptor_to_fd (rpc a)" "close_pending (rpc a') = close_pending (rpc a)"
      "next_descriptor (rpc a') = next_descriptor (rpc a)" by (simp_all add: a' stream_opened_def)
  show ?thesis
  proof (rule client_invI)
    show "streams_of a' j \<subseteq> listed (rpc a') j" for j using D(2) [of j] s l by auto
    show "u < next_stream a' \<and> (\<forall>x. out_streams a' u = Some x \<longrightarrow> fo_handle x = j)" if "u \<in> listed (rpc a') j" for j u
    proof (cases "u = w")
      case True
      then have "j = k" using that D(3) [of w j] l by (auto simp: w_def split: if_splits)
      with True show ?thesis by (simp add: a' st_def)
    next
      case False
      then have "u \<in> listed (rpc a) j" using that l by (auto split: if_splits)
      then show ?thesis using D(3,4) False by (auto simp: a' w_def less_SucI)
    qed
    show "descriptor_to_fd (rpc a') j \<noteq> None \<longleftrightarrow> j \<in> L \<or> streams_of a' j \<noteq> {}" if "j \<noteq> 0" for j
      using D(10) [OF that] t s h that by (auto simp: k_def)
    show "j \<in> close_pending (rpc a') \<longleftrightarrow> j \<notin> L \<and> streams_of a' j \<noteq> {}" if "j \<noteq> 0" for j
      using D(11) [OF that] t s h that by (auto simp: k_def)
  qed (use D t in auto)
qed

lemma stream_buffer_inv: "client_inv n L a \<Longrightarrow> client_inv n L (stream_buffer w data a)"
  by (erule client_inv_cong) (simp_all add: stream_buffer_def split: option.split)

lemma flush_streams_handles:
  "flush_streams K ws a = (r, a') \<Longrightarrow> rpc a' = rpc a \<and> next_stream a' = next_stream a \<and>
    (\<forall>w. map_option fo_handle (out_streams a' w) = map_option fo_handle (out_streams a w))"
proof (induction ws arbitrary: a)
  case (Cons w ws)
  show ?case
  proof (cases "out_streams a w")
    case None
    then show ?thesis using Cons by simp
  next
    case (Some st)
    obtain p st' a1 where f: "flush_buffer K st a = (p, st', a1)" by (metis prod_cases3)
    note t = flush_buffer_tables [OF f]
    define a2 where "a2 = a1\<lparr>out_streams := (out_streams a1)(w \<mapsto> st')\<rparr>"
    have a2: "rpc a2 = rpc a" "next_stream a2 = next_stream a"
        "\<And>u. map_option fo_handle (out_streams a2 u) = map_option fo_handle (out_streams a u)"
      using t Some by (auto simp: a2_def same_tables_def)
    then show ?thesis using Cons.prems Some f Cons.IH [of a2] by (cases p) (auto simp: a2_def Let_def)
  qed
qed simp

lemma fsync_inv: "client_inv n L a \<Longrightarrow> fsync_rpc K self a = (r, a') \<Longrightarrow> client_inv n L a'"
proof -
  assume inv: "client_inv n L a" and run: "fsync_rpc K self a = (r, a')"
  obtain p a1 where f: "flush_streams K (live_streams_for (is_alive a) (di_handle self) (rpc a)) a = (p, a1)" by fastforce
  have inv1: "client_inv n L a1" using client_inv_cong [OF inv] flush_streams_handles [OF f] by blast
  show ?thesis
    using run f inv inv1
    by (auto simp: fsync_rpc_def dest!: with_connection_tables split: if_splits sum.splits intro: client_inv_tables)
qed

lemma drop_stream_inv:
  assumes inv: "client_inv n L a"
  shows "client_inv n L (drop_stream K w a)"
proof (cases "out_streams a w")
  case None
  then show ?thesis using inv by (simp add: drop_stream_def)
next
  case (Some st)
  note D = client_invD [OF inv]
  define k where "k = fo_handle st"
  define a0 where "a0 = a\<lparr>out_streams := (out_streams a)(w := None)\<rparr>"
  obtain r st' a1 where f: "flush_buffer K st a0 = (r, st', a1)" by (metis prod_cases3)
  have a1: "rpc a1 = rpc a" "out_streams a1 = (out_streams a)(w := None)" "next_stream a1 = next_stream a"
    using flush_buffer_tables [OF f] by (simp_all add: same_tables_def a0_def)
  have wk: "w \<in> streams_of a k" using Some by (simp add: streams_of_def k_def)
  have s1: "streams_of a1 = (streams_of a)(k := streams_of a k - {w})"
    using a1(2) Some by (auto simp: streams_of_def k_def fun_eq_iff)
  have al: "is_alive a1 u \<longleftrightarrow> is_alive a u \<and> u \<noteq> w" for u by (simp add: is_alive_def a1)
  define t1 where "t1 = (rpc a)\<lparr>live_streams := (case live_streams (rpc a) k of
      None \<Rightarrow> live_streams (rpc a) | Some ws \<Rightarrow> (live_streams (rpc a))(k \<mapsto> filter (is_alive a1) ws))\<rparr>"
  have l1: "listed t1 = (listed (rpc a))(k := {u \<in> listed (rpc a) k. is_alive a1 u})"
    by (auto simp: t1_def listed_def fun_eq_iff split: option.splits)
  have t1: "descriptor_to_fd t1 = descriptor_to_fd (rpc a)" "close_pending t1 = close_pending (rpc a)"
      "next_descriptor t1 = next_descriptor (rpc a)" by (simp_all add: t1_def)
  have live: "streams_of a1 k = {u \<in> listed t1 k. is_alive a1 u}"
    using D(2) [of k] D(4) [of _ k] by (auto simp: s1 l1 al) (auto simp: streams_of_def is_alive_def)
  have count: "live_stream_count (is_alive a1) k t1 = 0 \<longleftrightarrow> streams_of a1 k = {}"
    unfolding live_stream_count_def length_0_conv set_empty [symmetric] live_set by (simp add: live)
  define b where "b = a1\<lparr>rpc := t1\<rparr>"
  have sb: "streams_of b = streams_of a1" by (intro ext) (simp add: b_def streams_of_def)
  have mapped: "k \<noteq> 0 \<Longrightarrow> descriptor_to_fd (rpc a) k \<noteq> None" using D(10) [of k] wk by auto
  define res where "res = stream_closed (is_alive a1) k (rpc a1)"
  have run: "drop_stream K w a = close_if K res a1"
    using Some f by (simp add: drop_stream_def a0_def k_def res_def)
  have ct: "rpc (close_if K res a1) = snd res" "out_streams (close_if K res a1) = out_streams a1"
      "next_stream (close_if K res a1) = next_stream a1" using close_if_tables [of K res a1] by simp_all
  have ok: "streams_of b h \<subseteq> listed (rpc b) h" for h
    using D(2) [of h] live sb s1 l1 by (auto simp: b_def)
  have ok2: "u < next_stream b \<and> (\<forall>x. out_streams b u = Some x \<longrightarrow> fo_handle x = h)" if "u \<in> listed (rpc b) h" for h u
    using that D(3) [of u h] D(4) [of u h] l1 a1 by (auto simp: b_def split: if_splits)
  show ?thesis
  proof (cases "streams_of a1 k = {} \<and> k \<in> close_pending (rpc a)")
    case True
    then have k0: "k \<noteq> 0" using D(12) by auto
    have kL: "k \<notin> L" using D(11) [OF k0] True by simp
    obtain d where d: "descriptor_to_fd t1 k = Some d" using mapped [OF k0] t1(1) by auto
    obtain x t2 where rel: "release_descriptor k t1 = (x, t2)" by fastforce
    note R = release_facts [OF d rel]
    have "res = (x, t2)"
      using count t1(2) a1(1) True rel by (auto simp: res_def stream_closed_def Let_def t1_def [symmetric])
    then have fin: "rpc (drop_stream K w a) = t2" "out_streams (drop_stream K w a) = out_streams b"
        "next_stream (drop_stream K w a) = next_stream b" using run ct by (simp_all add: b_def)
    have sf: "streams_of (drop_stream K w a) = streams_of a1" using fin(2) by (intro ext) (simp add: streams_of_def b_def)
    show ?thesis
    proof (rule client_invI)
      show "streams_of (drop_stream K w a) h \<subseteq> listed (rpc (drop_stream K w a)) h" for h
        using ok [of h] True sf sb R(3) by (auto simp: fin(1) b_def)
      show "u < next_stream (drop_stream K w a) \<and> (\<forall>y. out_streams (drop_stream K w a) u = Some y \<longrightarrow> fo_handle y = h)"
        if "u \<in> listed (rpc (drop_stream K w a)) h" for h u
        using that ok2 [of u h] R(3) by (auto simp: fin b_def split: if_splits)
      show "descriptor_to_fd (rpc (drop_stream K w a)) h \<noteq> None \<longleftrightarrow> h \<in> L \<or> streams_of (drop_stream K w a) h \<noteq> {}" if "h \<noteq> 0" for h
        using D(10) [OF that] True kL sf s1 t1 R(2) by (auto simp: fin(1))
      show "h \<in> close_pending (rpc (drop_stream K w a)) \<longleftrightarrow> h \<notin> L \<and> streams_of (drop_stream K w a) h \<noteq> {}" if "h \<noteq> 0" for h
        using D(11) [OF that] True sf s1 t1 R(4) by (auto simp: fin(1))
    qed (use D t1 R k0 in \<open>auto simp: fin(1) split: if_splits\<close>)
  next
    case False
    then have "res = (None, t1)" using count t1(2) a1(1) by (auto simp: res_def stream_closed_def Let_def t1_def)
    then have fin: "rpc (drop_stream K w a) = t1" "out_streams (drop_stream K w a) = out_streams b"
        "next_stream (drop_stream K w a) = next_stream b" using run ct by (simp_all add: b_def)
    have "client_inv n L b"
    proof (rule client_invI [OF ok ok2])
      show "descriptor_to_fd (rpc b) h \<noteq> None \<longleftrightarrow> h \<in> L \<or> streams_of b h \<noteq> {}" if "h \<noteq> 0" for h
        using D(10) [OF that] D(11) [OF that] False sb s1 t1 wk by (auto simp: b_def)
      show "h \<in> close_pending (rpc b) \<longleftrightarrow> h \<notin> L \<and> streams_of b h \<noteq> {}" if "h \<noteq> 0" for h
        using D(11) [OF that] False sb s1 t1 by (auto simp: b_def)
    qed (use D t1 in \<open>auto simp: b_def\<close>)
    then show ?thesis by (rule client_inv_cong) (simp_all add: fin b_def)
  qed
qed

text \<open>The last stream of a descriptor that was dropped before: the server's descriptor is closed.\<close>

lemma stream_closed_last:
  assumes inv: "client_inv n L a3" and a4: "rpc a4 = rpc a3" and sa: "streams_of a4 h = {}"
    and os: "out_streams a4 = (out_streams a3)(w := None)" and pend: "h \<in> close_pending (rpc a3)"
    and res: "stream_closed (is_alive a4) h (rpc a4) = res" and fd: "descriptor_to_fd (rpc a3) h = Some d"
  shows "fst res = Some d"
proof -
  define t where "t = (rpc a4)\<lparr>live_streams := (case live_streams (rpc a4) h of
      None \<Rightarrow> live_streams (rpc a4) | Some ws \<Rightarrow> (live_streams (rpc a4))(h \<mapsto> filter (is_alive a4) ws))\<rparr>"
  have "u \<in> streams_of a4 h" if u: "u \<in> listed t h" "is_alive a4 u" for u
  proof -
    have "u \<in> listed (rpc a3) h" using u(1) by (auto simp: t_def listed_def a4 split: option.splits)
    moreover obtain su where su: "out_streams a4 u = Some su" using u(2) by (auto simp: is_alive_def)
    moreover have "out_streams a3 u = Some su" using su by (auto simp: os split: if_splits)
    ultimately show ?thesis using client_invD(4) [OF inv] by (auto simp: streams_of_def)
  qed
  then have "{u \<in> listed t h. is_alive a4 u} = {}" using sa by blast
  then have "live_stream_count (is_alive a4) h t = 0"
    unfolding live_stream_count_def length_0_conv set_empty [symmetric] live_set .
  then have "res = release_descriptor h t"
    using pend res a4 unfolding stream_closed_def Let_def t_def [symmetric] by (simp add: t_def)
  then show ?thesis using fd a4 by (simp add: release_descriptor_def t_def)
qed

lemma client_run_inv: "client_run K n L a \<Longrightarrow> n + 1 < 2 ^ 32 \<Longrightarrow> client_inv n L a"
proof (induction rule: client_run.induct)
  case (start n)
  show ?case by (rule client_inv_new)
next
  case (open_ok n L a self path ofs dfs d a')
  then have "client_inv n L a" "n + 1 < 2 ^ 32" by simp_all
  from open_inv [OF this open_ok.hyps(2)] show ?case by blast
next
  case (open_failed n L a self path ofs dfs e a')
  then show ?case using open_failed_inv by blast
next
  case (dropped n L a self)
  then show ?case using drop_descriptor_inv by blast
next
  case (new_stream n L a self off ap r a')
  then show ?case using output_stream_inv by blast
next
  case (stream_write n L a w data)
  then show ?case using stream_buffer_inv by blast
next
  case (stream_dropped n L a w)
  then show ?case using drop_stream_inv by blast
next
  case (synced n L a self r a')
  then show ?case using fsync_inv by blast
next
  case (request n L a g r a')
  then show ?case using client_inv_tables with_connection_tables by blast
qed

end
