(* ===== verification/Rpc_Client_Props.thy ===== *)
theory Rpc_Client_Props
  imports Rpc_Client_Inv Rpc_Props
begin

text \<open>
  The adapter together with the server of theory \<open>Rpc_Server\<close>: \<open>server_wire\<close> is a connection on which
  every request is handled by \<open>handle_request\<close> (theory \<open>Rpc_Framing\<close> shows that the bytes in between
  change nothing). Its state is the server's, the session of the client there, and the response that
  waits to be read. A handler that does not return is an error of the connection; with
  the server's configuration there is none (\<open>requests_answered\<close>).
\<close>

type_synonym 's served = "'s server_context \<times> string option \<times> response option"

definition server_wire ::
  "nat \<Rightarrow> ('s, fs) sync_env \<Rightarrow> string \<Rightarrow> (string \<Rightarrow> string option) \<Rightarrow> 's served wire" where
  "server_wire fuel X new_session env =
     \<lparr>wi_open = (\<lambda>n. (Inr (), n)),
      wi_send = (\<lambda>_ q (c, ses, waiting).
        case handle_request fuel X q ses new_session c of
          None \<Rightarrow> (Inl WIo, (c, ses, waiting))
        | Some (r, c) \<Rightarrow> (Inr (), (c, case r of RsConnected sid _ \<Rightarrow> Some sid | _ \<Rightarrow> ses, Some r))),
      wi_receive = (\<lambda>(c, ses, waiting).
        case waiting of None \<Rightarrow> (Inl WIo, (c, ses, None)) | Some r \<Rightarrow> (Inr r, (c, ses, None))),
      wi_sleep = (\<lambda>_ n. n), wi_env = env\<rparr>"

lemma server_call:
  assumes "handle_request k X q ses new c = Some (r, c')" and "\<And>sid v. r \<noteq> RsConnected sid v"
  shows "call (server_wire k X new env) cn q (c, ses, p) = (Inr r, (c', ses, None))"
  using assms by (cases r) (auto simp: call_def server_wire_def)

lemma server_rpc_call:
  assumes "connection a = Some cn" and "wire_state a = (c, ses, p)"
    and "handle_request k X q ses new c = Some (r, c')" and "\<And>sid v. r \<noteq> RsConnected sid v"
  shows "rpc_call (server_wire k X new env) q a = (Inr r, a\<lparr>wire_state := (c', ses, None)\<rparr>)"
  using server_call [OF assms(3,4)] assms(1,2) by (simp add: rpc_call_def with_connection_def Let_def)

section \<open>A stream that outlives its descriptor\<close>

lemma convert_replace: "convert_flags {OfCreate, OfTruncate} {DfRead, DfWrite} = replace_flags"
  by (simp add: convert_flags_def flag_defs)

lemma set_position_same: "fd_table f d = Some h \<Longrightarrow> position h = p \<Longrightarrow> set_position f d p = f"
proof -
  assume h: "fd_table f d = Some h" "position h = p"
  then have "h\<lparr>position := p\<rparr> = h" by (cases h) simp
  moreover have "(fd_table f)(d \<mapsto> h) = fd_table f" using h(1) by (rule map_upd_triv)
  ultimately show ?thesis using h(1) by (simp add: set_position_def)
qed

lemma seek_start: "fd_file f d = Some (h, st) \<Longrightarrow> position h = 0 \<Longrightarrow> seek f d 0 0 = (Inr 0, f)"
  by (auto elim!: fd_fileE simp: seek_def Let_def set_position_same)

lemma fs_write_fd_file: "fs_write f d data = (Inr n, f') \<Longrightarrow> \<exists>h st. fd_file f d = Some (h, st)"
  by (auto simp: fs_write_def write_with_def fd_file_def split: option.splits if_splits file_content.splits)

lemma fold_stream_buffer:
  "out_streams a w = Some st \<Longrightarrow> fold (stream_buffer w) chunks a =
     a\<lparr>out_streams := (out_streams a)(w \<mapsto> st\<lparr>fo_buffer := fo_buffer st @ concat chunks\<rparr>)\<rparr>"
proof (induction chunks arbitrary: a st)
  case Nil
  then show ?case by (simp add: fun_upd_idem)
next
  case (Cons x xs)
  have "stream_buffer w x a = a\<lparr>out_streams := (out_streams a)(w \<mapsto> st\<lparr>fo_buffer := fo_buffer st @ x\<rparr>)\<rparr>"
    using Cons.prems by (simp add: stream_buffer_def)
  then show ?case
    using Cons.IH [of "a\<lparr>out_streams := (out_streams a)(w \<mapsto> st\<lparr>fo_buffer := fo_buffer st @ x\<rparr>)\<rparr>"
        "st\<lparr>fo_buffer := fo_buffer st @ x\<rparr>"]
    by (simp add: if_distrib cong: if_cong)
qed

text \<open>An open that the server grants: the handle is fresh and has no stream.\<close>

lemma session_open:
  assumes inv: "client_inv n L a" and n: "n + 1 < 2 ^ 32" and K: "K = server_wire k X new env"
    and conn: "connection a = Some cn" "wire_state a = (c, ses, p)"
    and op: "handle_request k X (RqOpenPath (full_path dir path) (convert_flags ofs dfs)) ses new c = Some (RsFd d, c1)"
  obtains desc a1 where "open_at_rpc K dir path ofs dfs a = (Inr desc, a1)" "di_handle desc \<noteq> 0"
    "client_inv (n + 1) (insert (di_handle desc) L) a1" "descriptor_to_fd (rpc a1) (di_handle desc) = Some d"
    "connection a1 = Some cn" "wire_state a1 = (c1, ses, None)" "streams_of a1 (di_handle desc) = {}"
proof -
  let ?fl = "convert_flags ofs dfs"
  define h where "h = (of_nat (n + 1) :: u32)"
  have un: "unat h = n + 1" using unat_of_nat32 [OF n] by (simp add: h_def del: of_nat_add)
  then have h0: "h \<noteq> 0" by auto
  define a0 where "a0 = a\<lparr>wire_state := (c1, ses, None)\<rparr>"
  have call1: "rpc_call K (RqOpenPath (full_path dir path) ?fl) a = (Inr (RsFd d), a0)"
    using server_rpc_call [OF conn op] by (simp add: a0_def K)
  have retry: "open_retry K (RqOpenPath (full_path dir path) ?fl) delays a = (Inr d, a0)" for delays
    using call1 by (cases delays) (simp_all add: open_answer_def)
  define desc where "desc = \<lparr>di_handle = h, di_flags = ?fl\<rparr>"
  define a1 where "a1 = a0\<lparr>rpc := snd (allocate_descriptor d ?fl (rpc a))\<rparr>"
  have nd: "next_descriptor (rpc a) = h" using client_invD(5) [OF inv] by (simp add: h_def)
  have r1: "open_at_rpc K dir path ofs dfs a = (Inr desc, a1)"
    using retry nd by (simp add: open_at_rpc_def Let_def allocate_descriptor_def a1_def desc_def a0_def)
  have inv1: "client_inv (n + 1) (insert h L) a1" using conjunct1 [OF open_inv [OF inv n r1]] unfolding desc_def by simp
  have map1: "descriptor_to_fd (rpc a1) h = Some d" using nd by (simp add: a1_def allocate_descriptor_def Let_def)
  have "streams_of a h = {}"
  proof (rule ccontr)
    assume "streams_of a h \<noteq> {}"
    then have "unat h \<le> n" using client_invD(9,10) [OF inv h0] by blast
    then show False using un by simp
  qed
  then have "streams_of a1 h = {}" by (simp add: a1_def a0_def streams_of_def)
  then show thesis using that [OF r1] h0 inv1 map1 conn by (simp add: desc_def a1_def a0_def)
qed

text \<open>Dropping first the descriptor and then its only stream, whose buffer is not empty: the server sees
  a seek, one write with all the bytes, and the close.\<close>

lemma session_drop:
  assumes inv: "client_inv n L b" and h: "h = di_handle desc" "h \<in> L" "h \<noteq> 0" and K: "K = server_wire k X new env"
    and conn: "connection b = Some cn" "wire_state b = (c1, ses, None)" and map1: "descriptor_to_fd (rpc b) h = Some d"
    and st: "out_streams b w = Some st" "fo_handle st = h" "fo_append st = False" "fo_offset st = off" "fo_buffer st = data"
    and only: "streams_of b h = {w}" and ne: "data \<noteq> []"
    and sk: "handle_request k X (RqSeek d off 0) ses new c1 = Some (RsPosition pos, c2)"
    and wr: "handle_request k X (RqWrite d data) ses new c2 = Some (RsWritten m, c3)"
    and cl: "handle_request k X (RqClose d) ses new c3 = Some (r, c4)" "\<And>sid v. r \<noteq> RsConnected sid v"
  shows "wire_state (drop_descriptor K desc b) = (c1, ses, None)"
    and "wire_state (drop_stream K w (drop_descriptor K desc b)) = (c4, ses, None)"
    and "descriptor_to_fd (rpc (drop_stream K w (drop_descriptor K desc b))) h = None"
proof -
  define t3 where "t3 = (rpc b)\<lparr>close_pending := insert h (close_pending (rpc b))\<rparr>"
  define a3 where "a3 = b\<lparr>rpc := t3\<rparr>"
  have "live_stream_count (is_alive b) h (rpc b) > 0" using live_count_iff [OF client_invD(1) [OF inv], of h] only by simp
  then have r3: "drop_descriptor K desc b = a3"
    using h(3) by (simp add: drop_descriptor_def h(1) descriptor_dropped_def close_if_def a3_def t3_def)
  have inv3: "client_inv n (L - {h}) a3" using drop_descriptor_inv [OF inv, of desc K] r3 h by simp
  have wi3: "connection a3 = Some cn" "wire_state a3 = (c1, ses, None)" using conn by (simp_all add: a3_def)
  then show "wire_state (drop_descriptor K desc b) = (c1, ses, None)" by (simp add: r3)
  have o3: "out_streams a3 w = Some st" by (simp add: a3_def st)
  have map3: "descriptor_to_fd (rpc a3) h = Some d" using map1 by (simp add: a3_def t3_def)
  define a3' where "a3' = a3\<lparr>out_streams := (out_streams a3)(w := None)\<rparr>"
  have sd: "seek_then K d off (RqWrite d data) want_written cn (c1, ses, None) = (Inr m, (c3, ses, None))"
    using server_call [OF sk] server_call [OF wr]
    by (simp add: seek_then_def seek_via_conn_def answered_def K expect_def want_position_def want_written_def)
  define a4' where "a4' = a3'\<lparr>wire_state := (c3, ses, None)\<rparr>"
  have wc: "with_connection K (seek_then K d off (RqWrite d data) want_written) a3' = (Inr m, a4')"
    using wi3 sd by (simp add: with_connection_def a3'_def a4'_def)
  have "get_server_fd h (rpc a3') = Inr d" using map3 by (simp add: get_server_fd_def a3'_def)
  then have "\<exists>st4. flush_buffer K st a3' = (Inr (), st4, a4')"
    using ne wc st by (simp add: flush_buffer_def Let_def)
  then obtain st4 where fl: "flush_buffer K st a3' = (Inr (), st4, a4')" by blast
  have sa: "streams_of a4' h = {}"
    using only streams_of_update(1) [of a3 w h] by (simp add: a4'_def a3'_def a3_def streams_of_def)
  obtain res where res: "stream_closed (is_alive a4') h (rpc a4') = res" by blast
  have run: "drop_stream K w (drop_descriptor K desc b) = close_if K res a4'"
    using o3 fl res st by (simp add: r3 drop_stream_def a3'_def)
  have inv4: "client_inv n (L - {h}) (drop_stream K w (drop_descriptor K desc b))"
    unfolding r3 by (rule drop_stream_inv [OF inv3])
  have "streams_of (drop_stream K w (drop_descriptor K desc b)) h = {}"
    using sa close_if_tables [of K res a4'] by (simp add: run streams_of_def)
  then show "descriptor_to_fd (rpc (drop_stream K w (drop_descriptor K desc b))) h = None"
    using client_invD(10) [OF inv4 h(3)] by blast
  have "fst res = Some d"
  proof (rule stream_closed_last [OF inv3 _ sa _ _ res])
    show "rpc a4' = rpc a3" "out_streams a4' = (out_streams a3)(w := None)" by (simp_all add: a4'_def a3'_def)
    show "h \<in> close_pending (rpc a3)" "descriptor_to_fd (rpc a3) h = Some d" using map3 by (simp_all add: a3_def t3_def)
  qed
  then show "wire_state (drop_stream K w (drop_descriptor K desc b)) = (c4, ses, None)"
    using server_call [OF cl] wi3 unfolding run by (simp add: close_if_def send_close_def a4'_def a3'_def K)
qed

text \<open>An application that replaces a file through a stream, dropping the descriptor first.\<close>

definition replace_file ::
  "'n wire \<Rightarrow> descriptor_impl \<Rightarrow> string \<Rightarrow> bytes list \<Rightarrow> 'n rpc_adapter \<Rightarrow> (wasi_error + u32) \<times> 'n rpc_adapter" where
  "replace_file K dir path chunks a =
     (case open_at_rpc K dir path {OfCreate, OfTruncate} {DfRead, DfWrite} a of
        (Inl e, a) \<Rightarrow> (Inl e, a)
      | (Inr desc, a) \<Rightarrow>
          (case write_via_stream 0 desc a of
             (Inl e, a) \<Rightarrow> (Inl e, a)
           | (Inr w, a) \<Rightarrow>
               (Inr (di_handle desc), drop_stream K w (drop_descriptor K desc (fold (stream_buffer w) chunks a)))))"

lemma replace_file_session:
  assumes inv: "client_inv n L a" and n: "n + 1 < 2 ^ 32" and K: "K = server_wire k X new env"
    and conn: "connection a = Some cn" "wire_state a = (c, ses, p)"
    and op: "handle_request k X (RqOpenPath (full_path dir path) replace_flags) ses new c = Some (RsFd d, c1)"
    and sk: "handle_request k X (RqSeek d 0 0) ses new c1 = Some (RsPosition pos, c2)"
    and wr: "handle_request k X (RqWrite d (concat chunks)) ses new c2 = Some (RsWritten m, c3)"
    and cl: "handle_request k X (RqClose d) ses new c3 = Some (r, c4)" "\<And>sid v. r \<noteq> RsConnected sid v"
    and ne: "concat chunks \<noteq> []"
  shows "\<exists>g a'. replace_file K dir path chunks a = (Inr g, a') \<and> wire_state a' = (c4, ses, None) \<and>
    descriptor_to_fd (rpc a') g = None"
proof -
  obtain desc a1 where o: "open_at_rpc K dir path {OfCreate, OfTruncate} {DfRead, DfWrite} a = (Inr desc, a1)"
    "di_handle desc \<noteq> 0" "client_inv (n + 1) (insert (di_handle desc) L) a1"
    "descriptor_to_fd (rpc a1) (di_handle desc) = Some d" "connection a1 = Some cn" "wire_state a1 = (c1, ses, None)"
    "streams_of a1 (di_handle desc) = {}"
    by (rule session_open [OF inv n K conn op [folded convert_replace]])
  define h where "h = di_handle desc"
  note o = o [folded h_def]
  define w where "w = next_stream a1"
  define st where "st = \<lparr>fo_handle = h, fo_offset = 0, fo_append = False, fo_buffer = []\<rparr>"
  define a2 where "a2 = a1\<lparr>next_stream := w + 1, out_streams := (out_streams a1)(w \<mapsto> st), rpc := stream_opened h w (rpc a1)\<rparr>"
  have r2: "write_via_stream 0 desc a1 = (Inr w, a2)"
    using o(4) by (simp add: write_via_stream_def output_stream_def get_server_fd_def h_def [symmetric] w_def st_def a2_def Let_def)
  have inv2: "client_inv (n + 1) (insert h L) a2"
    using output_stream_inv [OF o(3) _ r2 [unfolded write_via_stream_def]] by (simp add: h_def)
  define b where "b = fold (stream_buffer w) chunks a2"
  define st2 where "st2 = st\<lparr>fo_buffer := concat chunks\<rparr>"
  have b: "b = a2\<lparr>out_streams := (out_streams a2)(w \<mapsto> st2)\<rparr>"
    using fold_stream_buffer [of a2 w st chunks] by (simp add: b_def a2_def st2_def st_def)
  have invb: "client_inv (n + 1) (insert h L) b"
    by (rule client_inv_cong [OF inv2]) (simp_all add: b a2_def st2_def st_def)
  have sb: "streams_of b h = {w}" using o(7) by (auto simp: b a2_def streams_of_def st2_def st_def)
  have s: "connection b = Some cn" "wire_state b = (c1, ses, None)" "descriptor_to_fd (rpc b) h = Some d"
    "out_streams b w = Some st2" "fo_handle st2 = h" "fo_append st2 = False" "fo_offset st2 = 0" "fo_buffer st2 = concat chunks"
    using o(4,5,6) by (simp_all add: b a2_def stream_opened_def st2_def st_def)
  have "replace_file K dir path chunks a = (Inr h, drop_stream K w (drop_descriptor K desc b))"
    by (simp add: replace_file_def o(1) r2 b_def h_def)
  then show ?thesis using session_drop(2,3) [OF invb h_def _ o(2) K s sb ne sk wr cl] by blast
qed

lemma server_seek_start:
  assumes "fd_table (sc_fs c) d = Some (new_handle i 0 fl)" and "fs_write (sc_fs c) d data = (Inr n, f')"
  shows "handle_request k X (RqSeek d 0 0) ses new c = Some (RsPosition 0, c)"
proof -
  obtain h st where hs: "fd_file (sc_fs c) d = Some (h, st)" using fs_write_fd_file [OF assms(2)] by blast
  then have "position h = 0" using assms(1) by (auto elim!: fd_fileE simp: new_handle_def)
  then have "seek (sc_fs c) d 0 0 = (Inr 0, sc_fs c)" by (rule seek_start [OF hs])
  then show ?thesis by (simp add: change_then_def run_fs_def)
qed

section \<open>The properties\<close>


text \<open>
  C24. Waiting for a lock is bounded. On a connection that never reports \<open>Busy\<close> of its own, an
  open sleeps no longer than the configured timeout (VFS_S3_FILE_LOCK_TIMEOUT_MS), and when it gives up with
  \<open>Busy\<close> it does so after having slept the whole of it.
\<close>

theorem open_waits_within_budget:
  assumes "never_busy K" and "open_at_rpc (timed K) dir path ofs dfs a = (r, a')"
  shows "snd (wire_state a') \<le> snd (wire_state a) + lock_timeout_budget_ms (wi_env K) \<and>
    (r = Inl WBusy \<longrightarrow> snd (wire_state a') = snd (wire_state a) + lock_timeout_budget_ms (wi_env K))"
proof -
  obtain r1 a1 where o: "open_retry (timed K) (RqOpenPath (full_path dir path) (convert_flags ofs dfs))
      (busy_backoff_schedule (lock_timeout_budget_ms (wi_env K))) a = (r1, a1)" by fastforce
  have "sum_list (busy_backoff_schedule (lock_timeout_budget_ms (wi_env K))) = lock_timeout_budget_ms (wi_env K)"
    by (simp add: busy_backoff_schedule_def backoff_sum)
  moreover have "wire_state a' = wire_state a1" "r = Inl WBusy \<longleftrightarrow> r1 = Inl WBusy"
    using assms(2) o by (auto simp: open_at_rpc_def Let_def timed_keeps(5) split: sum.splits prod.splits)
  ultimately show ?thesis using open_retry_time [OF assms(1) o] by simp
qed

text \<open>
  C18. The adapter's tables. Whatever the server answers, a descriptor of the application (of fewer than
  2^32 opens) is mapped to one of the server exactly while the application holds it or a stream
  of it is alive; and a close is pending exactly for the dropped ones that still have a stream.
\<close>

theorem adapter_tables:
  assumes "client_run K n L a" and "n + 1 < 2 ^ 32" and "h \<noteq> 0"
  shows "(descriptor_to_fd (rpc a) h \<noteq> None \<longleftrightarrow> h \<in> L \<or> streams_of a h \<noteq> {}) \<and>
    (h \<in> close_pending (rpc a) \<longleftrightarrow> h \<notin> L \<and> streams_of a h \<noteq> {})"
  using client_invD(10,11) [OF client_run_inv [OF assms(1,2)] assms(3)] by blast

section \<open>Concrete instances\<close>

text \<open>An adapter connected to the server of theory \<open>Rpc_Props\<close>.\<close>

definition demo_wire :: "mem_inner served wire" where
  "demo_wire = server_wire 1 server_demo_env ''s'' (\<lambda>_. None)"

definition demo_adapter :: "mem_inner served rpc_adapter" where
  "demo_adapter = (adapter_new (server_demo, None, None))
     \<lparr>wire_state := (server_demo, Some ''s'', None), connection := Some \<lparr>cn_session = ''s'', cn_version = PROTOCOL_VERSION\<rparr>\<rparr>"

lemma demo_connected:
  "with_connection demo_wire (\<lambda>c n. (Inr (), n)) (adapter_new (server_demo, None, None)) = (Inr () :: wasi_error + unit, demo_adapter)"
  by (simp add: with_connection_def adapter_new_def connect_def demo_wire_def server_wire_def connect_response_def
      negotiate_version_def PROTOCOL_VERSION_def MIN_PROTOCOL_VERSION_def demo_adapter_def)

lemma demo_adapter_run: "client_run demo_wire 0 {} demo_adapter"
  by (rule client_run.request [OF client_run.start demo_connected])

definition demo_root :: descriptor_impl where
  "demo_root = \<lparr>di_handle = 0, di_flags = 0\<rparr>"

lemma demo_open: "\<exists>c1. handle_request 1 server_demo_env (RqOpenPath ''/f'' replace_flags) (Some ''s'') ''s'' server_demo = Some (RsFd 3, c1)"
  using server_demo_session by auto

lemma demo_path: "full_path demo_root ''f'' = ''/f''"
  by (simp add: full_path_def demo_root_def normalize_path_def trim_start_matches_def)

lemma demo_adapter_sel:
  "connection demo_adapter = Some \<lparr>cn_session = ''s'', cn_version = PROTOCOL_VERSION\<rparr>"
  "wire_state demo_adapter = (server_demo, Some ''s'', None)"
  by (simp_all add: demo_adapter_def)


theorem adapter_tables_witness:
  "\<exists>L a h. client_run demo_wire 1 L a \<and> h \<in> L \<and> descriptor_to_fd (rpc a) h \<noteq> None \<and> h \<notin> close_pending (rpc a)"
proof -
  have inv: "client_inv 0 {} demo_adapter" by (rule client_run_inv [OF demo_adapter_run]) simp
  obtain c1 where c1: "handle_request 1 server_demo_env (RqOpenPath ''/f'' replace_flags) (Some ''s'') ''s'' server_demo = Some (RsFd 3, c1)"
    using demo_open by blast
  obtain desc a1 where o: "open_at_rpc demo_wire demo_root ''f'' {OfCreate, OfTruncate} {DfRead, DfWrite} demo_adapter = (Inr desc, a1)"
    "di_handle desc \<noteq> 0"
    by (rule session_open [OF inv _ demo_wire_def demo_adapter_sel c1 [folded demo_path convert_replace]]) simp_all
  have run: "client_run demo_wire (0 + 1) (insert (di_handle desc) {}) a1" by (rule client_run.open_ok [OF demo_adapter_run o(1)])
  from adapter_tables [OF this _ o(2)] run show ?thesis by (intro exI [of _ "{di_handle desc}"] exI [of _ a1] exI [of _ "di_handle desc"]) simp
qed

text \<open>A server that answers every request with \<open>Busy\<close>, and a timeout of 120 milliseconds.\<close>

definition busy_wire :: "unit wire" where
  "busy_wire = \<lparr>wi_open = (\<lambda>n. (Inr (), n)), wi_send = (\<lambda>_ _ n. (Inr (), n)), wi_receive = (\<lambda>n. (Inr (RsError EcBusy []), n)),
     wi_sleep = (\<lambda>_ n. n), wi_env = (\<lambda>k. if k = ''VFS_S3_FILE_LOCK_TIMEOUT_MS'' then Some (show_nat 120) else None)\<rparr>"

definition busy_adapter :: "(unit \<times> nat) rpc_adapter" where
  "busy_adapter = (adapter_new ((), 0))\<lparr>connection := Some \<lparr>cn_session = [], cn_version = 1\<rparr>\<rparr>"

lemma open_at_rpc_failed:
  "open_retry K (RqOpenPath (full_path self path) (convert_flags ofs dfs))
     (busy_backoff_schedule (lock_timeout_budget_ms (wi_env K))) a = (Inl e, a') \<Longrightarrow>
   open_at_rpc K self path ofs dfs a = (Inl e, a')"
  by (simp add: open_at_rpc_def Let_def)

lemma busy_open:
  "fst (open_at_rpc (timed busy_wire) demo_root ''f'' {} {DfRead} busy_adapter) = Inl WBusy"
proof -
  have "rpc_call (timed busy_wire) q a = (Inr (RsError EcBusy []), a)" if "connection a \<noteq> None" for q and a :: "(unit \<times> nat) rpc_adapter"
    using that by (cases "wire_state a")
      (auto simp: rpc_call_def with_connection_def call_def timed_def busy_wire_def Let_def)
  then have "fst (open_retry (timed busy_wire) q delays a) = Inl WBusy" if "connection a \<noteq> None" for q delays and a :: "(unit \<times> nat) rpc_adapter"
    using that by (induction delays arbitrary: a) (simp_all add: open_answer_def sleep_ms_def)
  then have "fst (open_retry (timed busy_wire) q delays busy_adapter) = Inl WBusy" for q delays
    by (simp add: busy_adapter_def)
  then obtain a where "open_retry (timed busy_wire) (RqOpenPath (full_path demo_root ''f'') (convert_flags {} {DfRead}))
      (busy_backoff_schedule (lock_timeout_budget_ms (wi_env (timed busy_wire)))) busy_adapter = (Inl WBusy, a)"
    by (metis prod.collapse)
  then show ?thesis by (simp add: open_at_rpc_failed)
qed

theorem open_waits_within_budget_witness:
  "snd (wire_state (snd (open_at_rpc (timed busy_wire) demo_root ''f'' {} {DfRead} busy_adapter))) = 120"
proof -
  have calm: "never_busy busy_wire" by (simp add: never_busy_def busy_wire_def)
  have b: "lock_timeout_budget_ms (wi_env busy_wire) = 120" 
    by (simp add: busy_wire_def lock_timeout_budget_ms_def str_trim_trimmed trimmed_show_nat parse_show_nat)
  have "open_at_rpc (timed busy_wire) demo_root ''f'' {} {DfRead} busy_adapter =
      (Inl WBusy, snd (open_at_rpc (timed busy_wire) demo_root ''f'' {} {DfRead} busy_adapter))"
    using busy_open by (metis prod.collapse)
  from open_waits_within_budget [OF calm this] show ?thesis by (simp add: b busy_adapter_def adapter_new_def)
qed

end
