(* ===== verification/Rpc_Reads.thy ===== *)
theory Rpc_Reads
  imports Rpc_Client_Props
begin

text \<open>
  Reading through an input stream of the adapter. The stream keeps the bytes of its last request
  and asks for a quarter of a megabyte when it is read in sequence. The locale \<open>file_reader\<close> states
  what it needs of the connection (a seek and a read return the bytes at the offset); then any
  sequence of reads and skips returns what the same reads of the bare bytes would return. The locale
  is interpreted on the connection to the server of theory \<open>Rpc_Server\<close>.
\<close>

section \<open>Streams over a connection\<close>

datatype input_call = InRead u64 | InSkip u64

fun input_bytes :: "input_call \<Rightarrow> nat" where
  "input_bytes (InRead n) = unat n"
| "input_bytes (InSkip n) = unat n"

fun is_input_read :: "input_call \<Rightarrow> bool" where
  "is_input_read (InRead _) = True"
| "is_input_read (InSkip _) = False"

text \<open>The results of the reads of a sequence of calls on one stream.\<close>

fun input_run ::
  "nat \<Rightarrow> 'n wire \<Rightarrow> input_call list \<Rightarrow> file_input_stream \<Rightarrow> 'n rpc_adapter \<Rightarrow> (stream_error + bytes) list" where
  "input_run W K [] st a = []"
| "input_run W K (InRead n # cs) st a = (case input_read W K n st a of (r, st, a) \<Rightarrow> r # input_run W K cs st a)"
| "input_run W K (InSkip n # cs) st a = input_run W K cs (snd (input_skip n st)) a"

text \<open>The reference: a position in the bytes of the file, and no buffer.\<close>

fun plain_run :: "bytes \<Rightarrow> nat \<Rightarrow> input_call list \<Rightarrow> (stream_error + bytes) list" where
  "plain_run bs pos [] = []"
| "plain_run bs pos (InRead n # cs) =
     (if length bs \<le> pos then Inl Closed # plain_run bs pos cs
      else let data = take (unat n) (drop pos bs) in Inr data # plain_run bs (pos + length data) cs)"
| "plain_run bs pos (InSkip n # cs) = plain_run bs (pos + unat n) cs"

definition buffered :: "bytes \<Rightarrow> file_input_stream \<Rightarrow> bool" where
  "buffered bs st \<longleftrightarrow>
     (fi_buf st = [] \<or> fi_buf st = take (length (fi_buf st)) (drop (unat (fi_buf_offset st)) bs))"

lemma buffered_new: "buffered bs \<lparr>fi_handle = h, fi_offset = off, fi_buf = [], fi_buf_offset = 0\<rparr>"
  by (simp add: buffered_def)

lemma buffered_fit:
  assumes "buffered bs st" and "fi_buf st \<noteq> []"
  shows "unat (fi_buf_offset st) + length (fi_buf st) \<le> length bs"
proof -
  have "length (fi_buf st) \<le> length bs - unat (fi_buf_offset st)"
    using assms by (metis (no_types, lifting) buffered_def length_drop length_take min.cobounded1 min.commute)
  moreover have "unat (fi_buf_offset st) < length bs" using assms by (auto simp: buffered_def) (metis drop_all leI take_Nil)
  ultimately show ?thesis by simp
qed

lemma unat_add_small: "unat (x :: u64) + n < 2 ^ 64 \<Longrightarrow> unat (x + of_nat n) = unat x + n"
  by (simp add: unat_word_ariths unsigned_of_nat take_bit_nat_eq_self)

lemma as_usize_small: "unat n < 2 ^ W \<Longrightarrow> as_usize W n = unat n"
  by (simp add: as_usize_def)

text \<open>A read inside the buffer.\<close>

lemma buffered_hit:
  assumes "buffered bs st" and "start = unat (fi_buf_offset st)" and "start \<le> pos" and "pos + n \<le> start + length (fi_buf st)"
  shows "take n (drop (pos - start) (fi_buf st)) = take n (drop pos bs)"
proof (cases "fi_buf st = []")
  case False
  then have "fi_buf st = take (length (fi_buf st)) (drop start bs)" using assms(1,2) by (simp add: buffered_def)
  then have "drop (pos - start) (fi_buf st) = take (length (fi_buf st) - (pos - start)) (drop pos bs)"
    using assms(3) by (metis drop_drop drop_take le_add_diff_inverse2)
  then show ?thesis using assms(3,4) by (simp add: min_def)
qed (use assms in auto)

locale file_reader =
  fixes K :: "'n wire" and cn :: rpc_connection and d :: u32 and bs :: bytes and good :: "'n \<Rightarrow> bool"
  assumes fetch: "good n \<Longrightarrow> unat off < 2 ^ 63 \<Longrightarrow>
      \<exists>n'. good n' \<and> seek_then K d off (RqRead d len) want_data cn n = (Inr (take len (drop (unat off) bs)), n')"
begin

definition at_file :: "file_input_stream \<Rightarrow> 'n rpc_adapter \<Rightarrow> bool" where
  "at_file st a \<longleftrightarrow> buffered bs st \<and> connection a = Some cn \<and> good (wire_state a) \<and>
     get_server_fd (fi_handle st) (rpc a) = Inr d"

text \<open>What a read that misses the buffer fetches.\<close>

lemma read_miss:
  assumes "at_file st a" and "unat (fi_offset st) < 2 ^ 63" and "len \<le> fetch_len"
    and "with_connection K (seek_then K d (fi_offset st) (RqRead d fetch_len) want_data) a = (r, a')"
  obtains b where "r = Inr b" "take len b = take len (drop (unat (fi_offset st)) bs)" "b = [] \<longleftrightarrow> fetch_len = 0 \<or> length bs \<le> unat (fi_offset st)"
    "\<forall>off'. buffered bs (st\<lparr>fi_buf_offset := fi_offset st, fi_buf := b, fi_offset := off'\<rparr>)"
    "connection a' = Some cn" "good (wire_state a')" "rpc a' = rpc a"
proof -
  obtain n' where n': "good n'" "seek_then K d (fi_offset st) (RqRead d fetch_len) want_data cn (wire_state a) =
      (Inr (take fetch_len (drop (unat (fi_offset st)) bs)), n')"
    using fetch [of "wire_state a" "fi_offset st" fetch_len] assms(1,2) by (auto simp: at_file_def)
  then have "r = Inr (take fetch_len (drop (unat (fi_offset st)) bs))" "a' = a\<lparr>wire_state := n'\<rparr>"
    using assms(1,4) by (auto simp: with_connection_def at_file_def)
  then show thesis using that [of "take fetch_len (drop (unat (fi_offset st)) bs)"] n'(1) assms(1,3)
    by (simp add: buffered_def at_file_def min_def)
qed

lemma read_step:
  assumes small: "length bs < 2 ^ 63" "length bs < 2 ^ W"
    and at: "at_file st a" and n: "0 < unat n" "unat n < 2 ^ W" "unat (fi_offset st) + unat n < 2 ^ 63"
    and run: "input_read W K n st a = (r, st', a')"
  shows "at_file st' a' \<and>
    (if length bs \<le> unat (fi_offset st) then r = Inl Closed \<and> fi_offset st' = fi_offset st
     else r = Inr (take (unat n) (drop (unat (fi_offset st)) bs)) \<and>
       unat (fi_offset st') = unat (fi_offset st) + length (take (unat n) (drop (unat (fi_offset st)) bs)))"
proof -
  let ?off = "fi_offset st" and ?start = "fi_buf_offset st" and ?buf = "fi_buf st"
  have len: "as_usize W n = unat n" by (rule as_usize_small [OF n(2)])
  have buf: "buffered bs st" using at by (simp add: at_file_def)
  have stop: "unat (?start + of_nat (length ?buf)) = unat ?start + length ?buf" if "?buf \<noteq> []"
    using buffered_fit [OF buf that] small(1) by (intro unat_add_small) simp
  have ahead: "unat (?off + of_nat (unat n)) = unat ?off + unat n" using n(3) by (intro unat_add_small) simp
  have move: "unat (?off + of_nat (length (take (unat n) (drop (unat ?off) bs)))) =
      unat ?off + length (take (unat n) (drop (unat ?off) bs))"
    using n(3) by (intro unat_add_small) (simp add: min_def)
  show ?thesis
  proof (cases "?start \<le> ?off \<and> ?off + of_nat (unat n) \<le> ?start + of_nat (length ?buf)")
    case True
    then have ne: "?buf \<noteq> []" using n(1) ahead by (auto simp: word_le_nat_alt)
    then have le: "unat ?start \<le> unat ?off" "unat ?off + unat n \<le> unat ?start + length ?buf"
      using True ahead stop by (simp_all add: word_le_nat_alt)
    have fit: "unat ?start + length ?buf \<le> length bs" by (rule buffered_fit [OF buf ne])
    have "unat (?off - ?start) = unat ?off - unat ?start" using True by (simp add: unat_sub)
    moreover have "unat ?off - unat ?start < 2 ^ W" using le fit small(2) by linarith
    ultimately have local: "as_usize W (?off - ?start) = unat ?off - unat ?start" by (simp add: as_usize_def)
    have data: "take (unat n) (drop (unat ?off - unat ?start) ?buf) = take (unat n) (drop (unat ?off) bs)"
      by (rule buffered_hit [OF buf refl le])
    have "r = Inr (take (unat n) (drop (unat ?off) bs)) \<and>
        st' = st\<lparr>fi_offset := ?off + of_nat (length (take (unat n) (drop (unat ?off) bs)))\<rparr> \<and> a' = a"
      using run True by (simp add: input_read_def Let_def len local data del: length_take)
    moreover have "\<not> length bs \<le> unat ?off" using le fit n(1) by simp
    ultimately show ?thesis
      using at move by (auto simp: at_file_def buffered_def simp del: length_take)
  next
    case False
    define fetch_len where "fetch_len = (if ?buf \<noteq> [] \<and> ?off = ?start + of_nat (length ?buf) then max (unat n) READ_AHEAD_SIZE else unat n)"
    obtain q a1 where q: "with_connection K (seek_then K d ?off (RqRead d fetch_len) want_data) a = (q, a1)" by fastforce
    have le: "unat n \<le> fetch_len" by (simp add: fetch_len_def)
    have off: "unat ?off < 2 ^ 63" using n(3) by simp
    obtain b where b: "q = Inr b" "take (unat n) b = take (unat n) (drop (unat ?off) bs)"
      "b = [] \<longleftrightarrow> fetch_len = 0 \<or> length bs \<le> unat ?off"
      "\<forall>off'. buffered bs (st\<lparr>fi_buf_offset := ?off, fi_buf := b, fi_offset := off'\<rparr>)"
      "connection a1 = Some cn" "good (wire_state a1)" "rpc a1 = rpc a"
      by (rule read_miss [OF at off le q])
    have fd: "get_server_fd (fi_handle st) (rpc a) = Inr d" using at by (simp add: at_file_def)
    have "input_read W K n st a = (if b = [] then (Inl Closed, st, a1)
        else (Inr (take (unat n) b), st\<lparr>fi_buf_offset := ?off, fi_buf := b, fi_offset := ?off + of_nat (length (take (unat n) b))\<rparr>, a1))"
      using False q b(1) fd unfolding input_read_def Let_def len fetch_len_def by (auto simp del: length_take)
    then show ?thesis
      using run b fd at n(1) le move
      by (auto simp: at_file_def simp del: length_take split: if_splits)
  qed
qed

lemma reads_agree:
  assumes "length bs < 2 ^ 63" and "length bs < 2 ^ W" and "at_file st a" and "unat (fi_offset st) + sum_list (map input_bytes cs) < 2 ^ 63"
    and "\<And>c. c \<in> set cs \<Longrightarrow> is_input_read c \<Longrightarrow> 0 < input_bytes c \<and> input_bytes c < 2 ^ W"
  shows "input_run W K cs st a = plain_run bs (unat (fi_offset st)) cs"
  using assms
proof (induction cs arbitrary: st a)
  case (Cons c cs)
  have rest: "\<And>c. c \<in> set cs \<Longrightarrow> is_input_read c \<Longrightarrow> 0 < input_bytes c \<and> input_bytes c < 2 ^ W" using Cons.prems(5) by simp
  note small = Cons.prems(1,2)
  show ?case
  proof (cases c)
    case (InRead n)
    obtain r st' a' where run: "input_read W K n st a = (r, st', a')" by (metis prod_cases3)
    have n: "0 < unat n" "unat n < 2 ^ W" "unat (fi_offset st) + unat n < 2 ^ 63"
      using Cons.prems(4) Cons.prems(5) [of c] InRead by simp_all
    note step = read_step [OF small Cons.prems(3) n run]
    then have "unat (fi_offset st') \<le> unat (fi_offset st) + unat n" by (auto split: if_splits)
    then have "unat (fi_offset st') + sum_list (map input_bytes cs) < 2 ^ 63" using Cons.prems(4) InRead by simp
    from Cons.IH [OF small _ this rest] show ?thesis using step InRead run by (auto simp: Let_def split: if_splits)
  next
    case (InSkip n)
    have "unat (fi_offset st + n) = unat (fi_offset st) + unat n"
      using unat_add_small [of "fi_offset st" "unat n"] Cons.prems(4) InSkip by simp
    moreover have "at_file (st\<lparr>fi_offset := fi_offset st + n\<rparr>) a" using Cons.prems(3) by (simp add: at_file_def buffered_def)
    ultimately show ?thesis
      using Cons.IH [of "st\<lparr>fi_offset := fi_offset st + n\<rparr>" a] small Cons.prems(4) rest InSkip by (simp add: input_skip_def)
  qed
qed simp

end

section \<open>The connection to the server\<close>

text \<open>The server's descriptor \<open>d\<close> can be read and shows the bytes \<open>bs\<close>; no refresh from the bucket is due.\<close>

definition serves :: "string option \<Rightarrow> u32 \<Rightarrow> bytes \<Rightarrow> 's served \<Rightarrow> bool" where
  "serves ses d bs n \<longleftrightarrow> (case n of (c, s, p) \<Rightarrow>
     s = ses \<and> fs_wf (sc_fs c) \<and> (read_from_s3 c \<longrightarrow> d \<in> s3_refreshed_fds c) \<and>
     (\<exists>h st. fd_file (sc_fs c) d = Some (h, st) \<and> access_mode (h_flags h) \<noteq> O_WRONLY \<and>
        bs = take (readable st) (contents st)))"

lemma fd_file_set_position:
  "fd_file f d = Some (h, st) \<Longrightarrow> fd_file (set_position f d p) d = Some (h\<lparr>position := p\<rparr>, st)"
  by (auto simp: fd_file_def fd_table_set_position split: option.splits file_content.splits)

lemma serves_seek:
  assumes "serves ses d bs (c, ses, p)" and "unat off < 2 ^ 63"
  obtains c1 h st where "handle_request k X (RqSeek d (ucast off) 0) ses new c = Some (RsPosition off, c1)"
    "serves ses d bs (c1, ses, None)" "fd_file (sc_fs c1) d = Some (h, st)" "position h = off"
    "access_mode (h_flags h) \<noteq> O_WRONLY" "bs = take (readable st) (contents st)"
proof -
  obtain h st where h: "fs_wf (sc_fs c)" "read_from_s3 c \<longrightarrow> d \<in> s3_refreshed_fds c" "fd_file (sc_fs c) d = Some (h, st)"
      "access_mode (h_flags h) \<noteq> O_WRONLY" "bs = take (readable st) (contents st)"
    using assms(1) by (auto simp: serves_def)
  have sk: "seek (sc_fs c) d (ucast off) 0 = (Inr off, set_position (sc_fs c) d off)" by (rule seek_set [OF h(3) assms(2)])
  define c1 where "c1 = c\<lparr>sc_fs := set_position (sc_fs c) d off\<rparr>"
  have "handle_request k X (RqSeek d (ucast off) 0) ses new c = Some (RsPosition off, c1)"
    using sk by (simp add: change_then_def run_fs_def c1_def)
  moreover have f1: "fd_file (sc_fs c1) d = Some (h\<lparr>position := off\<rparr>, st)"
    using fd_file_set_position [OF h(3)] by (simp add: c1_def)
  moreover have "serves ses d bs (c1, ses, None)"
    using h f1 fs_wf_set_position [OF h(1)] by (auto simp: serves_def c1_def)
  ultimately show thesis using that h(4,5) by simp
qed

lemma take_readable: "take (min len (readable st - pos)) (drop pos (contents st)) = take len (drop pos (take (readable st) (contents st)))"
  by (simp add: drop_take min.commute)

lemma serves_read:
  assumes "serves ses d bs (c, ses, p)" and h: "fd_file (sc_fs c) d = Some (h, st)" "position h = off"
    "access_mode (h_flags h) \<noteq> O_WRONLY" "bs = take (readable st) (contents st)"
  shows "\<exists>c1. handle_request k X (RqRead d len) ses new c = Some (RsData (take len (drop (unat off) bs)), c1) \<and>
    serves ses d bs (c1, ses, None)"
proof -
  have wf: "fs_wf (sc_fs c)" "read_from_s3 c \<longrightarrow> d \<in> s3_refreshed_fds c" using assms(1) by (auto simp: serves_def)
  define m where "m = min len (readable st - unat off)"
  define c1 where "c1 = c\<lparr>sc_fs := set_position (sc_fs c) d (off + of_nat m)\<rparr>"
  have "readable st \<le> length (contents st)" using readable_le by simp
  then have m: "length (take m (drop (unat off) (contents st))) = m" by (simp add: m_def)
  have rd: "fs_read (sc_fs c) d (replicate len 0) =
      (Inr (m, take m (drop (unat off) (contents st)) @ drop m (replicate len 0)), sc_fs c1)"
    using read_with_ok [OF wf(1) h(1,3), of position "replicate len 0"] h(2)
    by (simp add: fs_read_def m_def c1_def Let_def)
  have "before_read X d c = c" using wf(2) by (auto simp: before_read_def)
  then have "handle_read X d len c = (RsData (take m (drop (unat off) (contents st))), c1)"
    using rd m by (simp add: handle_read_def run_fs_def c1_def)
  moreover have "take m (drop (unat off) (contents st)) = take len (drop (unat off) bs)"
    unfolding m_def h(4) by (rule take_readable)
  moreover have "serves ses d bs (c1, ses, None)"
    using wf h fd_file_set_position [OF h(1)] fs_wf_set_position [OF wf(1)]
    by (auto simp: serves_def c1_def)
  ultimately show ?thesis by simp
qed

interpretation rd: file_reader "server_wire k X new env" cn d bs "serves ses d bs" for k X new env cn d bs ses
proof
  fix n :: "'a served" and off :: u64 and len
  assume good: "serves ses d bs n" and off: "unat off < 2 ^ 63"
  obtain c p where n: "n = (c, ses, p)" using good by (cases n) (auto simp: serves_def)
  obtain c1 h st where s: "handle_request k X (RqSeek d (ucast off) 0) ses new c = Some (RsPosition off, c1)"
    "serves ses d bs (c1, ses, None)" "fd_file (sc_fs c1) d = Some (h, st)" "position h = off"
    "access_mode (h_flags h) \<noteq> O_WRONLY" "bs = take (readable st) (contents st)"
    by (rule serves_seek [OF good [unfolded n] off])
  obtain c2 where r: "handle_request k X (RqRead d len) ses new c1 = Some (RsData (take len (drop (unat off) bs)), c2)"
    "serves ses d bs (c2, ses, None)"
    using serves_read [OF s(2-6)] by blast
  have "seek_then (server_wire k X new env) d off (RqRead d len) want_data cn n =
      (Inr (take len (drop (unat off) bs)), (c2, ses, None))"
    using server_call [OF s(1)] server_call [OF r(1)]
    by (simp add: n seek_then_def seek_via_conn_def answered_def expect_def want_position_def want_data_def)
  with r(2) show "\<exists>n'. serves ses d bs n' \<and> seek_then (server_wire k X new env) d off (RqRead d len) want_data cn n =
      (Inr (take len (drop (unat off) bs)), n')" by blast
qed


definition readable_server :: "mem_inner server_context" where
  "readable_server = plain_open\<lparr>sc_fs := snd (fs_write demo_file 3 [1, 2, 3, 4, 5])\<rparr>"

definition reading_adapter :: "mem_inner served rpc_adapter" where
  "reading_adapter = \<lparr>wire_state = (readable_server, Some ''s'', None),
     connection = Some \<lparr>cn_session = ''s'', cn_version = PROTOCOL_VERSION\<rparr>,
     rpc = snd (allocate_descriptor 3 66 rpc_new), out_streams = Map.empty, next_stream = 0\<rparr>"

lemma readable_file:
  "fs_wf (sc_fs readable_server) \<and> (\<exists>h st. fd_file (sc_fs readable_server) 3 = Some (h, st) \<and>
    access_mode (h_flags h) \<noteq> O_WRONLY \<and> [1, 2, 3, 4, 5] = take (readable st) (contents st))"
proof -
  have wf: "fs_wf demo_file" by (rule fs_reachable_wf [OF demo_file_reachable])
  have f: "fd_file demo_file 3 = Some (\<lparr>h_inode = 1, position = 0, h_flags = 66\<rparr>, bs_new)"
    by (simp add: demo_file_eq fd_file_def bs_new_def)
  let ?b = "[1, 2, 3, 4, 5] :: bytes"
  define posf where "posf = (\<lambda>(h :: file_handle) (st :: block_storage). if has_flag (h_flags h) O_APPEND then bsize st else unat (position h))"
  have w: "access_mode (h_flags \<lparr>h_inode = 1, position = 0, h_flags = 66\<rparr>) \<noteq> O_RDONLY" "posf \<lparr>h_inode = 1, position = 0, h_flags = 66\<rparr> bs_new = 0"
    "access_mode (h_flags \<lparr>h_inode = 1, position = 0, h_flags = 66\<rparr>) \<noteq> O_WRONLY"
    by (simp_all add: access_mode_def flag_defs posf_def has_flag_def)
  obtain f2 st2 where o: "write_with posf demo_file 3 ?b = (Inr 5, f2)"
    "fd_file f2 3 = Some (\<lparr>h_inode = 1, position = 5, h_flags = 66\<rparr>, st2)" "contents st2 = write_spec (contents bs_new) 0 ?b"
    "st2 = snd (bs_write bs_new 0 ?b)"
    using write_with_ok [OF wf f w(1), of posf ?b] w(2) by auto
  have "contents st2 = ?b" using o(3) by (simp add: write_spec_def contents_new)
  moreover have "5 \<le> readable st2" using bs_write_extent [of bs_new ?b 0] bs_inv_new o(4) by simp
  moreover have "sc_fs readable_server = f2" using o(1) by (simp add: readable_server_def fs_write_def posf_def)
  moreover have "fs_wf f2" using fs_wf_write_with [OF wf, of posf 3 ?b] o(1) by simp
  ultimately show ?thesis using o(2) w(3) by auto
qed


end
