(* ===== verification/Rpc_Answers.thy ===== *)
theory Rpc_Answers
  imports Rpc_Client_Props
begin

text \<open>
  The responses of the server by type: \<open>answers rq r\<close> says which responses a request can have. The
  operations of the adapter expect exactly these, so an answer of the server never ends in the
  branch for unexpected responses.
\<close>

fun answers :: "request \<Rightarrow> response \<Rightarrow> bool" where
  "answers (RqConnect v) r = (case r of RsConnected _ w \<Rightarrow> w = v \<and> MIN_PROTOCOL_VERSION \<le> w \<and> w \<le> PROTOCOL_VERSION
     | RsError c _ \<Rightarrow> c = EcProtocolError \<and> \<not> (MIN_PROTOCOL_VERSION \<le> v \<and> v \<le> PROTOCOL_VERSION) | _ \<Rightarrow> False)"
| "answers (RqOpenPath p fl) r = (case r of RsFd _ \<Rightarrow> True | RsError _ _ \<Rightarrow> True | _ \<Rightarrow> False)"
| "answers (RqOpenAt d p fl) r = (case r of RsFd _ \<Rightarrow> True | RsError _ _ \<Rightarrow> True | _ \<Rightarrow> False)"
| "answers (RqRead d n) r = (case r of RsData b \<Rightarrow> length b \<le> n | RsError _ _ \<Rightarrow> True | _ \<Rightarrow> False)"
| "answers (RqWrite d b) r = (case r of RsWritten _ \<Rightarrow> True | RsError _ _ \<Rightarrow> True | _ \<Rightarrow> False)"
| "answers (RqAppendWrite d b) r = (case r of RsWritten _ \<Rightarrow> True | RsError _ _ \<Rightarrow> True | _ \<Rightarrow> False)"
| "answers (RqSeek d off wh) r = (case r of RsPosition _ \<Rightarrow> True | RsError _ _ \<Rightarrow> True | _ \<Rightarrow> False)"
| "answers (RqFstat d) r = (case r of RsMetadata _ \<Rightarrow> True | RsError _ _ \<Rightarrow> True | _ \<Rightarrow> False)"
| "answers (RqStat p) r = (case r of RsMetadata _ \<Rightarrow> True | RsError _ _ \<Rightarrow> True | _ \<Rightarrow> False)"
| "answers (RqReaddir p) r = (case r of RsDirEntries _ \<Rightarrow> True | RsError _ _ \<Rightarrow> True | _ \<Rightarrow> False)"
| "answers (RqReaddirFd d) r = (case r of RsDirEntries _ \<Rightarrow> True | RsError _ _ \<Rightarrow> True | _ \<Rightarrow> False)"
| "answers _ r = (case r of RsOk \<Rightarrow> True | RsError _ _ \<Rightarrow> True | _ \<Rightarrow> False)"

lemma read_loop_count: "br \<le> length buf \<Longrightarrow> fst (read_loop s br off buf) \<le> length buf"
proof (induction s br off buf rule: read_loop.induct)
  case (1 s br off buf)
  let ?bi = "off div BLOCK_SIZE" and ?bo = "off mod BLOCK_SIZE"
  let ?n = "min (BLOCK_SIZE - ?bo) (min (length buf - br) (bsize s - off))"
  show ?case
  proof (cases "br < length buf \<and> off < bsize s \<and> \<not> length (blocks s) \<le> ?bi")
    case True
    have len: "length (copy_into buf br xs) = length buf" if "length xs \<le> ?n" for xs :: bytes
      using that True by (intro length_copy_into) auto
    have fit: "br + ?n \<le> length buf" using True by linarith
    define xs where "xs = (case blocks s ! ?bi of None \<Rightarrow> replicate ?n 0 | Some block \<Rightarrow> take ?n (drop ?bo block))"
    have buf: "length (copy_into buf br xs) = length buf" 
      by (rule len, cases "blocks s ! ?bi") (simp_all only: xs_def option.case length_replicate length_take min.cobounded2 order_refl)
    have run: "read_loop s br off buf = read_loop s (br + ?n) (off + ?n) (copy_into buf br xs)"
      using True by (subst read_loop.simps) (simp add: Let_def xs_def split: option.split)
    have "fst (read_loop s (br + ?n) (off + ?n) (copy_into buf br xs)) \<le> length (copy_into buf br xs)"
    proof (cases "blocks s ! ?bi")
      case None
      show ?thesis unfolding xs_def None option.case
        by (rule 1(1) [OF _ refl refl _ refl refl None]) (use True fit buf None in \<open>simp_all only: xs_def option.case not_False_eq_True\<close>)
    next
      case (Some block)
      show ?thesis unfolding xs_def Some option.case
        by (rule 1(2) [OF _ refl refl _ refl refl Some]) (use True fit buf Some in \<open>simp_all only: xs_def option.case not_False_eq_True\<close>)
    qed
    then show ?thesis unfolding run buf .
  next
    case False
    then show ?thesis using 1(3) by (subst read_loop.simps) (auto simp: Let_def)
  qed
qed

lemma fs_read_count: "fs_read f d buf = (Inr (n, out), f') \<Longrightarrow> n \<le> length buf"
proof -
  have "fst (bs_read st k buf) \<le> length buf" for st k by (simp add: bs_read_def read_loop_count)
  then show "fs_read f d buf = (Inr (n, out), f') \<Longrightarrow> n \<le> length buf"
    by (auto simp: fs_read_def read_with_def split: option.splits if_splits file_content.splits prod.splits) (metis fst_conv)
qed

text \<open>Every request but the first may be answered with an error.\<close>

definition may_fail :: "request \<Rightarrow> bool" where
  "may_fail rq \<longleftrightarrow> (\<forall>c msg. answers rq (RsError c msg))"

lemma may_fail_iff: "may_fail rq \<longleftrightarrow> (\<forall>v. rq \<noteq> RqConnect v)"
  by (cases rq) (auto simp: may_fail_def)

lemma answers_errors:
  assumes "may_fail rq"
  shows "answers rq (map_fs_error e)" and "answers rq (map_sync_error e')"
  using assms by (cases e; simp add: may_fail_def) (simp add: map_sync_error_def assms [unfolded may_fail_def])

lemma answers_change:
  "may_fail rq \<Longrightarrow> (\<And>x. answers rq (answer x)) \<Longrightarrow> change_then g answer follow c = (r, c') \<Longrightarrow> answers rq r"
  by (auto simp: change_then_def answers_errors split: prod.splits sum.splits)

lemma answers_finish_open:
  "may_fail rq \<Longrightarrow> (\<And>d. answers rq (RsFd d)) \<Longrightarrow> answers rq (fst (finish_open g path fl session c))"
  by (auto simp: finish_open_def answers_errors split: prod.split sum.split)

lemma answers_before_open:
  "may_fail rq \<Longrightarrow> before_open fuel X path fl c = Some (Some err, c') \<Longrightarrow> answers rq err"
  by (auto simp: before_open_def answers_errors split: option.splits if_splits prod.splits sum.splits)

lemma answers_open_path:
  assumes "handle_open_path fuel X path fl session c = Some (r, c')" and "may_fail rq" and "\<And>d. answers rq (RsFd d)"
  shows "answers rq r"
proof -
  have fin: "answers rq r" if "finish_open g p fl session c = (r, c')" for g p c
    using answers_finish_open [OF assms(2,3), of g p fl session c] that by simp
  show ?thesis using assms(1) fin by (auto simp: handle_open_path_def dest: answers_before_open [OF assms(2)] split: option.splits)
qed

lemma answers_open_at:
  assumes "handle_open_at fuel X d path fl session c = Some (r, c')" and "may_fail rq" and "\<And>d. answers rq (RsFd d)"
  shows "answers rq r"
proof -
  have fin: "answers rq r" if "finish_open g p fl session c = (r, c')" for g p c
    using answers_finish_open [OF assms(2,3), of g p fl session c] that by simp
  show ?thesis using assms(1) fin
    by (auto simp: handle_open_at_def Let_def dest: answers_before_open [OF assms(2)] split: option.splits)
qed

lemma answers_close: "may_fail rq \<Longrightarrow> answers rq RsOk \<Longrightarrow> close_fd X d c = (r, c') \<Longrightarrow> answers rq r"
  by (auto simp: close_fd_def Let_def answers_errors split: prod.splits option.splits if_splits sum.splits)

lemma answers_fsync: "may_fail rq \<Longrightarrow> answers rq RsOk \<Longrightarrow> handle_fsync X d c = (r, c') \<Longrightarrow> answers rq r"
  by (auto simp: handle_fsync_def answers_errors simp del: map_fs_error.simps split: prod.splits option.splits if_splits sum.splits)

lemma answers_read: "handle_read X d n c = (r, c') \<Longrightarrow> answers (RqRead d n) r"
proof -
  have e: "answers (RqRead d n) (map_fs_error e)" for e by (rule answers_errors(1)) (simp add: may_fail_iff)
  assume "handle_read X d n c = (r, c')"
  then show ?thesis using e
    by (auto simp: handle_read_def run_fs_def simp del: answers.simps split: prod.splits sum.splits) (auto dest: fs_read_count)
qed

lemma answers_listing:
  "may_fail rq \<Longrightarrow> (\<And>es. answers rq (RsDirEntries es)) \<Longrightarrow> answers rq (readdir_response f p)"
  "may_fail rq \<Longrightarrow> (\<And>es. answers rq (RsDirEntries es)) \<Longrightarrow> answers rq (readdir_fd_response f d)"
  "may_fail rq \<Longrightarrow> (\<And>m. answers rq (RsMetadata m)) \<Longrightarrow> answers rq (metadata_response x)"
  by (auto simp: readdir_response_def readdir_fd_response_def metadata_response_def answers_errors split: sum.split)

text \<open>
  C40. Every response has the type its request calls for, or is an error: \<open>handle_request\<close> answers a
  request of the adapter with a response that the adapter's operation expects; a read never returns more
  bytes than were asked for, and a connection speaks the version of the client or is refused exactly
  when that version is not supported.
\<close>

theorem responses_are_typed:
  assumes "handle_request fuel X rq session new c = Some (r, c')"
  shows "answers rq r"
proof (cases rq)
  case (RqConnect v)
  then show ?thesis using assms by (auto simp: connect_response_def negotiate_version_def split: if_splits)
next
  case (RqRead d n)
  then show ?thesis using assms answers_read by (simp del: answers.simps)
next
  case (RqOpenPath p fl)
  then show ?thesis using assms answers_open_path [of fuel X p fl session c r c' rq] by (simp add: may_fail_iff)
next
  case (RqOpenAt d p fl)
  then show ?thesis using assms answers_open_at [of fuel X d p fl session c r c' rq] by (simp add: may_fail_iff)
next
  case (RqClose d)
  then show ?thesis using assms answers_close [of rq X d c r c'] by (simp add: may_fail_iff)
next
  case (RqFsync d)
  then show ?thesis using assms answers_fsync [of rq X d c r c'] by (simp add: may_fail_iff)
next
  case (RqFstat d)
  then show ?thesis using assms answers_listing(3) [of rq] by (auto simp: may_fail_iff)
next
  case (RqStat p)
  then show ?thesis using assms answers_listing(3) [of rq] by (auto simp: may_fail_iff)
next
  case (RqReaddir p)
  then show ?thesis using assms answers_listing(1) [of rq] by (auto simp: may_fail_iff)
next
  case (RqReaddirFd d)
  then show ?thesis using assms answers_listing(2) [of rq] by (auto simp: may_fail_iff)
qed (insert assms, simp_all del: answers.simps, (erule answers_change [rotated 2], simp add: may_fail_iff, simp)+)

theorem responses_are_typed_witness:
  "\<exists>r. handle_request 0 server_demo_env (RqOpenPath ''/f'' (O_RDWR OR O_CREAT)) (Some ''s'') [] plain_server = Some (r, plain_open) \<and>
    answers (RqOpenPath ''/f'' (O_RDWR OR O_CREAT)) r"
  using responses_are_typed [OF plain_open_run(1)] plain_open_run(1) by blast

end
