(* ===== verification/Vfs_Host.thy ===== *)
theory Vfs_Host
  imports Rpc_Client Sync_Manager
begin

text \<open>
  \<open>vfs-host\<close> with its feature \<open>s3-sync\<close>: the WASI file system that a native host gives to a component,
  over an \<open>fs-core\<close> instance in the same process. Theory \<open>Rpc_Client\<close> lends the types of the WASI interface.

  \<open>shared_vfs\<close> and the sync manager are shared (\<open>Arc\<close>) between all instances of a process; an operation
  works on the instance with the shared parts inside it, and \<open>host_process\<close> puts them in and takes them
  out. \<open>vh_thread\<close> says that the instance owns the handle of the background thread, \<open>vh_running\<close> (shared) that
  the thread has not ended. It takes its turns between operations. \<open>run_sync_task\<close> waits for the task it
  starts, so a hook is a call of the manager (the failure to start a thread or a runtime is left out).

  The resource table belongs to \<open>wasmtime\<close>: a parameter \<open>alloc\<close> chooses the number of a new entry
  (\<open>None\<close>: the table is full), and every access names the type of the entry it expects. A trap is an
  error of the host that ends the component. \<open>W\<close> is the width of \<open>usize\<close>.
\<close>

section \<open>Error codes\<close>

text \<open>The bindings generate the error codes twice, for the interface (\<open>NonSync\<close>) and for the host (\<open>Sync\<close>).\<close>

datatype sync_code =
    ScAccess | ScWouldBlock | ScAlready | ScBadDescriptor | ScBusy | ScDeadlock | ScQuota | ScExist
  | ScFileTooLarge | ScIllegalByteSequence | ScInProgress | ScInterrupted | ScInvalid | ScIo | ScIsDirectory
  | ScLoop | ScTooManyLinks | ScMessageSize | ScNameTooLong | ScNoDevice | ScNoEntry | ScNoLock
  | ScInsufficientMemory | ScInsufficientSpace | ScNotDirectory | ScNotEmpty | ScNotRecoverable
  | ScUnsupported | ScNoTty | ScNoSuchDevice | ScOverflow | ScNotPermitted | ScPipe | ScReadOnly
  | ScInvalidSeek | ScTextFileBusy | ScCrossDevice

datatype nonsync_code =
    NcAccess | NcWouldBlock | NcAlready | NcBadDescriptor | NcBusy | NcDeadlock | NcQuota | NcExist
  | NcFileTooLarge | NcIllegalByteSequence | NcInProgress | NcInterrupted | NcInvalid | NcIo | NcIsDirectory
  | NcLoop | NcTooManyLinks | NcMessageSize | NcNameTooLong | NcNoDevice | NcNoEntry | NcNoLock
  | NcInsufficientMemory | NcInsufficientSpace | NcNotDirectory | NcNotEmpty | NcNotRecoverable
  | NcUnsupported | NcNoTty | NcNoSuchDevice | NcOverflow | NcNotPermitted | NcPipe | NcReadOnly
  | NcInvalidSeek | NcTextFileBusy | NcCrossDevice

datatype host_error = HostTrap | HostCode nonsync_code

fun convert_sync_to_nonsync_error :: "sync_code \<Rightarrow> nonsync_code" where
  "convert_sync_to_nonsync_error ScAccess = NcAccess"
| "convert_sync_to_nonsync_error ScWouldBlock = NcWouldBlock"
| "convert_sync_to_nonsync_error ScAlready = NcAlready"
| "convert_sync_to_nonsync_error ScBadDescriptor = NcBadDescriptor"
| "convert_sync_to_nonsync_error ScBusy = NcBusy"
| "convert_sync_to_nonsync_error ScDeadlock = NcDeadlock"
| "convert_sync_to_nonsync_error ScQuota = NcQuota"
| "convert_sync_to_nonsync_error ScExist = NcExist"
| "convert_sync_to_nonsync_error ScFileTooLarge = NcFileTooLarge"
| "convert_sync_to_nonsync_error ScIllegalByteSequence = NcIllegalByteSequence"
| "convert_sync_to_nonsync_error ScInProgress = NcInProgress"
| "convert_sync_to_nonsync_error ScInterrupted = NcInterrupted"
| "convert_sync_to_nonsync_error ScInvalid = NcInvalid"
| "convert_sync_to_nonsync_error ScIo = NcIo"
| "convert_sync_to_nonsync_error ScIsDirectory = NcIsDirectory"
| "convert_sync_to_nonsync_error ScLoop = NcLoop"
| "convert_sync_to_nonsync_error ScTooManyLinks = NcTooManyLinks"
| "convert_sync_to_nonsync_error ScMessageSize = NcMessageSize"
| "convert_sync_to_nonsync_error ScNameTooLong = NcNameTooLong"
| "convert_sync_to_nonsync_error ScNoDevice = NcNoDevice"
| "convert_sync_to_nonsync_error ScNoEntry = NcNoEntry"
| "convert_sync_to_nonsync_error ScNoLock = NcNoLock"
| "convert_sync_to_nonsync_error ScInsufficientMemory = NcInsufficientMemory"
| "convert_sync_to_nonsync_error ScInsufficientSpace = NcInsufficientSpace"
| "convert_sync_to_nonsync_error ScNotDirectory = NcNotDirectory"
| "convert_sync_to_nonsync_error ScNotEmpty = NcNotEmpty"
| "convert_sync_to_nonsync_error ScNotRecoverable = NcNotRecoverable"
| "convert_sync_to_nonsync_error ScUnsupported = NcUnsupported"
| "convert_sync_to_nonsync_error ScNoTty = NcNoTty"
| "convert_sync_to_nonsync_error ScNoSuchDevice = NcNoSuchDevice"
| "convert_sync_to_nonsync_error ScOverflow = NcOverflow"
| "convert_sync_to_nonsync_error ScNotPermitted = NcNotPermitted"
| "convert_sync_to_nonsync_error ScPipe = NcPipe"
| "convert_sync_to_nonsync_error ScReadOnly = NcReadOnly"
| "convert_sync_to_nonsync_error ScInvalidSeek = NcInvalidSeek"
| "convert_sync_to_nonsync_error ScTextFileBusy = NcTextFileBusy"
| "convert_sync_to_nonsync_error ScCrossDevice = NcCrossDevice"

text \<open>\<open>downcast\<close> passes a trap on.\<close>

fun nonsync_to_sync :: "nonsync_code \<Rightarrow> sync_code" where
  "nonsync_to_sync NcAccess = ScAccess"
| "nonsync_to_sync NcWouldBlock = ScWouldBlock"
| "nonsync_to_sync NcAlready = ScAlready"
| "nonsync_to_sync NcBadDescriptor = ScBadDescriptor"
| "nonsync_to_sync NcBusy = ScBusy"
| "nonsync_to_sync NcDeadlock = ScDeadlock"
| "nonsync_to_sync NcQuota = ScQuota"
| "nonsync_to_sync NcExist = ScExist"
| "nonsync_to_sync NcFileTooLarge = ScFileTooLarge"
| "nonsync_to_sync NcIllegalByteSequence = ScIllegalByteSequence"
| "nonsync_to_sync NcInProgress = ScInProgress"
| "nonsync_to_sync NcInterrupted = ScInterrupted"
| "nonsync_to_sync NcInvalid = ScInvalid"
| "nonsync_to_sync NcIo = ScIo"
| "nonsync_to_sync NcIsDirectory = ScIsDirectory"
| "nonsync_to_sync NcLoop = ScLoop"
| "nonsync_to_sync NcTooManyLinks = ScTooManyLinks"
| "nonsync_to_sync NcMessageSize = ScMessageSize"
| "nonsync_to_sync NcNameTooLong = ScNameTooLong"
| "nonsync_to_sync NcNoDevice = ScNoDevice"
| "nonsync_to_sync NcNoEntry = ScNoEntry"
| "nonsync_to_sync NcNoLock = ScNoLock"
| "nonsync_to_sync NcInsufficientMemory = ScInsufficientMemory"
| "nonsync_to_sync NcInsufficientSpace = ScInsufficientSpace"
| "nonsync_to_sync NcNotDirectory = ScNotDirectory"
| "nonsync_to_sync NcNotEmpty = ScNotEmpty"
| "nonsync_to_sync NcNotRecoverable = ScNotRecoverable"
| "nonsync_to_sync NcUnsupported = ScUnsupported"
| "nonsync_to_sync NcNoTty = ScNoTty"
| "nonsync_to_sync NcNoSuchDevice = ScNoSuchDevice"
| "nonsync_to_sync NcOverflow = ScOverflow"
| "nonsync_to_sync NcNotPermitted = ScNotPermitted"
| "nonsync_to_sync NcPipe = ScPipe"
| "nonsync_to_sync NcReadOnly = ScReadOnly"
| "nonsync_to_sync NcInvalidSeek = ScInvalidSeek"
| "nonsync_to_sync NcTextFileBusy = ScTextFileBusy"
| "nonsync_to_sync NcCrossDevice = ScCrossDevice"

fun convert_error_code :: "host_error \<Rightarrow> sync_code option" where
  "convert_error_code HostTrap = None"
| "convert_error_code (HostCode c) = Some (nonsync_to_sync c)"

fun convert_fs_error :: "fs_error \<Rightarrow> sync_code" where
  "convert_fs_error NotFound = ScNoEntry"
| "convert_fs_error NotADirectory = ScNotDirectory"
| "convert_fs_error IsADirectory = ScIsDirectory"
| "convert_fs_error AlreadyExists = ScExist"
| "convert_fs_error NotEmpty = ScNotEmpty"
| "convert_fs_error BadFileDescriptor = ScBadDescriptor"
| "convert_fs_error PermissionDenied = ScAccess"
| "convert_fs_error InvalidArgument = ScInvalid"

definition convert_fs_error_to_trappable :: "fs_error \<Rightarrow> host_error" where
  "convert_fs_error_to_trappable e = HostCode (convert_sync_to_nonsync_error (convert_fs_error e))"

definition unsupported :: host_error where
  "unsupported = HostCode (convert_sync_to_nonsync_error ScUnsupported)"

section \<open>State\<close>

datatype open_kind = KindRead | KindWrite

definition kind_from_fs_flags :: "u32 \<Rightarrow> open_kind" where
  "kind_from_fs_flags flags = (if flags AND 0x3 \<noteq> O_RDONLY then KindWrite else KindRead)"

definition kind_is_write :: "open_kind \<Rightarrow> bool" where
  "kind_is_write k \<longleftrightarrow> k = KindWrite"

record fs_descriptor =
  fd_no :: u32
  fd_path :: "string option"
  fd_flags :: u32

record dir_stream =
  dir_entries :: "(string \<times> bool) list"
  dir_position :: nat

record host_input =
  hi_fd :: u32
  hi_offset :: u64
  hi_path :: "string option"
  hi_refreshed :: bool

record host_output =
  ho_fd :: u32
  ho_offset :: "u64 option"
  ho_path :: "string option"

text \<open>An entry of the resource table. \<open>ResError\<close> stands for the errors of streams.\<close>

datatype host_resource =
    ResDescriptor fs_descriptor
  | ResDirStream dir_stream
  | ResInput host_input
  | ResOutput host_output
  | ResError

text \<open>\<open>S3SyncHooks\<close> holds the sync manager of the process and the two options.\<close>

datatype sync_hooks = NoOpSyncHooks | S3SyncHooks (hook_read_from_s3: bool) (hook_metadata_sync: bool)

record 's vfs_host =
  vh_table :: "u32 \<rightharpoonup> host_resource"
  vh_fs :: fs
  vh_hooks :: "sync_hooks option"
  vh_manager :: "('s, fs) sync_manager option"
  vh_thread :: bool
  vh_running :: bool

type_synonym 's host_result = "host_error + 's"
type_synonym table_alloc = "(u32 \<rightharpoonup> host_resource) \<Rightarrow> u32 option"

text \<open>A call of the manager, and of the local file system.\<close>

definition host_sync ::
  "(('s, fs) sync_manager \<Rightarrow> 'r \<times> ('s, fs) sync_manager) \<Rightarrow> ('s, fs) sync_manager \<Rightarrow> 's vfs_host \<Rightarrow> 'r \<times> 's vfs_host" where
  "host_sync g m h = (case g (m\<lparr>m_fs := vh_fs h\<rparr>) of (r, m) \<Rightarrow> (r, h\<lparr>vh_fs := m_fs m, vh_manager := Some m\<rparr>))"

definition host_local :: "(fs \<Rightarrow> 'r \<times> fs) \<Rightarrow> 's vfs_host \<Rightarrow> 'r \<times> 's vfs_host" where
  "host_local g h = (case g (vh_fs h) of (r, f) \<Rightarrow> (r, h\<lparr>vh_fs := f\<rparr>))"

section \<open>Hooks\<close>

datatype sync_hook_error = HookBusy | HookConflict | HookIo string

fun hook_error_of :: "sync_error \<Rightarrow> sync_hook_error" where
  "hook_error_of (Busy p h) = HookBusy"
| "hook_error_of (Conflict p b) = HookConflict"
| "hook_error_of e = HookIo (sync_error_display e)"

fun convert_sync_hook_error :: "sync_hook_error \<Rightarrow> sync_code" where
  "convert_sync_hook_error HookBusy = ScBusy"
| "convert_sync_hook_error HookConflict = ScNotRecoverable"
| "convert_sync_hook_error (HookIo msg) = ScIo"

text \<open>The hooks of \<open>NoOpSyncHooks\<close> do nothing and accept everything. \<open>s3_hook\<close> is the manager that a
  hook works with, and its two options.\<close>

definition s3_hook :: "'s vfs_host \<Rightarrow> (bool \<times> bool \<times> ('s, fs) sync_manager) option" where
  "s3_hook h =
     (case (vh_hooks h, vh_manager h) of
        (Some (S3SyncHooks r s), Some m) \<Rightarrow> Some (r, s, m)
      | _ \<Rightarrow> None)"

definition sync_file_blocking :: "('s, fs) sync_env \<Rightarrow> string \<Rightarrow> ('s, fs) sync_manager \<Rightarrow> 's vfs_host \<Rightarrow> 's vfs_host" where
  "sync_file_blocking X path m h = snd (host_sync (sync_file_now X path) m h)"

definition hook_on_write :: "('s, fs) sync_env \<Rightarrow> string \<Rightarrow> 's vfs_host \<Rightarrow> 's vfs_host" where
  "hook_on_write X path h =
     (case s3_hook h of
        None \<Rightarrow> h
      | Some (_, _, m) \<Rightarrow>
          if is_realtime X then sync_file_blocking X path m h
          else snd (host_sync (\<lambda>m. ((), enqueue_upload path m)) m h))"

definition hook_on_delete :: "string \<Rightarrow> 's vfs_host \<Rightarrow> 's vfs_host" where
  "hook_on_delete path h =
     (case s3_hook h of
        None \<Rightarrow> h
      | Some (_, _, m) \<Rightarrow> snd (host_sync (\<lambda>m. ((), enqueue_delete path m)) m h))"

definition hook_on_truncate :: "('s, fs) sync_env \<Rightarrow> string \<Rightarrow> 's vfs_host \<Rightarrow> 's vfs_host" where
  "hook_on_truncate X path h =
     (case s3_hook h of
        None \<Rightarrow> h
      | Some (_, _, m) \<Rightarrow>
          if is_realtime X then sync_file_blocking X path m h
          else snd (host_sync (\<lambda>m. ((), enqueue_upload path m)) m h))"

definition hook_on_read :: "('s, fs) sync_env \<Rightarrow> string \<Rightarrow> 's vfs_host \<Rightarrow> 's vfs_host" where
  "hook_on_read X path h =
     (case s3_hook h of
        None \<Rightarrow> h
      | Some (read_from_s3, _, m) \<Rightarrow>
          if read_from_s3 then snd (host_sync (refresh_file_from_s3 X path) m h) else h)"

definition hook_on_open ::
  "nat \<Rightarrow> ('s, fs) sync_env \<Rightarrow> string \<Rightarrow> open_kind \<Rightarrow> 's vfs_host \<Rightarrow> ((sync_hook_error + unit) \<times> 's vfs_host) option" where
  "hook_on_open fuel X path kind h =
     (case s3_hook h of
        None \<Rightarrow> Some (Inr (), h)
      | Some (_, metadata_sync, m) \<Rightarrow>
          if file_lock (config X) \<and> kind_is_write kind then
            (case on_open_write fuel X path (m\<lparr>m_fs := vh_fs h\<rparr>) of
               None \<Rightarrow> None
             | Some (r, m) \<Rightarrow> Some (map_err hook_error_of r, h\<lparr>vh_fs := m_fs m, vh_manager := Some m\<rparr>))
          else if metadata_sync then Some (Inr (), snd (host_sync (check_and_refresh_from_s3 X path) m h))
          else Some (Inr (), h))"

text \<open>A hook that calls the manager and reports its error.\<close>

definition hook_call ::
  "(('s, fs) sync_manager \<Rightarrow> (sync_error + unit) \<times> ('s, fs) sync_manager) \<Rightarrow> 's vfs_host \<Rightarrow>
   (sync_hook_error + unit) \<times> 's vfs_host" where
  "hook_call g h =
     (case s3_hook h of
        None \<Rightarrow> (Inr (), h)
      | Some (_, _, m) \<Rightarrow> (case host_sync g m h of (r, h) \<Rightarrow> (map_err hook_error_of r, h)))"

definition hook_on_close ::
  "('s, fs) sync_env \<Rightarrow> string \<Rightarrow> open_kind \<Rightarrow> 's vfs_host \<Rightarrow> (sync_hook_error + unit) \<times> 's vfs_host" where
  "hook_on_close X path kind h =
     (if \<not> (file_lock (config X) \<and> kind_is_write kind) then (Inr (), h) else hook_call (on_close X path) h)"

definition hook_on_fsync ::
  "('s, fs) sync_env \<Rightarrow> string \<Rightarrow> open_kind \<Rightarrow> 's vfs_host \<Rightarrow> (sync_hook_error + unit) \<times> 's vfs_host" where
  "hook_on_fsync X path kind h =
     (if \<not> kind_is_write kind then (Inr (), h) else hook_call (on_fsync X path) h)"

definition hook_on_mkdir :: "('s, fs) sync_env \<Rightarrow> string \<Rightarrow> 's vfs_host \<Rightarrow> (sync_hook_error + unit) \<times> 's vfs_host" where
  "hook_on_mkdir X path h = hook_call (on_mkdir X path) h"

definition hook_on_rmdir :: "('s, fs) sync_env \<Rightarrow> string \<Rightarrow> 's vfs_host \<Rightarrow> (sync_hook_error + unit) \<times> 's vfs_host" where
  "hook_on_rmdir X path h = hook_call (on_rmdir X path) h"

text \<open>\<open>run_hook\<close>, the same for the hooks that take no fuel.\<close>

definition hook_result :: "sync_hook_error + unit \<Rightarrow> unit host_result" where
  "hook_result r = map_err (\<lambda>e. HostCode (convert_sync_to_nonsync_error (convert_sync_hook_error e))) r"

section \<open>The resource table\<close>

definition table_push :: "table_alloc \<Rightarrow> host_resource \<Rightarrow> 's vfs_host \<Rightarrow> u32 host_result \<times> 's vfs_host" where
  "table_push alloc r h =
     (case alloc (vh_table h) of
        None \<Rightarrow> (Inl HostTrap, h)
      | Some rep \<Rightarrow> (Inr rep, h\<lparr>vh_table := (vh_table h)(rep \<mapsto> r)\<rparr>))"

definition get_fs_wrapper :: "u32 \<Rightarrow> 's vfs_host \<Rightarrow> fs_descriptor host_result" where
  "get_fs_wrapper rep h = (case vh_table h rep of Some (ResDescriptor w) \<Rightarrow> Inr w | _ \<Rightarrow> Inl HostTrap)"

definition get_fs_descriptor :: "u32 \<Rightarrow> 's vfs_host \<Rightarrow> (u32 \<times> string option) host_result" where
  "get_fs_descriptor rep h =
     (case vh_table h rep of Some (ResDescriptor w) \<Rightarrow> Inr (fd_no w, fd_path w) | _ \<Rightarrow> Inl HostTrap)"

definition resolve_path :: "string option \<Rightarrow> string \<Rightarrow> string" where
  "resolve_path dir_path relative_path =
     (case dir_path of
        Some dir \<Rightarrow>
          if dir = ''/'' then CHR ''/'' # trim_start_matches CHR ''/'' relative_path
          else trim_end_matches CHR ''/'' dir @ CHR ''/'' # trim_start_matches CHR ''/'' relative_path
      | None \<Rightarrow> CHR ''/'' # trim_start_matches CHR ''/'' relative_path)"

definition filesystem_error_code :: "u32 \<Rightarrow> 's vfs_host \<Rightarrow> nonsync_code option host_result" where
  "filesystem_error_code err h = (case vh_table h err of Some ResError \<Rightarrow> Inr None | _ \<Rightarrow> Inl HostTrap)"

text \<open>An operation on the descriptor number of a resource, or on the path below a directory resource.\<close>

definition with_fd ::
  "u32 \<Rightarrow> (u32 \<Rightarrow> string option \<Rightarrow> 's vfs_host \<Rightarrow> 'r host_result \<times> 's vfs_host) \<Rightarrow> 's vfs_host \<Rightarrow> 'r host_result \<times> 's vfs_host" where
  "with_fd self g h =
     (case get_fs_descriptor self h of
        Inl e \<Rightarrow> (Inl e, h)
      | Inr (d, path) \<Rightarrow> g d path h)"

definition with_path ::
  "u32 \<Rightarrow> string \<Rightarrow> (string \<Rightarrow> 's vfs_host \<Rightarrow> 'r host_result \<times> 's vfs_host) \<Rightarrow> 's vfs_host \<Rightarrow> 'r host_result \<times> 's vfs_host" where
  "with_path self path g h = with_fd self (\<lambda>_ dir. g (resolve_path dir path)) h"

text \<open>A local call, then what follows it when it succeeded.\<close>

definition local_then ::
  "(fs \<Rightarrow> (fs_error + 'r) \<times> fs) \<Rightarrow> ('r \<Rightarrow> 's vfs_host \<Rightarrow> 'q host_result \<times> 's vfs_host) \<Rightarrow> 's vfs_host \<Rightarrow>
   'q host_result \<times> 's vfs_host" where
  "local_then g follow h =
     (case host_local g h of
        (Inl e, h) \<Rightarrow> (Inl (convert_fs_error_to_trappable e), h)
      | (Inr r, h) \<Rightarrow> follow r h)"

definition local_query :: "(fs \<Rightarrow> fs_error + 'r) \<Rightarrow> ('r \<Rightarrow> 'q) \<Rightarrow> 's vfs_host \<Rightarrow> 'q host_result \<times> 's vfs_host" where
  "local_query g answer h = (map_sum convert_fs_error_to_trappable answer (g (vh_fs h)), h)"

section \<open>Streams\<close>

text \<open>The methods of a stream value, and the operations on its resource: \<open>wasmtime\<close> finds the stream in
  the table and calls the method; \<open>None\<close> is a trap (no stream of that direction has this number).\<close>

definition input_stream_read ::
  "('s, fs) sync_env \<Rightarrow> nat \<Rightarrow> host_input \<Rightarrow> 's vfs_host \<Rightarrow> (stream_error + bytes) \<times> host_input \<times> 's vfs_host" where
  "input_stream_read X sz st h =
     (let h = (case hi_path st of Some path \<Rightarrow> if hi_refreshed st then h else hook_on_read X path h | None \<Rightarrow> h);
          st = st\<lparr>hi_refreshed := True\<rparr> in
      case host_local (\<lambda>f. read_at f (hi_fd st) (hi_offset st) (replicate sz 0)) h of
        (Inl e, h) \<Rightarrow> (Inl LastOperationFailed, st, h)
      | (Inr (n, buf), h) \<Rightarrow>
          if n = 0 \<and> sz > 0 then (Inl Closed, st, h)
          else (Inr (take n buf), st\<lparr>hi_offset := hi_offset st + of_nat n\<rparr>, h))"

definition input_stream_skip :: "nat \<Rightarrow> host_input \<Rightarrow> (stream_error + nat) \<times> host_input" where
  "input_stream_skip nelem st = (Inr nelem, st\<lparr>hi_offset := hi_offset st + of_nat nelem\<rparr>)"

definition output_stream_write ::
  "bytes \<Rightarrow> host_output \<Rightarrow> 's vfs_host \<Rightarrow> (stream_error + unit) \<times> host_output \<times> 's vfs_host" where
  "output_stream_write data st h =
     (case ho_offset st of
        Some off \<Rightarrow>
          (case host_local (\<lambda>f. write_at f (ho_fd st) off data) h of
             (Inl e, h) \<Rightarrow> (Inl LastOperationFailed, st, h)
           | (Inr n, h) \<Rightarrow> (Inr (), st\<lparr>ho_offset := Some (off + of_nat n)\<rparr>, h))
      | None \<Rightarrow>
          (case host_local (\<lambda>f. append_write f (ho_fd st) data) h of
             (Inl e, h) \<Rightarrow> (Inl LastOperationFailed, st, h)
           | (Inr n, h) \<Rightarrow> (Inr (), st, h)))"

definition output_stream_flush :: "stream_error + unit" where
  "output_stream_flush = Inr ()"

definition output_stream_check_write :: "stream_error + nat" where
  "output_stream_check_write = Inr (1024 * 1024)"

definition stream_read ::
  "('s, fs) sync_env \<Rightarrow> u32 \<Rightarrow> nat \<Rightarrow> 's vfs_host \<Rightarrow> (stream_error + bytes) option \<times> 's vfs_host" where
  "stream_read X rep sz h =
     (case vh_table h rep of
        Some (ResInput st) \<Rightarrow>
          (case input_stream_read X sz st h of
             (r, st, h) \<Rightarrow> (Some r, h\<lparr>vh_table := (vh_table h)(rep \<mapsto> ResInput st)\<rparr>))
      | _ \<Rightarrow> (None, h))"

definition stream_skip :: "u32 \<Rightarrow> nat \<Rightarrow> 's vfs_host \<Rightarrow> (stream_error + nat) option \<times> 's vfs_host" where
  "stream_skip rep nelem h =
     (case vh_table h rep of
        Some (ResInput st) \<Rightarrow>
          (case input_stream_skip nelem st of
             (r, st) \<Rightarrow> (Some r, h\<lparr>vh_table := (vh_table h)(rep \<mapsto> ResInput st)\<rparr>))
      | _ \<Rightarrow> (None, h))"

definition stream_write :: "u32 \<Rightarrow> bytes \<Rightarrow> 's vfs_host \<Rightarrow> (stream_error + unit) option \<times> 's vfs_host" where
  "stream_write rep data h =
     (case vh_table h rep of
        Some (ResOutput st) \<Rightarrow>
          (case output_stream_write data st h of
             (r, st, h) \<Rightarrow> (Some r, h\<lparr>vh_table := (vh_table h)(rep \<mapsto> ResOutput st)\<rparr>))
      | _ \<Rightarrow> (None, h))"

text \<open>\<open>Drop for FsOutputStreamWrapper\<close>, and the drop of a stream resource.\<close>

definition output_dropped :: "('s, fs) sync_env \<Rightarrow> host_output \<Rightarrow> 's vfs_host \<Rightarrow> 's vfs_host" where
  "output_dropped X st h = (case ho_path st of Some path \<Rightarrow> hook_on_write X path h | None \<Rightarrow> h)"

definition drop_output :: "('s, fs) sync_env \<Rightarrow> u32 \<Rightarrow> 's vfs_host \<Rightarrow> unit host_result \<times> 's vfs_host" where
  "drop_output X rep h =
     (case vh_table h rep of
        Some (ResOutput st) \<Rightarrow> (Inr (), output_dropped X st (h\<lparr>vh_table := (vh_table h)(rep := None)\<rparr>))
      | _ \<Rightarrow> (Inl HostTrap, h))"

definition drop_input :: "u32 \<Rightarrow> 's vfs_host \<Rightarrow> unit host_result \<times> 's vfs_host" where
  "drop_input rep h =
     (case vh_table h rep of
        Some (ResInput st) \<Rightarrow> (Inr (), h\<lparr>vh_table := (vh_table h)(rep := None)\<rparr>)
      | _ \<Rightarrow> (Inl HostTrap, h))"

definition host_read_via_stream :: "table_alloc \<Rightarrow> u32 \<Rightarrow> u64 \<Rightarrow> 's vfs_host \<Rightarrow> u32 host_result \<times> 's vfs_host" where
  "host_read_via_stream alloc self off =
     with_fd self (\<lambda>d path. table_push alloc (ResInput \<lparr>hi_fd = d, hi_offset = off, hi_path = path, hi_refreshed = False\<rparr>))"

definition host_write_via_stream :: "table_alloc \<Rightarrow> u32 \<Rightarrow> u64 \<Rightarrow> 's vfs_host \<Rightarrow> u32 host_result \<times> 's vfs_host" where
  "host_write_via_stream alloc self off =
     with_fd self (\<lambda>d path. table_push alloc (ResOutput \<lparr>ho_fd = d, ho_offset = Some off, ho_path = path\<rparr>))"

definition host_append_via_stream :: "table_alloc \<Rightarrow> u32 \<Rightarrow> 's vfs_host \<Rightarrow> u32 host_result \<times> 's vfs_host" where
  "host_append_via_stream alloc self =
     with_fd self (\<lambda>d path. table_push alloc (ResOutput \<lparr>ho_fd = d, ho_offset = None, ho_path = path\<rparr>))"

section \<open>Operations of a descriptor\<close>

definition desc_read ::
  "nat \<Rightarrow> u32 \<Rightarrow> u64 \<Rightarrow> u64 \<Rightarrow> 's vfs_host \<Rightarrow> (bytes \<times> bool) host_result \<times> 's vfs_host" where
  "desc_read W self len off =
     with_fd self (\<lambda>d _. local_then (\<lambda>f. read_at f d off (replicate (as_usize W len) 0))
       (\<lambda>(n, buf) h. (Inr (take n buf, n < as_usize W len), h)))"

definition desc_write :: "u32 \<Rightarrow> bytes \<Rightarrow> u64 \<Rightarrow> 's vfs_host \<Rightarrow> u64 host_result \<times> 's vfs_host" where
  "desc_write self buffer off =
     with_fd self (\<lambda>d _. local_then (\<lambda>f. write_at f d off buffer) (\<lambda>n h. (Inr (usize_as_u64 n), h)))"

text \<open>The close hook runs before the local close, and its error is only logged.\<close>

definition desc_drop :: "('s, fs) sync_env \<Rightarrow> u32 \<Rightarrow> 's vfs_host \<Rightarrow> unit host_result \<times> 's vfs_host" where
  "desc_drop X rep h =
     (case vh_table h rep of
        Some (ResDescriptor w) \<Rightarrow>
          let h = h\<lparr>vh_table := (vh_table h)(rep := None)\<rparr>;
              h = (case fd_path w of
                     Some path \<Rightarrow>
                       if kind_is_write (kind_from_fs_flags (fd_flags w))
                       then snd (hook_on_close X path (kind_from_fs_flags (fd_flags w)) h) else h
                   | None \<Rightarrow> h) in
          (Inr (), snd (host_local (\<lambda>f. fs_close f (fd_no w)) h))
      | _ \<Rightarrow> (Inl HostTrap, h))"

definition fsync_descriptor :: "('s, fs) sync_env \<Rightarrow> u32 \<Rightarrow> 's vfs_host \<Rightarrow> unit host_result \<times> 's vfs_host" where
  "fsync_descriptor X self h =
     (case get_fs_wrapper self h of
        Inl e \<Rightarrow> (Inl e, h)
      | Inr w \<Rightarrow>
          (case fd_path w of
             Some path \<Rightarrow>
               let kind = kind_from_fs_flags (fd_flags w) in
               if kind_is_write kind then
                 (case hook_on_fsync X path kind (hook_on_write X path h) of (r, h) \<Rightarrow> (hook_result r, h))
               else (Inr (), h)
           | None \<Rightarrow> (Inr (), h)))"

definition desc_sync :: "('s, fs) sync_env \<Rightarrow> u32 \<Rightarrow> 's vfs_host \<Rightarrow> unit host_result \<times> 's vfs_host" where
  "desc_sync X self = fsync_descriptor X self"

definition desc_sync_data :: "('s, fs) sync_env \<Rightarrow> u32 \<Rightarrow> 's vfs_host \<Rightarrow> unit host_result \<times> 's vfs_host" where
  "desc_sync_data X self = fsync_descriptor X self"

definition desc_advise :: "'s vfs_host \<Rightarrow> unit host_result \<times> 's vfs_host" where
  "desc_advise h = (Inr (), h)"

definition desc_get_flags :: "'s vfs_host \<Rightarrow> descriptor_flag set host_result \<times> 's vfs_host" where
  "desc_get_flags h = (Inr {DfRead, DfWrite}, h)"

definition desc_get_type :: "u32 \<Rightarrow> 's vfs_host \<Rightarrow> descriptor_type host_result \<times> 's vfs_host" where
  "desc_get_type self = with_fd self (\<lambda>d _. local_query (\<lambda>f. fstat f d) (\<lambda>md. type_of_dir (is_dir md)))"

definition desc_set_size :: "('s, fs) sync_env \<Rightarrow> u32 \<Rightarrow> u64 \<Rightarrow> 's vfs_host \<Rightarrow> unit host_result \<times> 's vfs_host" where
  "desc_set_size X self sz =
     with_fd self (\<lambda>d path. local_then (\<lambda>f. ftruncate f d sz)
       (\<lambda>_ h. (Inr (), case path of Some p \<Rightarrow> hook_on_truncate X p h | None \<Rightarrow> h)))"

definition desc_set_times :: "'s vfs_host \<Rightarrow> unit host_result \<times> 's vfs_host" where
  "desc_set_times h = (Inl unsupported, h)"

definition desc_set_times_at :: "'s vfs_host \<Rightarrow> unit host_result \<times> 's vfs_host" where
  "desc_set_times_at h = (Inl unsupported, h)"

definition desc_link_at :: "'s vfs_host \<Rightarrow> unit host_result \<times> 's vfs_host" where
  "desc_link_at h = (Inl unsupported, h)"

definition desc_readlink_at :: "'s vfs_host \<Rightarrow> string host_result \<times> 's vfs_host" where
  "desc_readlink_at h = (Inl unsupported, h)"

definition desc_symlink_at :: "'s vfs_host \<Rightarrow> unit host_result \<times> 's vfs_host" where
  "desc_symlink_at h = (Inl unsupported, h)"

definition convert_metadata_to_stat :: "metadata \<Rightarrow> descriptor_stat" where
  "convert_metadata_to_stat md =
     \<lparr>ds_type = type_of_dir (is_dir md), ds_link_count = 1, ds_size = md_size md, ds_access = Some (modified md),
      ds_modification = Some (modified md), ds_status_change = Some (created md)\<rparr>"

definition desc_stat :: "u32 \<Rightarrow> 's vfs_host \<Rightarrow> descriptor_stat host_result \<times> 's vfs_host" where
  "desc_stat self = with_fd self (\<lambda>d _. local_query (\<lambda>f. fstat f d) convert_metadata_to_stat)"

definition desc_stat_at :: "u32 \<Rightarrow> string \<Rightarrow> 's vfs_host \<Rightarrow> descriptor_stat host_result \<times> 's vfs_host" where
  "desc_stat_at self path = with_path self path (\<lambda>full. local_query (\<lambda>f. stat f full) convert_metadata_to_stat)"

definition hash_of_metadata :: "metadata \<Rightarrow> u64 \<times> u64" where
  "hash_of_metadata md = (md_size md, modified md)"

definition desc_metadata_hash :: "u32 \<Rightarrow> 's vfs_host \<Rightarrow> (u64 \<times> u64) host_result \<times> 's vfs_host" where
  "desc_metadata_hash self = with_fd self (\<lambda>d _. local_query (\<lambda>f. fstat f d) hash_of_metadata)"

definition desc_metadata_hash_at :: "u32 \<Rightarrow> string \<Rightarrow> 's vfs_host \<Rightarrow> (u64 \<times> u64) host_result \<times> 's vfs_host" where
  "desc_metadata_hash_at self path = with_path self path (\<lambda>full. local_query (\<lambda>f. stat f full) hash_of_metadata)"

definition desc_is_same_object :: "u32 \<Rightarrow> u32 \<Rightarrow> 's vfs_host \<Rightarrow> bool host_result \<times> 's vfs_host" where
  "desc_is_same_object self other = with_fd self (\<lambda>d1 _. with_fd other (\<lambda>d2 _ h. (Inr (d1 = d2), h)))"

section \<open>Directories and paths\<close>

definition desc_read_directory :: "table_alloc \<Rightarrow> u32 \<Rightarrow> 's vfs_host \<Rightarrow> u32 host_result \<times> 's vfs_host" where
  "desc_read_directory alloc self =
     with_fd self (\<lambda>d _ h.
       case readdir_fd (vh_fs h) d of
         Inl e \<Rightarrow> (Inl (convert_fs_error_to_trappable e), h)
       | Inr es \<Rightarrow> table_push alloc (ResDirStream \<lparr>dir_entries = es, dir_position = 0\<rparr>) h)"

definition dir_read_entry :: "u32 \<Rightarrow> 's vfs_host \<Rightarrow> (descriptor_type \<times> string) option host_result \<times> 's vfs_host" where
  "dir_read_entry self h =
     (case vh_table h self of
        Some (ResDirStream ds) \<Rightarrow>
          if dir_position ds \<ge> length (dir_entries ds) then (Inr None, h)
          else
            (case dir_entries ds ! dir_position ds of
               (name, d) \<Rightarrow>
                 (Inr (Some (type_of_dir d, name)),
                  h\<lparr>vh_table := (vh_table h)(self \<mapsto> ResDirStream (ds\<lparr>dir_position := dir_position ds + 1\<rparr>))\<rparr>))
      | _ \<Rightarrow> (Inl HostTrap, h))"

definition dir_drop :: "u32 \<Rightarrow> 's vfs_host \<Rightarrow> unit host_result \<times> 's vfs_host" where
  "dir_drop rep h =
     (case vh_table h rep of
        Some (ResDirStream ds) \<Rightarrow> (Inr (), h\<lparr>vh_table := (vh_table h)(rep := None)\<rparr>)
      | _ \<Rightarrow> (Inl HostTrap, h))"

definition desc_create_directory_at :: "('s, fs) sync_env \<Rightarrow> u32 \<Rightarrow> string \<Rightarrow> 's vfs_host \<Rightarrow> unit host_result \<times> 's vfs_host" where
  "desc_create_directory_at X self path =
     with_path self path (\<lambda>full. local_then (\<lambda>f. mkdir f full)
       (\<lambda>_ h. case hook_on_mkdir X full h of (r, h) \<Rightarrow> (hook_result r, h)))"

definition desc_remove_directory_at :: "('s, fs) sync_env \<Rightarrow> u32 \<Rightarrow> string \<Rightarrow> 's vfs_host \<Rightarrow> unit host_result \<times> 's vfs_host" where
  "desc_remove_directory_at X self path =
     with_path self path (\<lambda>full. local_then (\<lambda>f. rmdir f full)
       (\<lambda>_ h. case hook_on_rmdir X full h of (r, h) \<Rightarrow> (hook_result r, h)))"

definition desc_unlink_file_at :: "u32 \<Rightarrow> string \<Rightarrow> 's vfs_host \<Rightarrow> unit host_result \<times> 's vfs_host" where
  "desc_unlink_file_at self path =
     with_path self path (\<lambda>full. local_then (\<lambda>f. unlink f full) (\<lambda>_ h. (Inr (), hook_on_delete full h)))"

text \<open>The descriptor of the new path is not looked at.\<close>

definition desc_rename_at :: "u32 \<Rightarrow> string \<Rightarrow> u32 \<Rightarrow> string \<Rightarrow> 's vfs_host \<Rightarrow> unit host_result \<times> 's vfs_host" where
  "desc_rename_at self old_path new_descriptor new_path =
     with_fd self (\<lambda>_ dir. local_then (\<lambda>f. rename f (resolve_path dir old_path) (resolve_path dir new_path))
       (\<lambda>_ h. (Inr (), h)))"

definition open_at_flags :: "open_flag set \<Rightarrow> descriptor_flag set \<Rightarrow> u32" where
  "open_at_flags ofs dfs =
     (if DfRead \<in> dfs \<and> DfWrite \<in> dfs then O_RDWR else if DfWrite \<in> dfs then O_WRONLY else O_RDONLY)
     OR (if OfCreate \<in> ofs then O_CREAT else 0) OR (if OfTruncate \<in> ofs then O_TRUNC else 0)"

definition desc_open_at ::
  "table_alloc \<Rightarrow> nat \<Rightarrow> ('s, fs) sync_env \<Rightarrow> u32 \<Rightarrow> string \<Rightarrow> open_flag set \<Rightarrow> descriptor_flag set \<Rightarrow> 's vfs_host \<Rightarrow>
   (u32 host_result \<times> 's vfs_host) option" where
  "desc_open_at alloc fuel X self path ofs dfs h =
     (case get_fs_descriptor self h of
        Inl e \<Rightarrow> Some (Inl e, h)
      | Inr (_, dir) \<Rightarrow>
          let full = resolve_path dir path; flags = open_at_flags ofs dfs in
          (case hook_on_open fuel X full (kind_from_fs_flags flags) h of
             None \<Rightarrow> None
           | Some (Inl e, h) \<Rightarrow> Some (Inl (HostCode (convert_sync_to_nonsync_error (convert_sync_hook_error e))), h)
           | Some (Inr _, h) \<Rightarrow>
               Some (local_then (\<lambda>f. open_path_with_flags f full flags)
                 (\<lambda>d. table_push alloc (ResDescriptor \<lparr>fd_no = d, fd_path = Some full, fd_flags = flags\<rparr>)) h)))"

definition host_get_directories :: "table_alloc \<Rightarrow> 's vfs_host \<Rightarrow> (u32 \<times> string) list host_result \<times> 's vfs_host" where
  "host_get_directories alloc h =
     (case host_local (\<lambda>f. open_path_with_flags f ''/'' (0 OR 0x10000)) h of
        (Inl e, h) \<Rightarrow> (Inl HostTrap, h)
      | (Inr d, h) \<Rightarrow>
          (case table_push alloc (ResDescriptor \<lparr>fd_no = d, fd_path = Some ''/'', fd_flags = 0\<rparr>) h of
             (Inl e, h) \<Rightarrow> (Inl e, h)
           | (Inr rep, h) \<Rightarrow> (Inr [(rep, ''/'')], h)))"

section \<open>Instances\<close>

definition host_over :: "fs \<Rightarrow> 's vfs_host" where
  "host_over f = \<lparr>vh_table = Map.empty, vh_fs = f, vh_hooks = None, vh_manager = None, vh_thread = False,
     vh_running = False\<rparr>"

text \<open>\<open>new\<close>, and \<open>from_shared_vfs_with_env\<close> over a file system that exists.\<close>

definition host_new :: "'s vfs_host" where
  "host_new = host_over fs_new"

definition from_shared_vfs :: "fs \<Rightarrow> 's vfs_host" where
  "from_shared_vfs f = host_over f"

definition host_env :: "'s object_store \<Rightarrow> time_env \<Rightarrow> (string \<Rightarrow> string option) \<Rightarrow> ('s, fs) sync_env" where
  "host_env store E get = \<lparr>se_store = store, se_fs = host_fs, se_time = E, config = from_lookup get\<rparr>"

text \<open>\<open>new_with_s3\<close>: \<open>s\<close> is the client of the bucket, \<open>inst\<close> the random identifier of the manager.\<close>

definition new_with_s3 ::
  "('s, fs) sync_env \<Rightarrow> (string \<Rightarrow> string option) \<Rightarrow> string \<Rightarrow> 's \<Rightarrow> clk \<Rightarrow> (load_error + 's vfs_host) \<times> 's" where
  "new_with_s3 X get inst s k =
     (case init_from_s3 (se_store X) s of
        (Inl e, s) \<Rightarrow> (Inl e, s)
      | (Inr (f, cache), s) \<Rightarrow>
          (Inr \<lparr>vh_table = Map.empty, vh_fs = f,
             vh_hooks = Some (S3SyncHooks (get ''VFS_READ_MODE'' = Some ''s3'') (get ''VFS_METADATA_MODE'' = Some ''s3'')),
             vh_manager = Some (sm_new X s f cache inst k), vh_thread = True, vh_running = True\<rparr>, s))"

text \<open>\<open>clone_shared\<close>, \<open>clone_shared_with_args\<close> and \<open>clone_shared_with_env\<close> differ in the WASI context.\<close>

definition clone_shared :: "'s vfs_host \<Rightarrow> 's vfs_host" where
  "clone_shared h = \<lparr>vh_table = Map.empty, vh_fs = vh_fs h, vh_hooks = vh_hooks h, vh_manager = vh_manager h,
     vh_thread = False, vh_running = vh_running h\<rparr>"

text \<open>The background thread: a turn of its loop, and what it does once it has seen the shutdown.\<close>

definition background_turn :: "('s, fs) sync_env \<Rightarrow> 's vfs_host \<Rightarrow> 's vfs_host" where
  "background_turn X h =
     (case vh_manager h of
        None \<Rightarrow> h
      | Some m \<Rightarrow> if vh_running h \<and> \<not> m_shutdown m then snd (host_sync (maybe_sync X) m h) else h)"

definition background_exit :: "nat \<Rightarrow> ('s, fs) sync_env \<Rightarrow> 's vfs_host \<Rightarrow> 's vfs_host option" where
  "background_exit fuel X h =
     (case vh_manager h of
        None \<Rightarrow> Some (h\<lparr>vh_running := False\<rparr>)
      | Some m \<Rightarrow>
          (case force_flush fuel X (m\<lparr>m_fs := vh_fs h\<rparr>) of
             None \<Rightarrow> None
           | Some (_, m) \<Rightarrow>
               let h = h\<lparr>vh_fs := m_fs m, vh_manager := Some m, vh_running := False\<rparr> in
               Some (snd (host_sync (release_all_leases X) m h))))"

text \<open>\<open>shutdown_sync\<close>: only the instance that owns the thread waits for it.\<close>

definition shutdown_sync :: "nat \<Rightarrow> ('s, fs) sync_env \<Rightarrow> 's vfs_host \<Rightarrow> 's vfs_host option" where
  "shutdown_sync fuel X h =
     (let h = h\<lparr>vh_manager := map_option sm_shutdown (vh_manager h)\<rparr> in
      if vh_thread h then
        map_option (\<lambda>h. h\<lparr>vh_thread := False\<rparr>) (if vh_running h then background_exit fuel X h else Some h)
      else Some h)"

text \<open>The drop of an instance: \<open>shutdown_sync\<close>, then its fields; \<open>reps\<close> are the entries of the table in
  the order in which it drops them. Descriptors have no \<open>Drop\<close> of their own.\<close>

definition drop_entry :: "('s, fs) sync_env \<Rightarrow> u32 \<Rightarrow> 's vfs_host \<Rightarrow> 's vfs_host" where
  "drop_entry X rep h = (case vh_table h rep of Some (ResOutput st) \<Rightarrow> output_dropped X st h | _ \<Rightarrow> h)"

definition host_dropped :: "u32 list \<Rightarrow> nat \<Rightarrow> ('s, fs) sync_env \<Rightarrow> 's vfs_host \<Rightarrow> 's vfs_host option" where
  "host_dropped reps fuel X h = map_option (fold (drop_entry X) reps) (shutdown_sync fuel X h)"

end
