(* ===== verification/Vfs_Host_Inv.thy ===== *)
theory Vfs_Host_Inv
  imports Vfs_Host Rpc_Inv
begin

text \<open>
  The native host as a whole: the operations of an instance as one type, the instances of a process over
  their shared parts, and the invariant that every open write descriptor is backed by a lease. It rests on
  the contract \<open>lease_holds\<close> between descriptors and leases (theory \<open>Rpc_Inv\<close>).
\<close>

section \<open>The operations of an instance\<close>

datatype host_call =
    HcOpenAt u32 string "open_flag set" "descriptor_flag set" | HcDrop u32 | HcGetDirectories
  | HcReadViaStream u32 u64 | HcWriteViaStream u32 u64 | HcAppendViaStream u32
  | HcStreamRead u32 nat | HcStreamSkip u32 nat | HcStreamWrite u32 bytes | HcDropInput u32 | HcDropOutput u32
  | HcRead u32 u64 u64 | HcWrite u32 bytes u64 | HcSync u32 | HcSyncData u32 | HcSetSize u32 u64
  | HcCreateDirectory u32 string | HcRemoveDirectory u32 string | HcUnlink u32 string
  | HcRename u32 string u32 string | HcReadDirectory u32 | HcReadEntry u32 | HcDropDir u32

text \<open>The operations that only look (\<open>stat\<close> and the like) leave the state as it is, by definition. \<open>W\<close> is
  the width of \<open>usize\<close>.\<close>

fun host_exec ::
  "table_alloc \<Rightarrow> nat \<Rightarrow> nat \<Rightarrow> ('s, fs) sync_env \<Rightarrow> host_call \<Rightarrow> 's vfs_host \<Rightarrow> 's vfs_host option" where
  "host_exec al W n X (HcOpenAt self path ofs dfs) h = map_option snd (desc_open_at al n X self path ofs dfs h)"
| "host_exec al W n X (HcDrop self) h = Some (snd (desc_drop X self h))"
| "host_exec al W n X HcGetDirectories h = Some (snd (host_get_directories al h))"
| "host_exec al W n X (HcReadViaStream self off) h = Some (snd (host_read_via_stream al self off h))"
| "host_exec al W n X (HcWriteViaStream self off) h = Some (snd (host_write_via_stream al self off h))"
| "host_exec al W n X (HcAppendViaStream self) h = Some (snd (host_append_via_stream al self h))"
| "host_exec al W n X (HcStreamRead rep sz) h = Some (snd (stream_read X rep sz h))"
| "host_exec al W n X (HcStreamSkip rep sz) h = Some (snd (stream_skip rep sz h))"
| "host_exec al W n X (HcStreamWrite rep data) h = Some (snd (stream_write rep data h))"
| "host_exec al W n X (HcDropInput rep) h = Some (snd (drop_input rep h))"
| "host_exec al W n X (HcDropOutput rep) h = Some (snd (drop_output X rep h))"
| "host_exec al W n X (HcRead self len off) h = Some (snd (desc_read W self len off h))"
| "host_exec al W n X (HcWrite self data off) h = Some (snd (desc_write self data off h))"
| "host_exec al W n X (HcSync self) h = Some (snd (desc_sync X self h))"
| "host_exec al W n X (HcSyncData self) h = Some (snd (desc_sync_data X self h))"
| "host_exec al W n X (HcSetSize self sz) h = Some (snd (desc_set_size X self sz h))"
| "host_exec al W n X (HcCreateDirectory self path) h = Some (snd (desc_create_directory_at X self path h))"
| "host_exec al W n X (HcRemoveDirectory self path) h = Some (snd (desc_remove_directory_at X self path h))"
| "host_exec al W n X (HcUnlink self path) h = Some (snd (desc_unlink_file_at self path h))"
| "host_exec al W n X (HcRename self old_path other new_path) h = Some (snd (desc_rename_at self old_path other new_path h))"
| "host_exec al W n X (HcReadDirectory self) h = Some (snd (desc_read_directory al self h))"
| "host_exec al W n X (HcReadEntry self) h = Some (snd (dir_read_entry self h))"
| "host_exec al W n X (HcDropDir self) h = Some (snd (dir_drop self h))"

section \<open>Calls that are neither an open nor a close\<close>

text \<open>The resources of an instance that are open write descriptors of a path.\<close>

definition table_writers :: "(u32 \<rightharpoonup> host_resource) \<Rightarrow> string \<Rightarrow> u32 set" where
  "table_writers t p =
     {rep. \<exists>w. t rep = Some (ResDescriptor w) \<and> fd_path w = Some p \<and> kind_is_write (kind_from_fs_flags (fd_flags w))}"

definition calm_managers :: "('s, fs) sync_manager option \<Rightarrow> ('s, fs) sync_manager option \<Rightarrow> bool" where
  "calm_managers m m' \<longleftrightarrow> rel_option (\<lambda>m m'. (sm_inv m \<longrightarrow> sm_inv m') \<and> same_holds m m') m m'"

definition same_instance :: "'s vfs_host \<Rightarrow> 's vfs_host \<Rightarrow> bool" where
  "same_instance h h' \<longleftrightarrow> vh_hooks h' = vh_hooks h \<and> vh_thread h' = vh_thread h \<and> vh_running h' = vh_running h"

definition host_quiet :: "'s vfs_host \<Rightarrow> 's vfs_host \<Rightarrow> bool" where
  "host_quiet h h' \<longleftrightarrow> (\<forall>p. table_writers (vh_table h') p \<subseteq> table_writers (vh_table h) p) \<and> same_instance h h' \<and>
     calm_managers (vh_manager h) (vh_manager h')"

lemma calm_managers_refl [simp]: "calm_managers m m"
  by (auto simp: calm_managers_def same_holds_def intro: option.rel_refl)

lemma calm_managers_trans: "calm_managers m1 m2 \<Longrightarrow> calm_managers m2 m3 \<Longrightarrow> calm_managers m1 m3"
  by (cases m1; cases m2; cases m3) (auto simp: calm_managers_def intro: same_holds_trans)

lemma host_quiet_refl [simp]: "host_quiet h h"
  by (simp add: host_quiet_def same_instance_def)

lemma host_quiet_trans: "host_quiet h1 h2 \<Longrightarrow> host_quiet h2 h3 \<Longrightarrow> host_quiet h1 h3"
  by (auto simp: host_quiet_def same_instance_def intro: calm_managers_trans)

lemma table_writers_push:
  "(\<And>w. r \<noteq> ResDescriptor w) \<Longrightarrow> table_writers (t(rep \<mapsto> r)) p \<subseteq> table_writers t p"
  "table_writers (t(rep := None)) p \<subseteq> table_writers t p"
  "table_writers (t(rep \<mapsto> ResDescriptor w)) p \<subseteq>
    (if fd_path w = Some p \<and> kind_is_write (kind_from_fs_flags (fd_flags w)) then insert rep (table_writers t p) else table_writers t p)"
  by (auto simp: table_writers_def)

lemma host_quiet_table:
  "(\<And>p. table_writers t p \<subseteq> table_writers (vh_table h) p) \<Longrightarrow> host_quiet h (h\<lparr>vh_table := t\<rparr>)"
  by (auto simp: host_quiet_def same_instance_def)

lemma host_quiet_set [simp]:
  "(\<And>w. r \<noteq> ResDescriptor w) \<Longrightarrow> host_quiet h (h\<lparr>vh_table := (vh_table h)(rep \<mapsto> r)\<rparr>)"
  "host_quiet h (h\<lparr>vh_table := (vh_table h)(rep := None)\<rparr>)"
  by (rule host_quiet_table, rule table_writers_push, assumption) (rule host_quiet_table, rule table_writers_push)

lemma host_quiet_push: "table_push al r h = (q, h') \<Longrightarrow> (\<And>w. r \<noteq> ResDescriptor w) \<Longrightarrow> host_quiet h h'"
  by (auto simp: table_push_def split: option.splits)

lemma host_quiet_local: "host_local g h = (r, h') \<Longrightarrow> host_quiet h h'"
  by (auto simp: host_local_def host_quiet_def same_instance_def split: prod.splits)

lemma host_quiet_sync:
  assumes m: "vh_manager h = Some m" and run: "host_sync g m h = (r, h')"
    and inv: "\<And>r m'. g (m\<lparr>m_fs := vh_fs h\<rparr>) = (r, m') \<Longrightarrow> sm_inv (m\<lparr>m_fs := vh_fs h\<rparr>) \<Longrightarrow> sm_inv m'"
    and hold: "\<And>r m'. g (m\<lparr>m_fs := vh_fs h\<rparr>) = (r, m') \<Longrightarrow> same_holds (m\<lparr>m_fs := vh_fs h\<rparr>) m'"
  shows "host_quiet h h'"
proof -
  obtain m' where g: "g (m\<lparr>m_fs := vh_fs h\<rparr>) = (r, m')" "h' = h\<lparr>vh_fs := m_fs m', vh_manager := Some m'\<rparr>"
    using run by (auto simp: host_sync_def split: prod.splits)
  have "sm_inv m \<Longrightarrow> sm_inv (m\<lparr>m_fs := vh_fs h\<rparr>)" using sm_inv_book [of m "m\<lparr>m_fs := vh_fs h\<rparr>"] by simp
  moreover have "same_holds m m'" using hold [OF g(1)] by (simp add: same_holds_def)
  ultimately show ?thesis using inv [OF g(1)] g(2) m by (simp add: host_quiet_def same_instance_def calm_managers_def)
qed

lemma host_quiet_kept:
  assumes "vh_manager h = Some m" and "host_sync g m h = (r, h')"
    and "\<And>r m'. g (m\<lparr>m_fs := vh_fs h\<rparr>) = (r, m') \<Longrightarrow> holds_kept (m\<lparr>m_fs := vh_fs h\<rparr>) m'"
  shows "host_quiet h h'"
  using assms(3) by (intro host_quiet_sync [OF assms(1,2)]) (auto dest: sm_inv_kept same_holds_kept)

lemma host_quiet_book:
  assumes "vh_manager h = Some m" and "host_sync g m h = (r, h')"
    and "\<And>r m'. g (m\<lparr>m_fs := vh_fs h\<rparr>) = (r, m') \<Longrightarrow> same_book (m\<lparr>m_fs := vh_fs h\<rparr>) m'"
  shows "host_quiet h h'"
  using assms(3) by (intro host_quiet_kept [OF assms(1,2)]) (auto dest: same_book_kept)

lemma host_quiet_enqueue:
  "vh_manager h = Some m \<Longrightarrow> host_sync (\<lambda>m. ((), enqueue_upload p m)) m h = (r, h') \<Longrightarrow> host_quiet h h'"
  "vh_manager h = Some m \<Longrightarrow> host_sync (\<lambda>m. ((), enqueue_delete p m)) m h = (r, h') \<Longrightarrow> host_quiet h h'"
  by (erule (1) host_quiet_sync; auto intro: sm_inv_enqueue_upload sm_inv_enqueue_delete same_holds_enqueue)+

lemma s3_hookD: "s3_hook h = Some (r, s, m) \<Longrightarrow> vh_manager h = Some m \<and> vh_hooks h = Some (S3SyncHooks r s)"
  by (auto simp: s3_hook_def split: option.splits sync_hooks.splits)

lemma host_quiet_hooks [simp]:
  "host_quiet h (hook_on_write X p h)" "host_quiet h (hook_on_delete p h)" "host_quiet h (hook_on_truncate X p h)"
  "host_quiet h (hook_on_read X p h)" "host_quiet h (snd (hook_on_fsync X p k h))"
  "host_quiet h (snd (hook_on_mkdir X p h))" "host_quiet h (snd (hook_on_rmdir X p h))"
proof -
  have now: "host_quiet h (snd (host_sync (sync_file_now X p) m h))" if "vh_manager h = Some m" for m
    by (rule host_quiet_kept [OF that prod.collapse [symmetric]]) (rule holds_kept_sync_now)
  have up: "host_quiet h (snd (host_sync (\<lambda>m. ((), enqueue_upload p m)) m h))"
    "host_quiet h (snd (host_sync (\<lambda>m. ((), enqueue_delete p m)) m h))" if "vh_manager h = Some m" for m
    by (rule host_quiet_enqueue [OF that prod.collapse [symmetric]])+
  have book: "host_quiet h (snd (host_sync (refresh_file_from_s3 X p) m h))"
    "host_quiet h (snd (host_sync (on_mkdir X p) m h))" "host_quiet h (snd (host_sync (on_rmdir X p) m h))"
    if "vh_manager h = Some m" for m
    by (rule host_quiet_book [OF that prod.collapse [symmetric]], erule same_book_refresh_file same_book_mkdir same_book_rmdir)+
  have fs: "host_quiet h (snd (host_sync (on_fsync X p) m h))" if "vh_manager h = Some m" for m
    by (rule host_quiet_sync [OF that prod.collapse [symmetric]]) (auto dest: sm_inv_fsync same_holds_fsync)
  show "host_quiet h (hook_on_write X p h)" "host_quiet h (hook_on_delete p h)" "host_quiet h (hook_on_truncate X p h)"
    "host_quiet h (hook_on_read X p h)" "host_quiet h (snd (hook_on_fsync X p k h))"
    "host_quiet h (snd (hook_on_mkdir X p h))" "host_quiet h (snd (hook_on_rmdir X p h))"
    by (auto simp: hook_on_write_def hook_on_truncate_def sync_file_blocking_def hook_on_delete_def hook_on_read_def
        hook_on_fsync_def hook_on_mkdir_def hook_on_rmdir_def hook_call_def now up book fs dest!: s3_hookD
        split: option.split prod.split) (metis book fs snd_conv)+
qed


lemma host_quiet_after: "host_quiet h h1 \<Longrightarrow> host_quiet h1 h2 \<Longrightarrow> host_quiet h h2"
  by (rule host_quiet_trans)

lemma host_quiet_local_then:
  assumes "local_then g follow h = (r, h')" and "\<And>r h. host_quiet h (snd (follow r h))"
  shows "host_quiet h h'"
proof -
  obtain q h1 where l: "host_local g h = (q, h1)" by fastforce
  show ?thesis
    using assms(1) l host_quiet_local [OF l] host_quiet_trans [OF host_quiet_local [OF l] assms(2)]
    by (cases q) (auto simp: local_then_def, metis snd_conv)
qed

lemma host_quiet_with_fd:
  assumes "with_fd self g h = (r, h')" and "\<And>d path r h'. g d path h = (r, h') \<Longrightarrow> host_quiet h h'"
  shows "host_quiet h h'"
  using assms by (auto simp: with_fd_def split: sum.splits prod.splits)

lemma host_quiet_with_path:
  assumes "with_path self p g h = (r, h')" and "\<And>full r h'. g full h = (r, h') \<Longrightarrow> host_quiet h h'"
  shows "host_quiet h h'"
  using assms(1) unfolding with_path_def by (rule host_quiet_with_fd) (rule assms(2))

lemma host_quiet_query: "local_query g a h = (r, h') \<Longrightarrow> host_quiet h h'"
  by (simp add: local_query_def)

lemma host_quiet_stream_read: "stream_read X rep sz h = (r, h') \<Longrightarrow> host_quiet h h'"
proof -
  assume run: "stream_read X rep sz h = (r, h')"
  show ?thesis
  proof (cases "\<exists>st. vh_table h rep = Some (ResInput st)")
    case True
    then obtain st where st: "vh_table h rep = Some (ResInput st)" by blast
    obtain q st' h1 where i: "input_stream_read X sz st h = (q, st', h1)" by (metis prod_cases3)
    define h0 where "h0 = (case hi_path st of Some path \<Rightarrow> if hi_refreshed st then h else hook_on_read X path h | None \<Rightarrow> h)"
    have "host_quiet h h0" by (auto simp: h0_def split: option.split)
    moreover obtain q0 where "host_local (\<lambda>f. read_at f (hi_fd st) (hi_offset st) (replicate sz 0)) h0 = (q0, h1)"
      using i by (auto simp: input_stream_read_def h0_def [symmetric] Let_def split: prod.splits sum.splits if_splits)
    then have "host_quiet h0 h1" by (rule host_quiet_local)
    ultimately have "host_quiet h h1" by (rule host_quiet_trans)
    moreover have "h' = h1\<lparr>vh_table := (vh_table h1)(rep \<mapsto> ResInput st')\<rparr>" using run st i by (simp add: stream_read_def)
    then have "host_quiet h1 h'" by simp
    ultimately show ?thesis by (rule host_quiet_trans)
  qed (use run in \<open>auto simp: stream_read_def split: option.splits host_resource.splits\<close>)
qed

lemma host_quiet_stream_write: "stream_write rep data h = (r, h') \<Longrightarrow> host_quiet h h'"
proof -
  assume run: "stream_write rep data h = (r, h')"
  show ?thesis
  proof (cases "\<exists>st. vh_table h rep = Some (ResOutput st)")
    case True
    then obtain st where st: "vh_table h rep = Some (ResOutput st)" by blast
    obtain q st' h1 where o: "output_stream_write data st h = (q, st', h1)" by (metis prod_cases3)
    have "host_quiet h h1"
      using o by (auto simp: output_stream_write_def dest: host_quiet_local split: option.splits prod.splits sum.splits)
    moreover have "h' = h1\<lparr>vh_table := (vh_table h1)(rep \<mapsto> ResOutput st')\<rparr>" using run st o by (simp add: stream_write_def)
    then have "host_quiet h1 h'" by simp
    ultimately show ?thesis by (rule host_quiet_trans)
  qed (use run in \<open>auto simp: stream_write_def split: option.splits host_resource.splits\<close>)
qed

lemma host_quiet_drop_output: "drop_output X rep h = (r, h') \<Longrightarrow> host_quiet h h'"
  by (auto simp: drop_output_def output_dropped_def split: option.splits host_resource.splits
      intro: host_quiet_trans [OF host_quiet_set(2) host_quiet_hooks(1)])

lemma host_quiet_streams:
  "host_read_via_stream al self off h = (r, h') \<Longrightarrow> host_quiet h h'"
  "host_write_via_stream al self off h = (r, h') \<Longrightarrow> host_quiet h h'"
  "host_append_via_stream al self h = (r, h') \<Longrightarrow> host_quiet h h'"
  "stream_skip rep sz h = (q, h') \<Longrightarrow> host_quiet h h'"
  "drop_input rep h = (s, h') \<Longrightarrow> host_quiet h h'"
  unfolding host_read_via_stream_def host_write_via_stream_def host_append_via_stream_def
  by (auto elim!: host_quiet_with_fd host_quiet_push simp: stream_skip_def input_stream_skip_def drop_input_def
      split: option.splits host_resource.splits)

lemma host_quiet_fsync: "fsync_descriptor X self h = (r, h') \<Longrightarrow> host_quiet h h'"
proof -
  assume run: "fsync_descriptor X self h = (r, h')"
  have "host_quiet h (snd (hook_on_fsync X p k (hook_on_write X p h)))" for p k
    by (rule host_quiet_trans [OF host_quiet_hooks(1) host_quiet_hooks(5)])
  then show ?thesis using run
    by (auto simp: fsync_descriptor_def Let_def split: sum.splits option.splits if_splits prod.splits) (metis snd_conv)
qed

lemma host_quiet_descriptor:
  "desc_read W self len off h = (r1, h') \<Longrightarrow> host_quiet h h'"
  "desc_write self data off h = (r2, h') \<Longrightarrow> host_quiet h h'"
  "desc_set_size X self sz h = (r3, h') \<Longrightarrow> host_quiet h h'"
  "desc_create_directory_at X self p h = (r3, h') \<Longrightarrow> host_quiet h h'"
  "desc_remove_directory_at X self p h = (r3, h') \<Longrightarrow> host_quiet h h'"
  "desc_unlink_file_at self p h = (r3, h') \<Longrightarrow> host_quiet h h'"
  "desc_rename_at self p other p' h = (r3, h') \<Longrightarrow> host_quiet h h'"
  unfolding desc_read_def desc_write_def desc_set_size_def desc_create_directory_at_def desc_remove_directory_at_def
    desc_unlink_file_at_def desc_rename_at_def
proof -
  have hook: "host_quiet h (snd (case hook_on_mkdir X full h of (r, h) \<Rightarrow> (hook_result r, h)))"
    "host_quiet h (snd (case hook_on_rmdir X full h of (r, h) \<Rightarrow> (hook_result r, h)))" for full and h :: "'a vfs_host"
    using host_quiet_hooks(6) [of h X full] host_quiet_hooks(7) [of h X full]
    by (cases "hook_on_mkdir X full h"; cases "hook_on_rmdir X full h"; simp)+
  show "with_path self p (\<lambda>full. local_then (\<lambda>f. mkdir f full) (\<lambda>_ h. case hook_on_mkdir X full h of (r, h) \<Rightarrow> (hook_result r, h))) h
      = (r3, h') \<Longrightarrow> host_quiet h h'"
    by (elim host_quiet_with_path host_quiet_local_then) (rule hook)
  show "with_path self p (\<lambda>full. local_then (\<lambda>f. rmdir f full) (\<lambda>_ h. case hook_on_rmdir X full h of (r, h) \<Rightarrow> (hook_result r, h))) h
      = (r3, h') \<Longrightarrow> host_quiet h h'"
    by (elim host_quiet_with_path host_quiet_local_then) (rule hook)
qed (elim host_quiet_with_path host_quiet_with_fd host_quiet_local_then; simp split: prod.split option.split)+

lemma host_quiet_directory:
  "desc_read_directory al self h = (r, h') \<Longrightarrow> host_quiet h h'"
  "dir_read_entry self h = (r2, h') \<Longrightarrow> host_quiet h h'"
  "dir_drop self h = (r3, h') \<Longrightarrow> host_quiet h h'"
  unfolding desc_read_directory_def
  by (auto elim!: host_quiet_with_fd dest: host_quiet_push simp: dir_read_entry_def dir_drop_def
      split: option.splits host_resource.splits if_splits prod.splits sum.splits)

section \<open>Opening and closing\<close>

text \<open>The descriptors of the instance \<open>i\<close> together with those of the others, \<open>E\<close>. They are backed by leases
  as long as the background thread runs: at its end it releases every lease.\<close>

definition with_others :: "(string \<Rightarrow> (nat \<times> u32) set) \<Rightarrow> nat \<Rightarrow> (u32 \<rightharpoonup> host_resource) \<Rightarrow> string \<Rightarrow> (nat \<times> u32) set" where
  "with_others E i t p = E p \<union> Pair i ` table_writers t p"

definition backed :: "(string \<Rightarrow> (nat \<times> u32) set) \<Rightarrow> nat \<Rightarrow> 's vfs_host \<Rightarrow> bool" where
  "backed E i h \<longleftrightarrow> (\<forall>m. vh_running h \<longrightarrow> vh_manager h = Some m \<longrightarrow> lh.covered m (with_others E i (vh_table h)))"

definition managed :: "'s vfs_host \<Rightarrow> bool" where
  "managed h \<longleftrightarrow> (\<exists>r s. vh_hooks h = Some (S3SyncHooks r s)) \<and> (\<exists>m. vh_manager h = Some m \<and> sm_inv m)"

lemma quiet_managed: "host_quiet h h' \<Longrightarrow> managed h \<Longrightarrow> managed h' \<and> same_instance h h'"
  by (auto simp: host_quiet_def managed_def same_instance_def calm_managers_def option_rel_Some1)

lemma quiet_backed:
  assumes q: "host_quiet h h'" and b: "backed E i h" shows "backed E i h'"
proof -
  have "lh.covered m' (with_others E i (vh_table h'))" if m': "vh_running h'" "vh_manager h' = Some m'" for m'
  proof -
    obtain m where m: "vh_manager h = Some m" "same_holds m m'" "vh_running h"
      using q m' by (auto simp: host_quiet_def same_instance_def calm_managers_def option_rel_Some2)
    have "lh.covered m' (with_others E i (vh_table h))"
      using lh.covered_others b m by (simp add: backed_def) blast
    then show ?thesis
      by (rule lh.covered_mono) (use q in \<open>auto simp: host_quiet_def with_others_def\<close>)
  qed
  then show ?thesis by (simp add: backed_def)
qed

text \<open>What is known after the hook of an open: the new lease may back one more descriptor.\<close>

lemma hook_open_inv:
  assumes g: "managed h" and b: "backed E i h" and lock: "file_lock (config X)"
    and run: "hook_on_open n X p k h = Some (r, h')"
  shows "managed h' \<and> same_instance h h' \<and> vh_table h' = vh_table h \<and> backed E i h' \<and>
    (is_ok r \<and> kind_is_write k \<and> vh_running h \<longrightarrow> (\<forall>m D' d. vh_manager h' = Some m \<longrightarrow>
       (\<forall>q. q \<noteq> p \<longrightarrow> D' q \<subseteq> with_others E i (vh_table h) q) \<longrightarrow> D' p \<subseteq> insert d (with_others E i (vh_table h) p) \<longrightarrow>
       lh.covered m D'))"
proof -
  obtain r0 s0 m where h: "vh_hooks h = Some (S3SyncHooks r0 s0)" "vh_manager h = Some m" "sm_inv m"
    using g by (auto simp: managed_def)
  then have s3: "s3_hook h = Some (r0, s0, m)" by (simp add: s3_hook_def)
  show ?thesis
  proof (cases "kind_is_write k")
    case True
    let ?m = "m\<lparr>m_fs := vh_fs h\<rparr>"
    obtain r1 m1 where o: "on_open_write n X p ?m = Some (r1, m1)" "r = map_err hook_error_of r1"
        "h' = h\<lparr>vh_fs := m_fs m1, vh_manager := Some m1\<rparr>"
      using run s3 True lock by (auto simp: hook_on_open_def split: option.splits)
    have i: "sm_inv m1" using sm_inv_open_write [OF _ o(1)] sm_inv_book [of m ?m] h(3) by simp
    have l: "lease_open n X p ?m = Some (is_ok r1, m1)" using o(1) lock by (simp add: lease_open_def)
    have cov: "lh.covered ?m (with_others E i (vh_table h))" if "vh_running h"
      using b h(2) that by (simp add: backed_def lh.covered_def)
    have "is_ok r = is_ok r1" using o(2) by (cases r1) auto
    then have "lh.covered m1 D'" if "vh_running h" "is_ok r" "\<And>q. q \<noteq> p \<Longrightarrow> D' q \<subseteq> with_others E i (vh_table h) q"
        "D' p \<subseteq> insert d (with_others E i (vh_table h) p)" for D' d
      using lh.covered_opened [OF cov, of n X p m1 D' d] l that by simp
    then show ?thesis
      using h(1) i lh.covered_opens [OF cov l] o(3) by (auto simp: managed_def same_instance_def backed_def)
  next
    case False
    have "host_quiet h (snd (host_sync (check_and_refresh_from_s3 X p) m h))"
      by (rule host_quiet_book [OF h(2) prod.collapse [symmetric]], erule same_book_check)
    moreover have "vh_table (snd (host_sync g m h)) = vh_table h" for g
      by (simp add: host_sync_def split: prod.split)
    ultimately have "host_quiet h h' \<and> vh_table h' = vh_table h"
      using run s3 False by (auto simp: hook_on_open_def host_sync_def split: if_splits prod.splits)
    then show ?thesis using False quiet_managed [OF _ g] quiet_backed [OF _ b] by blast
  qed
qed

lemma host_open_at_inv:
  assumes g: "managed h" and b: "backed E i h" and lock: "file_lock (config X)"
    and run: "desc_open_at al n X self path ofs dfs h = Some (r, h')"
  shows "managed h' \<and> same_instance h h' \<and> backed E i h'"
proof (cases "get_fs_descriptor self h")
  case (Inl e)
  then show ?thesis using run g b by (simp add: desc_open_at_def same_instance_def)
next
  case (Inr x)
  define full where "full = resolve_path (snd x) path"
  define fl where "fl = open_at_flags ofs dfs"
  define w where "w = (\<lambda>d. \<lparr>fd_no = d, fd_path = Some full, fd_flags = fl\<rparr>)"
  obtain e h1 where o: "hook_on_open n X full (kind_from_fs_flags fl) h = Some (e, h1)"
    using run Inr by (auto simp: desc_open_at_def Let_def full_def fl_def split: option.splits prod.splits)
  note k = hook_open_inv [OF g b lock o]
  show ?thesis
  proof (cases e)
    case (Inl y)
    then show ?thesis using run Inr o k by (auto simp: desc_open_at_def Let_def full_def fl_def split: prod.splits)
  next
    case ok: (Inr y)
    have lt: "local_then (\<lambda>f. open_path_with_flags f full fl) (\<lambda>d. table_push al (ResDescriptor (w d))) h1 = (r, h')"
      using run Inr o ok by (auto simp: desc_open_at_def Let_def full_def fl_def w_def split: prod.splits)
    obtain q h2 where l: "host_local (\<lambda>f. open_path_with_flags f full fl) h1 = (q, h2)" by fastforce
    have h2: "managed h2" "same_instance h h2" "backed E i h2" "vh_table h2 = vh_table h" "vh_manager h2 = vh_manager h1"
      using quiet_managed [OF host_quiet_local [OF l]] quiet_backed [OF host_quiet_local [OF l]] k l
      by (auto simp: same_instance_def host_local_def split: prod.splits)
    show ?thesis
    proof (cases "\<exists>d rep. q = Inr d \<and> al (vh_table h) = Some rep")
      case True
      then obtain d rep where q: "q = Inr d" "al (vh_table h) = Some rep" by blast
      let ?t = "(vh_table h)(rep \<mapsto> ResDescriptor (w d))"
      have h': "h' = h2\<lparr>vh_table := ?t\<rparr>" using lt l q h2(4) by (simp add: local_then_def table_push_def)
      have "lh.covered m (with_others E i ?t)" if m: "vh_manager h1 = Some m" "vh_running h1" for m
      proof (cases "kind_is_write (kind_from_fs_flags fl)")
        case True
        have "with_others E i ?t p \<subseteq> with_others E i (vh_table h) p" if "p \<noteq> full" for p
          using that table_writers_push(3) [of "vh_table h" rep "w d" p] by (auto simp: with_others_def w_def split: if_splits)
        moreover have "with_others E i ?t full \<subseteq> insert (i, rep) (with_others E i (vh_table h) full)"
          using table_writers_push(3) [of "vh_table h" rep "w d" full] by (auto simp: with_others_def w_def split: if_splits)
        moreover have "\<forall>D' d. (\<forall>q. q \<noteq> full \<longrightarrow> D' q \<subseteq> with_others E i (vh_table h) q) \<longrightarrow>
            D' full \<subseteq> insert d (with_others E i (vh_table h) full) \<longrightarrow> lh.covered m D'"
          using k ok True m by (simp add: same_instance_def)
        ultimately show ?thesis by blast
      next
        case False
        have "lh.covered m (with_others E i (vh_table h))" using k m unfolding backed_def by metis
        then show ?thesis
          by (rule lh.covered_mono)
             (use False table_writers_push(3) [of "vh_table h" rep "w d"] in \<open>auto simp: with_others_def w_def\<close>)
      qed
      then have "lh.covered m (with_others E i ?t)" if "vh_manager h1 = Some m" "vh_running h" for m
        using that k by (simp add: same_instance_def)
      then show ?thesis using h2 h' by (auto simp: backed_def managed_def same_instance_def)
    next
      case False
      then have "h' = h2" using lt l h2(4) by (cases q) (auto simp: local_then_def table_push_def split: option.splits)
      then show ?thesis using h2 by simp
    qed
  qed
qed

lemma host_drop_inv:
  assumes g: "managed h" and b: "backed E i h" and lock: "file_lock (config X)" and E: "\<And>p rep. (i, rep) \<notin> E p"
    and run: "desc_drop X rep h = (r, h')"
  shows "managed h' \<and> same_instance h h' \<and> backed E i h'"
proof (cases "\<exists>w. vh_table h rep = Some (ResDescriptor w)")
  case False
  then show ?thesis using run g b by (auto simp: desc_drop_def same_instance_def split: option.splits host_resource.splits)
next
  case True
  then obtain w where w: "vh_table h rep = Some (ResDescriptor w)" by blast
  let ?t = "(vh_table h)(rep := None)" and ?k = "kind_from_fs_flags (fd_flags w)"
  define h1 where "h1 = h\<lparr>vh_table := ?t\<rparr>"
  define h2 where "h2 = (case fd_path w of
      Some path \<Rightarrow> if kind_is_write ?k then snd (hook_on_close X path ?k h1) else h1 | None \<Rightarrow> h1)"
  have q1: "host_quiet h h1" by (simp add: h1_def)
  have h': "h' = snd (host_local (\<lambda>f. fs_close f (fd_no w)) h2)"
    using run w unfolding desc_drop_def h2_def h1_def Let_def by auto
  have "managed h2 \<and> same_instance h h2 \<and> backed E i h2"
  proof (cases "\<exists>p. fd_path w = Some p \<and> kind_is_write ?k")
    case False
    then have "h2 = h1" by (auto simp: h2_def split: option.split)
    then show ?thesis using quiet_managed [OF q1 g] quiet_backed [OF q1 b] by simp
  next
    case True
    then obtain p where p: "fd_path w = Some p" "kind_is_write ?k" by blast
    obtain r0 s0 m where h: "vh_hooks h = Some (S3SyncHooks r0 s0)" "vh_manager h = Some m" "sm_inv m"
      using g by (auto simp: managed_def)
    let ?m = "m\<lparr>m_fs := vh_fs h\<rparr>"
    obtain y m1 where c: "on_close X p ?m = (y, m1)" by fastforce
    have h2': "h2 = h1\<lparr>vh_fs := m_fs m1, vh_manager := Some m1\<rparr>"
      using p c h lock by (simp add: h2_def hook_on_close_def hook_call_def s3_hook_def h1_def host_sync_def)
    have "sm_inv m1" using sm_inv_close [OF _ c] sm_inv_book [of m ?m] h(3) by simp
    moreover have "lh.covered m1 (with_others E i ?t)" if "vh_running h"
    proof -
      have cov: "lh.covered ?m (with_others E i (vh_table h))" using b h(2) that by (simp add: backed_def lh.covered_def)
      have "lh.covered (snd (on_close X p ?m)) (with_others E i ?t)"
      proof (rule lh.covered_closed [OF cov])
        show "(i, rep) \<in> with_others E i (vh_table h) p" using w p by (auto simp: with_others_def table_writers_def)
        show "with_others E i ?t q \<subseteq> with_others E i (vh_table h) q" for q
          using table_writers_push(2) [of "vh_table h" rep q] by (auto simp: with_others_def)
        show "(i, rep) \<notin> with_others E i ?t p" using E by (auto simp: with_others_def table_writers_def)
      qed
      then show ?thesis using c by simp
    qed
    ultimately show ?thesis using h h2' by (simp add: managed_def same_instance_def backed_def h1_def)
  qed
  moreover have "host_quiet h2 h'" unfolding h' by (rule host_quiet_local [OF prod.collapse [symmetric]])
  ultimately show ?thesis
    using quiet_managed [of h2 h'] quiet_backed [of h2 h'] by (auto simp: same_instance_def)
qed

lemma host_exec_inv:
  assumes g: "managed h" and b: "backed E i h" and lock: "file_lock (config X)" and E: "\<And>p rep. (i, rep) \<notin> E p"
    and run: "host_exec al W n X c h = Some h'"
  shows "managed h' \<and> same_instance h h' \<and> backed E i h'"
proof -
  have q: ?thesis if "host_quiet h h'" using quiet_managed [OF that g] quiet_backed [OF that b] by simp
  have dirs: "managed h' \<and> same_instance h h' \<and> backed E i h'" if "host_get_directories al h = (r, h')" for r
  proof -
    obtain q h1 where l: "host_local (\<lambda>f. open_path_with_flags f ''/'' (0 OR 0x10000)) h = (q, h1)" by fastforce
    let ?w = "\<lambda>d. \<lparr>fd_no = d, fd_path = Some ''/'', fd_flags = 0\<rparr>"
    have "host_quiet h1 (snd (table_push al (ResDescriptor (?w d)) h1))" for d
      by (auto simp: table_push_def table_writers_def kind_from_fs_flags_def kind_is_write_def O_RDONLY_def
          intro!: host_quiet_table split: option.split if_splits)
    then have "host_quiet h1 h'" using that l
      by (auto simp: host_get_directories_def split: sum.splits prod.splits) (metis snd_conv)+
    then have "host_quiet h h'" by (rule host_quiet_trans [OF host_quiet_local [OF l]])
    then show ?thesis using quiet_managed [OF _ g] quiet_backed [OF _ b] by blast
  qed
  show ?thesis
  proof (cases c)
    case (HcOpenAt self path ofs dfs)
    then show ?thesis using run host_open_at_inv [OF g b lock] by auto
  next
    case (HcDrop self)
    then show ?thesis using run host_drop_inv [OF g b lock E, of self "fst (desc_drop X self h)" h'] by (simp add: prod_eq_iff)
  next
    case HcGetDirectories
    then show ?thesis using run dirs [of "fst (host_get_directories al h)"] by (simp add: prod_eq_iff)
  qed (rule q; use run in \<open>auto intro: host_quiet_streams [OF prod.collapse [symmetric]] host_quiet_descriptor [OF prod.collapse [symmetric]]
      host_quiet_directory [OF prod.collapse [symmetric]] host_quiet_stream_read [OF prod.collapse [symmetric]]
      host_quiet_stream_write [OF prod.collapse [symmetric]] host_quiet_drop_output [OF prod.collapse [symmetric]]
      host_quiet_fsync [OF prod.collapse [symmetric]] simp: desc_sync_def desc_sync_data_def\<close>)+
qed

section \<open>The process\<close>

text \<open>The instances of a process share the file system, the sync manager and its background thread.\<close>

record host_instance =
  in_table :: "u32 \<rightharpoonup> host_resource"
  in_hooks :: "sync_hooks option"
  in_thread :: bool

record 's host_process =
  hp_fs :: fs
  hp_manager :: "('s, fs) sync_manager option"
  hp_running :: bool
  hp_instances :: "nat \<rightharpoonup> host_instance"

definition enter :: "'s host_process \<Rightarrow> host_instance \<Rightarrow> 's vfs_host" where
  "enter P i = \<lparr>vh_table = in_table i, vh_fs = hp_fs P, vh_hooks = in_hooks i, vh_manager = hp_manager P,
     vh_thread = in_thread i, vh_running = hp_running P\<rparr>"

definition instance_of :: "'s vfs_host \<Rightarrow> host_instance" where
  "instance_of h = \<lparr>in_table = vh_table h, in_hooks = vh_hooks h, in_thread = vh_thread h\<rparr>"

definition leave :: "nat \<Rightarrow> host_instance option \<Rightarrow> 's vfs_host \<Rightarrow> 's host_process \<Rightarrow> 's host_process" where
  "leave k i h P = P\<lparr>hp_fs := vh_fs h, hp_manager := vh_manager h, hp_running := vh_running h,
     hp_instances := (hp_instances P)(k := i)\<rparr>"

definition shared_host :: "'s host_process \<Rightarrow> 's vfs_host" where
  "shared_host P = enter P \<lparr>in_table = Map.empty, in_hooks = None, in_thread = False\<rparr>"

definition give_shared :: "'s vfs_host \<Rightarrow> 's host_process \<Rightarrow> 's host_process" where
  "give_shared h P = P\<lparr>hp_fs := vh_fs h, hp_manager := vh_manager h, hp_running := vh_running h\<rparr>"

text \<open>What happens in a process: calls of the instances, new instances, instances that go, the background
  thread and its end once the shutdown was asked for, and other clients of the bucket.\<close>

datatype 's process_event =
    InstanceCall nat table_alloc nat nat host_call
  | InstanceCloned nat nat
  | InstanceDropped nat "u32 list" nat
  | BackgroundTurn
  | BackgroundExit nat
  | OtherClients "'s \<Rightarrow> 's"

fun process_exec :: "('s, fs) sync_env \<Rightarrow> 's process_event \<Rightarrow> 's host_process \<Rightarrow> 's host_process option" where
  "process_exec X (InstanceCall k al W n c) P =
     (case hp_instances P k of
        None \<Rightarrow> None
      | Some i \<Rightarrow> map_option (\<lambda>h. leave k (Some (instance_of h)) h P) (host_exec al W n X c (enter P i)))"
| "process_exec X (InstanceCloned k j) P =
     (case (hp_instances P k, hp_instances P j) of
        (Some i, None) \<Rightarrow> let h = clone_shared (enter P i) in Some (leave j (Some (instance_of h)) h P)
      | _ \<Rightarrow> None)"
| "process_exec X (InstanceDropped k reps n) P =
     (case hp_instances P k of
        None \<Rightarrow> None
      | Some i \<Rightarrow> map_option (\<lambda>h. leave k None h P) (host_dropped reps n X (enter P i)))"
| "process_exec X BackgroundTurn P = Some (give_shared (background_turn X (shared_host P)) P)"
| "process_exec X (BackgroundExit n) P =
     (if hp_running P \<and> (\<exists>m. hp_manager P = Some m \<and> m_shutdown m)
      then map_option (\<lambda>h. give_shared h P) (background_exit n X (shared_host P)) else None)"
| "process_exec X (OtherClients g) P =
     Some (P\<lparr>hp_manager := map_option (\<lambda>m. m\<lparr>m_store := g (m_store m)\<rparr>) (hp_manager P)\<rparr>)"

text \<open>A process starts with the instance 0 of \<open>new_with_s3\<close>.\<close>

definition process_of :: "'s vfs_host \<Rightarrow> 's host_process" where
  "process_of h = \<lparr>hp_fs = vh_fs h, hp_manager = vh_manager h, hp_running = vh_running h,
     hp_instances = [0 \<mapsto> instance_of h]\<rparr>"

inductive process_reachable :: "('s, fs) sync_env \<Rightarrow> 's host_process \<Rightarrow> bool" for X where
  process_start: "new_with_s3 X get inst s k = (Inr h, s') \<Longrightarrow> process_reachable X (process_of h)"
| process_step: "process_reachable X P \<Longrightarrow> process_exec X ev P = Some P' \<Longrightarrow> process_reachable X P'"

text \<open>All open write descriptors of a path, each with its instance.\<close>

definition process_writers :: "'s host_process \<Rightarrow> string \<Rightarrow> (nat \<times> u32) set" where
  "process_writers P p = {(k, rep). \<exists>i. hp_instances P k = Some i \<and> rep \<in> table_writers (in_table i) p}"

definition other_writers :: "'s host_process \<Rightarrow> nat \<Rightarrow> string \<Rightarrow> (nat \<times> u32) set" where
  "other_writers P k p = {(j, rep). j \<noteq> k \<and> (j, rep) \<in> process_writers P p}"

definition process_inv :: "('s, fs) sync_env \<Rightarrow> 's host_process \<Rightarrow> bool" where
  "process_inv X P \<longleftrightarrow> (\<forall>k i. hp_instances P k = Some i \<longrightarrow> (\<exists>r s. in_hooks i = Some (S3SyncHooks r s))) \<and>
     (\<exists>m. hp_manager P = Some m \<and> sm_inv m \<and> (hp_running P \<longrightarrow> lh.covered m (process_writers P)))"

lemma process_writers_split:
  "hp_instances P k = Some i \<Longrightarrow> with_others (other_writers P k) k (in_table i) = process_writers P"
  by (auto simp: fun_eq_iff with_others_def other_writers_def process_writers_def)

lemma process_writers_leave:
  "process_writers (leave k i h P) =
    (case i of None \<Rightarrow> other_writers P k | Some i \<Rightarrow> with_others (other_writers P k) k (in_table i))"
  by (auto simp: fun_eq_iff with_others_def other_writers_def process_writers_def leave_def split: option.split if_splits)

lemma other_writers_subset: "other_writers P k p \<subseteq> process_writers P p"
  by (auto simp: other_writers_def)

lemma enter_inv:
  assumes "process_inv X P" and "hp_instances P k = Some i"
  shows "managed (enter P i) \<and> backed (other_writers P k) k (enter P i)"
  using assms process_writers_split [OF assms(2)] by (auto simp: process_inv_def managed_def backed_def enter_def)

lemma shared_quiet:
  assumes "process_inv X P" and q: "host_quiet (shared_host P) h" shows "process_inv X (give_shared h P)"
proof -
  obtain m where m: "hp_manager P = Some m" "sm_inv m" "hp_running P \<longrightarrow> lh.covered m (process_writers P)"
    using assms(1) by (auto simp: process_inv_def)
  obtain m' where m': "vh_manager h = Some m'" "sm_inv m'" "same_holds m m'"
    using q m by (auto simp: host_quiet_def calm_managers_def option_rel_Some1 shared_host_def enter_def)
  have "vh_running h = hp_running P" using q by (simp add: host_quiet_def same_instance_def shared_host_def enter_def)
  moreover have "process_writers (give_shared h P) = process_writers P"
    by (simp add: fun_eq_iff process_writers_def give_shared_def)
  ultimately show ?thesis
    using assms(1) m m' lh.covered_others [of m "process_writers P" m'] by (auto simp: process_inv_def give_shared_def)
qed

lemma background_turn_quiet: "host_quiet h (background_turn X h)"
proof -
  have "host_quiet h (snd (host_sync (maybe_sync X) m h))" if "vh_manager h = Some m" for m
    by (rule host_quiet_sync [OF that prod.collapse [symmetric]]) (auto dest: sm_inv_tick same_holds_tick)
  then show ?thesis by (simp add: background_turn_def split: option.split)
qed

text \<open>The end of the background thread leaves no lease.\<close>

lemma background_exit_inv:
  assumes run: "background_exit n X h = Some h'" and m: "vh_manager h = Some m" "sm_inv m"
  shows "vh_running h' = False \<and> vh_hooks h' = vh_hooks h \<and> vh_thread h' = vh_thread h \<and> vh_table h' = vh_table h \<and>
    (\<exists>m'. vh_manager h' = Some m' \<and> sm_inv m' \<and> lt_paths (leases m') = [])"
proof -
  let ?m = "m\<lparr>m_fs := vh_fs h\<rparr>"
  obtain r m1 where f: "force_flush n X ?m = Some (r, m1)"
    using run m by (auto simp: background_exit_def split: option.splits)
  have i1: "sm_inv m1" using force_flush_inv [of ?m n X 0 r m1] f sm_inv_book [of m ?m] m(2) by (simp add: force_flush_def)
  obtain q m2 where r: "release_all_leases X (m1\<lparr>m_fs := m_fs m1\<rparr>) = (q, m2)" by fastforce
  have "sm_inv m2 \<and> lt_paths (leases m2) = []"
    using sm_inv_release_all [OF _ r] sm_inv_book [of m1 "m1\<lparr>m_fs := m_fs m1\<rparr>"] i1 by simp
  then show ?thesis using run m f r by (auto simp: background_exit_def Let_def host_sync_def)
qed

lemma drop_entries_quiet: "host_quiet h (fold (drop_entry X) reps h)"
proof (induction reps arbitrary: h)
  case (Cons rep reps)
  have "host_quiet h (drop_entry X rep h)"
    by (auto simp: drop_entry_def output_dropped_def split: option.split host_resource.split)
  then show ?case using host_quiet_trans [OF _ Cons.IH] by simp
qed simp

lemma host_dropped_inv:
  assumes g: "managed h" and run: "host_dropped reps n X h = Some h'"
  shows "managed h' \<and> (vh_running h' \<longrightarrow> vh_running h \<and> rel_option same_holds (vh_manager h) (vh_manager h'))"
proof -
  obtain m where m: "vh_manager h = Some m" "sm_inv m" using g by (auto simp: managed_def)
  define h0 where "h0 = h\<lparr>vh_manager := map_option sm_shutdown (vh_manager h)\<rparr>"
  have m0: "vh_manager h0 = Some (sm_shutdown m)" "sm_inv (sm_shutdown m)" "same_holds m (sm_shutdown m)"
    using m sm_inv_book [of m "sm_shutdown m"] by (simp_all add: h0_def sm_shutdown_def same_book_def same_holds_leases)
  obtain h1 where h1: "shutdown_sync n X h = Some h1" "h' = fold (drop_entry X) reps h1"
    using run by (auto simp: host_dropped_def)
  have k: "managed h1 \<and> (vh_running h1 \<longrightarrow> vh_running h \<and> vh_manager h1 = Some (sm_shutdown m))"
  proof (cases "vh_thread h \<and> vh_running h")
    case True
    obtain h2 where h2: "background_exit n X h0 = Some h2" "h1 = h2\<lparr>vh_thread := False\<rparr>"
      using h1(1) True by (auto simp: shutdown_sync_def Let_def h0_def)
    show ?thesis using background_exit_inv [OF h2(1) m0(1,2)] h2(2) g by (auto simp: managed_def h0_def)
  next
    case False
    then have "vh_hooks h1 = vh_hooks h \<and> vh_manager h1 = Some (sm_shutdown m) \<and> vh_running h1 = vh_running h"
      using h1(1) m by (auto simp: shutdown_sync_def Let_def split: if_splits)
    then show ?thesis using g m0 by (auto simp: managed_def)
  qed
  have q: "host_quiet h1 h'" unfolding h1(2) by (rule drop_entries_quiet)
  have "managed h'" "vh_running h' = vh_running h1" using quiet_managed [OF q] k by (auto simp: same_instance_def)
  moreover have "rel_option same_holds (vh_manager h) (vh_manager h')" if "vh_running h'"
    using q k that m m0(3) calculation(2)
    by (auto simp: host_quiet_def calm_managers_def option_rel_Some1 intro: same_holds_trans)
  ultimately show ?thesis using k by auto
qed

lemma process_exec_inv:
  assumes inv: "process_inv X P" and lock: "file_lock (config X)" and run: "process_exec X ev P = Some P'"
  shows "process_inv X P'"
proof (cases ev)
  case (InstanceCall k al W n c)
  obtain i h where i: "hp_instances P k = Some i" "host_exec al W n X c (enter P i) = Some h" "P' = leave k (Some (instance_of h)) h P"
    using run InstanceCall by (auto split: option.splits)
  note e = enter_inv [OF inv i(1)]
  have h: "managed h \<and> same_instance (enter P i) h \<and> backed (other_writers P k) k h"
    using host_exec_inv [OF _ _ lock _ i(2), of "other_writers P k" k] e by (auto simp: other_writers_def)
  then show ?thesis
    using inv i(1,3) process_writers_leave [of k "Some (instance_of h)" h P]
    by (auto simp: process_inv_def leave_def managed_def backed_def same_instance_def enter_def instance_of_def)
next
  case (InstanceCloned k j)
  obtain i where i: "hp_instances P k = Some i" "hp_instances P j = None"
      "P' = leave j (Some (instance_of (clone_shared (enter P i)))) (clone_shared (enter P i)) P"
    using run InstanceCloned by (auto simp: Let_def split: option.splits)
  let ?i = "instance_of (clone_shared (enter P i))"
  have "with_others (other_writers P j) j (in_table ?i) = process_writers P"
    using i(2) by (auto simp: fun_eq_iff with_others_def other_writers_def process_writers_def table_writers_def
        instance_of_def clone_shared_def)
  then have "process_writers P' = process_writers P" unfolding i(3) process_writers_leave option.case .
  then show ?thesis using inv i by (auto simp: process_inv_def leave_def clone_shared_def enter_def instance_of_def)
next
  case (InstanceDropped k reps n)
  obtain i h where i: "hp_instances P k = Some i" "host_dropped reps n X (enter P i) = Some h" "P' = leave k None h P"
    using run InstanceDropped by (auto split: option.splits)
  obtain m where m: "hp_manager P = Some m" "hp_running P \<longrightarrow> lh.covered m (process_writers P)"
    using inv by (auto simp: process_inv_def)
  have d: "managed h \<and> (vh_running h \<longrightarrow> hp_running P \<and> rel_option same_holds (Some m) (vh_manager h))"
    using host_dropped_inv [OF _ i(2)] enter_inv [OF inv i(1)] m(1) by (simp add: enter_def)
  have "lh.covered m' (other_writers P k)" if "vh_running h" "vh_manager h = Some m'" for m'
  proof -
    have "lh.covered m' (process_writers P)" using that d m(2) lh.covered_others [of m "process_writers P" m'] by simp
    then show ?thesis by (rule lh.covered_mono) (rule other_writers_subset)
  qed
  then show ?thesis
    using inv i(3) d process_writers_leave [of k None h P] by (auto simp: process_inv_def leave_def managed_def)
next
  case BackgroundTurn
  then show ?thesis using run shared_quiet [OF inv background_turn_quiet] by auto
next
  case (BackgroundExit n)
  obtain h where h: "background_exit n X (shared_host P) = Some h" "P' = give_shared h P"
    using run BackgroundExit by (auto split: if_splits)
  obtain m where "vh_manager (shared_host P) = Some m" "sm_inv m"
    using inv by (auto simp: process_inv_def shared_host_def enter_def)
  from background_exit_inv [OF h(1) this] show ?thesis using inv h(2) by (auto simp: process_inv_def give_shared_def)
next
  case (OtherClients g)
  have "sm_inv (m\<lparr>m_store := g (m_store m)\<rparr>) = sm_inv m" "lh.covered (m\<lparr>m_store := g (m_store m)\<rparr>) D = lh.covered m D"
    for m :: "('a, fs) sync_manager" and D :: "string \<Rightarrow> (nat \<times> u32) set"
    by (simp_all add: sm_inv_def book_ok_def lease_ok_def lh.covered_def)
  then show ?thesis using inv run OtherClients by (auto simp: process_inv_def process_writers_def [abs_def])
qed

lemma process_reachable_inv: "process_reachable X P \<Longrightarrow> file_lock (config X) \<Longrightarrow> process_inv X P"
proof (induction rule: process_reachable.induct)
  case (process_start get inst s k h s')
  obtain f cache where h: "h = \<lparr>vh_table = Map.empty, vh_fs = f,
      vh_hooks = Some (S3SyncHooks (get ''VFS_READ_MODE'' = Some ''s3'') (get ''VFS_METADATA_MODE'' = Some ''s3'')),
      vh_manager = Some (sm_new X s' f cache inst k), vh_thread = True, vh_running = True\<rparr>"
    using process_start by (auto simp: new_with_s3_def split: prod.splits sum.splits)
  have "process_writers (process_of h) = (\<lambda>p. {})"
    by (auto simp: fun_eq_iff process_writers_def process_of_def instance_of_def table_writers_def h split: if_splits)
  then show ?case using sm_inv_new by (auto simp: process_inv_def process_of_def instance_of_def lh.covered_def h)
qed (rule process_exec_inv)

end
