(* ===== verification/Write_Session.thy ===== *)
theory Write_Session
  imports Sync_Props Rpc_Framing
begin

text \<open>
  Writing a file from its open to its close, as every front end does it: the lease is taken, the file is
  opened and truncated, chunks are written one after the other, the upload is queued and the lease is
  given back. \<open>appending_stream\<close> is the contract of a stream of chunks; the native host and the adapter
  in the component interpret it.
\<close>

section \<open>A descriptor on a file\<close>

text \<open>\<open>d\<close> is open on the file at \<open>cs\<close>, whose bytes are \<open>bs\<close>; the rest of the tree is \<open>A\<close>.\<close>

definition on_file :: "nat \<Rightarrow> fs \<Rightarrow> fd \<Rightarrow> string list \<Rightarrow> u32 \<Rightarrow> u64 \<Rightarrow> afs \<Rightarrow> bytes \<Rightarrow> bool" where
  "on_file n f d cs fl pos A bs \<longleftrightarrow> roomy n f \<and>
     (\<exists>i. fd_table f d = Some \<lparr>h_inode = i, position = pos, h_flags = fl\<rparr> \<and>
        descend (child f) (root_inode f) cs = Some i) \<and> abs_fs f = A(cs \<mapsto> FileN bs)"

lemma on_file_opened:
  assumes r: "roomy (Suc n) g" and ne: "path_comps p \<noteq> []"
    and o: "open_path_with_flags g p replace_flags = (Inr d, f)"
  shows "on_file n f d (path_comps p) replace_flags 0 (abs_fs g) []"
proof -
  note rs = roomy_Suc [OF r]
  obtain i where i: "roomy n f" "fd_table f d = Some (new_handle i 0 replace_flags)"
      "descend (child f) (root_inode f) (path_comps p) = Some i" "abs_fs f = snd (spec_open (abs_fs g) p replace_flags)"
    using open_path_ok [OF r ne o] by blast
  have "fst (spec_open (abs_fs g) p replace_flags) = Inr ()"
    using open_path_spec [of g p replace_flags] rs o by (metis forget_simps(2) fst_conv)
  then have "abs_fs f = (abs_fs g)(path_comps p \<mapsto> FileN [])"
    using i(4) ne by (simp add: spec_open_replace_result)
  then show ?thesis using i by (simp add: on_file_def new_handle_def)
qed

lemma roomy_write_with: "roomy n f \<Longrightarrow> roomy n (snd (write_with posf f d buf))"
proof -
  have "next_inode (snd (write_with posf f d buf)) = next_inode f" "next_fd (snd (write_with posf f d buf)) = next_fd f"
    by (auto simp: write_with_def write_through_def time_now_eq fd_insert_def Let_def
        split: option.splits file_content.splits prod.splits)
  then show "roomy n f \<Longrightarrow> roomy n (snd (write_with posf f d buf))"
    using fs_inv_same_graph [OF _ fs_wf_write_with same_graph_write] fs_invD(1) by (auto simp: roomy_def)
qed

lemma on_file_write_with:
  assumes o: "on_file n f d cs fl pos A bs" and w: "access_mode fl \<noteq> O_RDONLY"
    and at: "\<And>i st. contents st = bs \<Longrightarrow> posf \<lparr>h_inode = i, position = pos, h_flags = fl\<rparr> st = at"
  shows "\<exists>f'. write_with posf f d buf = (Inr (length buf), f') \<and>
    on_file n f' d cs fl (of_nat (at + length buf)) A (write_spec bs at buf)"
proof -
  obtain i where i: "roomy n f" "fd_table f d = Some \<lparr>h_inode = i, position = pos, h_flags = fl\<rparr>"
      "descend (child f) (root_inode f) cs = Some i" "abs_fs f = A(cs \<mapsto> FileN bs)"
    using o by (auto simp: on_file_def)
  let ?h = "\<lparr>h_inode = i, position = pos, h_flags = fl\<rparr>"
  have inv: "fs_inv f" using i(1) by (simp add: roomy_def)
  have d: "descend (child f) (root_inode f) cs = Some (h_inode ?h)" "abs_fs f cs = Some (FileN bs)"
    "access_mode (h_flags ?h) \<noteq> O_RDONLY" using i w by simp_all
  obtain st where f: "fd_file f d = Some (?h, st)" "contents st = bs" using abs_file_fd [OF inv i(2) d(1,2)] by blast
  obtain f' st' where w': "write_with posf f d buf = (Inr (length buf), f')"
      "fd_file f' d = Some (?h\<lparr>position := of_nat (posf ?h st + length buf)\<rparr>, st')" "child f' = child f" "root_inode f' = root_inode f"
    using write_with_ok [OF fs_invD(1) [OF inv] f(1) d(3), of posf buf] by blast
  have p: "posf ?h st = at" by (rule at [OF f(2)])
  have "abs_fs f' = (abs_fs f)(cs \<mapsto> FileN (write_spec bs at buf))"
    using write_with_abs [OF inv i(2) d(3) d(1,2), of posf at buf] at w'(1) by simp
  moreover have "roomy n f'" using roomy_write_with [OF i(1), of posf d buf] w'(1) by simp
  moreover obtain ino' where "fd_table f' d = Some (?h\<lparr>position := of_nat (posf ?h st + length buf)\<rparr>)"
    using w'(2) by (rule fd_fileE)
  ultimately have "on_file n f' d cs fl (of_nat (at + length buf)) A (write_spec bs at buf)"
    using i(3,4) w'(3,4) p by (simp add: on_file_def)
  with w'(1) show ?thesis by blast
qed

lemma write_spec_end: "write_spec bs (length bs) buf = bs @ buf"
  by (simp add: write_spec_def)

lemma on_file_write_at:
  assumes "on_file n f d cs fl pos A bs" and "access_mode fl \<noteq> O_RDONLY" and "unat off = length bs"
  shows "\<exists>f'. write_at f d off buf = (Inr (length buf), f') \<and>
    on_file n f' d cs fl (of_nat (length bs + length buf)) A (bs @ buf)"
  using on_file_write_with [OF assms(1,2), of "\<lambda>h st. unat off" "length bs" buf] assms(3)
  by (simp add: write_at_def write_spec_end)

lemma on_file_append:
  assumes "on_file n f d cs fl pos A bs" and "access_mode fl \<noteq> O_RDONLY"
  shows "\<exists>f'. append_write f d buf = (Inr (length buf), f') \<and>
    on_file n f' d cs fl (of_nat (length bs + length buf)) A (bs @ buf)"
proof -
  have "bsize st = length bs" if "contents st = bs" for st using that length_contents by metis
  then show ?thesis
    using on_file_write_with [OF assms, of "\<lambda>h st. bsize st" "length bs" buf] by (simp add: append_write_def write_spec_end)
qed

text \<open>\<open>write\<close> at the end of the file, whether the handle appends or not.\<close>

lemma on_file_write:
  assumes "on_file n f d cs fl pos A bs" and "access_mode fl \<noteq> O_RDONLY" and "unat pos = length bs"
  shows "\<exists>f'. fs_write f d buf = (Inr (length buf), f') \<and>
    on_file n f' d cs fl (of_nat (length bs + length buf)) A (bs @ buf)"
proof -
  have "bsize st = length bs" if "contents st = bs" for st using that length_contents by metis
  then show ?thesis
    using on_file_write_with [OF assms(1,2), of _ "length bs" buf] assms(3) by (simp add: fs_write_def write_spec_end)
qed

text \<open>\<open>seek\<close> to an offset.\<close>

lemma on_file_seek:
  assumes o: "on_file n f d cs fl pos A bs" and s: "unat off < 2 ^ 63"
  shows "\<exists>f'. seek f d (ucast off) 0 = (Inr off, f') \<and> on_file n f' d cs fl off A bs"
proof -
  obtain i where i: "roomy n f" "fd_table f d = Some \<lparr>h_inode = i, position = pos, h_flags = fl\<rparr>"
      "descend (child f) (root_inode f) cs = Some i" "abs_fs f = A(cs \<mapsto> FileN bs)"
    using o by (auto simp: on_file_def)
  have inv: "fs_inv f" using i(1) by (simp add: roomy_def)
  obtain st where f: "fd_file f d = Some (\<lparr>h_inode = i, position = pos, h_flags = fl\<rparr>, st)"
    using abs_file_fd [OF inv i(2), of cs bs] i(3,4) by auto
  have sk: "seek f d (ucast off) 0 = (Inr off, set_position f d off)" by (rule seek_set [OF f s])
  have ch: "child (set_position f d off) = child f" by (rule child_cong) simp
  have "roomy n (set_position f d off)" by (rule roomy_set_position [OF i(1)])
  then have "on_file n (set_position f d off) d cs fl off A bs"
    using i(2-4) ch by (simp add: on_file_def fd_table_set_position)
  with sk show ?thesis by blast
qed

section \<open>Streams of chunks\<close>

text \<open>A stream accepts a chunk and has then taken in its bytes, as long as the total keeps below a bound.
  \<open>took w s bs\<close>: the stream \<open>w\<close> has taken in \<open>bs\<close> in the state \<open>s\<close>.\<close>

locale appending_stream =
  fixes write_chunk :: "'w \<Rightarrow> bytes \<Rightarrow> 's \<Rightarrow> (stream_error + unit) option \<times> 's"
    and took :: "'w \<Rightarrow> 's \<Rightarrow> bytes \<Rightarrow> bool" and bound :: nat
  assumes chunk_taken: "took w s bs \<Longrightarrow> length bs + length data < bound \<Longrightarrow>
    \<exists>s'. write_chunk w data s = (Some (Inr ()), s') \<and> took w s' (bs @ data)"
begin

lemma chunks_taken:
  "took w s bs \<Longrightarrow> length bs + length (concat chunks) < bound \<Longrightarrow>
    took w (fold (\<lambda>data s. snd (write_chunk w data s)) chunks s) (bs @ concat chunks)"
proof (induction chunks arbitrary: s bs)
  case (Cons data chunks)
  obtain s' where s': "write_chunk w data s = (Some (Inr ()), s')" "took w s' (bs @ data)"
    using chunk_taken [OF Cons.prems(1), of data] Cons.prems(2) by auto
  then show ?case using Cons.IH [OF s'(2)] Cons.prems(2) by simp
qed simp

end

section \<open>From the lease to the bucket\<close>

text \<open>The close of a leased file with a queued upload and the bytes \<open>data\<close>.\<close>

lemma session_stored:
  assumes lock: "file_lock C" and calm: "mem_calm (m_store m)" and free: "\<not> is_locked m p"
    and q: "Upload p \<notin> set (outbound_queue m)" and ne: "path_comps p \<noteq> []" and rm: "roomy (Suc k + length p) (m_fs m)"
    and open_run: "on_open_write n (mem_env h E C) p m = Some (Inr (), m1)"
    and close_run: "on_close (mem_env h E C) p ((enqueue_upload p (m1\<lparr>m_fs := f2\<rparr>))\<lparr>m_fs := f3\<rparr>) = (r, m4)"
    and f3: "file_at f3 p = Some data" "roomy (length p + 2) f3" "length data < 2 ^ 64"
  shows "r = Inr () \<and> \<not> is_locked m4 p \<and> map_option fst (mem_view (m_store m4) (file_key p)) = Some data"
proof -
  let ?X = "mem_env h E C" and ?base = "map_option snd (mem_view (m_store m) (file_key p))"
  have lk: "file_lock (config ?X)" using lock by (simp add: mem_env_def)
  obtain a where o: "mem_calm (m_store m1)" "mem_view (m_store m1) (file_key p) = mem_view (m_store m) (file_key p)"
    "lt_get (leases m1) p = Some (fresh_lease ?base a)"
    using sw.open_clean [OF open_run lk free q rm] calm by auto
  define m3 where "m3 = (enqueue_upload p (m1\<lparr>m_fs := f2\<rparr>))\<lparr>m_fs := f3\<rparr>"
  have m3: "m_store m3 = m_store m1" "m_fs m3 = f3"
    "lt_get (leases m3) p = Some ((fresh_lease ?base a)\<lparr>dirty := True, pending_delete := False\<rparr>)"
    "refcount ((fresh_lease ?base a)\<lparr>dirty := True, pending_delete := False\<rparr>) \<le> 1"
    using o(3) by (simp_all add: m3_def enqueue_upload_def is_locked_get sync_frame lease_table_simps fresh_lease_def)
  obtain m5 m6 where fl: "m_store m5 = m_store m3" "m_fs m5 = m_fs m3"
    "flush_lease ?X p ((fresh_lease ?base a)\<lparr>dirty := True, pending_delete := False, releasing := True\<rparr>) m5 = (r, m6)"
    "m_store m4 = m_store (release_lock ?X p (wl_lock_etag ((fresh_lease ?base a)\<lparr>dirty := True, pending_delete := False\<rparr>)) m6)"
    "\<not> is_locked m4 p"
    using sw.close_dirty [OF close_run [folded m3_def] m3(3,4)] by metis
  have "roomy (Suc (Suc 0) + length p) (m_fs m5)" using f3(2) fl(2) m3(2) by simp
  moreover have "file_at (m_fs m5) p = Some data" using fl(2) m3(2) f3(1) by simp
  moreover have "mem_calm (m_store m5)" "mem_view (m_store m5) (file_key p) = mem_view (m_store m) (file_key p)"
    using fl(1) m3(1) o(1,2) by simp_all
  ultimately have "r = Inr () \<and> (\<exists>e. mem_view (m_store m6) = (mem_view (m_store m5))(file_key p \<mapsto> (data, e)))"
    using sw.flush_dirty_calm [OF fl(3) _ _ _ _ _ f3(3), where n = 0] by (simp add: fresh_lease_def)
  then have "r = Inr ()" "map_option fst (mem_view (m_store m4) (file_key p)) = Some data"
    using sw.release_effect [of h E C p "wl_lock_etag ((fresh_lease ?base a)\<lparr>dirty := True, pending_delete := False\<rparr>)" m6] fl(4)
    by auto
  with fl(5) show ?thesis by simp
qed

text \<open>The flush of a leased file with a queued upload and the bytes \<open>data\<close>: the lease is kept.\<close>

lemma session_synced:
  assumes lock: "file_lock C" and calm: "mem_calm (m_store m)" and free: "\<not> is_locked m p"
    and q: "Upload p \<notin> set (outbound_queue m)" and rm: "roomy (Suc k + length p) (m_fs m)"
    and open_run: "on_open_write n (mem_env h E C) p m = Some (Inr (), m1)"
    and sync_run: "on_fsync (mem_env h E C) p (enqueue_upload p (m1\<lparr>m_fs := f3\<rparr>)) = (r, m4)"
    and f3: "file_at f3 p = Some data" "roomy (length p + 2) f3" "length data < 2 ^ 64"
  shows "r = Inr () \<and> is_locked m4 p \<and> map_option fst (mem_view (m_store m4) (file_key p)) = Some data"
proof -
  let ?X = "mem_env h E C" and ?base = "map_option snd (mem_view (m_store m) (file_key p))"
  have lk: "file_lock (config ?X)" using lock by (simp add: mem_env_def)
  obtain a where o: "mem_calm (m_store m1)" "mem_view (m_store m1) (file_key p) = mem_view (m_store m) (file_key p)"
    "lt_get (leases m1) p = Some (fresh_lease ?base a)"
    using sw.open_clean [OF open_run lk free q rm] calm by auto
  let ?l = "(fresh_lease ?base a)\<lparr>dirty := True, pending_delete := False\<rparr>"
  define m3 where "m3 = enqueue_upload p (m1\<lparr>m_fs := f3\<rparr>)"
  have m3: "m_store m3 = m_store m1" "m_fs m3 = f3" "lt_get (leases m3) p = Some ?l"
    using o(3) by (simp_all add: m3_def enqueue_upload_def is_locked_get sync_frame lease_table_simps)
  have fl: "flush_lease ?X p ?l m3 = (r, m4)" using sync_run m3(3) by (simp add: on_fsync_def m3_def)
  have "roomy (Suc (Suc 0) + length p) (m_fs m3)" using f3(2) m3(2) by simp
  then have "r = Inr () \<and> (\<exists>e. mem_view (m_store m4) = (mem_view (m_store m3))(file_key p \<mapsto> (data, e)))"
    using sw.flush_dirty_calm [OF fl _ _ _ _ _ f3(3), where n = 0] m3(1,2) o(1,2) f3(1) by (simp add: fresh_lease_def)
  moreover have "is_locked m4 p"
  proof -
    have "rel_option same_hold (lt_get (leases m3) p) (lt_get (leases m4) p)"
      using holds_kept_flush_lease [OF fl] by (simp add: holds_kept_def)
    then show ?thesis using m3(3) by (auto simp: is_locked_get option_rel_Some1)
  qed
  ultimately show ?thesis by auto
qed

text \<open>The close of a leased file that nothing was queued for leaves its object alone.\<close>

lemma session_clean:
  assumes lock: "file_lock C" and free: "\<not> is_locked m p" and q: "Upload p \<notin> set (outbound_queue m)"
    and rm: "roomy (Suc k + length p) (m_fs m)"
    and open_run: "on_open_write n (mem_env h E C) p m = Some (Inr (), m1)"
    and close_run: "on_close (mem_env h E C) p (m1\<lparr>m_fs := f3\<rparr>) = (r, m4)"
  shows "r = Inr () \<and> \<not> is_locked m4 p \<and> m_fs m4 = f3 \<and> outbound_queue m4 = outbound_queue m \<and>
    mem_view (m_store m4) (file_key p) = mem_view (m_store m) (file_key p)"
proof -
  let ?X = "mem_env h E C" and ?base = "map_option snd (mem_view (m_store m) (file_key p))"
  have lk: "file_lock (config ?X)" using lock by (simp add: mem_env_def)
  obtain a where o: "mem_view (m_store m1) (file_key p) = mem_view (m_store m) (file_key p)"
    "outbound_queue m1 = outbound_queue m" "lt_get (leases m1) p = Some (fresh_lease ?base a)"
    using sw.open_clean [OF open_run lk free q rm] by auto
  let ?m = "m1\<lparr>m_fs := f3\<rparr>"
  have l: "lt_get (leases ?m) p = Some (fresh_lease ?base a)" "refcount (fresh_lease ?base a) \<le> 1"
    using o(3) by (simp_all add: fresh_lease_def)
  obtain m5 m6 where fl: "m_store m5 = m_store ?m" "m_fs m5 = m_fs ?m"
    "flush_lease ?X p ((fresh_lease ?base a)\<lparr>releasing := True\<rparr>) m5 = (r, m6)" "m_fs m4 = m_fs m6"
    "m_store m4 = m_store (release_lock ?X p (wl_lock_etag (fresh_lease ?base a)) m6)" "\<not> is_locked m4 p"
    using sw.close_dirty [OF close_run l] by metis
  have c: "r = Inr ()" "m6 = m5" using fl(3) by (simp_all add: flush_lease_def fresh_lease_def)
  moreover have "mem_view (m_store m4) (file_key p) = mem_view (m_store m6) (file_key p)"
    using sw.release_effect [of h E C p "wl_lock_etag (fresh_lease ?base a)" m6] fl(5) by auto
  moreover have "outbound_queue m4 = outbound_queue m" using on_close_queue [OF close_run] o(2) by simp
  ultimately show ?thesis using fl(1,2,4,6) o(1) by simp
qed

end
