(* ===== verification/Read_Session.thy ===== *)
theory Read_Session
  imports Rpc_Reads
begin

text \<open>
  Reading a file through an input stream without a buffer of its own, as the native host and the adapter in
  the component do it. \<open>plain_reader\<close> is the contract of one read and one skip; \<open>plain_run\<close> (theory
  \<open>Rpc_Reads\<close>) is the reference, a position in the bytes of the file.
\<close>

text \<open>The results of a sequence of reads and skips.\<close>

fun reader_run ::
  "(u64 \<Rightarrow> 's \<Rightarrow> (stream_error + bytes) option \<times> 's) \<Rightarrow> (u64 \<Rightarrow> 's \<Rightarrow> 's) \<Rightarrow> input_call list \<Rightarrow> 's \<Rightarrow>
   (stream_error + bytes) option list" where
  "reader_run rd sk [] s = []"
| "reader_run rd sk (InRead n # cs) s = (case rd n s of (r, s) \<Rightarrow> r # reader_run rd sk cs s)"
| "reader_run rd sk (InSkip n # cs) s = reader_run rd sk cs (sk n s)"

text \<open>\<open>served bs pos s\<close>: the stream is at \<open>pos\<close> in a file with the bytes \<open>bs\<close>. A read of up to \<open>longest\<close> bytes
  gives the bytes there and moves on, or tells that the file ended; positions keep below \<open>bound\<close>.\<close>

locale plain_reader =
  fixes rd :: "u64 \<Rightarrow> 's \<Rightarrow> (stream_error + bytes) option \<times> 's" and sk :: "u64 \<Rightarrow> 's \<Rightarrow> 's"
    and served :: "bytes \<Rightarrow> nat \<Rightarrow> 's \<Rightarrow> bool" and bound longest :: nat
  assumes read_served: "served bs pos s \<Longrightarrow> 0 < unat n \<Longrightarrow> unat n < longest \<Longrightarrow> pos + unat n < bound \<Longrightarrow>
      \<exists>s'. rd n s = (Some (if length bs \<le> pos then Inl Closed else Inr (take (unat n) (drop pos bs))), s') \<and>
        served bs (if length bs \<le> pos then pos else pos + length (take (unat n) (drop pos bs))) s'"
    and skip_served: "served bs pos s \<Longrightarrow> pos + unat n < bound \<Longrightarrow> served bs (pos + unat n) (sk n s)"
begin

lemma reads_plain:
  "served bs pos s \<Longrightarrow> pos + sum_list (map input_bytes cs) < bound \<Longrightarrow>
    \<forall>c \<in> set cs. is_input_read c \<longrightarrow> 0 < input_bytes c \<and> input_bytes c < longest \<Longrightarrow>
    reader_run rd sk cs s = map Some (plain_run bs pos cs)"
proof (induction cs arbitrary: pos s)
  case (Cons c cs)
  show ?case
  proof (cases c)
    case (InRead n)
    obtain s' where s': "rd n s = (Some (if length bs \<le> pos then Inl Closed else Inr (take (unat n) (drop pos bs))), s')"
      "served bs (if length bs \<le> pos then pos else pos + length (take (unat n) (drop pos bs))) s'"
      using read_served [OF Cons.prems(1), of n] Cons.prems(2,3) InRead by auto
    have "pos + length (take (unat n) (drop pos bs)) + sum_list (map input_bytes cs) < bound"
      using Cons.prems(2) InRead by simp
    then show ?thesis
      using Cons.IH [OF s'(2)] s'(1) Cons.prems(2,3) InRead by (simp add: Let_def del: length_take)
  next
    case (InSkip n)
    then show ?thesis
      using Cons.IH [OF skip_served [OF Cons.prems(1), of n]] Cons.prems(2,3) by simp
  qed
qed simp

end

text \<open>What one read of the file system gives, through a position that was set before.\<close>

lemma take_read:
  assumes "bs = take (readable stg) (contents stg)" and "k = min n (readable stg - pos)"
  shows "take k (take k (drop pos (contents stg)) @ rest) = take n (drop pos bs)" "length (take n (drop pos bs)) = k"
    "0 < n \<Longrightarrow> k = 0 \<longleftrightarrow> length bs \<le> pos"
proof -
  have len: "length bs = readable stg" using assms(1) by (simp add: contents_def readable_def)
  show k: "length (take n (drop pos bs)) = k" by (simp add: assms(2) len)
  have "take k (drop pos (contents stg)) = take n (drop pos bs)" unfolding assms by (rule take_readable)
  then show "take k (take k (drop pos (contents stg)) @ rest) = take n (drop pos bs)"
    using k by (metis append_eq_conv_conj)
  show "0 < n \<Longrightarrow> k = 0 \<longleftrightarrow> length bs \<le> pos" by (auto simp: assms(2) len)
qed

end
