(* ===== verification/Vfs_Host_Props.thy ===== *)
theory Vfs_Host_Props
  imports Vfs_Host_Inv Write_Session Read_Session
begin

text \<open>
  What the native host guarantees: leases behind the open write descriptors of all instances of a
  process, streams that write and read the bytes of the file, and the way of the written bytes into
  the bucket; and what is lost when an instance goes or a descriptor is written without a stream.
\<close>

section \<open>Leases\<close>



section \<open>Writing\<close>

text \<open>What the stream \<open>rep\<close> of the descriptor \<open>d\<close> has written: \<open>h0\<close> is the instance when it was opened.\<close>

definition host_took ::
  "nat \<Rightarrow> 's vfs_host \<Rightarrow> fd \<Rightarrow> string \<Rightarrow> u32 \<Rightarrow> afs \<Rightarrow> u32 \<Rightarrow> 's vfs_host \<Rightarrow> bytes \<Rightarrow> bool" where
  "host_took n h0 d p fl A rep h bs \<longleftrightarrow> access_mode fl \<noteq> O_RDONLY \<and> length bs < 2 ^ 64 \<and>
     (\<exists>pos. on_file n (vh_fs h) d (path_comps p) fl pos A bs) \<and>
     h = h0\<lparr>vh_fs := vh_fs h, vh_table := (vh_table h0)(rep \<mapsto>
            ResOutput \<lparr>ho_fd = d, ho_offset = Some (of_nat (length bs)), ho_path = Some p\<rparr>)\<rparr>"

interpretation hw: appending_stream stream_write "host_took n h0 d p fl A" "2 ^ 64" for n h0 d p fl A
proof
  fix rep and h :: "'a vfs_host" and bs data :: bytes
  assume t: "host_took n h0 d p fl A rep h bs" and len: "length bs + length data < 2 ^ 64"
  let ?o = "\<lambda>k. ResOutput \<lparr>ho_fd = d, ho_offset = Some (of_nat k), ho_path = Some p\<rparr>"
  obtain pos where o: "access_mode fl \<noteq> O_RDONLY" "on_file n (vh_fs h) d (path_comps p) fl pos A bs"
      "h = h0\<lparr>vh_fs := vh_fs h, vh_table := (vh_table h0)(rep \<mapsto> ?o (length bs))\<rparr>"
    using t by (auto simp: host_took_def)
  have "unat (of_nat (length bs) :: u64) = length bs" using len by (simp add: unsigned_of_nat take_bit_nat_eq_self)
  then obtain f' where f': "write_at (vh_fs h) d (of_nat (length bs)) data = (Inr (length data), f')"
      "on_file n f' d (path_comps p) fl (of_nat (length bs + length data)) A (bs @ data)"
    using on_file_write_at [OF o(2,1)] by blast
  have tab: "vh_table h rep = Some (?o (length bs))" using arg_cong [OF o(3), of vh_table] by simp
  define h' where "h' = h0\<lparr>vh_fs := f', vh_table := (vh_table h0)(rep \<mapsto> ?o (length (bs @ data)))\<rparr>"
  have "stream_write rep data h = (Some (Inr ()), h\<lparr>vh_fs := f', vh_table := (vh_table h)(rep \<mapsto> ?o (length (bs @ data)))\<rparr>)"
    using tab f'(1) by (simp add: stream_write_def output_stream_write_def host_local_def)
  also have "h\<lparr>vh_fs := f', vh_table := (vh_table h)(rep \<mapsto> ?o (length (bs @ data)))\<rparr> = h'"
    unfolding h'_def by (subst (1 2) o(3)) simp
  finally have "stream_write rep data h = (Some (Inr ()), h')" .
  moreover have "host_took n h0 d p fl A rep h' (bs @ data)"
    using o(1) f'(2) len by (auto simp: host_took_def h'_def)
  ultimately show "\<exists>h'. stream_write rep data h = (Some (Inr ()), h') \<and> host_took n h0 d p fl A rep h' (bs @ data)"
    by blast
qed

text \<open>Opening a path for writing with creation and truncation.\<close>

lemma host_open:
  assumes hooks: "vh_hooks h = Some (S3SyncHooks r s)" and m: "vh_manager h = Some m" and lock: "file_lock C"
    and self: "vh_table h self = Some (ResDescriptor w)" and p: "p = resolve_path (fd_path w) path"
    and run: "desc_open_at al k (mem_env t E C) self path {OfCreate, OfTruncate} {DfRead, DfWrite} h = Some (Inr rep, h1)"
  shows "\<exists>m1 d f. on_open_write k (mem_env t E C) p (m\<lparr>m_fs := vh_fs h\<rparr>) = Some (Inr (), m1) \<and>
    open_path_with_flags (m_fs m1) p replace_flags = (Inr d, f) \<and> al (vh_table h) = Some rep \<and>
    h1 = h\<lparr>vh_fs := f, vh_manager := Some m1,
       vh_table := (vh_table h)(rep \<mapsto> ResDescriptor \<lparr>fd_no = d, fd_path = Some p, fd_flags = replace_flags\<rparr>)\<rparr>"
proof -
  have fl: "open_at_flags {OfCreate, OfTruncate} {DfRead, DfWrite} = replace_flags" by (simp add: open_at_flags_def)
  have kw: "kind_is_write (kind_from_fs_flags replace_flags)"
    by (simp add: kind_is_write_def kind_from_fs_flags_def flag_defs)
  obtain q m1 where o: "on_open_write k (mem_env t E C) p (m\<lparr>m_fs := vh_fs h\<rparr>) = Some (q, m1)"
    using run self lock hooks m kw
    by (auto simp: desc_open_at_def get_fs_descriptor_def p fl hook_on_open_def s3_hook_def mem_env_def Let_def split: option.splits)
  let ?h1 = "h\<lparr>vh_fs := m_fs m1, vh_manager := Some m1\<rparr>"
  have lt: "q = Inr ()" "local_then (\<lambda>f. open_path_with_flags f p replace_flags)
      (\<lambda>d. table_push al (ResDescriptor \<lparr>fd_no = d, fd_path = Some p, fd_flags = replace_flags\<rparr>)) ?h1 = (Inr rep, h1)"
    using run self lock hooks m kw o
    by (cases q; auto simp: desc_open_at_def get_fs_descriptor_def p fl hook_on_open_def s3_hook_def mem_env_def Let_def)+
  then show ?thesis
    using o by (auto simp: local_then_def host_local_def table_push_def split: prod.splits sum.splits option.splits)
qed

text \<open>
  C7. What a component writes to an output stream reaches the bucket. With file locks in batch mode and a
  bucket whose requests do not fail: a component opens a path for writing with creation and truncation,
  writes any chunks to an output stream of the descriptor, drops the stream and then the descriptor. Then
  both drops succeed, the object of the path holds exactly the chunks one after the other, the lease is
  released, and both resources are gone.
\<close>

theorem host_write_is_stored:
  assumes "vh_hooks h = Some (S3SyncHooks r s)" and "vh_manager h = Some m" and "file_lock C" and "cfg_mode C = Batch"
    and "mem_calm (m_store m)" and "\<not> is_locked m p" and "Upload p \<notin> set (outbound_queue m)"
    and "vh_table h self = Some (ResDescriptor w)" and "p = resolve_path (fd_path w) path" and "path_comps p \<noteq> []"
    and "roomy (2 * length p + 4) (vh_fs h)" and "length (concat chunks) < 2 ^ 64"
    and "\<forall>t rep. al t = Some rep \<longrightarrow> t rep = None"
    and "desc_open_at al k (mem_env t E C) self path {OfCreate, OfTruncate} {DfRead, DfWrite} h = Some (Inr d, h1)"
    and "host_write_via_stream al d 0 h1 = (Inr st, h2)"
    and "h3 = fold (\<lambda>data h. snd (stream_write st data h)) chunks h2"
    and "drop_output (mem_env t E C) st h3 = (r1, h4)" and "desc_drop (mem_env t E C) d h4 = (r2, h5)"
  shows "r1 = Inr () \<and> r2 = Inr () \<and> vh_table h5 st = None \<and> vh_table h5 d = None \<and>
    (\<exists>m5. vh_manager h5 = Some m5 \<and> \<not> is_locked m5 p \<and>
       map_option fst (mem_view (m_store m5) (file_key p)) = Some (concat chunks))"
proof -
  let ?X = "mem_env t E C" and ?m = "m\<lparr>m_fs := vh_fs h\<rparr>"
  obtain m1 fd f where o: "on_open_write k ?X p ?m = Some (Inr (), m1)"
    "open_path_with_flags (m_fs m1) p replace_flags = (Inr fd, f)" "al (vh_table h) = Some d"
    "h1 = h\<lparr>vh_fs := f, vh_manager := Some m1,
       vh_table := (vh_table h)(d \<mapsto> ResDescriptor \<lparr>fd_no = fd, fd_path = Some p, fd_flags = replace_flags\<rparr>)\<rparr>"
    using host_open [OF assms(1,2,3,8,9,14)] by (elim exE conjE) (rule that)
  have rm: "roomy (Suc (Suc (length p + 2)) + length p) (m_fs ?m)"
    using roomy_le [OF assms(11), of "Suc (Suc (length p + 2)) + length p"] by simp
  have m: "mem_calm (m_store ?m)" "\<not> is_locked ?m p" "Upload p \<notin> set (outbound_queue ?m)" "file_lock (config ?X)"
    using assms(3,5,6,7) by (simp_all add: is_locked_def mem_env_def)
  have "roomy (Suc (length p + 2)) (m_fs m1)" using sw.open_clean [OF o(1) m(4,2,3) rm] by blast
  note on = on_file_opened [OF this assms(10) o(2)]
  let ?out = "\<lambda>k. ResOutput \<lparr>ho_fd = fd, ho_offset = Some (of_nat k), ho_path = Some p\<rparr>"
  have "vh_table h1 d = Some (ResDescriptor \<lparr>fd_no = fd, fd_path = Some p, fd_flags = replace_flags\<rparr>)" using o(4) by simp
  then have al: "al (vh_table h1) = Some st" and h2: "h2 = h1\<lparr>vh_table := (vh_table h1)(st \<mapsto> ?out 0)\<rparr>"
    using assms(15) by (auto simp: host_write_via_stream_def with_fd_def get_fs_descriptor_def table_push_def split: option.splits)
  note st = assms(13) [rule_format, OF al] h2
  have ne: "st \<noteq> d" using st(1) o(4) by auto
  have "host_took (length p + 2) h1 fd p replace_flags (abs_fs (m_fs m1)) st h2 []"
    using on o(4) st(2) by (auto simp: host_took_def replace_flags_simps)
  from hw.chunks_taken [OF this, of chunks] assms(12)
  have t3: "host_took (length p + 2) h1 fd p replace_flags (abs_fs (m_fs m1)) st h3 (concat chunks)"
    by (simp add: assms(16))
  then obtain pos where t: "on_file (length p + 2) (vh_fs h3) fd (path_comps p) replace_flags pos (abs_fs (m_fs m1)) (concat chunks)"
    "h3 = h1\<lparr>vh_fs := vh_fs h3, vh_table := (vh_table h1)(st \<mapsto> ?out (length (concat chunks)))\<rparr>"
    by (auto simp: host_took_def)
  define f3 where "f3 = vh_fs h3"
  define m2 where "m2 = enqueue_upload p (m1\<lparr>m_fs := f3\<rparr>)"
  have h3: "h3 = h1\<lparr>vh_fs := f3, vh_table := (vh_table h1)(st \<mapsto> ?out (length (concat chunks)))\<rparr>" using t(2) by (simp add: f3_def)
  have m2: "m_fs m2 = f3" by (simp add: m2_def enqueue_upload_def sync_frame)
  have h4: "r1 = Inr ()" "h4 = h1\<lparr>vh_manager := Some m2, vh_fs := f3\<rparr>"
    using assms(1,4,17) o(4) st(1) m2
    by (auto simp: h3 drop_output_def output_dropped_def hook_on_write_def s3_hook_def is_realtime_def mem_env_def
        host_sync_def m2_def fun_upd_idem)
  have kw: "kind_is_write (kind_from_fs_flags replace_flags)"
    by (simp add: kind_is_write_def kind_from_fs_flags_def flag_defs)
  obtain q m4 where cl: "on_close ?X p (m2\<lparr>m_fs := f3\<rparr>) = (q, m4)" by fastforce
  have h5: "r2 = Inr ()" "vh_manager h5 = Some m4" "vh_table h5 = (vh_table h1)(d := None)"
    using assms(1,3,18) o(4) kw cl m(4)
    by (auto simp: h4(2) desc_drop_def hook_on_close_def hook_call_def s3_hook_def host_sync_def host_local_def Let_def
        split: prod.splits)
  have "file_at f3 p = Some (concat chunks)" "roomy (length p + 2) f3"
    using t(1) assms(10) by (simp_all add: f3_def on_file_def file_at_def file_in_upd)
  then have "\<not> is_locked m4 p \<and> map_option fst (mem_view (m_store m4) (file_key p)) = Some (concat chunks)"
    using session_stored [OF assms(3) m(1-3) assms(10) rm o(1) cl [unfolded m2_def]] assms(12) by simp
  then show ?thesis using h4(1) h5 st(1) by simp
qed


section \<open>Reading\<close>

text \<open>The results of a sequence of reads and skips on one input stream; \<open>plain_run\<close> (theory \<open>Rpc_Reads\<close>) is
  the reference, a position in the bytes of the file.\<close>

definition host_input_run ::
  "('s, fs) sync_env \<Rightarrow> u32 \<Rightarrow> input_call list \<Rightarrow> 's vfs_host \<Rightarrow> (stream_error + bytes) option list" where
  "host_input_run X rep = reader_run (\<lambda>n. stream_read X rep (unat n)) (\<lambda>n h. snd (stream_skip rep (unat n) h))"

definition reads_memory :: "'s vfs_host \<Rightarrow> bool" where
  "reads_memory h \<longleftrightarrow> (\<forall>s m. s3_hook h \<noteq> Some (True, s, m))"

definition host_serves :: "bytes \<Rightarrow> u32 \<Rightarrow> nat \<Rightarrow> 's vfs_host \<Rightarrow> bool" where
  "host_serves bs rep pos h \<longleftrightarrow> reads_memory h \<and> fs_wf (vh_fs h) \<and>
     (\<exists>st fh stg. vh_table h rep = Some (ResInput st) \<and> unat (hi_offset st) = pos \<and>
        fd_file (vh_fs h) (hi_fd st) = Some (fh, stg) \<and> access_mode (h_flags fh) \<noteq> O_WRONLY \<and>
        bs = take (readable stg) (contents stg))"

lemma reads_memory_hook: "reads_memory h \<Longrightarrow> hook_on_read X p h = h"
  by (auto simp: reads_memory_def hook_on_read_def split: option.split)

lemma reads_memory_sel: "vh_hooks h' = vh_hooks h \<Longrightarrow> vh_manager h' = vh_manager h \<Longrightarrow> reads_memory h' = reads_memory h"
  by (simp add: reads_memory_def s3_hook_def)

interpretation hr: plain_reader "\<lambda>n. stream_read X rep (unat n)" "\<lambda>n h. snd (stream_skip rep (unat n) h)"
  "\<lambda>bs. host_serves bs rep" "2 ^ 64" "2 ^ 64" for X rep
proof
  fix bs pos and h :: "'a vfs_host" and len :: u64
  assume s: "host_serves bs rep pos h" and n: "0 < unat len" "pos + unat len < 2 ^ 64"
  define n where "n = unat len"
  obtain st fh stg where h: "reads_memory h" "fs_wf (vh_fs h)" "vh_table h rep = Some (ResInput st)" "unat (hi_offset st) = pos"
    "fd_file (vh_fs h) (hi_fd st) = Some (fh, stg)" "access_mode (h_flags fh) \<noteq> O_WRONLY" "bs = take (readable stg) (contents stg)"
    using s by (auto simp: host_serves_def)
  define k where "k = min n (readable stg - pos)"
  have "0 < n" using n(1) by (simp add: n_def)
  note tk = take_read(1) [OF h(7) k_def, of "drop k (replicate n 0)"] take_read(2) [OF h(7) k_def] take_read(3) [OF h(7) k_def this]
  define f' where "f' = set_position (vh_fs h) (hi_fd st) (hi_offset st + of_nat k)"
  have r: "read_at (vh_fs h) (hi_fd st) (hi_offset st) (replicate n 0) =
      (Inr (k, take k (drop pos (contents stg)) @ drop k (replicate n 0)), f')"
    using read_with_ok [OF h(2,5,6), of "\<lambda>_. hi_offset st" "replicate n 0"] h(4)
    by (simp add: read_at_def Let_def k_def f'_def)
  define st' where "st' = (if k = 0 then st\<lparr>hi_refreshed := True\<rparr>
      else st\<lparr>hi_refreshed := True, hi_offset := hi_offset st + of_nat k\<rparr>)"
  define h' where "h' = h\<lparr>vh_fs := f', vh_table := (vh_table h)(rep \<mapsto> ResInput st')\<rparr>"
  have "(case hi_path st of Some path \<Rightarrow> if hi_refreshed st then h else hook_on_read X path h | None \<Rightarrow> h) = h"
    using reads_memory_hook [OF h(1)] by (simp split: option.split)
  then have "stream_read X rep n h = (Some (if length bs \<le> pos then Inl Closed else Inr (take n (drop pos bs))), h')"
    using h(3) r n(1) tk
    by (simp add: stream_read_def input_stream_read_def host_local_def h'_def st'_def n_def Let_def del: length_take take_append)
  moreover have "unat (hi_offset st') = (if length bs \<le> pos then pos else pos + k)"
    using tk(3) h(4) n(2) unat_add_small [of "hi_offset st" k] by (auto simp: st'_def k_def n_def)
  moreover have "fd_file f' (hi_fd st) = Some (fh\<lparr>position := hi_offset st + of_nat k\<rparr>, stg)"
    using fd_file_set_position [OF h(5)] by (simp add: f'_def)
  moreover have "reads_memory h'" using h(1) reads_memory_sel [of h' h] by (simp add: h'_def)
  moreover have "fs_wf f'" using fs_wf_set_position [OF h(2)] by (simp add: f'_def)
  moreover have "hi_fd st' = hi_fd st" by (simp add: st'_def)
  ultimately show "\<exists>h'. stream_read X rep (unat len) h =
      (Some (if length bs \<le> pos then Inl Closed else Inr (take (unat len) (drop pos bs))), h') \<and>
    host_serves bs rep (if length bs \<le> pos then pos else pos + length (take (unat len) (drop pos bs))) h'"
    using h(6,7) tk(2) by (auto simp: host_serves_def h'_def n_def simp del: length_take)
next
  fix bs pos and h :: "'a vfs_host" and len :: u64
  assume "host_serves bs rep pos h" "pos + unat len < 2 ^ 64"
  then show "host_serves bs rep (pos + unat len) (snd (stream_skip rep (unat len) h))"
    using unat_add_small [of _ "unat len"] reads_memory_sel [of "snd (stream_skip rep (unat len) h)" h]
    by (auto simp: host_serves_def stream_skip_def input_stream_skip_def)
qed

text \<open>
  C26. A stream of the host reads the bytes of the file. When a component opens an input stream at an
  offset on a readable descriptor, and reads are served from memory, then any sequence of reads and
  skips returns exactly what reads of the bare bytes return; so the host and the adapter of the
  RPC server, with its read-ahead, agree. The lengths are positive and do not pass 64 bits.
\<close>

theorem host_reads_are_plain:
  assumes "vh_table h self = Some (ResDescriptor w)" and "fs_wf (vh_fs h)" and "reads_memory h"
    and "fd_file (vh_fs h) (fd_no w) = Some (fh, stg)" and "access_mode (h_flags fh) \<noteq> O_WRONLY"
    and "bs = take (readable stg) (contents stg)" and "host_read_via_stream al self off h = (Inr rep, h1)"
    and "unat off + sum_list (map input_bytes calls) < 2 ^ 64"
    and "\<forall>c \<in> set calls. is_input_read c \<longrightarrow> 0 < input_bytes c"
  shows "host_input_run X rep calls h1 = map Some (plain_run bs (unat off) calls)"
proof -
  have "host_serves bs rep (unat off) h1"
    using assms(1-7) reads_memory_sel [of h1 h]
    by (auto simp: host_read_via_stream_def with_fd_def get_fs_descriptor_def table_push_def host_serves_def
        split: option.splits)
  moreover have "input_bytes c < 2 ^ 64" for c
  proof -
    have "unat (n :: u64) < 2 ^ LENGTH(64)" for n by (rule unsigned_less)
    then show ?thesis by (cases c) simp_all
  qed
  then have "\<forall>c \<in> set calls. is_input_read c \<longrightarrow> 0 < input_bytes c \<and> input_bytes c < 2 ^ 64"
    using assms(9) by blast
  ultimately show ?thesis unfolding host_input_run_def using assms(8) by (intro hr.reads_plain)
qed

section \<open>Examples\<close>

text \<open>A process over an empty bucket, and its instance 0 with the root directory as resource 0.\<close>

definition demo_alloc :: table_alloc where
  "demo_alloc t = find (\<lambda>i. t i = None) [0, 1, 2, 3]"

definition host_demo :: "mem_inner vfs_host" where
  "host_demo = (case fst (new_with_s3 demo_env (\<lambda>_. None) ''i'' mem_new \<lparr>readings = 0, slept = 0\<rparr>) of
     Inr h \<Rightarrow> h | Inl _ \<Rightarrow> host_new)"

definition host_root :: "mem_inner vfs_host" where
  "host_root = snd (host_get_directories demo_alloc host_demo)"

lemma demo_alloc_fresh: "\<forall>t rep. demo_alloc t = Some rep \<longrightarrow> t rep = None"
  by (auto simp: demo_alloc_def split: if_splits)

lemma host_demo_facts:
  "\<exists>s. new_with_s3 demo_env (\<lambda>_. None) ''i'' mem_new \<lparr>readings = 0, slept = 0\<rparr> = (Inr host_demo, s)"
  "vh_table host_demo = Map.empty" "vh_fs host_demo = fs_new" "vh_hooks host_demo = Some (S3SyncHooks False False)"
  "vh_running host_demo" "vh_thread host_demo"
  "\<exists>m. vh_manager host_demo = Some m \<and> mem_calm (m_store m) \<and> mem_view (m_store m) = Map.empty \<and> leases m = [] \<and>
     outbound_queue m = []"
  by (simp_all add: host_demo_def new_with_s3_def demo_env_def mem_env_def init_from_s3_def populate_from_s3_def
      list_files_def mem_store_def mem_list_def mem_new_def take_failure_def keys_under_def sm_new_def instant_now_def
      mem_calm_def mem_view_def fun_eq_iff)

lemma host_root_facts:
  "vh_table host_root = [0 \<mapsto> ResDescriptor \<lparr>fd_no = 3, fd_path = Some ''/'', fd_flags = 0\<rparr>]"
  "vh_hooks host_root = Some (S3SyncHooks False False)" "vh_manager host_root = vh_manager host_demo"
  "roomy 100 (vh_fs host_root)" "host_exec demo_alloc 64 0 demo_env HcGetDirectories host_demo = Some host_root"
proof -
  obtain f where f: "open_path_with_flags fs_new ''/'' (0 OR 0x10000) = (Inr 3, f)" "next_fd f = 4" "next_inode f = next_inode fs_new"
    by (simp add: fs_eval)
  have "fs_inv (snd (open_path_with_flags fs_new ''/'' (0 OR 0x10000)))"
    by (rule fs_inv_open_path_with_flags [OF fs_inv_new]) (simp_all add: fs_eval has_room_def)
  then have "roomy 100 f" using f by (simp add: roomy_def fs_eval)
  moreover have "host_get_directories demo_alloc host_demo = (Inr [(0, ''/'')], host_demo\<lparr>vh_fs := f,
      vh_table := [0 \<mapsto> ResDescriptor \<lparr>fd_no = 3, fd_path = Some ''/'', fd_flags = 0\<rparr>]\<rparr>)"
    using f(1) host_demo_facts(2,3)
    by (simp add: host_get_directories_def host_local_def table_push_def demo_alloc_def)
  ultimately show "vh_table host_root = [0 \<mapsto> ResDescriptor \<lparr>fd_no = 3, fd_path = Some ''/'', fd_flags = 0\<rparr>]"
    "vh_hooks host_root = Some (S3SyncHooks False False)" "vh_manager host_root = vh_manager host_demo"
    "roomy 100 (vh_fs host_root)" "host_exec demo_alloc 64 0 demo_env HcGetDirectories host_demo = Some host_root"
    using host_demo_facts(4) by (simp_all add: host_root_def)
qed

lemma host_demo_open:
  "\<exists>h1. desc_open_at demo_alloc 1 demo_env 0 ''f'' {OfCreate, OfTruncate} {DfRead, DfWrite} host_root = Some (Inr 1, h1) \<and>
    vh_table h1 1 = Some (ResDescriptor \<lparr>fd_no = 4, fd_path = Some ''/f'', fd_flags = replace_flags\<rparr>) \<and>
    vh_table h1 0 \<noteq> None \<and> vh_table h1 2 = None"
proof -
  obtain m where m: "vh_manager host_root = Some m" "mem_calm (m_store m)" "mem_view (m_store m) = Map.empty" "leases m = []"
      "outbound_queue m = []"
    using host_demo_facts(7) host_root_facts(3) by auto
  let ?m = "m\<lparr>m_fs := vh_fs host_root\<rparr>"
  have l: "mem_calm (m_store ?m)" "mem_view (m_store ?m) = Map.empty" "\<not> is_locked ?m ''/f''" "Upload ''/f'' \<notin> set (outbound_queue ?m)"
    using m by (simp_all add: is_locked_get lt_get_def)
  have fl: "file_lock (config (mem_env demo_tag demo_time (from_lookup (\<lambda>_. None))))"
    using demo_config(2) by (simp add: demo_env_def)
  obtain m1 where o: "on_open_write (Suc 0) demo_env ''/f'' ?m = Some (Inr (), m1)"
    using sw.open_free [OF _ _ _ fl l(3,4)] l(1,2) by (auto simp: demo_env_def)
  have "roomy (Suc 0 + length ''/f'') (m_fs ?m)" using roomy_le [OF host_root_facts(4)] by simp
  then have "m_fs m1 = vh_fs host_root"
    using sw.open_clean [OF o [unfolded demo_env_def] fl l(3,4)] l(2) by simp
  moreover obtain f where "open_path_with_flags (vh_fs host_root) ''/f'' replace_flags = (Inr 4, f)"
    by (simp add: host_root_def host_get_directories_def host_local_def host_demo_facts(2,3) table_push_def demo_alloc_def
        fs_eval truncate_inode_def bs_truncate_def)
  ultimately show ?thesis
    using o demo_config(2) m(1) host_root_facts(1,2)
    by (simp add: desc_open_at_def get_fs_descriptor_def resolve_path_def open_at_flags_def hook_on_open_def s3_hook_def
        kind_is_write_def kind_from_fs_flags_def flag_defs local_then_def host_local_def table_push_def demo_alloc_def
        trim_start_matches_def Let_def)
qed

definition demo_process :: "mem_inner vfs_host \<Rightarrow> mem_inner host_process" where
  "demo_process h = leave 0 (Some (instance_of h)) h (leave 0 (Some (instance_of host_root)) host_root (process_of host_demo))"

lemma demo_process_reachable:
  assumes "desc_open_at demo_alloc 1 demo_env 0 ''f'' {OfCreate, OfTruncate} {DfRead, DfWrite} host_root = Some (Inr 1, h1)"
  shows "process_reachable demo_env (demo_process h1)"
proof -
  let ?P = "leave 0 (Some (instance_of host_root)) host_root (process_of host_demo)"
  have e: "enter (process_of host_demo) (instance_of host_demo) = host_demo" "enter ?P (instance_of host_root) = host_root"
    by (simp_all add: enter_def process_of_def instance_of_def leave_def)
  have i: "hp_instances (process_of host_demo) 0 = Some (instance_of host_demo)" "hp_instances ?P 0 = Some (instance_of host_root)"
    by (simp_all add: process_of_def leave_def)
  have "process_reachable demo_env (process_of host_demo)"
    using host_demo_facts(1) by (auto intro: process_start)
  moreover have "process_exec demo_env (InstanceCall 0 demo_alloc 64 0 HcGetDirectories) (process_of host_demo) = Some ?P"
    using host_root_facts(5) by (simp add: i e del: host_exec.simps)
  moreover have "process_exec demo_env (InstanceCall 0 demo_alloc 64 1 (HcOpenAt 0 ''f'' {OfCreate, OfTruncate} {DfRead, DfWrite})) ?P =
      Some (demo_process h1)"
    using assms by (simp add: i e demo_process_def)
  ultimately show ?thesis by (metis process_step)
qed

lemma demo_process_writer:
  "vh_table h1 1 = Some (ResDescriptor \<lparr>fd_no = 4, fd_path = Some ''/f'', fd_flags = replace_flags\<rparr>) \<Longrightarrow>
    (0, 1) \<in> process_writers (demo_process h1) ''/f''"
  by (simp add: process_writers_def demo_process_def leave_def instance_of_def table_writers_def kind_is_write_def
      kind_from_fs_flags_def flag_defs)

lemma open_at_running: 
  assumes "desc_open_at demo_alloc 1 demo_env 0 ''f'' {OfCreate, OfTruncate} {DfRead, DfWrite} host_root = Some (Inr 1, h1)"
  shows "vh_running h1 \<and> vh_hooks h1 = vh_hooks host_root \<and> (\<exists>m. vh_manager h1 = Some m)"
proof -
  obtain m where m: "vh_manager host_root = Some m" using host_demo_facts(7) host_root_facts(3) by auto
  have t: "vh_table host_root 0 = Some (ResDescriptor \<lparr>fd_no = 3, fd_path = Some ''/'', fd_flags = 0\<rparr>)"
    by (simp add: host_root_facts(1))
  have "vh_running host_root" using host_demo_facts(5)
    by (auto simp: host_root_def host_get_directories_def host_local_def table_push_def split: prod.split sum.split option.split)
  then show ?thesis
    using host_open [OF host_root_facts(2) m demo_config(2) [unfolded demo_env_def mem_env_def, simplified] t refl
        assms [unfolded demo_env_def]] by auto
qed



lemma demo_host_start:
  obtains m h1 where "vh_manager host_root = Some m" "mem_calm (m_store m)" "\<not> is_locked m ''/f''"
    "Upload ''/f'' \<notin> set (outbound_queue m)"
    "desc_open_at demo_alloc 1 (mem_env demo_tag demo_time (from_lookup (\<lambda>_. None))) 0 ''f'' {OfCreate, OfTruncate} {DfRead, DfWrite}
      host_root = Some (Inr 1, h1)"
    "vh_table h1 1 = Some (ResDescriptor \<lparr>fd_no = 4, fd_path = Some ''/f'', fd_flags = replace_flags\<rparr>)"
    "demo_alloc (vh_table h1) = Some 2"
  using host_demo_open host_demo_facts(7) host_root_facts(3)
  by (auto simp: demo_env_def is_locked_get lt_get_def demo_alloc_def)

lemma demo_host_static:
  "file_lock (from_lookup (\<lambda>_. None))" "cfg_mode (from_lookup (\<lambda>_. None)) = Batch"
  "vh_table host_root 0 = Some (ResDescriptor \<lparr>fd_no = 3, fd_path = Some ''/'', fd_flags = 0\<rparr>)"
  "''/f'' = resolve_path (fd_path \<lparr>fd_no = 3, fd_path = Some ''/'', fd_flags = 0\<rparr>) ''f''" "path_comps ''/f'' \<noteq> []"
  "roomy (2 * length ''/f'' + 4) (vh_fs host_root)" "roomy (length ''/f'' + 4) (vh_fs host_root)"
  using demo_config(2,3) host_root_facts(1) roomy_le [OF host_root_facts(4)]
  by (simp_all add: demo_env_def mem_env_def resolve_path_def trim_start_matches_def fs_eval)

theorem host_write_is_stored_witness:
  "\<exists>(h :: mem_inner vfs_host) m. vh_manager h = Some m \<and> \<not> is_locked m ''/f'' \<and>
    map_option fst (mem_view (m_store m) (file_key ''/f'')) = Some [1, 2, 3]"
proof -
  obtain m h1 where o: "vh_manager host_root = Some m" "mem_calm (m_store m)" "\<not> is_locked m ''/f''"
    "Upload ''/f'' \<notin> set (outbound_queue m)"
    "desc_open_at demo_alloc 1 (mem_env demo_tag demo_time (from_lookup (\<lambda>_. None))) 0 ''f'' {OfCreate, OfTruncate} {DfRead, DfWrite}
      host_root = Some (Inr 1, h1)"
    "vh_table h1 1 = Some (ResDescriptor \<lparr>fd_no = 4, fd_path = Some ''/f'', fd_flags = replace_flags\<rparr>)"
    "demo_alloc (vh_table h1) = Some 2"
    by (rule demo_host_start)
  obtain h2 where h2: "host_write_via_stream demo_alloc 1 0 h1 = (Inr 2, h2)"
    using o(6,7) by (simp add: host_write_via_stream_def with_fd_def get_fs_descriptor_def table_push_def)
  have len: "length (concat [[1, 2], [3 :: u8]]) < 2 ^ 64" by simp
  define h3 where "h3 = fold (\<lambda>data h. snd (stream_write 2 data h)) [[1, 2], [3]] h2"
  let ?X = "mem_env demo_tag demo_time (from_lookup (\<lambda>_. None))"
  obtain r1 h4 where h4: "drop_output ?X 2 h3 = (r1, h4)" by fastforce
  obtain r2 h5 where h5: "desc_drop ?X 1 h4 = (r2, h5)" by fastforce
  show ?thesis
    using host_write_is_stored [OF host_root_facts(2) o(1) demo_host_static(1,2) o(2-4) demo_host_static(3-6) len demo_alloc_fresh
        o(5) h2 h3_def h4 h5]
    by auto
qed


text \<open>A file with five bytes, read in three steps with a skip.\<close>

definition host_reading :: "mem_inner vfs_host" where
  "host_reading = (host_over (sc_fs readable_server))\<lparr>vh_table := [0 \<mapsto> ResDescriptor \<lparr>fd_no = 3, fd_path = None, fd_flags = 66\<rparr>]\<rparr>"

theorem host_reads_are_plain_witness:
  "\<exists>rep h1. host_read_via_stream demo_alloc 0 0 host_reading = (Inr rep, h1) \<and>
    host_input_run demo_env rep [InRead 2, InSkip 1, InRead 9, InRead 1] h1 = [Some (Inr [1, 2]), Some (Inr [4, 5]), Some (Inl Closed)]"
proof -
  let ?w = "\<lparr>fd_no = 3, fd_path = None, fd_flags = 66\<rparr>"
  have t: "vh_table host_reading 0 = Some (ResDescriptor ?w)" "vh_fs host_reading = sc_fs readable_server"
    "reads_memory host_reading"
    by (simp_all add: host_reading_def host_over_def reads_memory_def s3_hook_def)
  obtain fh stg where f: "fs_wf (vh_fs host_reading)" "fd_file (vh_fs host_reading) (fd_no ?w) = Some (fh, stg)"
    "access_mode (h_flags fh) \<noteq> O_WRONLY" "[1, 2, 3, 4, 5] = take (readable stg) (contents stg)"
    using readable_file t(2) by auto
  obtain rep h1 where r: "host_read_via_stream demo_alloc 0 0 host_reading = (Inr rep, h1)"
    using t(1) by (simp add: host_read_via_stream_def with_fd_def get_fs_descriptor_def table_push_def demo_alloc_def
        host_reading_def)
  have "unat (0 :: u64) + sum_list (map input_bytes [InRead 2, InSkip 1, InRead 9, InRead 1]) < 2 ^ 64"
    "\<forall>c \<in> set [InRead 2, InSkip 1, InRead 9, InRead 1]. is_input_read c \<longrightarrow> 0 < input_bytes c" by simp_all
  from host_reads_are_plain [OF t(1) f(1) t(3) f(2-4) r this, of demo_env] r show ?thesis by simp
qed

end
