(* ===== verification/Vfs_Adapter.thy ===== *)
theory Vfs_Adapter
  imports Rpc_Client Sync_Manager Snapshot
begin

text \<open>
  \<open>vfs-adapter\<close> with its feature \<open>s3-sync\<close>: the component that holds an \<open>fs-core\<close> instance and exports the
  WASI file system to the application it is composed with. Theory \<open>Rpc_Client\<close> lends the types of the WASI
  interface.

  The component runs on one thread. Its two thread-local cells are one record: the tables of
  descriptors over the file system, and the sync manager, if the environment names a bucket. The
  manager works on the same file system (\<open>Rc<RefCell<Fs>>\<close>), which is lent to it for a call. Environment
  variables are a parameter \<open>get\<close>, read at every call as the code does; \<open>W\<close> is the width of \<open>usize\<close>. The
  system clock is the counter of \<open>Fs\<close>: its readings go into metadata only. Streams that pass through to
  the host are left out.
\<close>

section \<open>State\<close>

record 's vfs_state =
  va_fs :: fs
  va_descriptor_to_fd :: "u32 \<rightharpoonup> fd"
  va_fd_to_descriptor :: "fd \<rightharpoonup> u32"
  va_descriptor_to_path :: "u32 \<rightharpoonup> string"
  dirty_descriptors :: "u32 set"
  va_next_descriptor :: u32
  va_manager :: "('s, fs) sync_manager option"

type_synonym env_lookup = "string \<Rightarrow> string option"

text \<open>\<open>is_write_access\<close> of \<open>s3_sync\<close>.\<close>

definition va_is_write :: "u32 \<Rightarrow> bool" where
  "va_is_write flags \<longleftrightarrow> flags AND 0x3 \<noteq> O_RDONLY"

fun va_map_sync_error :: "sync_error \<Rightarrow> wasi_error" where
  "va_map_sync_error (Busy p h) = WBusy"
| "va_map_sync_error (Conflict p b) = WNotRecoverable"
| "va_map_sync_error e = WIo"

fun to_error_code :: "fs_error \<Rightarrow> wasi_error" where
  "to_error_code NotFound = WNoEntry"
| "to_error_code NotADirectory = WNotDirectory"
| "to_error_code IsADirectory = WIsDirectory"
| "to_error_code InvalidArgument = WInvalid"
| "to_error_code BadFileDescriptor = WBadDescriptor"
| "to_error_code PermissionDenied = WAccess"
| "to_error_code AlreadyExists = WExist"
| "to_error_code NotEmpty = WNotEmpty"

text \<open>\<open>init_s3_sync\<close>: \<open>s\<close> is the client of the bucket, \<open>inst\<close> the random identifier of the manager. The
  bucket is not loaded: the file system is the one of the snapshot.\<close>

definition va_env :: "'s object_store \<Rightarrow> time_env \<Rightarrow> env_lookup \<Rightarrow> ('s, fs) sync_env" where
  "va_env store E get = \<lparr>se_store = store, se_fs = adapter_fs, se_time = E, config = from_lookup get\<rparr>"

definition init_s3_sync ::
  "('s, fs) sync_env \<Rightarrow> env_lookup \<Rightarrow> 's \<Rightarrow> string \<Rightarrow> clk \<Rightarrow> fs \<Rightarrow> ('s, fs) sync_manager option" where
  "init_s3_sync X get s inst k f =
     (case get ''VFS_S3_BUCKET'' of
        Some b \<Rightarrow> if b \<noteq> [] then Some (sm_new X s f mc_new inst k) else None
      | None \<Rightarrow> None)"

text \<open>\<open>VfsState::new\<close>; \<open>snapshot\<close> is the embedded snapshot, if there is one and it could be parsed.\<close>

definition va_new ::
  "('s, fs) sync_env \<Rightarrow> env_lookup \<Rightarrow> fs_snapshot option \<Rightarrow> u64 \<Rightarrow> 's \<Rightarrow> string \<Rightarrow> clk \<Rightarrow> 's vfs_state" where
  "va_new X get snapshot t s inst k =
     (let f = (case snapshot of Some sn \<Rightarrow> from_snapshot sn t | None \<Rightarrow> with_time_provider t) in
      \<lparr>va_fs = f, va_descriptor_to_fd = [0 \<mapsto> 0], va_fd_to_descriptor = [0 \<mapsto> 0], va_descriptor_to_path = Map.empty,
       dirty_descriptors = {}, va_next_descriptor = 1, va_manager = init_s3_sync X get s inst k f\<rparr>)"

definition va_allocate_descriptor :: "fd \<Rightarrow> 's vfs_state \<Rightarrow> u32 \<times> 's vfs_state" where
  "va_allocate_descriptor d v =
     (let desc = va_next_descriptor v in
      (desc, v\<lparr>va_next_descriptor := desc + 1, va_descriptor_to_fd := (va_descriptor_to_fd v)(desc \<mapsto> d),
               va_fd_to_descriptor := (va_fd_to_descriptor v)(d \<mapsto> desc)\<rparr>))"

definition va_allocate_with_path :: "fd \<Rightarrow> string \<Rightarrow> 's vfs_state \<Rightarrow> u32 \<times> 's vfs_state" where
  "va_allocate_with_path d path v =
     (case va_allocate_descriptor d v of
        (desc, v) \<Rightarrow> (desc, v\<lparr>va_descriptor_to_path := (va_descriptor_to_path v)(desc \<mapsto> path)\<rparr>))"

definition mark_dirty :: "u32 \<Rightarrow> 's vfs_state \<Rightarrow> 's vfs_state" where
  "mark_dirty desc v = v\<lparr>dirty_descriptors := insert desc (dirty_descriptors v)\<rparr>"

definition va_get_fd :: "u32 \<Rightarrow> 's vfs_state \<Rightarrow> wasi_error + fd" where
  "va_get_fd desc v = ok_or (va_descriptor_to_fd v desc) WBadDescriptor"

definition va_release_descriptor :: "u32 \<Rightarrow> 's vfs_state \<Rightarrow> 's vfs_state" where
  "va_release_descriptor desc v =
     (let v = (case va_descriptor_to_fd v desc of
                 Some d \<Rightarrow> v\<lparr>va_descriptor_to_fd := (va_descriptor_to_fd v)(desc := None),
                             va_fd_to_descriptor := (va_fd_to_descriptor v)(d := None)\<rparr>
               | None \<Rightarrow> v) in
      v\<lparr>va_descriptor_to_path := (va_descriptor_to_path v)(desc := None)\<rparr>)"

text \<open>A call of the manager, and of the local file system.\<close>

definition va_sync ::
  "(('s, fs) sync_manager \<Rightarrow> 'r \<times> ('s, fs) sync_manager) \<Rightarrow> ('s, fs) sync_manager \<Rightarrow> 's vfs_state \<Rightarrow> 'r \<times> 's vfs_state" where
  "va_sync g m v = (case g (m\<lparr>m_fs := va_fs v\<rparr>) of (r, m) \<Rightarrow> (r, v\<lparr>va_fs := m_fs m, va_manager := Some m\<rparr>))"

definition va_local :: "(fs \<Rightarrow> (fs_error + 'r) \<times> fs) \<Rightarrow> 's vfs_state \<Rightarrow> (wasi_error + 'r) \<times> 's vfs_state" where
  "va_local g v = (case g (va_fs v) of (r, f) \<Rightarrow> (map_err to_error_code r, v\<lparr>va_fs := f\<rparr>))"

section \<open>Hooks of \<open>s3_sync\<close>\<close>

definition va_on_write :: "('s, fs) sync_env \<Rightarrow> string \<Rightarrow> 's vfs_state \<Rightarrow> 's vfs_state" where
  "va_on_write X path v =
     (case va_manager v of
        None \<Rightarrow> v
      | Some m \<Rightarrow>
          if is_realtime X then snd (va_sync (sync_file_now X path) m v)
          else snd (va_sync (\<lambda>m. maybe_sync X (enqueue_upload path m)) m v))"

definition va_on_delete :: "('s, fs) sync_env \<Rightarrow> string \<Rightarrow> 's vfs_state \<Rightarrow> 's vfs_state" where
  "va_on_delete X path v =
     (case va_manager v of
        None \<Rightarrow> v
      | Some m \<Rightarrow> snd (va_sync (\<lambda>m. maybe_sync X (enqueue_delete path m)) m v))"

definition va_on_read :: "('s, fs) sync_env \<Rightarrow> env_lookup \<Rightarrow> string \<Rightarrow> 's vfs_state \<Rightarrow> 's vfs_state" where
  "va_on_read X get path v =
     (if get ''VFS_READ_MODE'' \<noteq> Some ''s3'' then v
      else
        (case va_manager v of
           None \<Rightarrow> v
         | Some m \<Rightarrow> snd (va_sync (refresh_file_from_s3 X path) m v)))"

definition va_on_open ::
  "nat \<Rightarrow> ('s, fs) sync_env \<Rightarrow> env_lookup \<Rightarrow> string \<Rightarrow> u32 \<Rightarrow> 's vfs_state \<Rightarrow> ((wasi_error + unit) \<times> 's vfs_state) option" where
  "va_on_open fuel X get path flags v =
     (case va_manager v of
        None \<Rightarrow> Some (Inr (), v)
      | Some m \<Rightarrow>
          if file_lock (config X) \<and> va_is_write flags then
            (case on_open_write fuel X path (m\<lparr>m_fs := va_fs v\<rparr>) of
               None \<Rightarrow> None
             | Some (r, m) \<Rightarrow> Some (map_err va_map_sync_error r, v\<lparr>va_fs := m_fs m, va_manager := Some m\<rparr>))
          else if get ''VFS_METADATA_MODE'' = Some ''s3''
          then Some (Inr (), snd (va_sync (check_and_refresh_from_s3 X path) m v))
          else Some (Inr (), v))"

definition va_on_close :: "('s, fs) sync_env \<Rightarrow> string \<Rightarrow> u32 \<Rightarrow> 's vfs_state \<Rightarrow> (wasi_error + unit) \<times> 's vfs_state" where
  "va_on_close X path flags v =
     (if \<not> va_is_write flags then (Inr (), v)
      else
        (case va_manager v of
           None \<Rightarrow> (Inr (), v)
         | Some m \<Rightarrow>
             if \<not> file_lock (config X) then (Inr (), v)
             else (case va_sync (on_close X path) m v of (r, v) \<Rightarrow> (map_err va_map_sync_error r, v))))"

definition va_on_fsync :: "('s, fs) sync_env \<Rightarrow> string \<Rightarrow> u32 \<Rightarrow> 's vfs_state \<Rightarrow> (wasi_error + unit) \<times> 's vfs_state" where
  "va_on_fsync X path flags v =
     (if \<not> va_is_write flags then (Inr (), v)
      else
        (case va_manager v of
           None \<Rightarrow> (Inr (), v)
         | Some m \<Rightarrow>
             (case va_sync (\<lambda>m. on_fsync X path (enqueue_upload path m)) m v of (r, v) \<Rightarrow> (map_err va_map_sync_error r, v))))"

definition va_on_mkdir :: "('s, fs) sync_env \<Rightarrow> string \<Rightarrow> 's vfs_state \<Rightarrow> 's vfs_state" where
  "va_on_mkdir X path v = (case va_manager v of None \<Rightarrow> v | Some m \<Rightarrow> snd (va_sync (on_mkdir X path) m v))"

definition va_on_rmdir :: "('s, fs) sync_env \<Rightarrow> string \<Rightarrow> 's vfs_state \<Rightarrow> 's vfs_state" where
  "va_on_rmdir X path v = (case va_manager v of None \<Rightarrow> v | Some m \<Rightarrow> snd (va_sync (on_rmdir X path) m v))"

section \<open>Descriptors\<close>

record vfs_descriptor =
  vd_handle :: u32
  vd_path :: string
  vd_flags :: u32

definition va_get_directories :: "(vfs_descriptor \<times> string) list" where
  "va_get_directories = [(\<lparr>vd_handle = 0, vd_path = ''/'', vd_flags = O_RDONLY\<rparr>, ''/'')]"

definition va_normalize_path :: "string \<Rightarrow> string" where
  "va_normalize_path path = CHR ''/'' # trim_start_matches CHR ''/'' path"

text \<open>\<open>trim_start_matches("./")\<close>.\<close>

fun trim_start_dots :: "string \<Rightarrow> string" where
  "trim_start_dots (a # b # s) = (if a = CHR ''.'' \<and> b = CHR ''/'' then trim_start_dots s else a # b # s)"
| "trim_start_dots s = s"

definition join_at_path :: "string \<Rightarrow> string \<Rightarrow> string" where
  "join_at_path base rel =
     (let rel = trim_start_matches CHR ''/'' (trim_start_dots rel) in
      if rel = [] \<or> rel = ''.'' then base
      else if base = ''/'' then CHR ''/'' # rel
      else base @ CHR ''/'' # rel)"

definition va_make_stat :: "descriptor_type \<Rightarrow> metadata \<Rightarrow> descriptor_stat" where
  "va_make_stat ty md =
     \<lparr>ds_type = ty, ds_link_count = 1, ds_size = md_size md, ds_access = Some (created md),
      ds_modification = Some (modified md), ds_status_change = Some (modified md)\<rparr>"

definition va_convert_flags :: "open_flag set \<Rightarrow> descriptor_flag set \<Rightarrow> u32" where
  "va_convert_flags ofs dfs =
     (if DfRead \<in> dfs \<and> DfWrite \<in> dfs then O_RDWR else if DfWrite \<in> dfs then O_WRONLY else O_RDONLY)
     OR (if OfCreate \<in> ofs then O_CREAT else 0) OR (if OfTruncate \<in> ofs then O_TRUNC else 0)"

definition va_fsync :: "('s, fs) sync_env \<Rightarrow> vfs_descriptor \<Rightarrow> 's vfs_state \<Rightarrow> (wasi_error + unit) \<times> 's vfs_state" where
  "va_fsync X self v =
     (if vd_handle self = 0 then (Inr (), v)
      else
        (case va_descriptor_to_path v (vd_handle self) of
           Some path \<Rightarrow>
             va_on_fsync X path (vd_flags self) (v\<lparr>dirty_descriptors := dirty_descriptors v - {vd_handle self}\<rparr>)
         | None \<Rightarrow> (Inr (), v)))"

text \<open>\<open>Drop for DescriptorImpl\<close>: the tables first, then the hooks; an error of the close is only logged.\<close>

definition va_drop_descriptor :: "('s, fs) sync_env \<Rightarrow> vfs_descriptor \<Rightarrow> 's vfs_state \<Rightarrow> 's vfs_state" where
  "va_drop_descriptor X self v =
     (if vd_handle self = 0 then v
      else
        let path = va_descriptor_to_path v (vd_handle self);
            was_dirty = vd_handle self \<in> dirty_descriptors v;
            v = v\<lparr>dirty_descriptors := dirty_descriptors v - {vd_handle self}\<rparr>;
            v = (case va_descriptor_to_fd v (vd_handle self) of
                   Some d \<Rightarrow> snd (va_local (\<lambda>f. fs_close f d) v)
                 | None \<Rightarrow> v);
            v = va_release_descriptor (vd_handle self) v in
        (case path of
           Some p \<Rightarrow> snd (va_on_close X p (vd_flags self) (if was_dirty then va_on_write X p v else v))
         | None \<Rightarrow> v))"

section \<open>Streams\<close>

record va_input =
  vi_fd :: fd
  vi_offset :: u64
  vi_path :: "string option"
  vi_refreshed :: bool

record va_output =
  vo_fd :: fd
  vo_offset :: u64
  vo_path :: "string option"
  vo_dirty :: bool

definition va_read_via_stream :: "u64 \<Rightarrow> vfs_descriptor \<Rightarrow> 's vfs_state \<Rightarrow> wasi_error + va_input" where
  "va_read_via_stream off self v =
     (case va_get_fd (vd_handle self) v of
        Inl e \<Rightarrow> Inl e
      | Inr d \<Rightarrow> Inr \<lparr>vi_fd = d, vi_offset = off, vi_path = va_descriptor_to_path v (vd_handle self), vi_refreshed = False\<rparr>)"

definition va_write_via_stream :: "u64 \<Rightarrow> vfs_descriptor \<Rightarrow> 's vfs_state \<Rightarrow> wasi_error + va_output" where
  "va_write_via_stream off self v =
     (case va_get_fd (vd_handle self) v of
        Inl e \<Rightarrow> Inl e
      | Inr d \<Rightarrow> Inr \<lparr>vo_fd = d, vo_offset = off, vo_path = va_descriptor_to_path v (vd_handle self), vo_dirty = False\<rparr>)"

definition va_append_via_stream :: "vfs_descriptor \<Rightarrow> 's vfs_state \<Rightarrow> (wasi_error + va_output) \<times> 's vfs_state" where
  "va_append_via_stream self v =
     (case va_get_fd (vd_handle self) v of
        Inl e \<Rightarrow> (Inl e, v)
      | Inr d \<Rightarrow>
          (case va_local (\<lambda>f. seek f d 0 2) v of
             (Inl e, v) \<Rightarrow> (Inl e, v)
           | (Inr off, v) \<Rightarrow>
               (Inr \<lparr>vo_fd = d, vo_offset = off, vo_path = va_descriptor_to_path v (vd_handle self), vo_dirty = False\<rparr>, v)))"

text \<open>\<open>seek\<close> to an offset, then the operation.\<close>

definition va_seek_then ::
  "fd \<Rightarrow> u64 \<Rightarrow> (fs \<Rightarrow> (fs_error + 'r) \<times> fs) \<Rightarrow> 's vfs_state \<Rightarrow> (wasi_error + 'r) \<times> 's vfs_state" where
  "va_seek_then d off g v =
     (case va_local (\<lambda>f. seek f d (ucast off) 0) v of
        (Inl e, v) \<Rightarrow> (Inl e, v)
      | (Inr _, v) \<Rightarrow> va_local g v)"

definition va_stream_read ::
  "nat \<Rightarrow> ('s, fs) sync_env \<Rightarrow> env_lookup \<Rightarrow> u64 \<Rightarrow> va_input \<Rightarrow> 's vfs_state \<Rightarrow> (stream_error + bytes) \<times> va_input \<times> 's vfs_state" where
  "va_stream_read W X get len st v =
     (let v = (if vi_refreshed st then v else case vi_path st of Some p \<Rightarrow> va_on_read X get p v | None \<Rightarrow> v);
          st = st\<lparr>vi_refreshed := True\<rparr> in
      case va_seek_then (vi_fd st) (vi_offset st) (\<lambda>f. fs_read f (vi_fd st) (replicate (as_usize W len) 0)) v of
        (Inl e, v) \<Rightarrow> (Inl LastOperationFailed, st, v)
      | (Inr (n, buf), v) \<Rightarrow>
          if n = 0 \<and> len > 0 then (Inl Closed, st, v)
          else (Inr (take n buf), st\<lparr>vi_offset := vi_offset st + of_nat n\<rparr>, v))"

definition va_stream_skip :: "u64 \<Rightarrow> va_input \<Rightarrow> (stream_error + u64) \<times> va_input" where
  "va_stream_skip len st = (Inr len, st\<lparr>vi_offset := vi_offset st + len\<rparr>)"

definition va_stream_write :: "bytes \<Rightarrow> va_output \<Rightarrow> 's vfs_state \<Rightarrow> (stream_error + unit) \<times> va_output \<times> 's vfs_state" where
  "va_stream_write data st v =
     (case va_seek_then (vo_fd st) (vo_offset st) (\<lambda>f. fs_write f (vo_fd st) data) v of
        (Inl e, v) \<Rightarrow> (Inl LastOperationFailed, st, v)
      | (Inr n, v) \<Rightarrow> (Inr (), st\<lparr>vo_offset := vo_offset st + of_nat n, vo_dirty := True\<rparr>, v))"

definition va_stream_check_write :: "stream_error + u64" where
  "va_stream_check_write = Inr 4096"

definition va_stream_flush :: "stream_error + unit" where
  "va_stream_flush = Inr ()"

text \<open>\<open>blocking_write_and_flush\<close>, and the writes of zeroes.\<close>

definition va_write_and_flush :: "bytes \<Rightarrow> va_output \<Rightarrow> 's vfs_state \<Rightarrow> (stream_error + unit) \<times> va_output \<times> 's vfs_state" where
  "va_write_and_flush data st v =
     (case va_stream_write data st v of
        (Inl e, st, v) \<Rightarrow> (Inl e, st, v)
      | (Inr _, st, v) \<Rightarrow> (va_stream_flush, st, v))"

definition va_write_zeroes :: "nat \<Rightarrow> u64 \<Rightarrow> va_output \<Rightarrow> 's vfs_state \<Rightarrow> (stream_error + unit) \<times> va_output \<times> 's vfs_state" where
  "va_write_zeroes W len = va_stream_write (replicate (as_usize W len) 0)"

definition va_stream_splice :: "stream_error + u64" where
  "va_stream_splice = Inl Closed"

text \<open>\<open>Drop for VfsOutputStream\<close>.\<close>

definition va_drop_output :: "('s, fs) sync_env \<Rightarrow> va_output \<Rightarrow> 's vfs_state \<Rightarrow> 's vfs_state" where
  "va_drop_output X st v =
     (if vo_dirty st then (case vo_path st of Some p \<Rightarrow> va_on_write X p v | None \<Rightarrow> v) else v)"

section \<open>Operations of a descriptor\<close>

text \<open>A query of the local file system through the descriptor's number, or through a path.\<close>

definition va_query :: "(fs \<Rightarrow> fs_error + metadata) \<Rightarrow> (metadata \<Rightarrow> 'r) \<Rightarrow> 's vfs_state \<Rightarrow> wasi_error + 'r" where
  "va_query g answer v = map_sum to_error_code answer (g (va_fs v))"

definition va_fstat :: "(metadata \<Rightarrow> 'r) \<Rightarrow> vfs_descriptor \<Rightarrow> 's vfs_state \<Rightarrow> wasi_error + 'r" where
  "va_fstat answer self v =
     (case va_get_fd (vd_handle self) v of
        Inl e \<Rightarrow> Inl e
      | Inr d \<Rightarrow> va_query (\<lambda>f. fstat f d) answer v)"

definition va_stat_answer :: "metadata \<Rightarrow> descriptor_stat" where
  "va_stat_answer md = va_make_stat (type_of_dir (is_dir md)) md"

definition va_hash_answer :: "metadata \<Rightarrow> u64 \<times> u64" where
  "va_hash_answer md = (md_size md, modified md)"

definition va_advise :: "wasi_error + unit" where
  "va_advise = Inr ()"

definition va_sync_data :: "('s, fs) sync_env \<Rightarrow> vfs_descriptor \<Rightarrow> 's vfs_state \<Rightarrow> (wasi_error + unit) \<times> 's vfs_state" where
  "va_sync_data X self v = va_fsync X self v"

definition va_get_flags :: "wasi_error + descriptor_flag set" where
  "va_get_flags = Inr {DfRead, DfWrite}"

definition va_get_type :: "vfs_descriptor \<Rightarrow> 's vfs_state \<Rightarrow> wasi_error + descriptor_type" where
  "va_get_type self v =
     (if vd_handle self = 0 then Inr DtDirectory else va_fstat (\<lambda>md. type_of_dir (is_dir md)) self v)"

definition va_set_size :: "vfs_descriptor \<Rightarrow> u64 \<Rightarrow> 's vfs_state \<Rightarrow> (wasi_error + unit) \<times> 's vfs_state" where
  "va_set_size self sz v =
     (case va_get_fd (vd_handle self) v of
        Inl e \<Rightarrow> (Inl e, v)
      | Inr d \<Rightarrow>
          (case va_local (\<lambda>f. ftruncate f d sz) v of
             (Inl e, v) \<Rightarrow> (Inl e, v)
           | (Inr _, v) \<Rightarrow> (Inr (), mark_dirty (vd_handle self) v)))"

definition va_set_times :: "wasi_error + unit" where
  "va_set_times = Inl WUnsupported"

definition va_read ::
  "nat \<Rightarrow> ('s, fs) sync_env \<Rightarrow> env_lookup \<Rightarrow> vfs_descriptor \<Rightarrow> u64 \<Rightarrow> u64 \<Rightarrow> 's vfs_state \<Rightarrow>
   (wasi_error + bytes \<times> bool) \<times> 's vfs_state" where
  "va_read W X get self len off v =
     (case va_get_fd (vd_handle self) v of
        Inl e \<Rightarrow> (Inl e, v)
      | Inr d \<Rightarrow>
          let v = (case va_descriptor_to_path v (vd_handle self) of Some p \<Rightarrow> va_on_read X get p v | None \<Rightarrow> v) in
          (case va_seek_then d off (\<lambda>f. fs_read f d (replicate (as_usize W len) 0)) v of
             (Inl e, v) \<Rightarrow> (Inl e, v)
           | (Inr (n, buf), v) \<Rightarrow> (Inr (take n buf, n < as_usize W len), v)))"

definition va_write :: "vfs_descriptor \<Rightarrow> bytes \<Rightarrow> u64 \<Rightarrow> 's vfs_state \<Rightarrow> (wasi_error + u64) \<times> 's vfs_state" where
  "va_write self buffer off v =
     (case va_get_fd (vd_handle self) v of
        Inl e \<Rightarrow> (Inl e, v)
      | Inr d \<Rightarrow>
          (case va_seek_then d off (\<lambda>f. fs_write f d buffer) v of
             (Inl e, v) \<Rightarrow> (Inl e, v)
           | (Inr n, v) \<Rightarrow> (Inr (of_nat n), mark_dirty (vd_handle self) v)))"

definition va_sync_op :: "('s, fs) sync_env \<Rightarrow> vfs_descriptor \<Rightarrow> 's vfs_state \<Rightarrow> (wasi_error + unit) \<times> 's vfs_state" where
  "va_sync_op X self v = va_fsync X self v"

definition va_stat :: "vfs_descriptor \<Rightarrow> 's vfs_state \<Rightarrow> wasi_error + descriptor_stat" where
  "va_stat self v =
     (if vd_handle self = 0 then va_query (\<lambda>f. stat f ''/'') (va_make_stat DtDirectory) v
      else va_fstat va_stat_answer self v)"

definition va_stat_at :: "vfs_descriptor \<Rightarrow> string \<Rightarrow> 's vfs_state \<Rightarrow> wasi_error + descriptor_stat" where
  "va_stat_at self path v = va_query (\<lambda>f. stat f (join_at_path (vd_path self) path)) va_stat_answer v"

definition va_set_times_at :: "wasi_error + unit" where
  "va_set_times_at = Inl WUnsupported"

definition va_link_at :: "wasi_error + unit" where
  "va_link_at = Inl WUnsupported"

definition va_readlink_at :: "wasi_error + string" where
  "va_readlink_at = Inl WUnsupported"

definition va_symlink_at :: "wasi_error + unit" where
  "va_symlink_at = Inl WUnsupported"

definition va_is_same_object :: "vfs_descriptor \<Rightarrow> vfs_descriptor \<Rightarrow> bool" where
  "va_is_same_object self other \<longleftrightarrow> vd_handle self = vd_handle other"

definition va_metadata_hash :: "vfs_descriptor \<Rightarrow> 's vfs_state \<Rightarrow> wasi_error + u64 \<times> u64" where
  "va_metadata_hash self v = va_fstat va_hash_answer self v"

definition va_metadata_hash_at :: "vfs_descriptor \<Rightarrow> string \<Rightarrow> 's vfs_state \<Rightarrow> wasi_error + u64 \<times> u64" where
  "va_metadata_hash_at self path v = va_query (\<lambda>f. stat f (join_at_path (vd_path self) path)) va_hash_answer v"

section \<open>Directories and paths\<close>

record va_dir_stream =
  vds_entries :: "(string \<times> bool) list"
  vds_index :: nat

text \<open>The root has no descriptor of the file system: its entries are read by path, each with a \<open>stat\<close>.\<close>

definition va_read_directory :: "vfs_descriptor \<Rightarrow> 's vfs_state \<Rightarrow> wasi_error + va_dir_stream" where
  "va_read_directory self v =
     (if vd_handle self = 0 then
        (case readdir (va_fs v) ''/'' of
           Inl e \<Rightarrow> Inl (to_error_code e)
         | Inr names \<Rightarrow>
             Inr \<lparr>vds_entries =
                    map (\<lambda>name. (name, case stat (va_fs v) (CHR ''/'' # name) of Inr md \<Rightarrow> is_dir md | Inl _ \<Rightarrow> False)) names,
                  vds_index = 0\<rparr>)
      else
        (case va_get_fd (vd_handle self) v of
           Inl e \<Rightarrow> Inl e
         | Inr d \<Rightarrow>
             (case readdir_fd (va_fs v) d of
                Inl e \<Rightarrow> Inl (to_error_code e)
              | Inr es \<Rightarrow> Inr \<lparr>vds_entries = es, vds_index = 0\<rparr>)))"

definition va_read_entry :: "va_dir_stream \<Rightarrow> (wasi_error + (descriptor_type \<times> string) option) \<times> va_dir_stream" where
  "va_read_entry st =
     (if vds_index st \<ge> length (vds_entries st) then (Inr None, st)
      else
        (case vds_entries st ! vds_index st of
           (name, d) \<Rightarrow> (Inr (Some (type_of_dir d, name)), st\<lparr>vds_index := vds_index st + 1\<rparr>)))"

text \<open>A local call on the path, then its hook.\<close>

definition va_path_then ::
  "(fs \<Rightarrow> (fs_error + unit) \<times> fs) \<Rightarrow> ('s vfs_state \<Rightarrow> 's vfs_state) \<Rightarrow> 's vfs_state \<Rightarrow> (wasi_error + unit) \<times> 's vfs_state" where
  "va_path_then g hook v =
     (case va_local g v of
        (Inl e, v) \<Rightarrow> (Inl e, v)
      | (Inr _, v) \<Rightarrow> (Inr (), hook v))"

definition va_create_directory_at ::
  "('s, fs) sync_env \<Rightarrow> vfs_descriptor \<Rightarrow> string \<Rightarrow> 's vfs_state \<Rightarrow> (wasi_error + unit) \<times> 's vfs_state" where
  "va_create_directory_at X self path =
     (let full = join_at_path (vd_path self) path in va_path_then (\<lambda>f. mkdir f full) (va_on_mkdir X full))"

definition va_remove_directory_at ::
  "('s, fs) sync_env \<Rightarrow> vfs_descriptor \<Rightarrow> string \<Rightarrow> 's vfs_state \<Rightarrow> (wasi_error + unit) \<times> 's vfs_state" where
  "va_remove_directory_at X self path =
     (let full = join_at_path (vd_path self) path in va_path_then (\<lambda>f. rmdir f full) (va_on_rmdir X full))"

definition va_unlink_file_at ::
  "('s, fs) sync_env \<Rightarrow> vfs_descriptor \<Rightarrow> string \<Rightarrow> 's vfs_state \<Rightarrow> (wasi_error + unit) \<times> 's vfs_state" where
  "va_unlink_file_at X self path =
     (let full = join_at_path (vd_path self) path in va_path_then (\<lambda>f. unlink f full) (va_on_delete X full))"

definition va_rename_at ::
  "vfs_descriptor \<Rightarrow> string \<Rightarrow> vfs_descriptor \<Rightarrow> string \<Rightarrow> 's vfs_state \<Rightarrow> (wasi_error + unit) \<times> 's vfs_state" where
  "va_rename_at self old_path new_descriptor new_path =
     va_local (\<lambda>f. rename f (join_at_path (vd_path self) old_path) (join_at_path (vd_path new_descriptor) new_path))"

text \<open>The open hook runs before the local open; a failed local open leaves what the hook did. A descriptor
  that reopens its own directory has no path in the tables. \<open>None\<close> is a loop of the lease that took more
  than \<open>fuel\<close> rounds.\<close>

definition va_open_at ::
  "nat \<Rightarrow> ('s, fs) sync_env \<Rightarrow> env_lookup \<Rightarrow> vfs_descriptor \<Rightarrow> string \<Rightarrow> open_flag set \<Rightarrow> descriptor_flag set \<Rightarrow>
   's vfs_state \<Rightarrow> ((wasi_error + vfs_descriptor) \<times> 's vfs_state) option" where
  "va_open_at fuel X get self path ofs dfs v =
     (if path = [] \<or> path = ''.'' \<or> (vd_handle self = 0 \<and> path = ''/'') then
        Some (case va_local (\<lambda>f. open_path_with_flags f (vd_path self) O_RDONLY) v of
                (Inl e, v) \<Rightarrow> (Inl e, v)
              | (Inr d, v) \<Rightarrow>
                  (case va_allocate_descriptor d v of
                     (handle, v) \<Rightarrow> (Inr \<lparr>vd_handle = handle, vd_path = vd_path self, vd_flags = O_RDONLY\<rparr>, v)))
      else
        let core_flags = va_convert_flags ofs dfs;
            full = join_at_path (vd_path self) path in
        (case va_on_open fuel X get full core_flags v of
           None \<Rightarrow> None
         | Some (Inl e, v) \<Rightarrow> Some (Inl e, v)
         | Some (Inr _, v) \<Rightarrow>
             Some (case va_local (\<lambda>f. open_path_with_flags f full core_flags) v of
                     (Inl e, v) \<Rightarrow> (Inl e, v)
                   | (Inr d, v) \<Rightarrow>
                       (case va_allocate_with_path d full v of
                          (handle, v) \<Rightarrow> (Inr \<lparr>vd_handle = handle, vd_path = full, vd_flags = core_flags\<rparr>, v)))))"

section \<open>Polling\<close>

text \<open>\<open>poll\<close>: entries of the adapter are ready at once; only when all are of the host is the wait delegated
  to it. \<open>host_poll\<close> and \<open>host_ready\<close> are the host's.\<close>

definition va_ready :: "('p \<Rightarrow> bool) \<Rightarrow> 'p pollable \<Rightarrow> bool" where
  "va_ready host_ready p = (case p of AlwaysReady \<Rightarrow> True | Passthrough q \<Rightarrow> host_ready q)"

definition va_poll :: "('p list \<Rightarrow> nat list) \<Rightarrow> ('p \<Rightarrow> bool) \<Rightarrow> 'p pollable list \<Rightarrow> nat list" where
  "va_poll host_poll host_ready ps =
     (let numbered = zip [0 ..< length ps] ps;
          ready = map fst (filter (\<lambda>(i, p). case p of AlwaysReady \<Rightarrow> True | Passthrough _ \<Rightarrow> False) numbered);
          host = List.map_filter (\<lambda>(i, p). case p of AlwaysReady \<Rightarrow> None | Passthrough h \<Rightarrow> Some (i, h)) numbered in
      if ready = [] \<and> host \<noteq> [] then map (\<lambda>j. fst (host ! j)) (host_poll (map snd host))
      else ready @ map fst (filter (\<lambda>(i, h). host_ready h) host))"

end
