(* ===== verification/Vfs_Adapter_Inv.thy ===== *)
theory Vfs_Adapter_Inv
  imports Vfs_Adapter Vfs_Host_Inv
begin

text \<open>
  The adapter over all its calls: the descriptors that are alive, and the invariant that those open for
  writing are backed by a lease. Calls that are neither an open nor a drop of a descriptor keep the counts
  of the leases (\<open>calm_managers\<close>, theory \<open>Vfs_Host_Inv\<close>); the opens and drops go through the contract
  \<open>lease_holds\<close>.
\<close>

section \<open>Calls\<close>

text \<open>Streams are values of the application's resource table; the calls take them as they are. The calls that
  only look leave the state as it is, by definition. \<open>W\<close> is the width of \<open>usize\<close>.\<close>

datatype va_call =
    VcOpenAt vfs_descriptor string "open_flag set" "descriptor_flag set" | VcDrop vfs_descriptor
  | VcAppendViaStream vfs_descriptor | VcStreamRead u64 va_input | VcStreamWrite bytes va_output
  | VcWriteZeroes u64 va_output | VcDropOutput va_output
  | VcRead vfs_descriptor u64 u64 | VcWrite vfs_descriptor bytes u64 | VcSync vfs_descriptor | VcSetSize vfs_descriptor u64
  | VcCreateDirectory vfs_descriptor string | VcRemoveDirectory vfs_descriptor string | VcUnlink vfs_descriptor string
  | VcRename vfs_descriptor string vfs_descriptor string
  | VcOtherClients

text \<open>The adapter with its live descriptors. Descriptors are dropped once; a call may be given any descriptor.
  A handle is a counter of 32 bits: an open whose handle would wrap around is no step.\<close>

record 's va_instance =
  ai_state :: "'s vfs_state"
  ai_live :: "vfs_descriptor set"

fun va_other ::
  "nat \<Rightarrow> ('s, fs) sync_env \<Rightarrow> env_lookup \<Rightarrow> ('s \<Rightarrow> 's) \<Rightarrow> va_call \<Rightarrow> 's vfs_state \<Rightarrow> 's vfs_state" where
  "va_other W X get g (VcAppendViaStream d) v = snd (va_append_via_stream d v)"
| "va_other W X get g (VcStreamRead len st) v = snd (snd (va_stream_read W X get len st v))"
| "va_other W X get g (VcStreamWrite data st) v = snd (snd (va_stream_write data st v))"
| "va_other W X get g (VcWriteZeroes len st) v = snd (snd (va_write_zeroes W len st v))"
| "va_other W X get g (VcDropOutput st) v = va_drop_output X st v"
| "va_other W X get g (VcRead d len off) v = snd (va_read W X get d len off v)"
| "va_other W X get g (VcWrite d data off) v = snd (va_write d data off v)"
| "va_other W X get g (VcSync d) v = snd (va_sync_op X d v)"
| "va_other W X get g (VcSetSize d sz) v = snd (va_set_size d sz v)"
| "va_other W X get g (VcCreateDirectory d p) v = snd (va_create_directory_at X d p v)"
| "va_other W X get g (VcRemoveDirectory d p) v = snd (va_remove_directory_at X d p v)"
| "va_other W X get g (VcUnlink d p) v = snd (va_unlink_file_at X d p v)"
| "va_other W X get g (VcRename d p d' p') v = snd (va_rename_at d p d' p' v)"
| "va_other W X get g VcOtherClients v =
     v\<lparr>va_manager := map_option (\<lambda>m. m\<lparr>m_store := g (m_store m)\<rparr>) (va_manager v)\<rparr>"
| "va_other W X get g c v = v"

definition va_exec ::
  "nat \<Rightarrow> nat \<Rightarrow> ('s, fs) sync_env \<Rightarrow> env_lookup \<Rightarrow> ('s \<Rightarrow> 's) \<Rightarrow> va_call \<Rightarrow> 's va_instance \<Rightarrow> 's va_instance option" where
  "va_exec n W X get g c a =
     (case c of
        VcOpenAt self path ofs dfs \<Rightarrow>
          if va_next_descriptor (ai_state a) = - 1 then None
          else
            (case va_open_at n X get self path ofs dfs (ai_state a) of
               None \<Rightarrow> None
             | Some (Inl e, v) \<Rightarrow> Some (a\<lparr>ai_state := v\<rparr>)
             | Some (Inr d, v) \<Rightarrow> Some (a\<lparr>ai_state := v, ai_live := insert d (ai_live a)\<rparr>))
      | VcDrop d \<Rightarrow>
          if d \<in> ai_live a
          then Some (a\<lparr>ai_state := va_drop_descriptor X d (ai_state a), ai_live := ai_live a - {d}\<rparr>) else None
      | _ \<Rightarrow> Some (a\<lparr>ai_state := va_other W X get g c (ai_state a)\<rparr>))"

text \<open>It starts with the root descriptor of \<open>get_directories\<close>.\<close>

definition va_start ::
  "('s, fs) sync_env \<Rightarrow> env_lookup \<Rightarrow> fs_snapshot option \<Rightarrow> u64 \<Rightarrow> 's \<Rightarrow> string \<Rightarrow> clk \<Rightarrow> 's va_instance" where
  "va_start X get snapshot t s inst k =
     \<lparr>ai_state = va_new X get snapshot t s inst k, ai_live = set (map fst va_get_directories)\<rparr>"

inductive va_reachable :: "('s, fs) sync_env \<Rightarrow> 's va_instance \<Rightarrow> bool" for X where
  va_started: "va_reachable X (va_start X get snapshot t s inst k)"
| va_step: "va_reachable X a \<Longrightarrow> va_exec n W X get g c a = Some a' \<Longrightarrow> va_reachable X a'"


section \<open>Calls that are neither an open nor a drop\<close>

definition va_quiet :: "'s vfs_state \<Rightarrow> 's vfs_state \<Rightarrow> bool" where
  "va_quiet v v' \<longleftrightarrow> va_descriptor_to_path v' = va_descriptor_to_path v \<and> va_next_descriptor v' = va_next_descriptor v \<and>
     calm_managers (va_manager v) (va_manager v')"

lemma va_quiet_refl [simp]: "va_quiet v v"
  by (simp add: va_quiet_def)

lemma va_quiet_trans: "va_quiet v1 v2 \<Longrightarrow> va_quiet v2 v3 \<Longrightarrow> va_quiet v1 v3"
  by (auto simp: va_quiet_def intro: calm_managers_trans)

lemma va_quiet_fields [simp]:
  "va_quiet v (v\<lparr>va_fs := f\<rparr>)" "va_quiet v (v\<lparr>dirty_descriptors := D\<rparr>)" "va_quiet v (mark_dirty d v)"
  by (simp_all add: va_quiet_def mark_dirty_def)

lemma va_quiet_local: "va_local g v = (r, v') \<Longrightarrow> va_quiet v v'"
  by (auto simp: va_local_def split: prod.splits)

lemma va_quiet_sync:
  assumes m: "va_manager v = Some m" and run: "va_sync g m v = (r, v')"
    and inv: "\<And>r m'. g (m\<lparr>m_fs := va_fs v\<rparr>) = (r, m') \<Longrightarrow> sm_inv (m\<lparr>m_fs := va_fs v\<rparr>) \<Longrightarrow> sm_inv m'"
    and hold: "\<And>r m'. g (m\<lparr>m_fs := va_fs v\<rparr>) = (r, m') \<Longrightarrow> same_holds (m\<lparr>m_fs := va_fs v\<rparr>) m'"
  shows "va_quiet v v'"
proof -
  obtain m' where g: "g (m\<lparr>m_fs := va_fs v\<rparr>) = (r, m')" "v' = v\<lparr>va_fs := m_fs m', va_manager := Some m'\<rparr>"
    using run by (auto simp: va_sync_def split: prod.splits)
  have "sm_inv m \<Longrightarrow> sm_inv (m\<lparr>m_fs := va_fs v\<rparr>)" using sm_inv_book [of m "m\<lparr>m_fs := va_fs v\<rparr>"] by simp
  moreover have "same_holds m m'" using hold [OF g(1)] by (simp add: same_holds_def)
  ultimately show ?thesis using inv [OF g(1)] g(2) m by (simp add: va_quiet_def calm_managers_def)
qed

lemma va_quiet_kept:
  assumes "va_manager v = Some m" and "va_sync g m v = (r, v')"
    and "\<And>r m'. g (m\<lparr>m_fs := va_fs v\<rparr>) = (r, m') \<Longrightarrow> holds_kept (m\<lparr>m_fs := va_fs v\<rparr>) m'"
  shows "va_quiet v v'"
  using assms(3) by (intro va_quiet_sync [OF assms(1,2)]) (auto dest: sm_inv_kept same_holds_kept)

lemma va_quiet_book:
  assumes "va_manager v = Some m" and "va_sync g m v = (r, v')"
    and "\<And>r m'. g (m\<lparr>m_fs := va_fs v\<rparr>) = (r, m') \<Longrightarrow> same_book (m\<lparr>m_fs := va_fs v\<rparr>) m'"
  shows "va_quiet v v'"
  using assms(3) by (intro va_quiet_kept [OF assms(1,2)]) (auto dest: same_book_kept)

text \<open>A queued operation, then the work that is due.\<close>

lemma va_quiet_tick:
  assumes m: "va_manager v = Some m" and run: "va_sync (\<lambda>m. maybe_sync X (q m)) m v = (r, v')"
    and inv: "\<And>m. sm_inv m \<Longrightarrow> sm_inv (q m)" and hold: "\<And>m. same_holds m (q m)"
  shows "va_quiet v v'"
proof (rule va_quiet_sync [OF m run])
  fix r m' assume t: "maybe_sync X (q (m\<lparr>m_fs := va_fs v\<rparr>)) = (r, m')"
  show "sm_inv m'" if "sm_inv (m\<lparr>m_fs := va_fs v\<rparr>)" using sm_inv_tick [OF inv [OF that] t] .
  show "same_holds (m\<lparr>m_fs := va_fs v\<rparr>) m'" by (rule same_holds_trans [OF hold same_holds_tick [OF t]])
qed

lemma va_quiet_hooks [simp]:
  "va_quiet v (va_on_write X p v)" "va_quiet v (va_on_delete X p v)" "va_quiet v (va_on_read X get p v)"
  "va_quiet v (snd (va_on_fsync X p fl v))" "va_quiet v (va_on_mkdir X p v)" "va_quiet v (va_on_rmdir X p v)"
proof -
  have now: "va_quiet v (snd (va_sync (sync_file_now X p) m v))" if "va_manager v = Some m" for m
    by (rule va_quiet_kept [OF that prod.collapse [symmetric]]) (rule holds_kept_sync_now)
  have tick: "va_quiet v (snd (va_sync (\<lambda>m. maybe_sync X (enqueue_upload p m)) m v))"
    "va_quiet v (snd (va_sync (\<lambda>m. maybe_sync X (enqueue_delete p m)) m v))" if "va_manager v = Some m" for m
    by (rule va_quiet_tick [OF that prod.collapse [symmetric]];
        simp add: sm_inv_enqueue_upload sm_inv_enqueue_delete same_holds_enqueue)+
  have book: "va_quiet v (snd (va_sync (refresh_file_from_s3 X p) m v))"
    "va_quiet v (snd (va_sync (on_mkdir X p) m v))" "va_quiet v (snd (va_sync (on_rmdir X p) m v))"
    if "va_manager v = Some m" for m
    by (rule va_quiet_book [OF that prod.collapse [symmetric]], erule same_book_refresh_file same_book_mkdir same_book_rmdir)+
  have fs: "va_quiet v (snd (va_sync (\<lambda>m. on_fsync X p (enqueue_upload p m)) m v))" if "va_manager v = Some m" for m
    by (rule va_quiet_sync [OF that prod.collapse [symmetric]])
       (auto dest: sm_inv_fsync [OF sm_inv_enqueue_upload] same_holds_fsync intro: same_holds_trans [OF same_holds_enqueue(1)])
  show "va_quiet v (va_on_write X p v)" "va_quiet v (va_on_delete X p v)" "va_quiet v (va_on_read X get p v)"
    "va_quiet v (va_on_mkdir X p v)" "va_quiet v (va_on_rmdir X p v)"
    by (auto simp: va_on_write_def va_on_delete_def va_on_read_def va_on_mkdir_def va_on_rmdir_def now tick book split: option.split)
  show "va_quiet v (snd (va_on_fsync X p fl v))"
    using fs by (auto simp: va_on_fsync_def split: option.split prod.split)
qed

lemma va_quiet_seek_then: "va_seek_then d off g v = (r, v') \<Longrightarrow> va_quiet v v'"
  by (auto simp: va_seek_then_def split: prod.splits sum.splits dest!: va_quiet_local intro: va_quiet_trans)

lemma va_quiet_path_then: "va_path_then g hook v = (r, v') \<Longrightarrow> (\<And>v. va_quiet v (hook v)) \<Longrightarrow> va_quiet v v'"
  by (auto simp: va_path_then_def split: prod.splits sum.splits dest!: va_quiet_local intro: va_quiet_trans)

lemma va_quiet_fsync: "va_quiet v (snd (va_fsync X d v))"
  by (auto simp: va_fsync_def split: option.split intro: va_quiet_trans [OF va_quiet_fields(2) va_quiet_hooks(4)])

lemma va_quiet_streams:
  "va_quiet v (snd (va_append_via_stream d v))" "va_quiet v (snd (snd (va_stream_write data st v)))"
  "va_quiet v (snd (snd (va_stream_read W X get len ist v)))" "va_quiet v (va_drop_output X st v)"
proof -
  show "va_quiet v (snd (va_append_via_stream d v))"
    by (auto simp: va_append_via_stream_def split: prod.splits sum.splits dest: va_quiet_local)
  show "va_quiet v (snd (snd (va_stream_write data st v)))"
    by (auto simp: va_stream_write_def split: prod.splits sum.splits dest: va_quiet_seek_then)
  show "va_quiet v (snd (snd (va_stream_read W X get len ist v)))"
    by (auto simp: va_stream_read_def Let_def split: prod.splits sum.splits if_splits option.splits
        dest!: va_quiet_seek_then intro: va_quiet_trans [OF va_quiet_hooks(3)])
  show "va_quiet v (va_drop_output X st v)" by (simp add: va_drop_output_def split: option.split)
qed

lemma va_quiet_calls:
  "va_quiet v (snd (va_read W X get d len off v))" "va_quiet v (snd (va_write d data off v))" "va_quiet v (snd (va_set_size d sz v))"
  "va_quiet v (snd (va_create_directory_at X d p v))" "va_quiet v (snd (va_remove_directory_at X d p v))"
  "va_quiet v (snd (va_unlink_file_at X d p v))" "va_quiet v (snd (va_rename_at d p d' p' v))"
proof -
  show "va_quiet v (snd (va_read W X get d len off v))"
    by (auto simp: va_read_def Let_def split: prod.splits sum.splits option.splits
        dest!: va_quiet_seek_then intro: va_quiet_trans [OF va_quiet_hooks(3)])
  show "va_quiet v (snd (va_write d data off v))"
    by (auto simp: va_write_def split: prod.splits sum.splits dest!: va_quiet_seek_then intro: va_quiet_trans)
  show "va_quiet v (snd (va_set_size d sz v))"
    by (auto simp: va_set_size_def split: prod.splits sum.splits dest!: va_quiet_local intro: va_quiet_trans)
  show "va_quiet v (snd (va_create_directory_at X d p v))" "va_quiet v (snd (va_remove_directory_at X d p v))"
    "va_quiet v (snd (va_unlink_file_at X d p v))"
    unfolding va_create_directory_at_def va_remove_directory_at_def va_unlink_file_at_def Let_def
    by (rule va_quiet_path_then [OF prod.collapse [symmetric]], simp)+
  show "va_quiet v (snd (va_rename_at d p d' p' v))"
    unfolding va_rename_at_def by (rule va_quiet_local [OF prod.collapse [symmetric]])
qed

lemma calm_store: "calm_managers m (map_option (\<lambda>m. m\<lparr>m_store := s m\<rparr>) m)"
  using sm_inv_book [of m0 "m0\<lparr>m_store := s m0\<rparr>" for m0]
  by (cases m) (auto simp: calm_managers_def same_holds_leases)

lemma va_quiet_other: "va_quiet v (va_other W X get g c v)"
proof (cases c)
  case VcOtherClients
  then show ?thesis using calm_store [of "va_manager v" "\<lambda>m. g (m_store m)"] by (simp add: va_quiet_def)
qed (simp_all add: va_sync_op_def va_write_zeroes_def va_quiet_fsync va_quiet_calls va_quiet_streams)

section \<open>Opening and dropping\<close>

definition va_writers :: "vfs_descriptor set \<Rightarrow> string \<Rightarrow> vfs_descriptor set" where
  "va_writers L p = {d \<in> L. vd_path d = p \<and> va_is_write (vd_flags d)}"

definition va_backed :: "('s, fs) sync_env \<Rightarrow> vfs_descriptor set \<Rightarrow> ('s, fs) sync_manager option \<Rightarrow> bool" where
  "va_backed X L s \<longleftrightarrow> (\<forall>m. s = Some m \<longrightarrow> sm_inv m \<and> (file_lock (config X) \<longrightarrow> lh.covered m (va_writers L)))"

definition va_registered :: "vfs_descriptor set \<Rightarrow> (u32 \<rightharpoonup> string) \<Rightarrow> u32 \<Rightarrow> bool" where
  "va_registered L paths next \<longleftrightarrow> 0 < next \<and> inj_on vd_handle {d \<in> L. vd_handle d \<noteq> 0} \<and>
     (\<forall>d \<in> L. vd_handle d < next \<and> (va_is_write (vd_flags d) \<longrightarrow> vd_handle d \<noteq> 0 \<and> paths (vd_handle d) = Some (vd_path d)))"

definition va_inv :: "('s, fs) sync_env \<Rightarrow> 's va_instance \<Rightarrow> bool" where
  "va_inv X a \<longleftrightarrow> va_backed X (ai_live a) (va_manager (ai_state a)) \<and>
     va_registered (ai_live a) (va_descriptor_to_path (ai_state a)) (va_next_descriptor (ai_state a))"

lemma va_backed_calm: "va_backed X L s \<Longrightarrow> calm_managers s s' \<Longrightarrow> va_backed X L s'"
  using lh.covered_others by (auto simp: va_backed_def calm_managers_def option_rel_Some2) blast

lemma va_inv_quiet: "va_inv X a \<Longrightarrow> va_quiet (ai_state a) v \<Longrightarrow> va_inv X (a\<lparr>ai_state := v\<rparr>)"
  by (auto simp: va_inv_def va_quiet_def intro: va_backed_calm)

lemma va_backed_mono: "va_backed X L s \<Longrightarrow> (\<And>p. va_writers L' p \<subseteq> va_writers L p) \<Longrightarrow> va_backed X L' s"
  by (auto simp: va_backed_def intro: lh.covered_mono)

lemma va_registered_insert:
  assumes r: "va_registered L paths next" and nx: "next \<noteq> - 1" and h: "vd_handle d = next"
    and p: "va_is_write (vd_flags d) \<longrightarrow> paths' next = Some (vd_path d)" and eq: "\<And>k. k \<noteq> next \<Longrightarrow> paths' k = paths k"
  shows "va_registered (insert d L) paths' (next + 1)"
proof -
  have "1 + next \<noteq> 0" using nx by (simp add: eq_neg_iff_add_eq_0 add.commute)
  then have up: "next < next + 1" by (simp add: word_less_nat_alt unatSuc add.commute [of "next"])
  have "vd_handle e < next + 1" if "e \<in> L" for e using r that up by (auto simp: va_registered_def intro: less_trans)
  moreover have "inj_on vd_handle {e \<in> insert d L. vd_handle e \<noteq> 0}"
    using r h by (auto simp: va_registered_def inj_on_def)
  moreover have "paths' (vd_handle e) = paths (vd_handle e)" if "e \<in> L" for e
    using r that by (intro eq) (auto simp: va_registered_def)
  moreover have "0 < next + 1" using r up by (auto simp: va_registered_def intro: less_trans)
  ultimately show ?thesis using r h p up by (auto simp: va_registered_def)
qed

text \<open>The hook of an open: its lease may back one more descriptor.\<close>

lemma va_on_open_inv:
  assumes b: "va_backed X L (va_manager v)" and run: "va_on_open n X get p fl v = Some (r, v')"
  shows "va_descriptor_to_path v' = va_descriptor_to_path v \<and> va_next_descriptor v' = va_next_descriptor v \<and>
    va_backed X L (va_manager v') \<and>
    (is_ok r \<longrightarrow> vd_path d = p \<longrightarrow> vd_flags d = fl \<longrightarrow> va_backed X (insert d L) (va_manager v'))"
proof -
  have more: "va_writers (insert d L) q \<subseteq> va_writers L q" if "vd_path d \<noteq> q \<or> \<not> va_is_write (vd_flags d)" for q
    using that by (auto simp: va_writers_def)
  show ?thesis
  proof (cases "\<exists>m. va_manager v = Some m \<and> file_lock (config X) \<and> va_is_write fl")
    case True
    then obtain m where m: "va_manager v = Some m" "file_lock (config X)" "va_is_write fl" by blast
    let ?m = "m\<lparr>m_fs := va_fs v\<rparr>"
    obtain r1 m1 where o: "on_open_write n X p ?m = Some (r1, m1)" "r = map_err va_map_sync_error r1"
        "v' = v\<lparr>va_fs := m_fs m1, va_manager := Some m1\<rparr>"
      using run m by (auto simp: va_on_open_def split: option.splits)
    have i: "sm_inv m1" using sm_inv_open_write [OF _ o(1)] sm_inv_book [of m ?m] b m(1) by (simp add: va_backed_def)
    have l: "lease_open n X p ?m = Some (is_ok r1, m1)" using o(1) m(2) by (simp add: lease_open_def)
    have cov: "lh.covered ?m (va_writers L)" using b m by (simp add: va_backed_def lh.covered_def)
    have ok: "is_ok r = is_ok r1" using o(2) by (cases r1) auto
    have "lh.covered m1 (va_writers (insert d L))" if "is_ok r" "vd_path d = p"
    proof (rule lh.covered_opened [OF cov])
      show "lease_open n X p ?m = Some (True, m1)" using l ok that by simp
      show "q \<noteq> p \<Longrightarrow> va_writers (insert d L) q \<subseteq> va_writers L q" for q using more that by simp
      show "va_writers (insert d L) p \<subseteq> insert d (va_writers L p)" by (auto simp: va_writers_def)
    qed
    then show ?thesis using i lh.covered_opens [OF cov l] o(3) by (simp add: va_backed_def)
  next
    case False
    have q: "va_quiet v v'"
    proof (cases "va_manager v")
      case (Some m)
      have "va_quiet v (snd (va_sync (check_and_refresh_from_s3 X p) m v))"
        by (rule va_quiet_book [OF Some prod.collapse [symmetric]], erule same_book_check)
      then show ?thesis using run False Some by (auto simp: va_on_open_def split: if_splits)
    qed (use run in \<open>simp add: va_on_open_def\<close>)
    then have k: "va_backed X L (va_manager v')" using b va_backed_calm by (auto simp: va_quiet_def)
    have "va_backed X (insert d L) (va_manager v')" if "vd_flags d = fl"
    proof (cases "va_is_write fl")
      case True
      then show ?thesis using False k run by (auto simp: va_backed_def va_on_open_def split: option.splits)
    next
      case False
      then show ?thesis using more that by (intro va_backed_mono [OF k]) simp
    qed
    then show ?thesis using q k by (auto simp: va_quiet_def)
  qed
qed

lemma va_on_close_inv:
  assumes b: "va_backed X L (va_manager v)" and d: "d \<in> L"
  shows "va_descriptor_to_path (snd (va_on_close X (vd_path d) (vd_flags d) v)) = va_descriptor_to_path v \<and>
    va_next_descriptor (snd (va_on_close X (vd_path d) (vd_flags d) v)) = va_next_descriptor v \<and>
    va_backed X (L - {d}) (va_manager (snd (va_on_close X (vd_path d) (vd_flags d) v)))"
proof -
  have less: "va_backed X (L - {d}) (va_manager v)" by (rule va_backed_mono [OF b]) (auto simp: va_writers_def)
  show ?thesis
  proof (cases "\<exists>m. va_manager v = Some m \<and> file_lock (config X) \<and> va_is_write (vd_flags d)")
    case True
    then obtain m where m: "va_manager v = Some m" "file_lock (config X)" "va_is_write (vd_flags d)" by blast
    let ?m = "m\<lparr>m_fs := va_fs v\<rparr>" and ?p = "vd_path d"
    obtain y m1 where c: "on_close X ?p ?m = (y, m1)" by fastforce
    have v': "snd (va_on_close X ?p (vd_flags d) v) = v\<lparr>va_fs := m_fs m1, va_manager := Some m1\<rparr>"
      using m c by (simp add: va_on_close_def va_sync_def)
    have cov: "lh.covered ?m (va_writers L)" using b m by (simp add: va_backed_def lh.covered_def)
    have "lh.covered (snd (on_close X ?p ?m)) (va_writers (L - {d}))"
      by (rule lh.covered_closed [OF cov, of d]) (use d m in \<open>auto simp: va_writers_def\<close>)
    moreover have "sm_inv m1" using sm_inv_close [OF _ c] sm_inv_book [of m ?m] b m(1) by (simp add: va_backed_def)
    ultimately show ?thesis using v' c by (simp add: va_backed_def)
  next
    case False
    then have "snd (va_on_close X (vd_path d) (vd_flags d) v) = v" by (auto simp: va_on_close_def split: option.split)
    then show ?thesis using less by simp
  qed
qed

lemma va_allocate_fields:
  "va_allocate_descriptor d v = (handle, v') \<Longrightarrow> handle = va_next_descriptor v \<and>
    va_next_descriptor v' = va_next_descriptor v + 1 \<and> va_descriptor_to_path v' = va_descriptor_to_path v \<and> va_manager v' = va_manager v"
  "va_allocate_with_path d p v = (handle, v') \<Longrightarrow> handle = va_next_descriptor v \<and>
    va_next_descriptor v' = va_next_descriptor v + 1 \<and>
    va_descriptor_to_path v' = (va_descriptor_to_path v)(handle \<mapsto> p) \<and> va_manager v' = va_manager v"
  by (auto simp: va_allocate_with_path_def va_allocate_descriptor_def Let_def)

lemma va_open_at_inv:
  assumes i: "va_inv X a" and nx: "va_next_descriptor (ai_state a) \<noteq> - 1"
    and run: "va_open_at n X get self path ofs dfs (ai_state a) = Some (r, v')"
  shows "va_inv X (a\<lparr>ai_state := v', ai_live := (case r of Inl e \<Rightarrow> ai_live a | Inr d \<Rightarrow> insert d (ai_live a))\<rparr>)"
proof -
  let ?v = "ai_state a" and ?L = "ai_live a"
  have b: "va_backed X ?L (va_manager ?v)" "va_registered ?L (va_descriptor_to_path ?v) (va_next_descriptor ?v)"
    using i by (simp_all add: va_inv_def)
  show ?thesis
  proof (cases "path = [] \<or> path = ''.'' \<or> (vd_handle self = 0 \<and> path = ''/'')")
    case True
    obtain q v1 where l: "va_local (\<lambda>f. open_path_with_flags f (vd_path self) O_RDONLY) ?v = (q, v1)" by fastforce
    note k1 = va_quiet_local [OF l]
    show ?thesis
    proof (cases q)
      case (Inl e)
      then show ?thesis using run True l va_inv_quiet [OF i k1] by (auto simp: va_open_at_def)
    next
      case (Inr fd)
      obtain handle v2 where al: "va_allocate_descriptor fd v1 = (handle, v2)" by fastforce
      let ?d = "\<lparr>vd_handle = handle, vd_path = vd_path self, vd_flags = O_RDONLY\<rparr>"
      have r: "r = Inr ?d" "v' = v2" using run True l Inr al by (auto simp: va_open_at_def)
      note al' = va_allocate_fields(1) [OF al]
      have w: "\<not> va_is_write (vd_flags ?d)" by (simp add: va_is_write_def O_RDONLY_def)
      have "va_backed X ?L (va_manager v2)" using b(1) va_backed_calm k1 al' by (auto simp: va_quiet_def)
      then have "va_backed X (insert ?d ?L) (va_manager v2)"
        by (rule va_backed_mono) (use w in \<open>auto simp: va_writers_def\<close>)
      moreover have "va_registered (insert ?d ?L) (va_descriptor_to_path v2) (va_next_descriptor ?v + 1)"
        by (rule va_registered_insert [OF b(2) nx]) (use w k1 al' in \<open>auto simp: va_quiet_def\<close>)
      ultimately show ?thesis using r k1 al' by (simp add: va_inv_def va_quiet_def)
    qed
  next
    case False
    define fl full where "fl = va_convert_flags ofs dfs" and "full = join_at_path (vd_path self) path"
    obtain e v1 where o: "va_on_open n X get full fl ?v = Some (e, v1)"
      using run False by (auto simp: va_open_at_def fl_def full_def Let_def split: option.splits)
    note h = va_on_open_inv [OF b(1) o]
    show ?thesis
    proof (cases "is_ok e")
      case False': False
      then obtain y where "e = Inl y" by (cases e) auto
      then show ?thesis using run False o h b(2) by (auto simp: va_open_at_def fl_def full_def Let_def va_inv_def)
    next
      case True
      then obtain y where e: "e = Inr y" by (cases e) auto
      obtain q v2 where l: "va_local (\<lambda>f. open_path_with_flags f full fl) v1 = (q, v2)" by fastforce
      note k2 = va_quiet_local [OF l]
      have m2: "va_manager v2 = va_manager v1" using l by (auto simp: va_local_def split: prod.splits)
      show ?thesis
      proof (cases q)
        case (Inl x)
        then show ?thesis using run False o e l h b(2) k2 m2
          by (auto simp: va_open_at_def fl_def full_def Let_def va_inv_def va_quiet_def)
      next
        case (Inr fd)
        obtain handle v3 where al: "va_allocate_with_path fd full v2 = (handle, v3)" by fastforce
        let ?d = "\<lparr>vd_handle = handle, vd_path = full, vd_flags = fl\<rparr>"
        have r: "r = Inr ?d" "v' = v3"
          using run False o e l Inr al by (auto simp: va_open_at_def fl_def full_def Let_def)
        note al' = va_allocate_fields(2) [OF al]
        have "va_backed X (insert ?d ?L) (va_manager v3)" using va_on_open_inv [OF b(1) o, of ?d] True al' m2 by simp
        moreover have "va_registered (insert ?d ?L) (va_descriptor_to_path v3) (va_next_descriptor ?v + 1)"
          by (rule va_registered_insert [OF b(2) nx]) (use h k2 al' in \<open>auto simp: va_quiet_def\<close>)
        ultimately show ?thesis using r h k2 al' by (simp add: va_inv_def va_quiet_def)
      qed
    qed
  qed
qed

lemma va_drop_inv:
  assumes i: "va_inv X a" and d: "d \<in> ai_live a"
  shows "va_inv X (a\<lparr>ai_state := va_drop_descriptor X d (ai_state a), ai_live := ai_live a - {d}\<rparr>)"
proof -
  let ?v = "ai_state a" and ?L = "ai_live a" and ?k = "vd_handle d"
  have b: "va_backed X ?L (va_manager ?v)" "va_registered ?L (va_descriptor_to_path ?v) (va_next_descriptor ?v)"
    using i by (simp_all add: va_inv_def)
  have less: "va_backed X (?L - {d}) s" if "va_backed X ?L s" "\<not> va_is_write (vd_flags d)" for s
    by (rule va_backed_mono [OF that(1)]) (auto simp: va_writers_def)
  have reg: "va_registered (?L - {d}) paths (va_next_descriptor ?v)"
    if "\<And>k. k \<noteq> ?k \<Longrightarrow> paths k = va_descriptor_to_path ?v k" for paths
  proof -
    have "paths (vd_handle e) = va_descriptor_to_path ?v (vd_handle e)"
      if "e \<in> ?L" "e \<noteq> d" "va_is_write (vd_flags e)" for e
      using b(2) d that by (intro \<open>\<And>k. k \<noteq> ?k \<Longrightarrow> paths k = va_descriptor_to_path ?v k\<close>) (auto simp: va_registered_def inj_on_def)
    then show ?thesis using b(2) by (auto simp: va_registered_def inj_on_def)
  qed
  show ?thesis
  proof (cases "?k = 0")
    case True
    then have "\<not> va_is_write (vd_flags d)" using b(2) d by (auto simp: va_registered_def)
    then show ?thesis using True less [OF b(1)] reg by (simp add: va_drop_descriptor_def va_inv_def)
  next
    case False
    define v1 where "v1 = ?v\<lparr>dirty_descriptors := dirty_descriptors ?v - {?k}\<rparr>"
    define v2 where "v2 = (case va_descriptor_to_fd v1 ?k of Some fd \<Rightarrow> snd (va_local (\<lambda>f. fs_close f fd) v1) | None \<Rightarrow> v1)"
    define v3 where "v3 = va_release_descriptor ?k v2"
    have "va_quiet v1 v2" by (auto simp: v2_def split: option.split intro: va_quiet_local [OF prod.collapse [symmetric]])
    then have "va_quiet ?v v2" unfolding v1_def by (rule va_quiet_trans [OF va_quiet_fields(2)])
    then have v3: "va_backed X ?L (va_manager v3)" "va_next_descriptor v3 = va_next_descriptor ?v"
      "va_descriptor_to_path v3 = (va_descriptor_to_path ?v)(?k := None)"
      using va_backed_calm [OF b(1)] by (auto simp: va_quiet_def v3_def va_release_descriptor_def Let_def split: option.split)
    show ?thesis
    proof (cases "va_descriptor_to_path ?v ?k")
      case None
      then have "\<not> va_is_write (vd_flags d)" using b(2) d by (auto simp: va_registered_def)
      moreover have "va_drop_descriptor X d ?v = v3"
        using False None unfolding va_drop_descriptor_def v3_def v2_def v1_def Let_def by simp
      ultimately show ?thesis using less [OF v3(1)] reg [of "va_descriptor_to_path v3"] v3 by (simp add: va_inv_def)
    next
      case (Some p)
      define v4 where "v4 = (if ?k \<in> dirty_descriptors ?v then va_on_write X p v3 else v3)"
      have "va_quiet v3 v4" by (simp add: v4_def)
      then have v4: "va_backed X ?L (va_manager v4)" "va_next_descriptor v4 = va_next_descriptor ?v"
        "va_descriptor_to_path v4 = (va_descriptor_to_path ?v)(?k := None)"
        using va_backed_calm [OF v3(1)] v3 by (auto simp: va_quiet_def)
      have run: "va_drop_descriptor X d ?v = snd (va_on_close X p (vd_flags d) v4)"
        using False Some unfolding va_drop_descriptor_def v4_def v3_def v2_def v1_def Let_def by simp
      show ?thesis
      proof (cases "va_is_write (vd_flags d)")
        case True
        then have p: "p = vd_path d" using b(2) d Some by (auto simp: va_registered_def)
        show ?thesis
          using run va_on_close_inv [OF v4(1) d] reg [of "(va_descriptor_to_path ?v)(?k := None)"] v4 p by (simp add: va_inv_def)
      next
        case False
        then have "va_drop_descriptor X d ?v = v4" using run by (simp add: va_on_close_def)
        then show ?thesis
          using less [OF v4(1) False] reg [of "(va_descriptor_to_path ?v)(?k := None)"] v4 by (simp add: va_inv_def)
      qed
    qed
  qed
qed

lemma va_exec_inv:
  assumes i: "va_inv X a" and run: "va_exec n W X get g c a = Some a'"
  shows "va_inv X a'"
proof -
  have q: ?thesis if "a' = a\<lparr>ai_state := va_other W X get g c (ai_state a)\<rparr>"
    using va_inv_quiet [OF i va_quiet_other] that by simp
  show ?thesis
  proof (cases c)
    case (VcOpenAt self path ofs dfs)
    obtain r v' where r: "va_next_descriptor (ai_state a) \<noteq> - 1" "va_open_at n X get self path ofs dfs (ai_state a) = Some (r, v')"
      using run VcOpenAt by (auto simp: va_exec_def split: if_splits option.splits)
    have "a' = a\<lparr>ai_state := v', ai_live := (case r of Inl e \<Rightarrow> ai_live a | Inr d \<Rightarrow> insert d (ai_live a))\<rparr>"
      using run VcOpenAt r by (cases r) (auto simp: va_exec_def)
    then show ?thesis using va_open_at_inv [OF i r] by simp
  next
    case (VcDrop d)
    then show ?thesis using run va_drop_inv [OF i, of d] by (auto simp: va_exec_def split: if_splits)
  qed (rule q; use run in \<open>simp add: va_exec_def\<close>)+
qed

lemma va_inv_start: "va_inv X (va_start X get snapshot t s inst k)"
proof -
  let ?L = "{\<lparr>vd_handle = 0, vd_path = ''/'', vd_flags = O_RDONLY\<rparr>}"
  have none: "va_writers ?L p = {}" for p
    by (auto simp: va_writers_def va_is_write_def O_RDONLY_def)
  have "va_backed X ?L (init_s3_sync X get s inst k f)" for f
    by (auto simp: va_backed_def init_s3_sync_def lh.covered_def none sm_inv_new split: option.splits if_splits)
  moreover have "va_registered ?L Map.empty 1"
    by (auto simp: va_registered_def va_is_write_def O_RDONLY_def inj_on_def)
  ultimately show ?thesis by (simp add: va_inv_def va_start_def va_new_def va_get_directories_def Let_def)
qed

lemma va_reachable_inv: "va_reachable X a \<Longrightarrow> va_inv X a"
  by (induction rule: va_reachable.induct) (simp_all add: va_inv_start va_exec_inv)

end
