(* ===== verification/Vfs_Adapter_Props.thy ===== *)
theory Vfs_Adapter_Props
  imports Vfs_Adapter_Inv Write_Session Read_Session
begin

text \<open>
  What the adapter guarantees: a lease behind every live write descriptor, and a \<open>sync\<close> that returns only
  when the bytes of a stream are in the bucket.
\<close>

section \<open>Leases\<close>

text \<open>
  C14. The adapter never writes without the lease. With file locks, in every reachable state of the component the
  lease of a path has at least as many holders as there are live descriptors open for writing on it: streams,
  \<open>sync\<close>, the flush and poll that run with a write or a delete, failing opens and drops in any order and
  other clients of the bucket do not change that.
\<close>

theorem adapter_writers_hold_leases:
  assumes "va_reachable X a" and "file_lock (config X)" and "va_manager (ai_state a) = Some m"
  shows "card (va_writers (ai_live a) p) \<le> hold_count m p \<and>
    (d \<in> va_writers (ai_live a) p \<longrightarrow> is_locked m p \<and> va_descriptor_to_path (ai_state a) (vd_handle d) = Some p)"
proof -
  have i: "va_backed X (ai_live a) (va_manager (ai_state a))"
    "va_registered (ai_live a) (va_descriptor_to_path (ai_state a)) (va_next_descriptor (ai_state a))"
    using va_reachable_inv [OF assms(1)] by (simp_all add: va_inv_def)
  have cov: "lh.covered m (va_writers (ai_live a))" using i(1) assms(2,3) by (simp add: va_backed_def)
  have "is_locked m p" if "d \<in> va_writers (ai_live a) p"
    using lh.covered_held [OF cov that] by (auto simp: hold_count_def is_locked_get split: option.splits)
  with cov i(2) show ?thesis by (auto simp: lh.covered_def va_registered_def va_writers_def)
qed

section \<open>Writing and \<open>sync\<close>\<close>

text \<open>A stream with the state of the component; \<open>v0\<close> is the component when it was opened.\<close>

definition va_stream_step :: "unit \<Rightarrow> bytes \<Rightarrow> va_output \<times> 's vfs_state \<Rightarrow> (stream_error + unit) option \<times> va_output \<times> 's vfs_state" where
  "va_stream_step _ data s = (case va_stream_write data (fst s) (snd s) of (r, s') \<Rightarrow> (Some r, s'))"

definition va_took ::
  "nat \<Rightarrow> 's vfs_state \<Rightarrow> fd \<Rightarrow> string \<Rightarrow> u32 \<Rightarrow> afs \<Rightarrow> unit \<Rightarrow> va_output \<times> 's vfs_state \<Rightarrow> bytes \<Rightarrow> bool" where
  "va_took n v0 d p fl A _ s bs \<longleftrightarrow> access_mode fl \<noteq> O_RDONLY \<and> length bs < 2 ^ 63 \<and>
     (\<exists>pos. on_file n (va_fs (snd s)) d (path_comps p) fl pos A bs) \<and> snd s = v0\<lparr>va_fs := va_fs (snd s)\<rparr> \<and>
     vo_fd (fst s) = d \<and> vo_offset (fst s) = of_nat (length bs)"

interpretation vw: appending_stream va_stream_step "va_took n v0 d p fl A" "2 ^ 63" for n v0 d p fl A
proof
  fix w s and bs data :: bytes
  assume t: "va_took n v0 d p fl A w s bs" and len: "length bs + length data < 2 ^ 63"
  obtain st v where s: "s = (st, v)" by fastforce
  obtain pos where o: "access_mode fl \<noteq> O_RDONLY" "on_file n (va_fs v) d (path_comps p) fl pos A bs"
      "v = v0\<lparr>va_fs := va_fs v\<rparr>" "vo_fd st = d" "vo_offset st = of_nat (length bs)"
    using t by (auto simp: va_took_def s)
  have u: "unat (of_nat (length bs) :: u64) = length bs" using len by (simp add: unsigned_of_nat take_bit_nat_eq_self)
  then have "unat (of_nat (length bs) :: u64) < 2 ^ 63" using len by simp
  then obtain f1 where f1: "seek (va_fs v) d (ucast (of_nat (length bs) :: u64)) 0 = (Inr (of_nat (length bs)), f1)"
      "on_file n f1 d (path_comps p) fl (of_nat (length bs)) A bs"
    using on_file_seek [OF o(2)] by blast
  obtain f2 where f2: "fs_write f1 d data = (Inr (length data), f2)"
      "on_file n f2 d (path_comps p) fl (of_nat (length bs + length data)) A (bs @ data)"
    using on_file_write [OF f1(2) o(1) u] by blast
  define st' where "st' = st\<lparr>vo_offset := of_nat (length bs) + of_nat (length data), vo_dirty := True\<rparr>"
  have "va_stream_step w data s = (Some (Inr ()), st', v\<lparr>va_fs := f2\<rparr>)"
    using f1(1) f2(1) o(4,5) by (simp add: va_stream_step_def s va_stream_write_def va_seek_then_def va_local_def st'_def)
  moreover have "va_took n v0 d p fl A w (st', v\<lparr>va_fs := f2\<rparr>) (bs @ data)"
    unfolding va_took_def using o(1,4) f2(2) len arg_cong [OF o(3), of "\<lambda>v. v\<lparr>va_fs := f2\<rparr>"]
    by (auto simp: st'_def)
  ultimately show "\<exists>s'. va_stream_step w data s = (Some (Inr ()), s') \<and> va_took n v0 d p fl A w s' (bs @ data)" by blast
qed


text \<open>Opening a path below the descriptor \<open>self\<close> for writing with creation and truncation.\<close>

lemma va_open:
  assumes m: "va_manager v = Some m" and lock: "file_lock C" and p: "p = join_at_path (vd_path self) path"
    and sub: "path \<noteq> []" "path \<noteq> ''.''" "path \<noteq> ''/''"
    and run: "va_open_at k (mem_env t E C) get self path {OfCreate, OfTruncate} {DfRead, DfWrite} v = Some (Inr d, v1)"
  shows "\<exists>m1 fd f. on_open_write k (mem_env t E C) p (m\<lparr>m_fs := va_fs v\<rparr>) = Some (Inr (), m1) \<and>
    open_path_with_flags (m_fs m1) p replace_flags = (Inr fd, f) \<and> d = \<lparr>vd_handle = va_next_descriptor v, vd_path = p, vd_flags = replace_flags\<rparr> \<and>
    va_fs v1 = f \<and> va_manager v1 = Some m1 \<and> va_descriptor_to_fd v1 (vd_handle d) = Some fd \<and>
    va_descriptor_to_path v1 (vd_handle d) = Some p"
proof -
  have fl: "va_convert_flags {OfCreate, OfTruncate} {DfRead, DfWrite} = replace_flags"
    by (simp add: va_convert_flags_def flag_defs)
  have w: "va_is_write replace_flags" by (simp add: va_is_write_def flag_defs)
  obtain q m1 where o: "on_open_write k (mem_env t E C) p (m\<lparr>m_fs := va_fs v\<rparr>) = Some (q, m1)"
    using run sub m lock w by (auto simp: va_open_at_def p fl va_on_open_def mem_env_def Let_def split: option.splits)
  have q: "q = Inr ()"
    using run sub m lock w o by (cases q) (auto simp: va_open_at_def p fl va_on_open_def mem_env_def Let_def)
  show ?thesis
    using run sub m lock w o q
    by (auto simp: va_open_at_def p fl va_on_open_def mem_env_def Let_def va_local_def va_allocate_with_path_def
        va_allocate_descriptor_def split: prod.splits sum.splits)
qed

text \<open>
  C8. \<open>sync\<close> returns when the bytes are in the bucket. With file locks and a bucket whose requests do not fail, a
  component opens a path for writing with creation and truncation, writes any chunks to an output stream and
  calls \<open>sync\<close> on the descriptor while the stream is still open. Then \<open>sync\<close> succeeds, the object of the path
  holds exactly the chunks one after the other, and the lease is kept.
\<close>

theorem adapter_sync_stores:
  assumes "va_manager v = Some m" and "file_lock C" and "mem_calm (m_store m)"
    and "\<not> is_locked m p" and "Upload p \<notin> set (outbound_queue m)" and "va_next_descriptor v \<noteq> 0"
    and "p = join_at_path (vd_path self) path" and "path \<notin> {[], ''.'', ''/''}" and "path_comps p \<noteq> []"
    and "roomy (2 * length p + 4) (va_fs v)" and "length (concat chunks) < 2 ^ 63"
    and "va_open_at k (mem_env t E C) get self path {OfCreate, OfTruncate} {DfRead, DfWrite} v = Some (Inr d, v1)"
    and "va_write_via_stream 0 d v1 = Inr st"
    and "(st2, v2) = fold (\<lambda>data s. snd (va_stream_step () data s)) chunks (st, v1)"
    and "va_sync_op (mem_env t E C) d v2 = (r, v3)"
  shows "r = Inr () \<and> (\<exists>m3. va_manager v3 = Some m3 \<and> is_locked m3 p \<and>
    map_option fst (mem_view (m_store m3) (file_key p)) = Some (concat chunks))"
proof -
  let ?X = "mem_env t E C" and ?m = "m\<lparr>m_fs := va_fs v\<rparr>"
  have sub: "path \<noteq> []" "path \<noteq> ''.''" "path \<noteq> ''/''" using assms(8) by auto
  obtain m1 fd f where o: "on_open_write k ?X p ?m = Some (Inr (), m1)"
    "open_path_with_flags (m_fs m1) p replace_flags = (Inr fd, f)"
    "d = \<lparr>vd_handle = va_next_descriptor v, vd_path = p, vd_flags = replace_flags\<rparr>"
    "va_fs v1 = f" "va_manager v1 = Some m1" "va_descriptor_to_fd v1 (vd_handle d) = Some fd"
    "va_descriptor_to_path v1 (vd_handle d) = Some p"
    using va_open [OF assms(1,2,7) sub assms(12)] by (elim exE conjE) (rule that)
  have rm: "roomy (Suc (Suc (length p + 2)) + length p) (m_fs ?m)"
    using roomy_le [OF assms(10), of "Suc (Suc (length p + 2)) + length p"] by simp
  have m: "mem_calm (m_store ?m)" "\<not> is_locked ?m p" "Upload p \<notin> set (outbound_queue ?m)" "file_lock (config ?X)"
    using assms(2-5) by (simp_all add: is_locked_def mem_env_def)
  have "roomy (Suc (length p + 2)) (m_fs m1)" using sw.open_clean [OF o(1) m(4,2,3) rm] by blast
  note on = on_file_opened [OF this assms(9) o(2)]
  have "va_took (length p + 2) v1 fd p replace_flags (abs_fs (m_fs m1)) () (st, v1) []"
    using on o(4,6) assms(13) by (auto simp: va_took_def replace_flags_simps va_write_via_stream_def va_get_fd_def)
  from vw.chunks_taken [OF this, of chunks] assms(11)
  have "va_took (length p + 2) v1 fd p replace_flags (abs_fs (m_fs m1)) () (st2, v2) (concat chunks)"
    by (simp add: assms(14))
  then obtain pos where t: "on_file (length p + 2) (va_fs v2) fd (path_comps p) replace_flags pos (abs_fs (m_fs m1)) (concat chunks)"
    "v2 = v1\<lparr>va_fs := va_fs v2\<rparr>"
    by (auto simp: va_took_def)
  have v2: "va_manager v2 = Some m1" "va_descriptor_to_path v2 (vd_handle d) = Some p"
    using o(5,7) arg_cong [OF t(2), of va_manager] arg_cong [OF t(2), of va_descriptor_to_path] by simp_all
  obtain q m3 where fs: "on_fsync ?X p (enqueue_upload p (m1\<lparr>m_fs := va_fs v2\<rparr>)) = (q, m3)" by fastforce
  have w: "va_is_write (vd_flags d)" by (simp add: va_is_write_def o(3) flag_defs)
  have v3: "r = map_err va_map_sync_error q" "va_manager v3 = Some m3"
    using assms(6,15) v2 w fs o(3) by (auto simp: va_sync_op_def va_fsync_def va_on_fsync_def va_sync_def)
  have "file_at (va_fs v2) p = Some (concat chunks)" "roomy (length p + 2) (va_fs v2)"
    using t(1) assms(9) by (simp_all add: on_file_def file_at_def file_in_upd)
  then show ?thesis
    using session_synced [OF assms(2) m(1-3) rm o(1) fs] assms(11) v3 by simp
qed

section \<open>Reading\<close>

definition va_read_step ::
  "nat \<Rightarrow> ('s, fs) sync_env \<Rightarrow> env_lookup \<Rightarrow> u64 \<Rightarrow> va_input \<times> 's vfs_state \<Rightarrow>
   (stream_error + bytes) option \<times> va_input \<times> 's vfs_state" where
  "va_read_step W X get n s = (case va_stream_read W X get n (fst s) (snd s) of (r, s) \<Rightarrow> (Some r, s))"

definition va_skip_step :: "u64 \<Rightarrow> va_input \<times> 's vfs_state \<Rightarrow> va_input \<times> 's vfs_state" where
  "va_skip_step n s = (snd (va_stream_skip n (fst s)), snd s)"

definition va_reads_memory :: "env_lookup \<Rightarrow> 's vfs_state \<Rightarrow> bool" where
  "va_reads_memory get v \<longleftrightarrow> get ''VFS_READ_MODE'' \<noteq> Some ''s3'' \<or> va_manager v = None"

definition va_serves :: "env_lookup \<Rightarrow> bytes \<Rightarrow> nat \<Rightarrow> va_input \<times> 's vfs_state \<Rightarrow> bool" where
  "va_serves get bs pos s \<longleftrightarrow> va_reads_memory get (snd s) \<and> fs_wf (va_fs (snd s)) \<and> unat (vi_offset (fst s)) = pos \<and>
     (\<exists>fh stg. fd_file (va_fs (snd s)) (vi_fd (fst s)) = Some (fh, stg) \<and> access_mode (h_flags fh) \<noteq> O_WRONLY \<and>
        bs = take (readable stg) (contents stg))"

lemma va_reads_memory_hook: "va_reads_memory get v \<Longrightarrow> va_on_read X get p v = v"
  by (auto simp: va_reads_memory_def va_on_read_def split: option.split)

interpretation vr: plain_reader "va_read_step W X get" va_skip_step "va_serves get" "2 ^ 63" "2 ^ W" for W X get
proof
  fix bs pos and len :: u64 and s :: "va_input \<times> 'a vfs_state"
  assume s: "va_serves get bs pos s" and n: "0 < unat len" "unat len < 2 ^ W" "pos + unat len < 2 ^ 63"
  obtain st v where sv: "s = (st, v)" by fastforce
  define n where "n = unat len"
  have pos_len: "0 < len" using n(1) by (simp add: word_less_nat_alt)
  have len: "as_usize W len = n" using n(2) by (simp add: as_usize_def n_def)
  obtain fh stg where h: "va_reads_memory get v" "fs_wf (va_fs v)" "unat (vi_offset st) = pos"
    "fd_file (va_fs v) (vi_fd st) = Some (fh, stg)" "access_mode (h_flags fh) \<noteq> O_WRONLY" "bs = take (readable stg) (contents stg)"
    using s by (auto simp: va_serves_def sv)
  define k where "k = min n (readable stg - pos)"
  have "0 < n" using n(1) by (simp add: n_def)
  note tk = take_read(1) [OF h(6) k_def, of "drop k (replicate n 0)"] take_read(2) [OF h(6) k_def] take_read(3) [OF h(6) k_def this]
  define f1 f' where "f1 = set_position (va_fs v) (vi_fd st) (vi_offset st)" and "f' = set_position f1 (vi_fd st) (vi_offset st + of_nat k)"
  have sk: "seek (va_fs v) (vi_fd st) (ucast (vi_offset st)) 0 = (Inr (vi_offset st), f1)"
    using seek_set [OF h(4)] h(3) n(3) by (simp add: f1_def)
  have f1: "fs_wf f1" "fd_file f1 (vi_fd st) = Some (fh\<lparr>position := vi_offset st\<rparr>, stg)"
    using fs_wf_set_position [OF h(2)] fd_file_set_position [OF h(4)] by (simp_all add: f1_def)
  have r: "fs_read f1 (vi_fd st) (replicate n 0) =
      (Inr (k, take k (drop pos (contents stg)) @ drop k (replicate n 0)), f')"
    using read_with_ok [OF f1(1,2), of position "replicate n 0"] h(3,5)
    by (simp add: fs_read_def Let_def k_def f'_def)
  define st' where "st' = (if k = 0 then st\<lparr>vi_refreshed := True\<rparr>
      else st\<lparr>vi_refreshed := True, vi_offset := vi_offset st + of_nat k\<rparr>)"
  have hook: "(if vi_refreshed st then v else case vi_path st of Some p \<Rightarrow> va_on_read X get p v | None \<Rightarrow> v) = v"
    using va_reads_memory_hook [OF h(1)] by (simp split: option.split)
  have seek: "va_seek_then (vi_fd st) (vi_offset st) (\<lambda>f. fs_read f (vi_fd st) (replicate n 0)) v =
      (Inr (k, take k (drop pos (contents stg)) @ drop k (replicate n 0)), v\<lparr>va_fs := f'\<rparr>)"
    using sk r by (simp add: va_seek_then_def va_local_def)
  have "va_read_step W X get len s =
      (Some (if length bs \<le> pos then Inl Closed else Inr (take n (drop pos bs))), st', v\<lparr>va_fs := f'\<rparr>)"
    using pos_len tk
    by (simp add: va_read_step_def sv va_stream_read_def hook len seek st'_def Let_def del: length_take take_append)
  moreover have "unat (vi_offset st') = (if length bs \<le> pos then pos else pos + k)"
    using tk(3) h(3) n(3) unat_add_small [of "vi_offset st" k] by (auto simp: st'_def k_def n_def)
  moreover have "fd_file f' (vi_fd st) = Some (fh\<lparr>position := vi_offset st + of_nat k\<rparr>, stg)"
    using fd_file_set_position [OF f1(2)] by (simp add: f'_def)
  moreover have "fs_wf f'" using fs_wf_set_position [OF f1(1)] by (simp add: f'_def)
  moreover have "vi_fd st' = vi_fd st" by (simp add: st'_def)
  ultimately show "\<exists>s'. va_read_step W X get len s =
      (Some (if length bs \<le> pos then Inl Closed else Inr (take (unat len) (drop pos bs))), s') \<and>
    va_serves get bs (if length bs \<le> pos then pos else pos + length (take (unat len) (drop pos bs))) s'"
    using h(1,5,6) tk(2) by (auto simp: va_serves_def va_reads_memory_def n_def simp del: length_take)
next
  fix bs pos and len :: u64 and s :: "va_input \<times> 'a vfs_state"
  assume "va_serves get bs pos s" "pos + unat len < 2 ^ 63"
  then show "va_serves get bs (pos + unat len) (va_skip_step len s)"
    using unat_add_small [of "vi_offset (fst s)" "unat len"]
    by (auto simp: va_serves_def va_skip_step_def va_stream_skip_def)
qed


section \<open>Examples\<close>

text \<open>A component over an empty bucket, with the root directory open.\<close>

definition va_demo_env :: env_lookup where
  "va_demo_env k = (if k = ''VFS_S3_BUCKET'' then Some ''b'' else None)"

definition va_demo :: "mem_inner va_instance" where
  "va_demo = va_start demo_env va_demo_env None counter_new mem_new ''i'' \<lparr>readings = 0, slept = 0\<rparr>"

abbreviation va_root :: vfs_descriptor where
  "va_root \<equiv> \<lparr>vd_handle = 0, vd_path = ''/'', vd_flags = O_RDONLY\<rparr>"

lemma va_demo_facts:
  "va_reachable demo_env va_demo" "va_next_descriptor (ai_state va_demo) = 1"
  "va_fs (ai_state va_demo) = fs_new" "ai_live va_demo = {va_root}" "roomy 100 (va_fs (ai_state va_demo))"
  "\<exists>m. va_manager (ai_state va_demo) = Some m \<and> mem_calm (m_store m) \<and> mem_view (m_store m) = Map.empty \<and> leases m = [] \<and>
     outbound_queue m = []"
proof -
  show "va_reachable demo_env va_demo" unfolding va_demo_def by (rule va_started)
  show "va_next_descriptor (ai_state va_demo) = 1" "va_fs (ai_state va_demo) = fs_new" "ai_live va_demo = {va_root}"
    "\<exists>m. va_manager (ai_state va_demo) = Some m \<and> mem_calm (m_store m) \<and> mem_view (m_store m) = Map.empty \<and> leases m = [] \<and>
     outbound_queue m = []"
    by (simp_all add: va_demo_def va_start_def va_new_def va_get_directories_def init_s3_sync_def va_demo_env_def demo_env_def
        mem_env_def sm_new_def instant_now_def mem_calm_def mem_view_def mem_new_def fs_new_def Let_def fun_eq_iff split: prod.split)
  show "roomy 100 (va_fs (ai_state va_demo))"
    using fs_inv_new by (simp add: va_demo_def va_start_def va_new_def Let_def fs_new_def [symmetric]) (simp add: roomy_def fs_eval)
qed

lemma va_demo_open:
  obtains m v1 where "va_manager (ai_state va_demo) = Some m" "mem_calm (m_store m)" "\<not> is_locked m ''/f''"
    "Upload ''/f'' \<notin> set (outbound_queue m)"
    "va_open_at 1 (mem_env demo_tag demo_time (from_lookup (\<lambda>_. None))) va_demo_env va_root ''f'' {OfCreate, OfTruncate} {DfRead, DfWrite}
      (ai_state va_demo) = Some (Inr \<lparr>vd_handle = 1, vd_path = ''/f'', vd_flags = replace_flags\<rparr>, v1)"
proof -
  obtain m where m: "va_manager (ai_state va_demo) = Some m" "mem_calm (m_store m)" "mem_view (m_store m) = Map.empty" "leases m = []"
      "outbound_queue m = []"
    using va_demo_facts(6) by auto
  let ?m = "m\<lparr>m_fs := va_fs (ai_state va_demo)\<rparr>" and ?X = "mem_env demo_tag demo_time (from_lookup (\<lambda>_. None))"
  have l: "mem_calm (m_store ?m)" "mem_view (m_store ?m) = Map.empty" "\<not> is_locked ?m ''/f''" "Upload ''/f'' \<notin> set (outbound_queue ?m)"
    using m by (simp_all add: is_locked_get lt_get_def)
  have fl: "file_lock (config ?X)" using demo_config(2) by (simp add: demo_env_def)
  obtain m1 where o: "on_open_write (Suc 0) ?X ''/f'' ?m = Some (Inr (), m1)"
    using sw.open_free [OF _ _ _ fl l(3,4)] l(1,2) by auto
  have "roomy (Suc 0 + length ''/f'') (m_fs ?m)" using roomy_le [OF va_demo_facts(5)] by simp
  then have f1: "m_fs m1 = fs_new"
    using sw.open_clean [OF o fl l(3,4)] l(2) va_demo_facts(3) by simp
  obtain f where f: "open_path_with_flags (fs_new) ''/f'' replace_flags = (Inr 3, f)"
    by (simp add: fs_eval truncate_inode_def bs_truncate_def)
  have j: "join_at_path ''/'' ''f'' = ''/f''" by (simp add: join_at_path_def trim_start_matches_def)
  have cf: "va_convert_flags {OfCreate, OfTruncate} {DfRead, DfWrite} = replace_flags" by (simp add: va_convert_flags_def flag_defs)
  have w: "va_is_write replace_flags" by (simp add: va_is_write_def flag_defs)
  obtain v1 where "va_open_at 1 ?X va_demo_env va_root ''f'' {OfCreate, OfTruncate} {DfRead, DfWrite} (ai_state va_demo) =
      Some (Inr \<lparr>vd_handle = 1, vd_path = ''/f'', vd_flags = replace_flags\<rparr>, v1)"
    using o fl m(1) f f1 w va_demo_facts(2)
    by (simp add: va_open_at_def va_on_open_def j cf va_local_def va_allocate_with_path_def va_allocate_descriptor_def Let_def)
  moreover have "\<not> is_locked m ''/f''" using m(4) by (simp add: is_locked_get lt_get_def)
  ultimately show thesis using that m(1,2,5) by simp
qed

theorem adapter_writers_hold_leases_witness:
  "\<exists>(a :: mem_inner va_instance) m. va_manager (ai_state a) = Some m \<and> va_writers (ai_live a) ''/f'' \<noteq> {} \<and> is_locked m ''/f''"
proof -
  let ?d = "\<lparr>vd_handle = 1, vd_path = ''/f'', vd_flags = replace_flags\<rparr>"
  obtain m v1 where o: "va_manager (ai_state va_demo) = Some m"
    "va_open_at 1 (mem_env demo_tag demo_time (from_lookup (\<lambda>_. None))) va_demo_env va_root ''f'' {OfCreate, OfTruncate} {DfRead, DfWrite}
      (ai_state va_demo) = Some (Inr ?d, v1)"
    by (rule va_demo_open)
  define a where "a = va_demo\<lparr>ai_state := v1, ai_live := insert ?d (ai_live va_demo)\<rparr>"
  have "va_exec 1 64 demo_env va_demo_env id (VcOpenAt va_root ''f'' {OfCreate, OfTruncate} {DfRead, DfWrite}) va_demo = Some a"
    using o(2) va_demo_facts(2) by (simp add: va_exec_def a_def demo_env_def)
  then have r: "va_reachable demo_env a" by (rule va_step [OF va_demo_facts(1)])
  have w: "?d \<in> va_writers (ai_live a) ''/f''" by (simp add: a_def va_writers_def va_is_write_def flag_defs)
  have lk: "file_lock (from_lookup (\<lambda>_. None))" using demo_config(2) by (simp add: demo_env_def mem_env_def)
  obtain m1 where m1: "va_manager (ai_state a) = Some m1"
    using va_open [OF o(1) lk refl _ _ _ o(2)] by (auto simp: a_def)
  then show ?thesis using adapter_writers_hold_leases [OF r demo_config(2) m1, of "''/f''" ?d] w by blast
qed

theorem adapter_sync_stores_witness:
  "\<exists>(v :: mem_inner vfs_state) m. va_manager v = Some m \<and> is_locked m ''/f'' \<and>
    map_option fst (mem_view (m_store m) (file_key ''/f'')) = Some [1, 2, 3]"
proof -
  let ?d = "\<lparr>vd_handle = 1, vd_path = ''/f'', vd_flags = replace_flags\<rparr>" and ?X = "mem_env demo_tag demo_time (from_lookup (\<lambda>_. None))"
  obtain m v1 where o: "va_manager (ai_state va_demo) = Some m" "mem_calm (m_store m)" "\<not> is_locked m ''/f''"
    "Upload ''/f'' \<notin> set (outbound_queue m)"
    "va_open_at 1 ?X va_demo_env va_root ''f'' {OfCreate, OfTruncate} {DfRead, DfWrite} (ai_state va_demo) = Some (Inr ?d, v1)"
    by (rule va_demo_open)
  have lk: "file_lock (from_lookup (\<lambda>_. None))" using demo_config(2) by (simp add: demo_env_def mem_env_def)
  have st: "va_next_descriptor (ai_state va_demo) \<noteq> 0" "''/f'' = join_at_path (vd_path va_root) ''f''" "''f'' \<notin> {[], ''.'', ''/''}"
    "path_comps ''/f'' \<noteq> []" "roomy (2 * length ''/f'' + 4) (va_fs (ai_state va_demo))" "length (concat [[1, 2], [3 :: u8]]) < 2 ^ 63"
    using va_demo_facts(2) roomy_le [OF va_demo_facts(5)]
    by (simp_all add: join_at_path_def trim_start_matches_def fs_eval)
  obtain fd where "va_descriptor_to_fd v1 1 = Some fd"
    using va_open [OF o(1) lk st(2) _ _ _ o(5)] by auto
  then obtain stm where s: "va_write_via_stream 0 ?d v1 = Inr stm" by (simp add: va_write_via_stream_def va_get_fd_def)
  obtain st2 v2 where f: "(st2, v2) = fold (\<lambda>data s. snd (va_stream_step () data s)) [[1, 2], [3]] (stm, v1)" by (metis surj_pair)
  obtain r v3 where y: "va_sync_op ?X ?d v2 = (r, v3)" by fastforce
  show ?thesis using adapter_sync_stores [OF o(1) lk o(2-4) st(1-6) o(5) s f y] by auto
qed

text \<open>A file with five bytes, read in three steps with a skip.\<close>

definition va_reading :: "mem_inner vfs_state" where
  "va_reading = (ai_state va_demo)\<lparr>va_fs := sc_fs readable_server, va_descriptor_to_fd := [1 \<mapsto> 3]\<rparr>"


end
